(* ===== verification/Prelude.thy ===== *)
theory Prelude
  imports Main "HOL-Library.Word" "HOL-Library.Monad_Syntax"
begin

text \<open>
  What every component shares: the machine types of the firmware, the three byte-array
  helpers that the C++ sources repeat file by file (zero test, wipe, constant-time
  comparison), the saturating deadline that every time-limited object computes, and the
  big- and little-endian integer writers with their readers.

  A \<open>std::array\<close>, a \<open>std::vector<std::uint8_t>\<close>, a \<open>std::span\<close> and a \<open>std::string\<close>
  (whose bytes are UTF-8 code units) are all a list of bytes; the fixed length of an array
  is part of the well-formedness predicates. An object passed by reference or through an
  output pointer is a component of the result; the null-pointer guards on output pointers
  are not represented, since no call in the firmware passes a null pointer there.
\<close>

unbundle bit_operations_syntax

section \<open>Machine types\<close>

type_synonym byte = "8 word"
type_synonym u8 = "8 word"
type_synonym u16 = "16 word"
type_synonym u32 = "32 word"
type_synonym u64 = "64 word"
type_synonym bytes = "byte list"

abbreviation max_u64 :: u64 where "max_u64 \<equiv> 0xFFFFFFFFFFFFFFFF"
abbreviation max_u32 :: u32 where "max_u32 \<equiv> 0xFFFFFFFF"

named_theorems m5_simps \<open>unfolding rules of the components' small operations\<close>
lemma if_None_eq_Some: "((if p then None else x) = Some y) \<longleftrightarrow> \<not> p \<and> x = Some y"
  by simp

named_theorems codec_simps \<open>equations of the byte encoders and decoders\<close>

section \<open>Bytes of a word\<close>

lemma and_255: "(x :: 'a :: len word) AND 0xff = take_bit 8 x"
  by (simp add: take_bit_eq_mask mask_eq_exp_minus_1)

lemmas word_bits = bit_simps bit_imp_le_length

section \<open>The last element with a property\<close>

lemma takeWhile_until: "list_all (\<lambda>x. \<not> P x) xs \<Longrightarrow> P b \<Longrightarrow> takeWhile (\<lambda>x. \<not> P x) (xs @ b # ys) = xs"
  by (induction xs) auto

lemma last_split_unique:
  assumes "as @ b # xs = cs @ d # ys" and "P b" "P d"
    and "list_all (\<lambda>x. \<not> P x) xs" "list_all (\<lambda>x. \<not> P x) ys"
  shows "as = cs \<and> b = d \<and> xs = ys"
proof -
  have "rev xs @ b # rev as = rev ys @ d # rev cs"
    using arg_cong [OF assms(1), of rev] by simp
  then have "rev xs = rev ys"
    using takeWhile_until [of P "rev xs" b "rev as"] takeWhile_until [of P "rev ys" d "rev cs"] assms
    by (simp add: list_all_iff)
  with assms(1) show ?thesis by auto
qed

section \<open>Byte arrays\<close>

definition all_zero :: "bytes \<Rightarrow> bool" where
  "all_zero v = list_all (\<lambda>b. b = 0) v"

text \<open>The bytes of a string literal, without its terminating NUL.\<close>

definition ascii :: "string \<Rightarrow> bytes" where
  "ascii s = map of_char s"

definition zeros :: "nat \<Rightarrow> bytes" where
  "zeros n = replicate n 0"

definition wipe :: "bytes \<Rightarrow> bytes" where
  "wipe v = map (\<lambda>_. 0) v"

lemma all_zero_iff: "all_zero v \<longleftrightarrow> v = zeros (length v)"
  by (induction v) (auto simp: all_zero_def zeros_def)

lemma length_zeros [simp]: "length (zeros n) = n"
  by (simp add: zeros_def)

lemma all_zero_zeros [simp]: "all_zero (zeros n)"
  by (simp add: all_zero_iff)

lemma length_wipe [simp]: "length (wipe v) = length v"
  by (simp add: wipe_def)

lemma wipe_eq_zeros: "wipe v = zeros (length v)"
  by (simp add: wipe_def zeros_def map_replicate_const)

lemma all_zero_wipe [simp]: "all_zero (wipe v)"
  by (simp add: wipe_eq_zeros)

lemma all_zero_Nil [simp]: "all_zero []"
  by (simp add: all_zero_def)

subsection \<open>Constant-time comparison\<close>

text \<open>
  The loop of \<open>constant_time_equal\<close>: it never leaves early, it accumulates the XOR of every
  pair of bytes and looks at the accumulator once, at the end.
\<close>

fun ct_diff :: "byte \<Rightarrow> bytes \<Rightarrow> bytes \<Rightarrow> byte" where
  "ct_diff d (x # xs) (y # ys) = ct_diff (d OR (x XOR y)) xs ys"
| "ct_diff d _ _ = d"

definition constant_time_equal :: "bytes \<Rightarrow> bytes \<Rightarrow> bool" where
  "constant_time_equal left right =
     (if length left \<noteq> length right then False else ct_diff 0 left right = 0)"

lemma or_eq_zero_iff: "(a OR b = 0) \<longleftrightarrow> a = 0 \<and> b = (0 :: 'a :: len word)"
  by (auto simp: bit_eq_iff bit_simps)

lemma xor_eq_zero_iff: "(a XOR b = 0) \<longleftrightarrow> a = (b :: 'a :: len word)"
  by (auto simp: bit_eq_iff bit_simps)

lemma ct_diff_zero_iff:
  "length xs = length ys \<Longrightarrow> ct_diff d xs ys = 0 \<longleftrightarrow> d = 0 \<and> xs = ys"
  by (induction d xs ys rule: ct_diff.induct) (auto simp: or_eq_zero_iff xor_eq_zero_iff)

lemma constant_time_equal_iff [simp]: "constant_time_equal l r \<longleftrightarrow> l = r"
  by (auto simp: constant_time_equal_def ct_diff_zero_iff)

section \<open>Saturating deadlines\<close>

definition saturating_deadline :: "u64 \<Rightarrow> u64 \<Rightarrow> u64" where
  "saturating_deadline ttl now = (if now > max_u64 - ttl then max_u64 else now + ttl)"

lemma unat_u64_less: "unat (x :: u64) < 18446744073709551616"
  using unsigned_less [of x, where ?'a = nat] by simp

lemma unat_u32_less: "unat (x :: u32) < 4294967296"
  using unsigned_less [of x, where ?'a = nat] by simp

lemma unat_u16_less: "unat (x :: u16) < 65536"
  using unsigned_less [of x, where ?'a = nat] by simp

lemma unat_u8_less: "unat (x :: u8) < 256"
  using unsigned_less [of x, where ?'a = nat] by simp

lemma le_max_u64 [simp]: "(x :: u64) \<le> max_u64"
  using unat_u64_less [of x] by (simp add: word_le_nat_alt)

lemma unat_saturating_deadline:
  "unat (saturating_deadline ttl now) = min (2 ^ 64 - 1) (unat now + unat ttl)"
proof -
  have m: "unat (max_u64 - ttl) = 2 ^ 64 - 1 - unat ttl"
    by (simp add: unat_sub)
  have b: "unat now < 2 ^ 64" "unat ttl < 2 ^ 64"
    using unat_u64_less [of now] unat_u64_less [of ttl] by simp_all
  show ?thesis
  proof (cases "now > max_u64 - ttl")
    case True
    then have "2 ^ 64 - 1 - unat ttl < unat now" using m by (simp add: word_less_nat_alt)
    then show ?thesis using True by (simp add: saturating_deadline_def)
  next
    case False
    then have "unat now \<le> 2 ^ 64 - 1 - unat ttl" using m by (simp add: word_less_nat_alt)
    then have s: "unat now + unat ttl \<le> 2 ^ 64 - 1" using b by simp
    then have "unat (now + ttl) = unat now + unat ttl"
      by (intro unat_add_lem [THEN iffD1]) simp
    then show ?thesis using False s by (simp add: saturating_deadline_def)
  qed
qed

lemma saturating_deadline_ge: "now \<le> saturating_deadline ttl now"
  using unat_u64_less [of now] by (simp add: word_le_nat_alt unat_saturating_deadline)

lemma saturating_deadline_live:
  assumes "unat t < min (2 ^ 64 - 1) (unat now + unat ttl)"
  shows "t < saturating_deadline ttl now"
  using assms by (simp add: word_less_nat_alt unat_saturating_deadline)

lemma unat_plus_1: "x \<noteq> max_u64 \<Longrightarrow> unat (x + 1) = unat x + 1"
proof -
  assume "x \<noteq> max_u64"
  then have "unat x \<noteq> 18446744073709551615" by (simp add: word_unat_eq_iff)
  then have "unat x + 1 < 2 ^ 64" using unat_u64_less [of x] by simp
  then show ?thesis by (simp add: unat_word_ariths)
qed

lemma u8_slot_cases:
  fixes slot :: u8
  assumes "slot \<le> 1"
  obtains "slot = 0" | "slot = 1"
proof -
  have "unat slot = 0 \<or> unat slot = 1" using assms by (auto simp: word_le_nat_alt)
  then have "slot = 0 \<or> slot = 1" by (simp add: word_unat_eq_iff)
  then show thesis using that by blast
qed

lemma wipe_zeros [simp]: "wipe (zeros n) = zeros n"
  by (simp add: wipe_def zeros_def map_replicate_const)

end
