(* ===== verification/Codec.thy ===== *)
theory Codec
  imports Prelude
begin

text \<open>
  Byte encoders and the bounds-checked reader of the vault format
  (\<open>m5auth_vault/vault_format.cpp\<close>): big-endian integer writers, the \<open>Reader\<close> class with its
  input and offset, and the interface locale \<open>codec\<close> that says what it means for a decoder to
  invert an encoder. A decoder that satisfies it accepts exactly the encodings of the valid
  values, consumes exactly their bytes and never moves the offset past the input.
\<close>

section \<open>Integer writers\<close>

definition append_u16 :: "bytes \<Rightarrow> u16 \<Rightarrow> bytes" where
  "append_u16 output value =
     output @ [ucast (drop_bit 8 value AND 0xff), ucast (value AND 0xff)]"

definition append_u64 :: "bytes \<Rightarrow> u64 \<Rightarrow> bytes" where
  "append_u64 output value =
     output @ map (\<lambda>shift. ucast (drop_bit shift value AND 0xff)) [56, 48, 40, 32, 24, 16, 8, 0]"

definition be16 :: "u16 \<Rightarrow> bytes" where
  "be16 v = append_u16 [] v"

definition be64 :: "u64 \<Rightarrow> bytes" where
  "be64 v = append_u64 [] v"

definition be8 :: "u8 \<Rightarrow> bytes" where
  "be8 v = [v]"

lemma append_u16_be16 [codec_simps]: "append_u16 out v = out @ be16 v"
  by (simp add: append_u16_def be16_def)

lemma append_u64_be64 [codec_simps]: "append_u64 out v = out @ be64 v"
  by (simp add: append_u64_def be64_def)

lemma length_be8 [simp]: "length (be8 v) = 1"
  by (simp add: be8_def)

lemma length_be16 [simp]: "length (be16 v) = 2"
  by (simp add: be16_def append_u16_def)

lemma length_be64 [simp]: "length (be64 v) = 8"
  by (simp add: be64_def append_u64_def)

definition u16_of_be :: "byte \<Rightarrow> byte \<Rightarrow> u16" where
  "u16_of_be hi lo = push_bit 8 (ucast hi) OR ucast lo"

lemma u16_of_be_be16: "u16_of_be (ucast (drop_bit 8 v AND 0xff)) (ucast (v AND 0xff)) = v"
  unfolding u16_of_be_def and_255 by (rule bit_word_eqI) (auto simp: bit_simps)

lemma u16_of_be_bytes:
  "ucast (drop_bit 8 (u16_of_be hi lo) AND 0xff) = hi"
  "ucast (u16_of_be hi lo AND 0xff) = lo"
  unfolding u16_of_be_def and_255
  by (rule bit_word_eqI; auto simp: bit_simps dest: bit_imp_le_length)+

lemma be16_u16_of_be [simp]: "be16 (u16_of_be hi lo) = [hi, lo]"
  by (simp add: be16_def append_u16_def u16_of_be_bytes)

lemma be16_eq_iff: "be16 v = [hi, lo] \<longleftrightarrow> v = u16_of_be hi lo"
proof
  assume "be16 v = [hi, lo]"
  then show "v = u16_of_be hi lo"
    using u16_of_be_be16 [of v] by (simp add: be16_def append_u16_def)
qed simp

lemma be16_inj [simp]: "be16 v = be16 w \<longleftrightarrow> v = w"
  by (metis be16_eq_iff be16_u16_of_be u16_of_be_be16)

lemma be64_inj [simp]: "be64 v = be64 w \<longleftrightarrow> v = w"
proof
  assume "be64 v = be64 w"
  then have "ucast (drop_bit k v AND 0xff) = (ucast (drop_bit k w AND 0xff) :: byte)"
    if "k \<in> {0, 8, 16, 24, 32, 40, 48, 56}" for k
    using that by (auto simp: be64_def append_u64_def)
  then have k: "bit v (k + n) \<longleftrightarrow> bit w (k + n)" if "k \<in> {0, 8, 16, 24, 32, 40, 48, 56}" "n < 8" for k n
  proof -
    from that have "bit (ucast (drop_bit k v AND 0xff) :: byte) n \<longleftrightarrow>
        bit (ucast (drop_bit k w AND 0xff) :: byte) n"
      using \<open>\<And>k. k \<in> _ \<Longrightarrow> _\<close> by simp
    then show ?thesis using that(2) unfolding and_255 by (auto simp: bit_simps dest: bit_imp_le_length)
  qed
  show "v = w"
  proof (rule bit_word_eqI)
    fix n assume n: "n < LENGTH(64)"
    have "n = 8 * (n div 8) + n mod 8" "n mod 8 < 8" by simp_all
    moreover have "8 * (n div 8) \<in> {0, 8, 16, 24, 32, 40, 48, 56}"
    proof -
      have "n div 8 < 8" using n by simp
      then have "n div 8 \<in> {0, 1, 2, 3, 4, 5, 6, 7}" by auto
      then show ?thesis by auto
    qed
    ultimately show "bit v n \<longleftrightarrow> bit w n" using k by metis
  qed
qed simp

section \<open>The reader\<close>

record reader =
  rd_input :: bytes
  rd_offset :: nat

definition mk_reader :: "bytes \<Rightarrow> reader" where
  "mk_reader input = \<lparr>rd_input = input, rd_offset = 0\<rparr>"

definition read_bytes :: "nat \<Rightarrow> reader \<Rightarrow> (bytes \<times> reader) option" where
  "read_bytes len r =
     (if rd_offset r > length (rd_input r) \<or> len > length (rd_input r) - rd_offset r then None
      else Some (take len (drop (rd_offset r) (rd_input r)), r\<lparr>rd_offset := rd_offset r + len\<rparr>))"

definition read_u8 :: "reader \<Rightarrow> (u8 \<times> reader) option" where
  "read_u8 r = do { (bs, r) \<leftarrow> read_bytes 1 r; Some (bs ! 0, r) }"

definition read_u16 :: "reader \<Rightarrow> (u16 \<times> reader) option" where
  "read_u16 r = do { (bs, r) \<leftarrow> read_bytes 2 r; Some (u16_of_be (bs ! 0) (bs ! 1), r) }"

definition read_sized_bytes :: "nat \<Rightarrow> reader \<Rightarrow> (bytes \<times> reader) option" where
  "read_sized_bytes maximum r = do {
     (len, r) \<leftarrow> read_u16 r;
     (if rd_offset r > length (rd_input r) \<or> unat len > maximum \<or>
         unat len > length (rd_input r) - rd_offset r then None
      else Some (take (unat len) (drop (rd_offset r) (rd_input r)),
                 r\<lparr>rd_offset := rd_offset r + unat len\<rparr>)) }"

definition at_end :: "reader \<Rightarrow> bool" where
  "at_end r \<longleftrightarrow> rd_offset r = length (rd_input r)"

text \<open>
  \<open>unread\<close> is what the reader has still to deliver; \<open>reads r e r'\<close> says that going from \<open>r\<close>
  to \<open>r'\<close> consumes exactly the bytes \<open>e\<close>. Both presuppose \<open>reader_ok\<close>, the class invariant
  that the offset is inside the input.
\<close>

definition reader_ok :: "reader \<Rightarrow> bool" where
  "reader_ok r \<longleftrightarrow> rd_offset r \<le> length (rd_input r)"

definition unread :: "reader \<Rightarrow> bytes" where
  "unread r = drop (rd_offset r) (rd_input r)"

definition reads :: "reader \<Rightarrow> bytes \<Rightarrow> reader \<Rightarrow> bool" where
  "reads r e r' \<longleftrightarrow> reader_ok r \<and> take (length e) (unread r) = e \<and>
     r' = r\<lparr>rd_offset := rd_offset r + length e\<rparr>"

lemma reader_ok_mk [simp]: "reader_ok (mk_reader input)"
  by (simp add: reader_ok_def mk_reader_def)

lemma unread_mk [simp]: "unread (mk_reader input) = input"
  by (simp add: unread_def mk_reader_def)

lemma at_end_iff: "reader_ok r \<Longrightarrow> at_end r \<longleftrightarrow> unread r = []"
  by (auto simp: at_end_def unread_def reader_ok_def)

lemma reads_unread:
  assumes "reads r e r'"
  shows "unread r = e @ unread r'"
proof -
  have "unread r = take (length e) (unread r) @ drop (length e) (unread r)" by simp
  then show ?thesis using assms by (simp add: reads_def unread_def add.commute)
qed

lemma take_eq_length_le: "take (length e) xs = e \<Longrightarrow> length e \<le> length xs"
  by (metis length_take min.cobounded1)

lemma reads_ok:
  assumes "reads r e r'"
  shows "reader_ok r" and "reader_ok r'" and "rd_input r' = rd_input r"
  using assms take_eq_length_le [of e "unread r"]
  by (auto simp: reads_def reader_ok_def unread_def)

lemma reads_Nil [simp]: "reads r [] r' \<longleftrightarrow> reader_ok r \<and> r' = r"
  by (auto simp: reads_def)

lemma reads_append: "reads r (e1 @ e2) r' \<longleftrightarrow> (\<exists>r1. reads r e1 r1 \<and> reads r1 e2 r')"
proof
  assume l: "reads r (e1 @ e2) r'"
  let ?r1 = "r\<lparr>rd_offset := rd_offset r + length e1\<rparr>"
  have u: "unread r = e1 @ e2 @ unread r'" using reads_unread [OF l] by simp
  have 1: "reads r e1 ?r1" using l u by (simp add: reads_def)
  have "unread ?r1 = e2 @ unread r'" using reads_unread [OF 1] u by simp
  then have "reads ?r1 e2 r'"
    using l reads_ok [OF 1] by (simp add: reads_def add.assoc)
  with 1 show "\<exists>r1. reads r e1 r1 \<and> reads r1 e2 r'" by blast
next
  assume "\<exists>r1. reads r e1 r1 \<and> reads r1 e2 r'"
  then obtain r1 where 1: "reads r e1 r1" and 2: "reads r1 e2 r'" by blast
  have "unread r = e1 @ e2 @ unread r'" using reads_unread [OF 1] reads_unread [OF 2] by simp
  then show "reads r (e1 @ e2) r'" using 1 2 by (simp add: reads_def add.assoc)
qed

lemma reads_det: "reads r e r1 \<Longrightarrow> reads r e r2 \<Longrightarrow> r1 = r2"
  by (simp add: reads_def)

lemma reads_same_length:
  "reads r e1 r1 \<Longrightarrow> reads r e2 r2 \<Longrightarrow> length e1 = length e2 \<Longrightarrow> e1 = e2"
  by (simp add: reads_def)

lemma reads_ex:
  assumes "reader_ok r" and "unread r = e @ rest"
  shows "\<exists>r'. reads r e r' \<and> unread r' = rest"
proof -
  have "reads r e (r\<lparr>rd_offset := rd_offset r + length e\<rparr>)" (is "reads r e ?r'")
    using assms by (simp add: reads_def)
  moreover from reads_unread [OF this] assms have "unread ?r' = rest" by simp
  ultimately show ?thesis by blast
qed

lemma reads_all: "reads (mk_reader e) e r' \<Longrightarrow> at_end r'"
  by (auto simp: reads_def at_end_def mk_reader_def)

lemma reads_whole: "(\<exists>r'. reads (mk_reader input) e r' \<and> at_end r') \<longleftrightarrow> input = e"
proof
  assume "\<exists>r'. reads (mk_reader input) e r' \<and> at_end r'"
  then obtain r' where r: "reads (mk_reader input) e r'" "at_end r'" by blast
  then show "input = e" using reads_unread [OF r(1)] reads_ok(2) [OF r(1)] by (simp add: at_end_iff)
next
  assume "input = e"
  moreover from this obtain r' where "reads (mk_reader input) e r'"
    using reads_ex [of "mk_reader input" e "[]"] by auto
  ultimately show "\<exists>r'. reads (mk_reader input) e r' \<and> at_end r'" using reads_all by blast
qed

text \<open>
  The relation in functional form: which bytes come next, and where the reader stands after
  them. Its equations turn a chain of decoding steps into one comparison of bytes.
\<close>

definition matches :: "reader \<Rightarrow> bytes \<Rightarrow> bool" where
  "matches r e \<longleftrightarrow> reader_ok r \<and> take (length e) (unread r) = e"

definition advance :: "nat \<Rightarrow> reader \<Rightarrow> reader" where
  "advance n r = r\<lparr>rd_offset := rd_offset r + n\<rparr>"

lemma reads_conv: "reads r e r' \<longleftrightarrow> matches r e \<and> r' = advance (length e) r"
  by (simp add: reads_def matches_def advance_def)

lemma matches_append:
  "matches r (e1 @ e2) \<longleftrightarrow> matches r e1 \<and> matches (advance (length e1) r) e2"
  using reads_append [of r e1 e2 "advance (length e1 + length e2) r"]
  by (simp add: reads_conv) (simp add: advance_def add.assoc)

lemma advance_advance [simp]: "advance m (advance n r) = advance (n + m) r"
  by (simp add: advance_def add.assoc)

lemmas reads_simps = reads_conv matches_append

section \<open>The codec interface\<close>

locale codec =
  fixes enc :: "'a \<Rightarrow> bytes"
    and dec :: "reader \<Rightarrow> ('a \<times> reader) option"
    and ok :: "'a \<Rightarrow> bool"
  assumes dec_iff: "dec r = Some (x, r') \<longleftrightarrow> ok x \<and> reads r (enc x) r'"
begin

lemma dec_enc:
  assumes "reader_ok r" and "ok x" and "unread r = enc x @ rest"
  shows "\<exists>r'. dec r = Some (x, r') \<and> unread r' = rest \<and> reader_ok r'"
  using reads_ex [OF assms(1,3)] assms(1,2) dec_iff reads_ok(2) by blast

lemma dec_bounds:
  assumes "dec r = Some (x, r')"
  shows "reader_ok r' \<and> rd_input r' = rd_input r \<and> rd_offset r' = rd_offset r + length (enc x)"
  using assms reads_ok [of r "enc x" r'] by (auto simp: dec_iff) (simp add: reads_def)

lemma enc_prefix_inj:
  assumes "ok x" and "ok y" and "enc x @ p = enc y @ q"
  shows "x = y \<and> p = q"
proof -
  from dec_enc [of "mk_reader (enc x @ p)" x p] assms(1)
  obtain r1 where 1: "dec (mk_reader (enc x @ p)) = Some (x, r1)" "unread r1 = p" by auto
  from dec_enc [of "mk_reader (enc y @ q)" y q] assms(2)
  obtain r2 where 2: "dec (mk_reader (enc y @ q)) = Some (y, r2)" "unread r2 = q" by auto
  from 1 2 assms(3) show ?thesis by simp
qed

end

section \<open>The leaf codecs\<close>

lemma read_bytes_iff:
  "read_bytes n r = Some (x, r') \<longleftrightarrow> length x = n \<and> reads r x r'"
  unfolding read_bytes_def reads_def reader_ok_def unread_def
  by (auto simp: min_def dest: sym [of _ "length x"])

interpretation raw: codec "\<lambda>x. x" "read_bytes n" "\<lambda>x. length x = n" for n
  by unfold_locales (rule read_bytes_iff)

lemma length_1_conv: "length x = Suc 0 \<longleftrightarrow> (\<exists>a. x = [a])"
  by (cases x) auto

lemma length_2_conv: "length x = 2 \<longleftrightarrow> (\<exists>a b. x = [a, b])"
  by (auto simp: length_Suc_conv numeral_2_eq_2)

interpretation byte: codec be8 read_u8 "\<lambda>_. True"
  by unfold_locales
    (auto simp: be8_def read_u8_def bind_eq_Some_conv raw.dec_iff length_1_conv)

interpretation u16: codec be16 read_u16 "\<lambda>_. True"
proof
  fix r x r'
  show "read_u16 r = Some (x, r') \<longleftrightarrow> True \<and> reads r (be16 x) r'"
  proof
    assume "read_u16 r = Some (x, r')"
    then show "True \<and> reads r (be16 x) r'"
      by (auto simp: read_u16_def bind_eq_Some_conv raw.dec_iff length_2_conv)
  next
    assume "True \<and> reads r (be16 x) r'"
    then have "read_bytes 2 r = Some (be16 x, r')" by (simp add: raw.dec_iff)
    moreover have "u16_of_be (be16 x ! 0) (be16 x ! 1) = x"
      using u16_of_be_be16 [of x] by (simp add: be16_def append_u16_def)
    ultimately show "read_u16 r = Some (x, r')" by (simp add: read_u16_def)
  qed
qed

text \<open>A length-prefixed field: the length in two bytes, then that many bytes.\<close>

definition sized :: "bytes \<Rightarrow> bytes" where
  "sized x = be16 (of_nat (length x)) @ x"

lemma read_sized_bytes_alt:
  "read_sized_bytes m r = do {
     (len, r) \<leftarrow> read_u16 r;
     (if unat len > m then None else read_bytes (unat len) r) }"
  unfolding read_sized_bytes_def read_bytes_def
  by (intro arg_cong [where f = "Option.bind (read_u16 r)"] ext) (simp split: prod.splits)

lemma unat_of_nat_u16: "n \<le> 65535 \<Longrightarrow> unat (of_nat n :: u16) = n"
  by (simp add: unat_of_nat)

interpretation sized: codec sized "read_sized_bytes m" "\<lambda>x. length x \<le> m \<and> length x \<le> 65535" for m
proof
  fix m r x r'
  have "read_sized_bytes m r = Some (x, r') \<longleftrightarrow>
      (\<exists>len r1. reads r (be16 len) r1 \<and> unat len \<le> m \<and> length x = unat len \<and> reads r1 x r')"
    by (auto simp: read_sized_bytes_alt bind_eq_Some_conv u16.dec_iff not_less raw.dec_iff)
  also have "\<dots> \<longleftrightarrow> (length x \<le> m \<and> length x \<le> 65535) \<and> reads r (sized x) r'" (is "?l \<longleftrightarrow> ?r")
  proof
    assume ?l
    then obtain len r1 where l: "reads r (be16 len) r1" "unat len \<le> m" "length x = unat len"
      "reads r1 x r'" by blast
    then have "of_nat (length x) = len" by simp
    with l unat_u16_less [of len] show ?r by (auto simp: sized_def reads_append)
  next
    assume a: ?r
    then obtain r1 where "reads r (be16 (of_nat (length x))) r1" "reads r1 x r'"
      by (auto simp: sized_def reads_append)
    with a show ?l by (intro exI [of _ "of_nat (length x)"] exI [of _ r1]) (simp add: unat_of_nat_u16)
  qed
  finally show "read_sized_bytes m r = Some (x, r') \<longleftrightarrow>
      (length x \<le> m \<and> length x \<le> 65535) \<and> reads r (sized x) r'" .
qed

end
