(* ===== verification/Utf8.thy ===== *)
theory Utf8
  imports Prelude
begin

text \<open>
  The UTF-8 validator of the vault format (\<open>is_valid_utf8\<close> in \<open>vault_format.cpp\<close>) and its
  specification: it accepts exactly the concatenations of the RFC 3629 encodings of Unicode
  scalar values. The C++ loop keeps an index into the text; here the argument is the suffix
  at that index, so \<open>index >= text.size()\<close> is the empty suffix.
\<close>

section \<open>The validator\<close>

definition is_continuation :: "byte \<Rightarrow> bool" where
  "is_continuation b \<longleftrightarrow> b AND 0xc0 = 0x80"

fun is_valid_utf8 :: "bytes \<Rightarrow> bool" where
  "is_valid_utf8 [] = True"
| "is_valid_utf8 (first # rest) =
     (if first \<le> 0x7f then is_valid_utf8 rest
      else if 0xc2 \<le> first \<and> first \<le> 0xdf then
        (case rest of
           [] \<Rightarrow> False
         | second # rest' \<Rightarrow> if \<not> is_continuation second then False else is_valid_utf8 rest')
      else if 0xe0 \<le> first \<and> first \<le> 0xef then
        (case rest of
           second # third # rest' \<Rightarrow>
             if \<not> is_continuation third then False
             else if first = 0xe0 then
               (if second < 0xa0 \<or> second > 0xbf then False else is_valid_utf8 rest')
             else if first = 0xed then
               (if second < 0x80 \<or> second > 0x9f then False else is_valid_utf8 rest')
             else if \<not> is_continuation second then False
             else is_valid_utf8 rest'
         | _ \<Rightarrow> False)
      else if 0xf0 \<le> first \<and> first \<le> 0xf4 then
        (case rest of
           second # third # fourth # rest' \<Rightarrow>
             if \<not> is_continuation third \<or> \<not> is_continuation fourth then False
             else if first = 0xf0 then
               (if second < 0x90 \<or> second > 0xbf then False else is_valid_utf8 rest')
             else if first = 0xf4 then
               (if second < 0x80 \<or> second > 0x8f then False else is_valid_utf8 rest')
             else if \<not> is_continuation second then False
             else is_valid_utf8 rest'
         | _ \<Rightarrow> False)
      else False)"

section \<open>Specification: encodings of scalar values\<close>

definition scalar_value :: "nat \<Rightarrow> bool" where
  "scalar_value c \<longleftrightarrow> c < 0xD800 \<or> (0xE000 \<le> c \<and> c < 0x110000)"

definition utf8_encode :: "nat \<Rightarrow> bytes" where
  "utf8_encode c = map of_nat
     (if c < 0x80 then [c]
      else if c < 0x800 then [0xC0 + c div 64, 0x80 + c mod 64]
      else if c < 0x10000 then [0xE0 + c div 4096, 0x80 + c div 64 mod 64, 0x80 + c mod 64]
      else [0xF0 + c div 262144, 0x80 + c div 4096 mod 64, 0x80 + c div 64 mod 64, 0x80 + c mod 64])"

lemma is_continuation_iff: "is_continuation b \<longleftrightarrow> 128 \<le> unat b \<and> unat b < 192"
proof -
  have c0: "(0xc0 :: byte) = push_bit 6 (mask 2)" by (simp add: mask_eq_exp_minus_1)
  have "b AND 0xc0 = push_bit 6 (drop_bit 6 b)"
    unfolding c0 by (rule bit_word_eqI) (auto simp: bit_simps)
  then have "unat (b AND 0xc0) = 64 * (unat b div 64)"
    using unat_u8_less [of b]
    by (simp add: push_bit_eq_mult drop_bit_eq_div unat_word_ariths unat_div)
  then have "is_continuation b \<longleftrightarrow> 64 * (unat b div 64) = 128"
    by (simp add: is_continuation_def word_unat_eq_iff)
  moreover have "64 * (unat b div 64) = 128 \<longleftrightarrow> unat b div 64 = 2" by simp
  moreover have "unat b div 64 = 2 \<longleftrightarrow> 128 \<le> unat b \<and> unat b < 192"
    by (intro iffI conjI div_nat_eqI) simp_all
  ultimately show ?thesis by simp
qed

lemma unat_of_nat_byte: "n < 256 \<Longrightarrow> unat (of_nat n :: byte) = n"
  by (simp add: unat_of_nat)

lemma byte_eqI: "n < 256 \<Longrightarrow> unat b = n \<Longrightarrow> of_nat n = (b :: byte)"
  by (metis of_nat_unat ucast_id)

lemma byte_eq_iff: "(b :: byte) = c \<longleftrightarrow> unat b = unat c"
  by (simp add: word_unat_eq_iff)

lemmas byte_arith = word_le_nat_alt word_less_nat_alt byte_eq_iff is_continuation_iff unat_of_nat_byte

text \<open>The loop's four kinds of step, on the numeric values of the bytes.\<close>

lemma valid_utf8_1: "unat f < 128 \<Longrightarrow> is_valid_utf8 (f # rest) = is_valid_utf8 rest"
  by (simp add: byte_arith)

lemma valid_utf8_2:
  "194 \<le> unat f \<Longrightarrow> unat f < 224 \<Longrightarrow> 128 \<le> unat s \<Longrightarrow> unat s < 192 \<Longrightarrow>
   is_valid_utf8 (f # s # rest) = is_valid_utf8 rest"
  by (simp add: byte_arith)

lemma valid_utf8_3:
  "224 \<le> unat f \<Longrightarrow> unat f < 240 \<Longrightarrow> 128 \<le> unat s \<Longrightarrow> unat s < 192 \<Longrightarrow>
   128 \<le> unat t \<Longrightarrow> unat t < 192 \<Longrightarrow>
   (unat f = 224 \<longrightarrow> 160 \<le> unat s) \<Longrightarrow> (unat f = 237 \<longrightarrow> unat s < 160) \<Longrightarrow>
   is_valid_utf8 (f # s # t # rest) = is_valid_utf8 rest"
  by (auto simp: byte_arith)

lemma valid_utf8_4:
  "240 \<le> unat f \<Longrightarrow> unat f < 245 \<Longrightarrow> 128 \<le> unat s \<Longrightarrow> unat s < 192 \<Longrightarrow>
   128 \<le> unat t \<Longrightarrow> unat t < 192 \<Longrightarrow> 128 \<le> unat u \<Longrightarrow> unat u < 192 \<Longrightarrow>
   (unat f = 240 \<longrightarrow> 144 \<le> unat s) \<Longrightarrow> (unat f = 244 \<longrightarrow> unat s < 144) \<Longrightarrow>
   is_valid_utf8 (f # s # t # u # rest) = is_valid_utf8 rest"
  by (auto simp: byte_arith)

text \<open>Conversely, a nonempty valid text starts with one of these four shapes.\<close>

lemma valid_utf8_cases:
  assumes "is_valid_utf8 (f # rest)"
  obtains
    (one) "unat f < 128" "is_valid_utf8 rest"
  | (two) s r where "rest = s # r" "194 \<le> unat f" "unat f < 224" "128 \<le> unat s" "unat s < 192"
      "is_valid_utf8 r"
  | (three) s t r where "rest = s # t # r" "224 \<le> unat f" "unat f < 240" "128 \<le> unat s"
      "unat s < 192" "128 \<le> unat t" "unat t < 192" "unat f = 224 \<longrightarrow> 160 \<le> unat s"
      "unat f = 237 \<longrightarrow> unat s < 160" "is_valid_utf8 r"
  | (four) s t u r where "rest = s # t # u # r" "240 \<le> unat f" "unat f < 245" "128 \<le> unat s"
      "unat s < 192" "128 \<le> unat t" "unat t < 192" "128 \<le> unat u" "unat u < 192"
      "unat f = 240 \<longrightarrow> 144 \<le> unat s" "unat f = 244 \<longrightarrow> unat s < 144" "is_valid_utf8 r"
proof -
  consider "unat f < 128" | "194 \<le> unat f" "unat f < 224" | "224 \<le> unat f" "unat f < 240"
    | "240 \<le> unat f" "unat f < 245"
    using assms by (simp add: byte_arith split: if_splits)
  then show ?thesis
  proof cases
    case 1
    with assms show ?thesis by (intro one) (simp_all add: byte_arith)
  next
    case 2
    then have f: "\<not> f \<le> 0x7f" "0xc2 \<le> f" "f \<le> 0xdf" by (simp_all add: byte_arith)
    obtain s r where r: "rest = s # r" using assms f by (cases rest) auto
    have "is_continuation s" "is_valid_utf8 r"
      using assms f unfolding r by (simp_all split: if_splits)
    with 2 r show ?thesis by (intro two) (auto simp: is_continuation_iff)
  next
    case 3
    then have f: "\<not> f \<le> 0x7f" "\<not> f \<le> 0xdf" "0xe0 \<le> f" "f \<le> 0xef" by (simp_all add: byte_arith)
    obtain s t r where r: "rest = s # t # r"
      using assms f by (cases rest; cases "tl rest") auto
    have v: "is_continuation t" "is_valid_utf8 r"
      using assms f unfolding r by (simp_all split: if_splits)
    have "if f = 0xe0 then 0xa0 \<le> s \<and> s \<le> 0xbf else if f = 0xed then 0x80 \<le> s \<and> s \<le> 0x9f
        else is_continuation s"
      using assms f unfolding r by (simp split: if_splits add: not_less)
    with v 3 r show ?thesis by (intro three [of s t r]) (auto simp: byte_arith split: if_splits)
  next
    case 4
    then have f: "\<not> f \<le> 0x7f" "\<not> f \<le> 0xdf" "\<not> f \<le> 0xef" "0xf0 \<le> f" "f \<le> 0xf4"
      by (simp_all add: byte_arith)
    obtain s t u r where r: "rest = s # t # u # r"
      using assms f by (cases rest; cases "tl rest"; cases "tl (tl rest)") auto
    have v: "is_continuation t" "is_continuation u" "is_valid_utf8 r"
      using assms f unfolding r by (simp_all split: if_splits)
    have "if f = 0xf0 then 0x90 \<le> s \<and> s \<le> 0xbf else if f = 0xf4 then 0x80 \<le> s \<and> s \<le> 0x8f
        else is_continuation s"
      using assms f unfolding r by (simp split: if_splits add: not_less)
    with v 4 r show ?thesis by (intro four [of s t u r]) (auto simp: byte_arith split: if_splits)
  qed
qed

section \<open>Correctness\<close>

lemma of_nat_bytes_conv:
  "list_all (\<lambda>n. n < 256) ns \<Longrightarrow> map of_nat ns = bs \<longleftrightarrow> ns = map unat (bs :: bytes)"
proof (induction ns arbitrary: bs)
  case (Cons n ns)
  have "of_nat n = b \<longleftrightarrow> n = unat (b :: byte)" for b
    using Cons.prems byte_eqI [of n b] unat_of_nat_byte [of n] by auto
  with Cons show ?case by (cases bs) auto
qed auto

lemma utf8_encode_eq_iff:
  assumes "c < 0x110000"
  shows "utf8_encode c = bs \<longleftrightarrow> map unat bs =
     (if c < 0x80 then [c]
      else if c < 0x800 then [0xC0 + c div 64, 0x80 + c mod 64]
      else if c < 0x10000 then [0xE0 + c div 4096, 0x80 + c div 64 mod 64, 0x80 + c mod 64]
      else [0xF0 + c div 262144, 0x80 + c div 4096 mod 64, 0x80 + c div 64 mod 64, 0x80 + c mod 64])"
    (is "_ \<longleftrightarrow> _ = ?ns")
proof -
  have "list_all (\<lambda>n. n < 256) ?ns" using assms by auto
  then show ?thesis unfolding utf8_encode_def by (auto simp only: of_nat_bytes_conv)
qed

lemma scalar_value_less: "scalar_value c \<Longrightarrow> c < 0x110000"
  by (auto simp: scalar_value_def)

lemma div_4096: "(c :: nat) div 4096 = c div 64 div 64" "c div 262144 = c div 64 div 64 div 64"
  by (simp_all flip: div_mult2_eq)

lemma valid_utf8_encode_append:
  assumes "scalar_value c"
  shows "is_valid_utf8 (utf8_encode c @ rest) = is_valid_utf8 rest"
proof -
  define bs where "bs = utf8_encode c"
  have m: "map unat bs =
     (if c < 0x80 then [c]
      else if c < 0x800 then [0xC0 + c div 64, 0x80 + c mod 64]
      else if c < 0x10000 then [0xE0 + c div 4096, 0x80 + c div 64 mod 64, 0x80 + c mod 64]
      else [0xF0 + c div 262144, 0x80 + c div 4096 mod 64, 0x80 + c div 64 mod 64, 0x80 + c mod 64])"
    using utf8_encode_eq_iff [OF scalar_value_less [OF assms], of bs] by (simp add: bs_def)
  have s: "c < 0xD800 \<or> (0xE000 \<le> c \<and> c < 0x110000)"
    using assms by (simp add: scalar_value_def)
  consider "c < 0x80" | "0x80 \<le> c" "c < 0x800" | "0x800 \<le> c" "c < 0x10000" | "0x10000 \<le> c"
    by linarith
  then have "is_valid_utf8 (bs @ rest) = is_valid_utf8 rest"
  proof cases
    case 1
    then obtain f where "bs = [f]" "unat f = c" using m by auto
    with 1 show ?thesis by (simp add: valid_utf8_1 del: is_valid_utf8.simps)
  next
    case 2
    then obtain f g where b: "bs = [f, g]" "unat f = 0xC0 + c div 64" "unat g = 0x80 + c mod 64"
      using m by (auto simp: Cons_eq_map_conv [THEN eq_commute [THEN iffD1]] map_eq_Cons_conv)
    show ?thesis unfolding b(1) append_Cons append_Nil
      by (rule valid_utf8_2) (use 2 b in auto)
  next
    case 3
    then obtain f g h where b: "bs = [f, g, h]" "unat f = 0xE0 + c div 4096"
      "unat g = 0x80 + c div 64 mod 64" "unat h = 0x80 + c mod 64"
      using m by (auto simp: map_eq_Cons_conv)
    have "c div 64 = 64 * (c div 4096) + c div 64 mod 64" by (simp add: div_4096)
    moreover have "32 \<le> c div 64" "c div 64 < 864 \<or> 896 \<le> c div 64" using 3 s by auto
    ultimately have "c div 4096 = 0 \<longrightarrow> 32 \<le> c div 64 mod 64"
      "c div 4096 = 13 \<longrightarrow> c div 64 mod 64 < 32" by linarith+
    then show ?thesis unfolding b(1) append_Cons append_Nil
      by (intro valid_utf8_3) (use 3 b in auto)
  next
    case 4
    then obtain f g h i where b: "bs = [f, g, h, i]" "unat f = 0xF0 + c div 262144"
      "unat g = 0x80 + c div 4096 mod 64" "unat h = 0x80 + c div 64 mod 64"
      "unat i = 0x80 + c mod 64" using m by (auto simp: map_eq_Cons_conv)
    have "c div 4096 = 64 * (c div 262144) + c div 4096 mod 64" by (simp add: div_4096)
    moreover have "16 \<le> c div 4096" "c div 4096 < 272" using 4 s by auto
    ultimately have "c div 262144 = 0 \<longrightarrow> 16 \<le> c div 4096 mod 64"
      "c div 262144 = 4 \<longrightarrow> c div 4096 mod 64 < 16" "c div 262144 < 5" by linarith+
    then show ?thesis unfolding b(1) append_Cons append_Nil
      by (intro valid_utf8_4) (use 4 b in auto)
  qed
  then show ?thesis by (simp add: bs_def)
qed

text \<open>Joining a six-bit continuation payload to what was decoded before it.\<close>

lemma join6:
  fixes x a :: nat
  assumes "a < 64"
  shows "(64 * x + a) div 64 = x" and "(64 * x + a) mod 64 = a"
  using assms by simp_all

lemma continuation_payload:
  assumes "128 \<le> unat b" and "unat b < 192"
  obtains a where "unat b = 128 + a" and "a < 64"
  using assms by (intro that [of "unat b - 128"]) simp_all

lemma decode_first_2:
  assumes "194 \<le> unat f" "unat f < 224" "unat s = 128 + a" "a < 64"
  shows "\<exists>c. scalar_value c \<and> utf8_encode c = [f, s]"
proof -
  obtain x where x: "unat f = 192 + x" "2 \<le> x" "x < 32"
    using assms by (auto simp: le_iff_add)
  let ?c = "64 * x + a"
  have "utf8_encode ?c = [f, s]"
    using x assms by (simp add: utf8_encode_eq_iff join6)
  then show ?thesis using x assms by (intro exI [of _ ?c]) (simp add: scalar_value_def)
qed

lemma decode_first_3:
  assumes "224 \<le> unat f" "unat f < 240" "unat s = 128 + a" "a < 64" "unat t = 128 + b" "b < 64"
    and "unat f = 224 \<longrightarrow> 32 \<le> a" "unat f = 237 \<longrightarrow> a < 32"
  shows "\<exists>c. scalar_value c \<and> utf8_encode c = [f, s, t]"
proof -
  obtain x where x: "unat f = 224 + x" "x < 16" using assms by (auto simp: le_iff_add)
  let ?q = "64 * x + a"
  let ?c = "64 * ?q + b"
  have q: "32 \<le> ?q" "?q < 1024" using assms x by (cases "x = 0"; simp)+
  have "?q < 864 \<or> 896 \<le> ?q"
    using assms x by (cases x "13 :: nat" rule: linorder_cases) auto
  with q assms have c: "0x800 \<le> ?c" "?c < 0x10000" "?c < 0xD800 \<or> 0xE000 \<le> ?c" by auto
  then have "utf8_encode ?c = [f, s, t]"
    using x assms by (simp only: utf8_encode_eq_iff div_4096 join6) simp
  with c show ?thesis by (intro exI [of _ ?c]) (simp add: scalar_value_def)
qed

lemma decode_first_4:
  assumes "240 \<le> unat f" "unat f < 245" "unat s = 128 + a" "a < 64" "unat t = 128 + b" "b < 64"
    "unat u = 128 + d" "d < 64" and "unat f = 240 \<longrightarrow> 16 \<le> a" "unat f = 244 \<longrightarrow> a < 16"
  shows "\<exists>c. scalar_value c \<and> utf8_encode c = [f, s, t, u]"
proof -
  obtain x where x: "unat f = 240 + x" "x < 5" using assms by (auto simp: le_iff_add)
  let ?p = "64 * x + a"
  let ?q = "64 * ?p + b"
  let ?c = "64 * ?q + d"
  have p: "16 \<le> ?p" using assms x by (cases "x = 0") auto
  have "?p < 272" using assms x by (cases "x = 4") auto
  with p assms have c: "0x10000 \<le> ?c" "?c < 0x110000" by auto
  then have "utf8_encode ?c = [f, s, t, u]"
    using x assms by (simp only: utf8_encode_eq_iff div_4096 join6) simp
  with c show ?thesis by (intro exI [of _ ?c]) (simp add: scalar_value_def)
qed

lemma valid_utf8_decode_first:
  assumes "is_valid_utf8 (f # rest)"
  shows "\<exists>c r. scalar_value c \<and> f # rest = utf8_encode c @ r \<and> is_valid_utf8 r \<and>
    length r < length (f # rest)"
  using assms
proof (cases rule: valid_utf8_cases)
  case one
  then have "utf8_encode (unat f) = [f]" by (simp add: utf8_encode_eq_iff)
  with one show ?thesis
    by (intro exI [of _ "unat f"] exI [of _ rest]) (simp add: scalar_value_def)
next
  case (two s r)
  obtain a where a: "unat s = 128 + a" "a < 64" using two by (auto elim: continuation_payload)
  from decode_first_2 [OF _ _ a] two obtain c where "scalar_value c" "utf8_encode c = [f, s]" by blast
  with two show ?thesis by (intro exI [of _ c] exI [of _ r]) simp
next
  case (three s t r)
  obtain a where a: "unat s = 128 + a" "a < 64" using three by (auto elim: continuation_payload)
  obtain b where b: "unat t = 128 + b" "b < 64" using three by (auto elim: continuation_payload)
  from decode_first_3 [OF _ _ a b] three a
  obtain c where "scalar_value c" "utf8_encode c = [f, s, t]" by auto
  with three show ?thesis by (intro exI [of _ c] exI [of _ r]) simp
next
  case (four s t u r)
  obtain a where a: "unat s = 128 + a" "a < 64" using four by (auto elim: continuation_payload)
  obtain b where b: "unat t = 128 + b" "b < 64" using four by (auto elim: continuation_payload)
  obtain d where d: "unat u = 128 + d" "d < 64" using four by (auto elim: continuation_payload)
  from decode_first_4 [OF _ _ a b d] four a
  obtain c where "scalar_value c" "utf8_encode c = [f, s, t, u]" by auto
  with four show ?thesis by (intro exI [of _ c] exI [of _ r]) simp
qed

text \<open>
  C29. The validator that guards every text field of the Vault accepts a byte string exactly
  when it is the concatenation of the RFC 3629 encodings of a list of Unicode scalar values:
  no overlong form, no surrogate, nothing above U+10FFFF, no truncated sequence.
\<close>

theorem is_valid_utf8_correct:
  "is_valid_utf8 str \<longleftrightarrow>
   (\<exists>cs. list_all scalar_value cs \<and> str = concat (map utf8_encode cs))"
proof
  show "is_valid_utf8 str \<Longrightarrow> \<exists>cs. list_all scalar_value cs \<and> str = concat (map utf8_encode cs)"
  proof (induction str rule: length_induct)
    case (1 str)
    show ?case
    proof (cases str)
      case Nil
      then show ?thesis by (intro exI [of _ "[]"]) simp
    next
      case (Cons f rest)
      then obtain c r where c: "scalar_value c" "str = utf8_encode c @ r" "is_valid_utf8 r"
        "length r < length str" using valid_utf8_decode_first [of f rest] 1(2) by blast
      with 1(1) obtain cs where "list_all scalar_value cs" "r = concat (map utf8_encode cs)" by blast
      with c show ?thesis by (intro exI [of _ "c # cs"]) simp
    qed
  qed
next
  assume "\<exists>cs. list_all scalar_value cs \<and> str = concat (map utf8_encode cs)"
  then obtain cs where "list_all scalar_value cs" "str = concat (map utf8_encode cs)" by blast
  then show "is_valid_utf8 str"
    by (induction cs arbitrary: str) (auto simp: valid_utf8_encode_append simp del: is_valid_utf8.simps(2))
qed

end
