(* ===== verification/Vault_Format.thy ===== *)
theory Vault_Format
  imports Codec Utf8
begin

text \<open>
  The plaintext format of the Vault (\<open>m5auth_vault/vault_format.cpp\<close> and the data types of
  \<open>m5auth/vault.hpp\<close>): the records, the encoder with its validation, the decoder over the
  bounds-checked reader, and the associated-data builders. The wiping of temporary buffers on
  the C++ side has no counterpart here, since a pure function keeps no temporaries.
\<close>

section \<open>Constants and data\<close>

definition kVaultFormatVersion1 :: u16 where "kVaultFormatVersion1 = 1"
definition kVaultFormatVersion2 :: u16 where "kVaultFormatVersion2 = 2"
definition kTargetStorageSchemaVersion :: u16 where "kTargetStorageSchemaVersion = 2"
definition kRecoveryPackageVersion :: u16 where "kRecoveryPackageVersion = 1"
definition kVmkWrapVersion :: u16 where "kVmkWrapVersion = 1"
definition kVaultIdBytes :: nat where "kVaultIdBytes = 16"
definition kCredentialIdBytes :: nat where "kCredentialIdBytes = 16"
definition kVaultNonceBytes :: nat where "kVaultNonceBytes = 12"
definition kVaultTagBytes :: nat where "kVaultTagBytes = 16"
definition kVmkBytes :: nat where "kVmkBytes = 32"
definition kMaxCredentials :: nat where "kMaxCredentials = 32"
definition kMinAutoLockDays :: u8 where "kMinAutoLockDays = 1"
definition kMaxAutoLockDays :: u8 where "kMaxAutoLockDays = 31"
definition kMaxFieldBytes :: nat where "kMaxFieldBytes = 1024"
definition kMaxSecretBytes :: nat where "kMaxSecretBytes = 512"
definition kSha1 :: u8 where "kSha1 = 1"

lemmas vault_constants [m5_simps] =
  kVaultFormatVersion1_def kVaultFormatVersion2_def kTargetStorageSchemaVersion_def
  kRecoveryPackageVersion_def kVmkWrapVersion_def kVaultIdBytes_def kCredentialIdBytes_def
  kVaultNonceBytes_def kVaultTagBytes_def kVmkBytes_def kMaxCredentials_def
  kMinAutoLockDays_def kMaxAutoLockDays_def kMaxFieldBytes_def kMaxSecretBytes_def kSha1_def

text \<open>A C string literal of an array with its terminating NUL.\<close>

definition c_string :: "string \<Rightarrow> bytes" where
  "c_string s = map of_char s @ [0]"

definition kPlaintextMagicV1 :: bytes where "kPlaintextMagicV1 = c_string ''M5AUTH-VLT-PT1''"
definition kPlaintextMagicV2 :: bytes where "kPlaintextMagicV2 = c_string ''M5AUTH-VLT-PT2''"
definition kVaultAadMagicV1 :: bytes where "kVaultAadMagicV1 = c_string ''M5AUTH-VLT-AAD1''"
definition kVaultAadMagicV2 :: bytes where "kVaultAadMagicV2 = c_string ''M5AUTH-VLT-AAD2''"
definition kVmkWrapAadMagic :: bytes where "kVmkWrapAadMagic = c_string ''M5AUTH-VMK-WRAP1''"

definition is_supported_vault_format :: "u16 \<Rightarrow> bool" where
  "is_supported_vault_format version \<longleftrightarrow>
     version = kVaultFormatVersion1 \<or> version = kVaultFormatVersion2"

record credential =
  cr_credential_id :: bytes
  cr_secret :: bytes
  cr_issuer :: bytes
  cr_account :: bytes
  cr_display_name :: bytes
  cr_algorithm :: u8
  cr_digits :: u8
  cr_period_seconds :: u16
  cr_manual_order :: u16

record wifi_record =
  wifi_ssid :: bytes
  wifi_password :: bytes

record vault_plaintext =
  vp_credentials :: "credential list"
  vp_wifi :: "wifi_record option"
  vp_auto_lock_days :: "u8 option"

definition valid_credential :: "credential \<Rightarrow> bool" where
  "valid_credential c \<longleftrightarrow>
     cr_secret c \<noteq> [] \<and> length (cr_secret c) \<le> kMaxSecretBytes \<and> cr_algorithm c = kSha1 \<and>
     1 \<le> cr_digits c \<and> cr_digits c \<le> 10 \<and> 1 \<le> cr_period_seconds c"

definition valid_auto_lock_days :: "u8 option \<Rightarrow> bool" where
  "valid_auto_lock_days days \<longleftrightarrow>
     (case days of None \<Rightarrow> True | Some d \<Rightarrow> kMinAutoLockDays \<le> d \<and> d \<le> kMaxAutoLockDays)"

definition plaintext_magic :: "u16 \<Rightarrow> bytes option" where
  "plaintext_magic fmt =
     (if fmt = kVaultFormatVersion1 then Some kPlaintextMagicV1
      else if fmt = kVaultFormatVersion2 then Some kPlaintextMagicV2 else None)"

definition aad_magic :: "u16 \<Rightarrow> bytes option" where
  "aad_magic fmt =
     (if fmt = kVaultFormatVersion1 then Some kVaultAadMagicV1
      else if fmt = kVaultFormatVersion2 then Some kVaultAadMagicV2 else None)"

section \<open>The encoder\<close>

definition append_sized_bytes :: "bytes \<Rightarrow> bytes \<Rightarrow> nat \<Rightarrow> bytes option" where
  "append_sized_bytes output value maximum =
     (if length value > maximum \<or> length value > 65535 then None
      else Some (append_u16 output (of_nat (length value)) @ value))"

definition append_sized_text :: "bytes \<Rightarrow> bytes \<Rightarrow> bytes option" where
  "append_sized_text output value =
     (if \<not> is_valid_utf8 value \<or> length value > kMaxFieldBytes \<or> length value > 65535 then None
      else Some (append_u16 output (of_nat (length value)) @ value))"

fun encode_credentials :: "bytes set \<Rightarrow> bytes \<Rightarrow> credential list \<Rightarrow> bytes option" where
  "encode_credentials ids candidate [] = Some candidate"
| "encode_credentials ids candidate (c # cs) =
     (if \<not> valid_credential c \<or> cr_credential_id c \<in> ids then None
      else do {
        out \<leftarrow> append_sized_bytes (candidate @ cr_credential_id c) (cr_secret c) kMaxSecretBytes;
        out \<leftarrow> append_sized_text out (cr_issuer c);
        out \<leftarrow> append_sized_text out (cr_account c);
        out \<leftarrow> append_sized_text out (cr_display_name c);
        encode_credentials (insert (cr_credential_id c) ids)
          (append_u16 (append_u16 (out @ [cr_algorithm c] @ [cr_digits c]) (cr_period_seconds c))
             (cr_manual_order c)) cs })"

definition encode_wifi :: "bytes \<Rightarrow> wifi_record option \<Rightarrow> bytes option" where
  "encode_wifi candidate wifi =
     (case wifi of
        None \<Rightarrow> Some (candidate @ [0])
      | Some w \<Rightarrow> do {
          out \<leftarrow> append_sized_text (candidate @ [1]) (wifi_ssid w);
          append_sized_text out (wifi_password w) })"

definition encode_plaintext :: "vault_plaintext \<Rightarrow> u16 \<Rightarrow> bytes option" where
  "encode_plaintext value fmt =
     (if \<not> is_supported_vault_format fmt \<or> length (vp_credentials value) > kMaxCredentials \<or>
         \<not> valid_auto_lock_days (vp_auto_lock_days value) \<or>
         (fmt = kVaultFormatVersion1 \<and> vp_auto_lock_days value \<noteq> None) then None
      else do {
        magic \<leftarrow> plaintext_magic fmt;
        out \<leftarrow> encode_credentials {}
                (append_u16 (append_u16 magic fmt) (of_nat (length (vp_credentials value))))
                (vp_credentials value);
        out \<leftarrow> encode_wifi out (vp_wifi value);
        Some (if fmt = kVaultFormatVersion2
              then (case vp_auto_lock_days value of
                      None \<Rightarrow> out @ [0]
                    | Some days \<Rightarrow> (out @ [1]) @ [days])
              else out) })"

section \<open>The decoder\<close>

definition read_sized_text :: "reader \<Rightarrow> (bytes \<times> reader) option" where
  "read_sized_text r = do {
     (len, r) \<leftarrow> read_u16 r;
     (if rd_offset r > length (rd_input r) \<or> unat len > kMaxFieldBytes \<or>
         unat len > length (rd_input r) - rd_offset r then None
      else if len = 0 then Some ([], r)
      else let value = take (unat len) (drop (rd_offset r) (rd_input r));
               r' = r\<lparr>rd_offset := rd_offset r + unat len\<rparr>
           in if \<not> is_valid_utf8 value then None else Some (value, r')) }"

definition decode_credential :: "bytes set \<Rightarrow> reader \<Rightarrow> (credential \<times> reader) option" where
  "decode_credential ids r = do {
     (cid, r) \<leftarrow> read_bytes kCredentialIdBytes r;
     (if cid \<in> ids then None else do {
        (sec, r) \<leftarrow> read_sized_bytes kMaxSecretBytes r;
        (if sec = [] then None else do {
           (iss, r) \<leftarrow> read_sized_text r;
           (acc, r) \<leftarrow> read_sized_text r;
           (disp, r) \<leftarrow> read_sized_text r;
           (alg, r) \<leftarrow> read_u8 r;
           (if alg \<noteq> kSha1 then None else do {
              (dig, r) \<leftarrow> read_u8 r;
              (per, r) \<leftarrow> read_u16 r;
              (ord, r) \<leftarrow> read_u16 r;
              (let c = \<lparr>cr_credential_id = cid, cr_secret = sec, cr_issuer = iss,
                        cr_account = acc, cr_display_name = disp, cr_algorithm = kSha1,
                        cr_digits = dig, cr_period_seconds = per, cr_manual_order = ord\<rparr>
               in if \<not> valid_credential c then None else Some (c, r)) }) }) }) }"

fun decode_credentials :: "nat \<Rightarrow> bytes set \<Rightarrow> reader \<Rightarrow> (credential list \<times> reader) option" where
  "decode_credentials 0 ids r = Some ([], r)"
| "decode_credentials (Suc n) ids r = do {
     (c, r) \<leftarrow> decode_credential ids r;
     (cs, r) \<leftarrow> decode_credentials n (insert (cr_credential_id c) ids) r;
     Some (c # cs, r) }"

definition decode_wifi :: "reader \<Rightarrow> (wifi_record option \<times> reader) option" where
  "decode_wifi r = do {
     (wifi_present, r) \<leftarrow> read_u8 r;
     (if wifi_present > 1 then None
      else if wifi_present = 1 then do {
        (ssid, r) \<leftarrow> read_sized_text r;
        (pass, r) \<leftarrow> read_sized_text r;
        Some (Some \<lparr>wifi_ssid = ssid, wifi_password = pass\<rparr>, r) }
      else Some (None, r)) }"

definition decode_common_body ::
  "reader \<Rightarrow> ((credential list \<times> wifi_record option) \<times> reader) option" where
  "decode_common_body r = do {
     (count, r) \<leftarrow> read_u16 r;
     (if unat count > kMaxCredentials then None else do {
        (cs, r) \<leftarrow> decode_credentials (unat count) {} r;
        (w, r) \<leftarrow> decode_wifi r;
        Some ((cs, w), r) }) }"

definition detect_format :: "bytes \<Rightarrow> u16 option" where
  "detect_format magic =
     (if magic = kPlaintextMagicV1 then Some kVaultFormatVersion1
      else if magic = kPlaintextMagicV2 then Some kVaultFormatVersion2 else None)"

definition decode_auto_lock_days :: "u16 \<Rightarrow> reader \<Rightarrow> (u8 option \<times> reader) option" where
  "decode_auto_lock_days fmt r =
     (if fmt = kVaultFormatVersion1 then Some (None, r)
      else do {
        (present, r) \<leftarrow> read_u8 r;
        (if present > 1 then None
         else if present = 1 then do {
           (days, r) \<leftarrow> read_u8 r;
           (if days < kMinAutoLockDays \<or> days > kMaxAutoLockDays then None
            else Some (Some days, r)) }
         else Some (None, r)) })"

definition decode_plaintext :: "bytes \<Rightarrow> (vault_plaintext \<times> u16) option" where
  "decode_plaintext encoded = do {
     (magic, r) \<leftarrow> read_bytes (length kPlaintextMagicV1) (mk_reader encoded);
     fmt \<leftarrow> detect_format magic;
     (encoded_version, r) \<leftarrow> read_u16 r;
     (if encoded_version \<noteq> fmt then None else do {
        ((cs, w), r) \<leftarrow> decode_common_body r;
        (days, r) \<leftarrow> decode_auto_lock_days fmt r;
        (if \<not> at_end r then None
         else Some (\<lparr>vp_credentials = cs, vp_wifi = w, vp_auto_lock_days = days\<rparr>, fmt)) }) }"

section \<open>Associated data\<close>

definition build_vault_aad :: "bytes \<Rightarrow> u64 \<Rightarrow> u16 \<Rightarrow> u16 \<Rightarrow> bytes option" where
  "build_vault_aad vault_id generation fmt schema =
     (if \<not> is_supported_vault_format fmt \<or> schema \<noteq> kTargetStorageSchemaVersion then None
      else do {
        magic \<leftarrow> aad_magic fmt;
        Some (append_u64 (append_u16 (append_u16 magic fmt) schema @ vault_id) generation) })"

definition build_vmk_wrap_aad :: "bytes \<Rightarrow> u16 \<Rightarrow> u16 \<Rightarrow> bytes option" where
  "build_vmk_wrap_aad vault_id package_version wrap_version =
     (if package_version \<noteq> kRecoveryPackageVersion \<or> wrap_version \<noteq> kVmkWrapVersion then None
      else Some (append_u16 (append_u16 kVmkWrapAadMagic package_version) wrap_version @ vault_id))"

end
