(* ===== verification/Vault_Format_Correct.thy ===== *)
theory Vault_Format_Correct
  imports Vault_Format
begin

text \<open>
  Correctness of the Vault plaintext format: each field, the credential record, the
  credential table, the Wi-Fi record and the whole plaintext are codecs, so the decoder
  accepts exactly what the encoder produces.
\<close>

section \<open>Field codecs\<close>

definition text_ok :: "bytes \<Rightarrow> bool" where
  "text_ok x \<longleftrightarrow> is_valid_utf8 x \<and> length x \<le> kMaxFieldBytes"

lemma read_sized_text_alt:
  "read_sized_text r = do {
     (x, r) \<leftarrow> read_sized_bytes kMaxFieldBytes r;
     (if is_valid_utf8 x then Some (x, r) else None) }"
  unfolding read_sized_text_def read_sized_bytes_def
  by (cases "read_u16 r") (auto simp: Let_def)

interpretation utf8text: codec sized read_sized_text text_ok
  by unfold_locales
    (auto simp: read_sized_text_alt bind_eq_Some_conv sized.dec_iff text_ok_def kMaxFieldBytes_def)

definition enc_credential :: "credential \<Rightarrow> bytes" where
  "enc_credential c = cr_credential_id c @ sized (cr_secret c) @ sized (cr_issuer c) @
     sized (cr_account c) @ sized (cr_display_name c) @ be8 (cr_algorithm c) @ be8 (cr_digits c) @
     be16 (cr_period_seconds c) @ be16 (cr_manual_order c)"

definition credential_ok :: "credential \<Rightarrow> bool" where
  "credential_ok c \<longleftrightarrow> length (cr_credential_id c) = kCredentialIdBytes \<and> valid_credential c \<and>
     text_ok (cr_issuer c) \<and> text_ok (cr_account c) \<and> text_ok (cr_display_name c)"

lemmas leaf_iffs = raw.dec_iff byte.dec_iff u16.dec_iff sized.dec_iff utf8text.dec_iff

interpretation cred: codec enc_credential "decode_credential ids"
  "\<lambda>c. credential_ok c \<and> cr_credential_id c \<notin> ids" for ids
proof
  fix ids r c r'
  show "decode_credential ids r = Some (c, r') \<longleftrightarrow>
      (credential_ok c \<and> cr_credential_id c \<notin> ids) \<and> reads r (enc_credential c) r'"
    by (cases c)
      (auto simp: decode_credential_def enc_credential_def credential_ok_def valid_credential_def
        bind_eq_Some_conv if_None_eq_Some leaf_iffs reads_simps Let_def kMaxSecretBytes_def add.assoc
        simp del: length_be8 length_be16)
qed

section \<open>The credential table\<close>

definition enc_credentials :: "credential list \<Rightarrow> bytes" where
  "enc_credentials cs = concat (map enc_credential cs)"

definition table_ok :: "bytes set \<Rightarrow> credential list \<Rightarrow> bool" where
  "table_ok ids cs \<longleftrightarrow> list_all credential_ok cs \<and> distinct (map cr_credential_id cs) \<and>
     cr_credential_id ` set cs \<inter> ids = {}"

lemma table_ok_Nil [simp]: "table_ok ids []"
  by (simp add: table_ok_def)

lemma table_ok_Cons: "table_ok ids (c # cs) \<longleftrightarrow>
  credential_ok c \<and> cr_credential_id c \<notin> ids \<and> table_ok (insert (cr_credential_id c) ids) cs"
  by (auto simp: table_ok_def)

lemma decode_credentials_iff:
  "reader_ok r \<Longrightarrow> decode_credentials n ids r = Some (cs, r') \<longleftrightarrow>
   length cs = n \<and> table_ok ids cs \<and> reads r (enc_credentials cs) r'"
proof (induction n ids r arbitrary: cs r' rule: decode_credentials.induct)
  case (1 ids r)
  then show ?case by (auto simp: enc_credentials_def)
next
  case (2 n ids r)
  have step: "decode_credentials n (insert (cr_credential_id c) ids) r1 = Some (cs', r') \<longleftrightarrow>
      length cs' = n \<and> table_ok (insert (cr_credential_id c) ids) cs' \<and>
      reads r1 (enc_credentials cs') r'"
    if "decode_credential ids r = Some (c, r1)" for c r1 cs'
    using 2(1) [OF that refl] cred.dec_bounds [OF that] by simp
  show ?case
  proof (cases cs)
    case Nil
    then show ?thesis by (auto simp: bind_eq_Some_conv)
  next
    case (Cons c cs')
    have "decode_credentials (Suc n) ids r = Some (cs, r') \<longleftrightarrow>
        (\<exists>r1. decode_credential ids r = Some (c, r1) \<and>
          decode_credentials n (insert (cr_credential_id c) ids) r1 = Some (cs', r'))"
      by (auto simp: Cons bind_eq_Some_conv)
    also have "\<dots> \<longleftrightarrow> (\<exists>r1. decode_credential ids r = Some (c, r1) \<and>
        length cs' = n \<and> table_ok (insert (cr_credential_id c) ids) cs' \<and>
        reads r1 (enc_credentials cs') r')"
      using step by blast
    finally show ?thesis
      by (auto simp: Cons cred.dec_iff table_ok_Cons enc_credentials_def reads_append)
  qed
qed

section \<open>Wi-Fi record and automatic-lock policy\<close>

fun enc_wifi :: "wifi_record option \<Rightarrow> bytes" where
  "enc_wifi None = be8 0"
| "enc_wifi (Some w) = be8 1 @ sized (wifi_ssid w) @ sized (wifi_password w)"

fun wifi_ok :: "wifi_record option \<Rightarrow> bool" where
  "wifi_ok None = True"
| "wifi_ok (Some w) = (text_ok (wifi_ssid w) \<and> text_ok (wifi_password w))"

lemma u8_flag: "\<not> (x :: u8) > 1 \<longleftrightarrow> x = 0 \<or> x = 1"
proof -
  have "\<not> x > 1 \<longleftrightarrow> unat x \<le> 1" by (simp add: word_less_nat_alt not_less)
  also have "\<dots> \<longleftrightarrow> unat x = 0 \<or> unat x = 1" by linarith
  also have "\<dots> \<longleftrightarrow> x = 0 \<or> x = 1" by (simp add: word_unat_eq_iff)
  finally show ?thesis .
qed

lemma decode_wifi_None:
  "decode_wifi r = Some (None, r') \<longleftrightarrow> (\<exists>p. read_u8 r = Some (p, r') \<and> \<not> p > 1 \<and> p \<noteq> 1)"
  unfolding decode_wifi_def
  by (cases "read_u8 r") (auto simp: bind_eq_Some_conv split: if_split_asm)

lemma decode_wifi_Some:
  "decode_wifi r = Some (Some w, r') \<longleftrightarrow> (\<exists>r1 r2. read_u8 r = Some (1, r1) \<and>
     read_sized_text r1 = Some (wifi_ssid w, r2) \<and> read_sized_text r2 = Some (wifi_password w, r'))"
  unfolding decode_wifi_def
  by (cases "read_u8 r"; cases w) (auto simp: bind_eq_Some_conv split: if_split_asm)

interpretation wifi: codec enc_wifi decode_wifi wifi_ok
proof
  fix r w r'
  have "(\<exists>p. read_u8 r = Some (p, r') \<and> \<not> p > 1 \<and> p \<noteq> 1) \<longleftrightarrow> reads r (be8 0) r'"
    by (auto simp: byte.dec_iff u8_flag)
  then show "decode_wifi r = Some (w, r') \<longleftrightarrow> wifi_ok w \<and> reads r (enc_wifi w) r'"
    by (cases w) (auto simp: decode_wifi_None decode_wifi_Some leaf_iffs reads_simps)
qed

fun enc_days :: "u16 \<Rightarrow> u8 option \<Rightarrow> bytes" where
  "enc_days fmt None = (if fmt = kVaultFormatVersion2 then be8 0 else [])"
| "enc_days fmt (Some d) = be8 1 @ be8 d"

definition days_ok :: "u16 \<Rightarrow> u8 option \<Rightarrow> bool" where
  "days_ok fmt days \<longleftrightarrow> valid_auto_lock_days days \<and> (fmt = kVaultFormatVersion1 \<longrightarrow> days = None)"

lemma decode_days_None:
  "decode_auto_lock_days fmt r = Some (None, r') \<longleftrightarrow>
    (if fmt = kVaultFormatVersion1 then r' = r
     else \<exists>p. read_u8 r = Some (p, r') \<and> \<not> p > 1 \<and> p \<noteq> 1)"
  unfolding decode_auto_lock_days_def
  by (cases "read_u8 r") (auto simp: bind_eq_Some_conv split: if_split_asm)

lemma decode_days_Some:
  "decode_auto_lock_days fmt r = Some (Some d, r') \<longleftrightarrow> fmt \<noteq> kVaultFormatVersion1 \<and>
    kMinAutoLockDays \<le> d \<and> d \<le> kMaxAutoLockDays \<and>
    (\<exists>r1. read_u8 r = Some (1, r1) \<and> read_u8 r1 = Some (d, r'))"
  unfolding decode_auto_lock_days_def
  by (cases "read_u8 r") (auto simp: bind_eq_Some_conv not_less split: if_split_asm)

lemma decode_days_iff:
  assumes "reader_ok r" and "is_supported_vault_format fmt"
  shows "decode_auto_lock_days fmt r = Some (days, r') \<longleftrightarrow>
    days_ok fmt days \<and> reads r (enc_days fmt days) r'"
proof -
  have "(\<exists>p. read_u8 r = Some (p, r') \<and> \<not> p > 1 \<and> p \<noteq> 1) \<longleftrightarrow> reads r (be8 0) r'"
    by (auto simp: byte.dec_iff u8_flag)
  moreover have "fmt = kVaultFormatVersion1 \<and> fmt \<noteq> kVaultFormatVersion2 \<or>
      fmt \<noteq> kVaultFormatVersion1 \<and> fmt = kVaultFormatVersion2"
    using assms(2) by (auto simp: is_supported_vault_format_def kVaultFormatVersion1_def
        kVaultFormatVersion2_def)
  ultimately show ?thesis using assms(1)
    by (cases days) (auto simp: decode_days_None decode_days_Some days_ok_def
        valid_auto_lock_days_def byte.dec_iff reads_append)
qed

section \<open>The encoder produces exactly these bytes\<close>

lemma append_sized_text_iff:
  "append_sized_text out x = Some out' \<longleftrightarrow> text_ok x \<and> out' = out @ sized x"
  by (auto simp: append_sized_text_def text_ok_def sized_def append_u16_be16 kMaxFieldBytes_def)

lemma append_sized_bytes_iff:
  "append_sized_bytes out x m = Some out' \<longleftrightarrow>
   length x \<le> m \<and> length x \<le> 65535 \<and> out' = out @ sized x"
  by (auto simp: append_sized_bytes_def sized_def append_u16_be16)

definition ids_wf :: "credential list \<Rightarrow> bool" where
  "ids_wf cs \<longleftrightarrow> list_all (\<lambda>c. length (cr_credential_id c) = kCredentialIdBytes) cs"

lemma encode_credentials_iff:
  "ids_wf cs \<Longrightarrow> encode_credentials ids out cs = Some out' \<longleftrightarrow>
   table_ok ids cs \<and> out' = out @ enc_credentials cs"
proof (induction cs arbitrary: ids out)
  case Nil
  then show ?case by (auto simp: enc_credentials_def)
next
  case (Cons c cs)
  let ?out = "out @ enc_credential c"
  have s: "length (cr_secret c) \<le> kMaxSecretBytes \<Longrightarrow> length (cr_secret c) \<le> 65535"
    by (simp add: kMaxSecretBytes_def)
  have "encode_credentials ids out (c # cs) = Some out' \<longleftrightarrow>
      valid_credential c \<and> cr_credential_id c \<notin> ids \<and>
      text_ok (cr_issuer c) \<and> text_ok (cr_account c) \<and> text_ok (cr_display_name c) \<and>
      encode_credentials (insert (cr_credential_id c) ids) ?out cs = Some out'"
    by (auto simp: bind_eq_Some_conv append_sized_text_iff append_sized_bytes_iff s
        append_u16_be16 enc_credential_def be8_def valid_credential_def if_None_eq_Some)
  also have "\<dots> \<longleftrightarrow> credential_ok c \<and> cr_credential_id c \<notin> ids \<and>
      table_ok (insert (cr_credential_id c) ids) cs \<and> out' = ?out @ enc_credentials cs"
  proof (cases "credential_ok c \<and> cr_credential_id c \<notin> ids")
    case True
    have "ids_wf cs" using Cons.prems by (simp add: ids_wf_def)
    with True Cons.IH show ?thesis by (auto simp: credential_ok_def)
  next
    case False
    with Cons.prems show ?thesis by (auto simp: credential_ok_def ids_wf_def)
  qed
  finally show ?case by (auto simp: table_ok_Cons enc_credentials_def)
qed

lemma encode_wifi_iff:
  "encode_wifi out w = Some out' \<longleftrightarrow> wifi_ok w \<and> out' = out @ enc_wifi w"
  by (cases w) (auto simp: encode_wifi_def bind_eq_Some_conv append_sized_text_iff be8_def)

definition plaintext_wf :: "vault_plaintext \<Rightarrow> bool" where
  "plaintext_wf v \<longleftrightarrow> ids_wf (vp_credentials v)"

definition plaintext_bytes :: "vault_plaintext \<Rightarrow> u16 \<Rightarrow> bytes" where
  "plaintext_bytes v fmt =
     the (plaintext_magic fmt) @ be16 fmt @ be16 (of_nat (length (vp_credentials v))) @
     enc_credentials (vp_credentials v) @ enc_wifi (vp_wifi v) @ enc_days fmt (vp_auto_lock_days v)"

definition plaintext_ok :: "vault_plaintext \<Rightarrow> u16 \<Rightarrow> bool" where
  "plaintext_ok v fmt \<longleftrightarrow> is_supported_vault_format fmt \<and>
     length (vp_credentials v) \<le> kMaxCredentials \<and> table_ok {} (vp_credentials v) \<and>
     wifi_ok (vp_wifi v) \<and> days_ok fmt (vp_auto_lock_days v)"

lemma supported_magic:
  "is_supported_vault_format fmt \<Longrightarrow> plaintext_magic fmt = Some (the (plaintext_magic fmt))"
  by (auto simp: is_supported_vault_format_def plaintext_magic_def)

lemma format_cases:
  assumes "is_supported_vault_format fmt"
  obtains "fmt = kVaultFormatVersion1" "fmt \<noteq> kVaultFormatVersion2"
    | "fmt = kVaultFormatVersion2" "fmt \<noteq> kVaultFormatVersion1"
  using assms by (auto simp: is_supported_vault_format_def kVaultFormatVersion1_def
      kVaultFormatVersion2_def)

lemma enc_days_eq:
  assumes "days_ok fmt days" and "is_supported_vault_format fmt"
  shows "enc_days fmt days = (if fmt = kVaultFormatVersion2
     then (case days of None \<Rightarrow> [0] | Some d \<Rightarrow> [1, d]) else [])"
  using assms
  by (cases days; elim format_cases) (auto simp: days_ok_def be8_def)

lemma encode_plaintext_iff:
  assumes "plaintext_wf v"
  shows "encode_plaintext v fmt = Some bs \<longleftrightarrow> plaintext_ok v fmt \<and> bs = plaintext_bytes v fmt"
proof (cases "is_supported_vault_format fmt \<and> days_ok fmt (vp_auto_lock_days v)")
  case True
  then obtain m where m: "plaintext_magic fmt = Some m" using supported_magic by blast
  have "encode_plaintext v fmt = Some bs \<longleftrightarrow>
      length (vp_credentials v) \<le> kMaxCredentials \<and> table_ok {} (vp_credentials v) \<and>
      wifi_ok (vp_wifi v) \<and> bs = plaintext_bytes v fmt"
    using True assms m enc_days_eq [of fmt "vp_auto_lock_days v"]
    by (cases "vp_auto_lock_days v")
      (auto simp: encode_plaintext_def bind_eq_Some_conv encode_credentials_iff plaintext_wf_def
        encode_wifi_iff append_u16_be16 plaintext_bytes_def if_None_eq_Some days_ok_def not_less)
  with True show ?thesis by (auto simp: plaintext_ok_def)
next
  case False
  then show ?thesis
    by (auto simp: encode_plaintext_def plaintext_ok_def days_ok_def)
qed

section \<open>The decoder accepts exactly these bytes\<close>

lemma magic_length [simp]:
  "length kPlaintextMagicV1 = 15" "length kPlaintextMagicV2 = 15"
  by (simp_all add: kPlaintextMagicV1_def kPlaintextMagicV2_def c_string_def)

lemma magic_distinct [simp]: "kPlaintextMagicV1 \<noteq> kPlaintextMagicV2"
  by (simp add: kPlaintextMagicV1_def kPlaintextMagicV2_def c_string_def)

lemma detect_format_iff:
  "detect_format m = Some fmt \<longleftrightarrow> is_supported_vault_format fmt \<and> m = the (plaintext_magic fmt)"
  using magic_distinct magic_distinct [symmetric]
  by (auto simp: detect_format_def is_supported_vault_format_def plaintext_magic_def
      kVaultFormatVersion1_def kVaultFormatVersion2_def)

lemma length_plaintext_magic: "is_supported_vault_format fmt \<Longrightarrow> length (the (plaintext_magic fmt)) = 15"
  by (auto simp: is_supported_vault_format_def plaintext_magic_def)

lemma decode_common_body_iff:
  "decode_common_body r = Some ((cs, w), r') \<longleftrightarrow>
   length cs \<le> kMaxCredentials \<and> table_ok {} cs \<and> wifi_ok w \<and>
   reads r (be16 (of_nat (length cs)) @ enc_credentials cs @ enc_wifi w) r'"
proof -
  have "decode_common_body r = Some ((cs, w), r') \<longleftrightarrow>
      (\<exists>n r1 r2. read_u16 r = Some (n, r1) \<and> unat n \<le> kMaxCredentials \<and>
        decode_credentials (unat n) {} r1 = Some (cs, r2) \<and> decode_wifi r2 = Some (w, r'))"
    by (auto simp: decode_common_body_def bind_eq_Some_conv if_None_eq_Some not_less)
  also have "\<dots> \<longleftrightarrow> (\<exists>n r1 r2. reads r (be16 n) r1 \<and> unat n \<le> kMaxCredentials \<and>
        length cs = unat n \<and> table_ok {} cs \<and> reads r1 (enc_credentials cs) r2 \<and>
        wifi_ok w \<and> reads r2 (enc_wifi w) r')"
    by (auto simp: u16.dec_iff wifi.dec_iff)
      (use decode_credentials_iff reads_ok(2) in blast)+
  also have "\<dots> \<longleftrightarrow> (\<exists>r1 r2. reads r (be16 (of_nat (length cs))) r1 \<and>
        length cs \<le> kMaxCredentials \<and> table_ok {} cs \<and> reads r1 (enc_credentials cs) r2 \<and>
        wifi_ok w \<and> reads r2 (enc_wifi w) r')" (is "?l \<longleftrightarrow> ?r")
  proof
    assume ?l then show ?r by (metis of_nat_unat ucast_id)
  next
    assume ?r
    moreover from this have "unat (of_nat (length cs) :: u16) = length cs"
      by (auto intro!: unat_of_nat_u16 simp: kMaxCredentials_def)
    ultimately show ?l by (metis (no_types))
  qed
  finally show ?thesis by (auto simp: reads_append)
qed

lemma decode_plaintext_iff:
  "decode_plaintext bs = Some (v, fmt) \<longleftrightarrow> plaintext_ok v fmt \<and> bs = plaintext_bytes v fmt"
  (is "?l \<longleftrightarrow> ?r")
proof -
  obtain cs w d where v: "v = \<lparr>vp_credentials = cs, vp_wifi = w, vp_auto_lock_days = d\<rparr>"
    by (cases v)
  let ?m = "the (plaintext_magic fmt)"
  have "?l \<longleftrightarrow> is_supported_vault_format fmt \<and> (\<exists>r1 r2 r3 r4.
      read_bytes 15 (mk_reader bs) = Some (?m, r1) \<and> read_u16 r1 = Some (fmt, r2) \<and>
      decode_common_body r2 = Some ((cs, w), r3) \<and>
      decode_auto_lock_days fmt r3 = Some (d, r4) \<and> at_end r4)"
    by (auto simp: v decode_plaintext_def bind_eq_Some_conv if_None_eq_Some detect_format_iff)
  also have "\<dots> \<longleftrightarrow> is_supported_vault_format fmt \<and> (\<exists>r1 r2 r3 r4.
      reads (mk_reader bs) ?m r1 \<and> reads r1 (be16 fmt) r2 \<and>
      length cs \<le> kMaxCredentials \<and> table_ok {} cs \<and> wifi_ok w \<and>
      reads r2 (be16 (of_nat (length cs)) @ enc_credentials cs @ enc_wifi w) r3 \<and>
      days_ok fmt d \<and> reads r3 (enc_days fmt d) r4 \<and> at_end r4)"
    unfolding raw.dec_iff u16.dec_iff decode_common_body_iff
    using decode_days_iff [OF reads_ok(2)] length_plaintext_magic by (metis (no_types, lifting))
  also have "\<dots> \<longleftrightarrow> plaintext_ok v fmt \<and>
      (\<exists>r'. reads (mk_reader bs) (plaintext_bytes v fmt) r' \<and> at_end r')"
    by (auto simp: v plaintext_ok_def plaintext_bytes_def reads_simps add.assoc
        simp del: length_be8 length_be16)
  finally show ?thesis by (simp only: reads_whole)
qed

lemma plaintext_ok_wf: "plaintext_ok v fmt \<Longrightarrow> plaintext_wf v"
  by (auto simp: plaintext_ok_def plaintext_wf_def ids_wf_def table_ok_def credential_ok_def list_all_iff)

text \<open>
  C11. The Vault decoder accepts a byte string, with a given result and format, exactly when
  the encoder produces that byte string from that result in that format. So decoding inverts
  encoding for both formats, and no second byte string decodes to the same plaintext: the
  format is canonical.
\<close>

theorem decode_plaintext_iff_encode:
  "decode_plaintext encoded = Some (value, fmt) \<longleftrightarrow>
   plaintext_wf value \<and> encode_plaintext value fmt = Some encoded"
  using encode_plaintext_iff plaintext_ok_wf by (auto simp: decode_plaintext_iff)

section \<open>Associated data binds its inputs\<close>


lemma aad_magic_length: "is_supported_vault_format fmt \<Longrightarrow> length (the (aad_magic fmt)) = 16"
  by (elim format_cases)
    (simp_all add: aad_magic_def kVaultAadMagicV1_def kVaultAadMagicV2_def c_string_def)

lemma build_vault_aad_eq:
  "build_vault_aad vid g fmt schema = Some a \<longleftrightarrow>
   is_supported_vault_format fmt \<and> schema = kTargetStorageSchemaVersion \<and>
   a = the (aad_magic fmt) @ be16 fmt @ be16 schema @ vid @ be64 g"
  by (auto simp: build_vault_aad_def if_None_eq_Some append_u16_be16 append_u64_be64
      is_supported_vault_format_def aad_magic_def)

text \<open>
  The associated data of the Vault ciphertext determines the Vault id, the generation, the
  format and the schema: two accepted inputs with the same associated data are the same, so an
  authenticated envelope cannot be replayed as another generation or another Vault.
\<close>

theorem vault_aad_injective:
  assumes "build_vault_aad vid g fmt schema = Some a"
    and "build_vault_aad vid' g' fmt' schema' = Some a"
  shows "vid = vid' \<and> g = g' \<and> fmt = fmt' \<and> schema = schema'"
proof -
  have e: "the (aad_magic fmt) @ be16 fmt @ be16 schema @ vid @ be64 g =
      the (aad_magic fmt') @ be16 fmt' @ be16 schema' @ vid' @ be64 g'"
    using assms by (simp add: build_vault_aad_eq)
  moreover have "length (the (aad_magic fmt)) = length (the (aad_magic fmt'))"
    using assms by (simp add: build_vault_aad_eq aad_magic_length)
  ultimately show ?thesis by (simp add: append_eq_append_conv)
qed

theorem vault_aad_injective_witness:
  "\<exists>a. build_vault_aad (zeros 16) 7 1 2 = Some a \<and>
     (\<forall>g. build_vault_aad (zeros 16) g 1 2 = Some a \<longrightarrow> g = 7)"
proof -
  have "\<exists>a. build_vault_aad (zeros 16) 7 1 2 = Some a"
    by (simp add: build_vault_aad_def vault_constants is_supported_vault_format_def aad_magic_def)
  then obtain a where a: "build_vault_aad (zeros 16) 7 1 2 = Some a" ..
  then show ?thesis using vault_aad_injective [OF _ a] by blast
qed

end
