(* ===== verification/Bit_Stream.thy ===== *)
theory Bit_Stream
  imports Prelude
begin

text \<open>
  The bit accumulator that both text decoders of the firmware use, \<open>decode_base32\<close>
  (\<open>m5auth_totp/totp_core.cpp\<close>, five bits per character) and \<open>base64url_decode\<close>
  (\<open>m5auth_session/session_protocol_v2.cpp\<close>, six bits per character): shift the new digit into
  a 32-bit accumulator and emit a byte as soon as eight bits are available. Its specification is
  numeric: the emitted bytes followed by the pending bits are the big-endian number of the
  digits read so far.
\<close>

definition bit_step :: "nat \<Rightarrow> u32 \<Rightarrow> u32 \<times> nat \<times> bytes \<Rightarrow> u32 \<times> nat \<times> bytes" where
  "bit_step w v st = (case st of (accumulator, bits, out) \<Rightarrow>
     (let acc = push_bit w accumulator OR v; n = bits + w
      in if n \<ge> 8
         then (acc, n - 8, out @ [ucast (drop_bit (n - 8) acc AND 0xff)])
         else (acc, n, out)))"

text \<open>The check of the trailing bits: all of them must be zero.\<close>

definition trailing_bits_zero :: "u32 \<Rightarrow> nat \<Rightarrow> bool" where
  "trailing_bits_zero acc bits \<longleftrightarrow> (bits > 0 \<longrightarrow> acc AND (push_bit bits 1 - 1) = 0)"

definition be_number :: "bytes \<Rightarrow> nat" where
  "be_number bs = foldl (\<lambda>n b. 256 * n + unat b) 0 bs"

definition digits_number :: "nat \<Rightarrow> nat list \<Rightarrow> nat" where
  "digits_number base ds = foldl (\<lambda>n d. base * n + d) 0 ds"

definition stream_number :: "u32 \<times> nat \<times> bytes \<Rightarrow> nat" where
  "stream_number st = (case st of (acc, bits, out) \<Rightarrow>
     be_number out * 2 ^ bits + unat (take_bit bits acc))"

lemma be_number_snoc [simp]: "be_number (bs @ [b]) = 256 * be_number bs + unat b"
  by (simp add: be_number_def)

lemma be_number_Nil [simp]: "be_number [] = 0"
  by (simp add: be_number_def)

lemma digits_number_snoc [simp]: "digits_number w (ds @ [d]) = w * digits_number w ds + d"
  by (simp add: digits_number_def)

lemma digits_number_Nil [simp]: "digits_number w [] = 0"
  by (simp add: digits_number_def)

lemma unat_shift_in:
  fixes acc v :: u32
  assumes "unat v < 2 ^ w" and "k + w \<le> 32"
  shows "unat (take_bit (k + w) (push_bit w acc OR v)) = unat (take_bit k acc) * 2 ^ w + unat v"
proof -
  have v: "take_bit w v = v"
    using assms(1) by (simp add: word_unat_eq_iff unsigned_take_bit_eq take_bit_nat_eq_self)
  have e: "take_bit (k + w) (push_bit w acc OR v) = push_bit w (take_bit k acc) OR v"
    by (subst (1 2) v [symmetric], rule bit_word_eqI) (auto simp: bit_simps)
  have d: "push_bit w (take_bit k acc) AND v = 0"
    by (subst v [symmetric], rule bit_word_eqI) (auto simp: bit_simps)
  have o: "push_bit w (take_bit k acc) OR v = push_bit w (take_bit k acc) + v"
    using d by (simp add: disjunctive_add_eq_or)
  have k: "unat (take_bit k acc) < 2 ^ k"
    by (simp add: unsigned_take_bit_eq)
  have b: "unat (take_bit k acc) * 2 ^ w + unat v < 2 ^ 32"
  proof -
    have "unat (take_bit k acc) * 2 ^ w + unat v < (unat (take_bit k acc) + 1) * 2 ^ w"
      using assms(1) by simp
    also have "\<dots> \<le> 2 ^ k * 2 ^ w" using k by (intro mult_right_mono) simp_all
    also have "\<dots> = 2 ^ (k + w)" by (simp add: power_add)
    also have "\<dots> \<le> 2 ^ 32" using assms(2) by (rule power_increasing) simp
    finally show ?thesis .
  qed
  have "unat (push_bit w (take_bit k acc)) = unat (take_bit k acc) * 2 ^ w"
  proof -
    have "unat (push_bit w (take_bit k acc)) = take_bit 32 (push_bit w (unat (take_bit k acc)))"
      by (simp add: unsigned_push_bit_eq)
    also have "\<dots> = take_bit 32 (unat (take_bit k acc) * 2 ^ w)"
      by (simp only: push_bit_eq_mult)
    finally show ?thesis using b by (simp add: take_bit_nat_eq_self)
  qed
  then show ?thesis using b by (simp add: e o unat_word_ariths del: take_bit_or)
qed

lemma unat_append_byte:
  fixes x :: u32
  assumes "unat x < 2 ^ 24"
  shows "unat (push_bit 8 x OR ucast (y :: byte)) = unat x * 256 + unat y"
proof -
  have "unat (ucast y :: u32) = unat y"
    using take_bit_nat_eq_self [of "unat y" 32] unat_u8_less [of y] by (simp add: unsigned_ucast_eq)
  moreover have "take_bit 24 x = x"
    using assms by (simp add: word_unat_eq_iff unsigned_take_bit_eq take_bit_nat_eq_self)
  ultimately show ?thesis
    using unat_shift_in [of "ucast y :: u32" 8 24 x] unat_u8_less [of y]
    by (simp add: take_bit_word_eq_self del: take_bit_or push_bit_or)
qed

lemma unat_split_low:
  fixes acc :: u32
  assumes "8 \<le> n" and "n \<le> 32"
  shows "unat (take_bit n acc) =
    unat (ucast (drop_bit (n - 8) acc AND 0xff) :: byte) * 2 ^ (n - 8) + unat (take_bit (n - 8) acc)"
proof -
  have b: "unat (ucast (drop_bit (n - 8) acc AND 0xff) :: byte) = take_bit 8 (drop_bit (n - 8) (unat acc))"
    unfolding and_255
    using take_bit_nat_eq_self [of "unat acc" 32] unat_u32_less [of acc]
    by (simp add: unsigned_ucast_eq unsigned_take_bit_eq unsigned_drop_bit_eq)
  have "take_bit n (unat acc) =
      take_bit 8 (drop_bit (n - 8) (unat acc)) * 2 ^ (n - 8) + take_bit (n - 8) (unat acc)"
  proof -
    have "take_bit n (unat acc) = unat acc mod (2 ^ (n - 8) * 2 ^ 8)"
      using assms power_add [of "2 :: nat" "n - 8" 8] by (simp add: take_bit_eq_mod)
    also have "\<dots> = 2 ^ (n - 8) * (unat acc div 2 ^ (n - 8) mod 2 ^ 8) + unat acc mod 2 ^ (n - 8)"
      by (rule mod_mult2_eq)
    finally show ?thesis by (simp add: take_bit_eq_mod drop_bit_eq_div mult.commute)
  qed
  then show ?thesis using b by (simp add: unsigned_take_bit_eq)
qed

lemma bit_step_number:
  assumes "bits < 8" and "unat v < 2 ^ w" and "w \<le> 8"
    and "bit_step w v (acc, bits, out) = (acc', bits', out')"
  shows "stream_number (acc', bits', out') = stream_number (acc, bits, out) * 2 ^ w + unat v"
    and "bits' < 8" and "8 * length out' + bits' = 8 * length out + bits + w"
proof -
  let ?acc = "push_bit w acc OR v"
  have s: "unat (take_bit (bits + w) ?acc) = unat (take_bit bits acc) * 2 ^ w + unat v"
    using assms by (intro unat_shift_in) simp_all
  show "stream_number (acc', bits', out') = stream_number (acc, bits, out) * 2 ^ w + unat v"
  proof (cases "bits + w \<ge> 8")
    case True
    then have st: "acc' = ?acc" "bits' = bits + w - 8"
      "out' = out @ [ucast (drop_bit (bits + w - 8) ?acc AND 0xff)]"
      using assms(4) by (auto simp: bit_step_def Let_def simp del: drop_bit_or)
    have "stream_number (acc', bits', out') =
        be_number out * (256 * 2 ^ (bits + w - 8)) + unat (take_bit (bits + w) ?acc)"
      using unat_split_low [of "bits + w" ?acc] True assms
      by (simp add: st stream_number_def algebra_simps)
    also have "(256 :: nat) * 2 ^ (bits + w - 8) = 2 ^ bits * 2 ^ w"
      using True power_add [of "2 :: nat" 8 "bits + w - 8"] by (simp add: power_add)
    finally show ?thesis by (simp add: s stream_number_def algebra_simps del: take_bit_or)
  next
    case False
    then have "acc' = ?acc" "bits' = bits + w" "out' = out"
      using assms(4) by (simp_all add: bit_step_def Let_def)
    then show ?thesis by (simp add: s stream_number_def power_add algebra_simps del: take_bit_or)
  qed
  show "bits' < 8" "8 * length out' + bits' = 8 * length out + bits + w"
    using assms by (auto simp: bit_step_def Let_def split: if_splits)
qed

text \<open>The whole run, over the values of the characters.\<close>

fun bit_run :: "nat \<Rightarrow> u32 list \<Rightarrow> u32 \<times> nat \<times> bytes \<Rightarrow> u32 \<times> nat \<times> bytes" where
  "bit_run w [] st = st"
| "bit_run w (v # vs) st = bit_run w vs (bit_step w v st)"

lemma bit_run_append: "bit_run w (xs @ ys) st = bit_run w ys (bit_run w xs st)"
  by (induction xs arbitrary: st) simp_all

lemma bit_run_number:
  assumes "w \<le> 8" and "list_all (\<lambda>v. unat v < 2 ^ w) vs"
    and "bit_run w vs (0, 0, []) = (acc, bits, out)"
  shows "stream_number (acc, bits, out) = digits_number (2 ^ w) (map unat vs)"
    and "bits < 8" and "8 * length out + bits = w * length vs"
  using assms(2,3)
proof (induction vs arbitrary: acc bits out rule: rev_induct)
  case Nil
  {
    case 1 with Nil show ?case by (simp add: stream_number_def)
  next
    case 2 with Nil show ?case by simp
  next
    case 3 with Nil show ?case by simp
  }
next
  case (snoc v vs)
  obtain acc0 bits0 out0 where st: "bit_run w vs (0, 0, []) = (acc0, bits0, out0)"
    by (metis prod_cases3)
  {
    case 1
    with snoc st show ?case
      using bit_step_number(1) [of bits0 v w acc0 out0 acc bits out] assms(1)
      by (simp add: bit_run_append)
  next
    case 2
    with snoc st show ?case
      using bit_step_number(2) [of bits0 v w acc0 out0 acc bits out] assms(1)
      by (simp add: bit_run_append)
  next
    case 3
    with snoc st show ?case
      using bit_step_number(3) [of bits0 v w acc0 out0 acc bits out] assms(1)
      by (simp add: bit_run_append)
  }
qed

lemma trailing_bits_zero_iff:
  "bits < 32 \<Longrightarrow> trailing_bits_zero acc bits \<longleftrightarrow> take_bit bits acc = 0"
proof -
  have "push_bit bits 1 - 1 = (mask bits :: u32)"
    by (simp add: mask_eq_exp_minus_1 push_bit_eq_mult)
  then show ?thesis by (auto simp: trailing_bits_zero_def take_bit_eq_mask)
qed

text \<open>A byte string is determined by its number and its length.\<close>

lemma be_number_inj:
  "length xs = length ys \<Longrightarrow> be_number xs = be_number ys \<Longrightarrow> xs = ys"
proof (induction xs arbitrary: ys rule: rev_induct)
  case Nil
  then show ?case by simp
next
  case (snoc x xs)
  then obtain zs z where ys: "ys = zs @ [z]" by (cases ys rule: rev_cases) auto
  have e: "256 * be_number xs + unat x = 256 * be_number zs + unat z"
    using snoc.prems by (simp add: ys)
  then have "(256 * be_number xs + unat x) mod 256 = (256 * be_number zs + unat z) mod 256" by simp
  then have x: "unat x = unat z"
    using unat_u8_less [of x] unat_u8_less [of z] by simp
  with e have "be_number xs = be_number zs" by simp
  with x snoc ys show ?case by (auto simp: word_unat_eq_iff)
qed

lemma scaled_number_eq:
  fixes a b t :: nat
  assumes "t < 2 ^ k"
  shows "a * 2 ^ k + t = b * 2 ^ k \<longleftrightarrow> t = 0 \<and> a = b"
proof
  assume e: "a * 2 ^ k + t = b * 2 ^ k"
  then have "(a * 2 ^ k + t) mod 2 ^ k = 0" by simp
  then have "t = 0" using assms by simp
  with e show "t = 0 \<and> a = b" by simp
qed simp

text \<open>Both numbers are compositional in the list.\<close>

lemma be_number_append: "be_number (xs @ ys) = be_number xs * 256 ^ length ys + be_number ys"
  by (induction ys rule: rev_induct) (simp_all add: append_assoc [symmetric] algebra_simps del: append_assoc)

lemma digits_number_append:
  "digits_number w (xs @ ys) = digits_number w xs * w ^ length ys + digits_number w ys"
  by (induction ys rule: rev_induct) (simp_all add: append_assoc [symmetric] algebra_simps del: append_assoc)

lemma unat_digits:
  "list_all (\<lambda>d. d < 2 ^ 8) ds \<Longrightarrow> map unat (map of_nat ds :: u32 list) = ds"
  by (induction ds) (auto simp: unat_of_nat)

lemma unat_drop_bit: "unat (drop_bit s (bits :: u32)) = unat bits div 2 ^ s"
proof -
  have "take_bit 32 (unat bits) = unat bits"
    using unat_u32_less [of bits] by (simp add: take_bit_nat_eq_self)
  moreover have "unat (drop_bit s bits) = drop_bit s (take_bit 32 (unat bits))"
    by (simp only: unsigned_drop_bit_eq len_num1 len_bit0 len_bit1) simp
  ultimately show ?thesis by (simp only: drop_bit_eq_div)
qed

end
