(* ===== verification/Totp_Core.thy ===== *)
theory Totp_Core
  imports Bit_Stream
begin

text \<open>
  The TOTP algorithm (\<open>m5auth_totp/totp_core.cpp\<close>): base-32 decoding of the secret, the counter
  message, and the dynamic truncation of the HMAC-SHA1 digest. The HMAC is the parameter
  \<open>provider\<close>, as in the source, where it is a function pointer (\<open>None\<close> is the null pointer): a
  function of key and message that returns a digest or fails. What the code relies on is only
  that a digest has 20 bytes.
\<close>

definition kPeriodSeconds :: u64 where "kPeriodSeconds = 30"
definition kDigits :: u32 where "kDigits = 6"
definition kModulo :: u32 where "kModulo = 1000000"

datatype core_result = CoreOk | CoreInvalidSecret | CoreCryptoError

type_synonym hmac_provider = "bytes \<Rightarrow> bytes \<Rightarrow> bytes option"

section \<open>Base 32\<close>

definition base32_value :: "byte \<Rightarrow> int" where
  "base32_value ch =
     (if 65 \<le> ch \<and> ch \<le> 90 then uint ch - 65
      else if 97 \<le> ch \<and> ch \<le> 122 then uint ch - 97
      else if 50 \<le> ch \<and> ch \<le> 55 then 26 + (uint ch - 50)
      else -1)"

fun decode_base32_loop :: "bytes \<Rightarrow> bool \<Rightarrow> u32 \<times> nat \<times> bytes \<Rightarrow> (u32 \<times> nat \<times> bytes) option" where
  "decode_base32_loop [] padding_started st = Some st"
| "decode_base32_loop (ch # rest) padding_started st =
     (if ch = 61 then decode_base32_loop rest True st
      else if padding_started then None
      else let value = base32_value ch
           in if value < 0 then None
              else decode_base32_loop rest False (bit_step 5 (word_of_int value) st))"

definition decode_base32 :: "bytes \<Rightarrow> bytes option" where
  "decode_base32 encoded =
     (if encoded = [] then None
      else case decode_base32_loop encoded False (0, 0, []) of
        None \<Rightarrow> None
      | Some (accumulator, bits, decoded) \<Rightarrow>
          if decoded = [] then None
          else if \<not> trailing_bits_zero accumulator bits then None
          else Some decoded)"

section \<open>Code generation\<close>

definition counter_message :: "u64 \<Rightarrow> bytes" where
  "counter_message counter =
     map (\<lambda>index. ucast (drop_bit ((7 - index) * 8) counter AND 0xff)) [0, 1, 2, 3, 4, 5, 6, 7]"

definition truncate_digest :: "bytes \<Rightarrow> nat \<Rightarrow> u32" where
  "truncate_digest digest offset =
     push_bit 24 (ucast (digest ! offset AND 0x7f)) OR
     push_bit 16 (ucast (digest ! (offset + 1))) OR
     push_bit 8 (ucast (digest ! (offset + 2))) OR
     ucast (digest ! (offset + 3))"

text \<open>The last argument and the second component of the result are the caller's \<open>*code\<close>.\<close>

definition generate_key_with_provider ::
  "bytes \<Rightarrow> u64 \<Rightarrow> hmac_provider option \<Rightarrow> u32 \<Rightarrow> core_result \<times> u32" where
  "generate_key_with_provider key unix_seconds provider code =
     (if key = [] then (CoreInvalidSecret, code)
      else case provider of
        None \<Rightarrow> (CoreCryptoError, code)
      | Some hmac \<Rightarrow>
          let counter = unix_seconds div kPeriodSeconds;
              message = counter_message counter
          in case hmac key message of
               None \<Rightarrow> (CoreCryptoError, code)
             | Some digest \<Rightarrow>
                 let offset = unat (last digest AND 0x0f)
                 in if offset + 3 \<ge> length digest then (CoreCryptoError, code)
                    else (CoreOk, truncate_digest digest offset mod kModulo))"

definition generate_raw_with_provider ::
  "bytes \<Rightarrow> u64 \<Rightarrow> hmac_provider option \<Rightarrow> u32 \<Rightarrow> core_result \<times> u32" where
  "generate_raw_with_provider secret unix_seconds provider code =
     generate_key_with_provider secret unix_seconds provider code"

definition generate_with_provider ::
  "bytes \<Rightarrow> u64 \<Rightarrow> hmac_provider option \<Rightarrow> u32 \<Rightarrow> core_result \<times> u32" where
  "generate_with_provider base32_secret unix_seconds provider code =
     (if provider = None then (CoreCryptoError, code)
      else case decode_base32 base32_secret of
        None \<Rightarrow> (CoreInvalidSecret, code)
      | Some key \<Rightarrow> generate_key_with_provider key unix_seconds provider code)"

section \<open>Specification and correctness: base 32\<close>

text \<open>
  The digits of a text: its characters up to the first \<open>=\<close>, by value. A text is well formed if
  it is such a run of digits followed by padding only.
\<close>

definition base32_digits :: "bytes \<Rightarrow> nat list" where
  "base32_digits s = map (\<lambda>ch. nat (base32_value ch)) (takeWhile (\<lambda>ch. ch \<noteq> 61) s)"

definition base32_wf :: "bytes \<Rightarrow> bool" where
  "base32_wf s \<longleftrightarrow> list_all (\<lambda>ch. 0 \<le> base32_value ch) (takeWhile (\<lambda>ch. ch \<noteq> 61) s) \<and>
     list_all (\<lambda>ch. ch = 61) (dropWhile (\<lambda>ch. ch \<noteq> 61) s)"

lemma base32_value_range: "base32_value ch < 32 \<and> -1 \<le> base32_value ch"
  by (simp add: base32_value_def word_le_def)

lemma unat_base32_value:
  "0 \<le> base32_value ch \<Longrightarrow> unat (word_of_int (base32_value ch) :: u32) = nat (base32_value ch)"
  using base32_value_range [of ch] by (simp add: unat_eq_nat_uint uint_word_of_int)

lemma padding_loop:
  "decode_base32_loop s True st = (if list_all (\<lambda>ch. ch = 61) s then Some st else None)"
  by (induction s) (auto simp: Let_def)

lemma decode_base32_loop_eq:
  "decode_base32_loop s False st =
     (if base32_wf s then Some (bit_run 5 (map of_nat (base32_digits s)) st) else None)"
proof (induction s arbitrary: st)
  case Nil
  then show ?case by (simp add: base32_wf_def base32_digits_def)
next
  case (Cons ch s)
  show ?case
  proof (cases "ch = 61")
    case True
    then show ?thesis by (simp add: padding_loop base32_wf_def base32_digits_def)
  next
    case False
    have "of_nat (nat (base32_value ch)) = (word_of_int (base32_value ch) :: u32)"
      if "0 \<le> base32_value ch" using that by (simp add: of_nat_nat)
    with False Cons show ?thesis
      by (auto simp: base32_wf_def base32_digits_def Let_def)
  qed
qed

lemma base32_digits_bound: "list_all (\<lambda>d. d < 32) (base32_digits s)"
proof -
  have "nat (base32_value ch) < 32" for ch using base32_value_range [of ch]
    by (cases "0 \<le> base32_value ch") (simp_all add: nat_less_iff)
  then show ?thesis by (simp add: base32_digits_def list_all_iff)
qed

lemma base32_digits_small: "list_all (\<lambda>d. d < 2 ^ 8) (base32_digits s)"
  using base32_digits_bound [of s] by (auto simp: list_all_iff)

text \<open>
  C26. Base-32 decoding of the TOTP secret succeeds exactly on nonempty well-formed texts that
  carry at least one byte and whose unused low bits are zero, and then the key is the
  big-endian number of the digits with those bits (at most seven) dropped.
\<close>

theorem decode_base32_iff:
  "decode_base32 s = Some key \<longleftrightarrow>
   base32_wf s \<and> key \<noteq> [] \<and> length key = 5 * length (base32_digits s) div 8 \<and>
   digits_number 32 (base32_digits s) = be_number key * 2 ^ (5 * length (base32_digits s) mod 8)"
proof -
  let ?ds = "base32_digits s"
  obtain acc bits out where run: "bit_run 5 (map of_nat ?ds) (0, 0, []) = (acc, bits, out)"
    by (metis prod_cases3)
  have b: "list_all (\<lambda>v. unat v < 2 ^ 5) (map of_nat ?ds :: u32 list)"
    using base32_digits_bound [of s] by (auto simp: list_all_iff unat_of_nat)
  have n: "stream_number (acc, bits, out) = digits_number 32 ?ds" "bits < 8"
    "8 * length out + bits = 5 * length ?ds"
    using bit_run_number [OF _ b run] unat_digits [OF base32_digits_small] by simp_all
  have l: "length out = 5 * length ?ds div 8" "bits = 5 * length ?ds mod 8"
  proof -
    have "5 * length ?ds = bits + 8 * length out" using n(3) by simp
    then show "length out = 5 * length ?ds div 8" "bits = 5 * length ?ds mod 8"
      using n(2) by simp_all
  qed
  have z: "trailing_bits_zero acc bits \<longleftrightarrow> take_bit bits acc = 0"
    using n(2) by (intro trailing_bits_zero_iff) simp
  have num: "be_number out * 2 ^ bits + unat (take_bit bits acc) = digits_number 32 ?ds"
    using n(1) by (simp add: stream_number_def)
  have e: "s = [] \<Longrightarrow> out = []" using l(1) by (simp add: base32_digits_def)
  have "decode_base32 s = Some key \<longleftrightarrow>
      base32_wf s \<and> out \<noteq> [] \<and> take_bit bits acc = 0 \<and> key = out"
    using run e by (auto simp: decode_base32_def decode_base32_loop_eq z split: if_splits)
  also have "\<dots> \<longleftrightarrow> base32_wf s \<and> key \<noteq> [] \<and> length key = 5 * length ?ds div 8 \<and>
      digits_number 32 ?ds = be_number key * 2 ^ (5 * length ?ds mod 8)"
  proof -
    have t: "unat (take_bit bits acc) < 2 ^ bits" by (simp add: unsigned_take_bit_eq)
    have "digits_number 32 ?ds = be_number key * 2 ^ bits \<longleftrightarrow>
        take_bit bits acc = 0 \<and> be_number out = be_number key"
      using scaled_number_eq [OF t, of "be_number out" "be_number key"] num
      by (simp add: word_unat_eq_iff)
    then show ?thesis using l be_number_inj [of out key] by auto
  qed
  finally show ?thesis .
qed

section \<open>Specification and correctness: the code\<close>

text \<open>RFC 4226: the 31-bit number at the offset given by the last nibble, modulo \<open>10^6\<close>.\<close>

definition hotp_value :: "bytes \<Rightarrow> nat" where
  "hotp_value digest =
     (let offset = unat (last digest) mod 16
      in be_number (take 4 (drop offset digest)) mod 2 ^ 31 mod 10 ^ 6)"

lemma unat_and_mask: "unat (b AND 0x7f :: byte) = unat b mod 128" "unat (b AND 0x0f :: byte) = unat b mod 16"
proof -
  have "b AND 0x7f = take_bit 7 b" "b AND 0x0f = take_bit 4 b"
    by (simp_all add: take_bit_eq_mask mask_eq_exp_minus_1)
  then show "unat (b AND 0x7f) = unat b mod 128" "unat (b AND 0x0f) = unat b mod 16"
    by (simp_all add: unat_mod take_bit_eq_mod)
qed

lemma be4_bound:
  fixes r b c d :: nat
  assumes "r < 128" "b < 256" "c < 256" "d < 256"
  shows "((r * 256 + b) * 256 + c) * 256 + d < 2147483648"
  using assms unfolding distrib_right by linarith

lemma truncate_digest_number:
  assumes "offset + 3 < length digest"
  shows "unat (truncate_digest digest offset) = be_number (take 4 (drop offset digest)) mod 2 ^ 31"
proof -
  obtain a b c d rest where d: "drop offset digest = a # b # c # d # rest"
  proof -
    have "4 \<le> length (drop offset digest)" using assms by simp
    then show ?thesis using that
      by (cases "drop offset digest"; cases "tl (drop offset digest)";
          cases "tl (tl (drop offset digest))"; cases "tl (tl (tl (drop offset digest)))") auto
  qed
  have i: "digest ! offset = a" "digest ! (offset + 1) = b" "digest ! (offset + 2) = c"
    "digest ! (offset + 3) = d"
    using d assms nth_drop [of offset digest 0] nth_drop [of offset digest 1]
      nth_drop [of offset digest 2] nth_drop [of offset digest 3] by simp_all
  let ?a = "ucast (a AND 0x7f) :: u32"
  let ?ab = "push_bit 8 ?a OR ucast b"
  let ?abc = "push_bit 8 ?ab OR ucast c"
  have a: "unat ?a = unat a mod 128"
    by (simp add: unsigned_ucast_eq take_bit_nat_eq_self unat_and_mask)
  have ab: "unat ?ab = unat a mod 128 * 256 + unat b"
    using a by (subst unat_append_byte) simp_all
  have abc: "unat ?abc = (unat a mod 128 * 256 + unat b) * 256 + unat c"
    using ab unat_u8_less [of b] by (subst unat_append_byte) simp_all
  have "truncate_digest digest offset = push_bit 8 ?abc OR ucast d"
    by (simp only: truncate_digest_def i push_bit_or push_bit_push_bit or.assoc) simp
  then have "unat (truncate_digest digest offset) =
      ((unat a mod 128 * 256 + unat b) * 256 + unat c) * 256 + unat d"
    using abc unat_u8_less [of b] unat_u8_less [of c] by (simp only:) (subst unat_append_byte, simp_all)
  also have "\<dots> = (((unat a * 256 + unat b) * 256 + unat c) * 256 + unat d) mod 2 ^ 31"
    (is "?x = ?y mod 2 ^ 31")
  proof -
    obtain q r where qr: "unat a div 128 = q" "unat a mod 128 = r" by blast
    then have "unat a = 128 * q + r" by auto
    then have "?y = ?x + 2147483648 * (unat a div 128)" unfolding qr by simp
    then have "?y = ?x + 2 ^ 31 * (unat a div 128)" by simp
    moreover have "?x < 2147483648"
      by (rule be4_bound) (simp_all add: unat_u8_less)
    then have "?x < 2 ^ 31" by simp
    ultimately show ?thesis by (simp only: mod_mult_self2 mod_less)
  qed
  finally show ?thesis using d by (simp add: be_number_def mult.commute)
qed

lemma be_number_counter_message: "be_number (counter_message c) = unat c"
proof -
  have split: "unat (take_bit (n + 8) c) =
      unat (take_bit n c) + 2 ^ n * unat (ucast (drop_bit n c AND 0xff) :: byte)" for n
  proof -
    have b: "unat (ucast (drop_bit n c AND 0xff) :: byte) = take_bit 8 (drop_bit n (unat c))"
      using take_bit_nat_eq_self [of "unat c" 64] unat_u64_less [of c] unfolding and_255
      by (simp add: unsigned_ucast_eq unsigned_take_bit_eq unsigned_drop_bit_eq)
    have t: "unat (take_bit k c) = unat c mod 2 ^ k" for k
      by (simp only: unsigned_take_bit_eq) (simp only: take_bit_eq_mod)
    show ?thesis unfolding b t
      by (simp add: take_bit_eq_mod drop_bit_eq_div power_add mod_mult2_eq)
  qed
  have "unat c = unat (take_bit (56 + 8) c)" by (simp add: take_bit_word_eq_self)
  also have "\<dots> = be_number (counter_message c)"
    using split [of 56] split [of 48] split [of 40] split [of 32] split [of 24] split [of 16]
      split [of 8] split [of 0]
    by (simp add: counter_message_def be_number_def)
  finally show ?thesis ..
qed

lemma generate_key_hotp:
  assumes "\<And>k m d. hmac k m = Some d \<Longrightarrow> length d = 20"
  shows "\<exists>m. length m = 8 \<and> be_number m = unat unix_seconds div 30 \<and>
    generate_key_with_provider key unix_seconds (Some hmac) code =
      (if key = [] then (CoreInvalidSecret, code)
       else case hmac key m of
              None \<Rightarrow> (CoreCryptoError, code)
            | Some d \<Rightarrow> (CoreOk, of_nat (hotp_value d)))"
proof (intro exI conjI)
  let ?m = "counter_message (unix_seconds div kPeriodSeconds)"
  show "length ?m = 8" by (simp add: counter_message_def)
  show "be_number ?m = unat unix_seconds div 30"
    by (simp add: be_number_counter_message kPeriodSeconds_def unat_div)
  show "generate_key_with_provider key unix_seconds (Some hmac) code =
      (if key = [] then (CoreInvalidSecret, code)
       else case hmac key ?m of
              None \<Rightarrow> (CoreCryptoError, code)
            | Some d \<Rightarrow> (CoreOk, of_nat (hotp_value d)))"
  proof (cases "hmac key ?m")
    case (Some d)
    let ?off = "unat (last d AND 0x0f)"
    have len: "length d = 20" using assms Some by blast
    have off: "?off = unat (last d) mod 16" by (rule unat_and_mask)
    then have "?off + 3 < length d" using len by simp
    moreover from this have "truncate_digest d ?off mod kModulo = of_nat (hotp_value d)"
      using truncate_digest_number [of ?off d]
      by (simp add: hotp_value_def off kModulo_def Let_def word_unat_eq_iff unat_mod unat_of_nat)
    ultimately show ?thesis using Some by (simp add: generate_key_with_provider_def Let_def)
  qed (simp_all add: generate_key_with_provider_def Let_def)
qed

text \<open>
  C24. With an HMAC that returns 20-byte digests, code generation computes the RFC 6238 code: it
  fails only for an empty key or when the HMAC fails, leaving the caller's value alone, and
  otherwise returns the RFC 4226 truncation of the HMAC of an 8-byte message whose big-endian
  number is the count of 30-second periods. The offset check never fires.
\<close>

theorem generate_key_correct:
  assumes "\<And>k m d. hmac k m = Some d \<Longrightarrow> length d = 20"
  shows "\<exists>m. length m = 8 \<and> be_number m = unat unix_seconds div 30 \<and>
    generate_key_with_provider key unix_seconds (Some hmac) code =
      (if key = [] then (CoreInvalidSecret, code)
       else case hmac key m of
              None \<Rightarrow> (CoreCryptoError, code)
            | Some d \<Rightarrow> (CoreOk, of_nat (hotp_value d)))"
  using assms by (rule generate_key_hotp)

definition rfc4226_digest :: bytes where
  "rfc4226_digest = [0x1f, 0x86, 0x98, 0x69, 0x0e, 0x02, 0xca, 0x16, 0x61, 0x85,
     0x50, 0xef, 0x7f, 0x19, 0xda, 0x8e, 0x94, 0x5b, 0x55, 0x5a]"

theorem generate_key_correct_witness:
  "\<exists>m. be_number m = 1 \<and>
     generate_key_with_provider [1] 59 (Some (\<lambda>k m. Some rfc4226_digest)) 0 = (CoreOk, 872921)"
proof -
  have l: "\<And>k m d. (\<lambda>k m. Some rfc4226_digest) k m = Some d \<Longrightarrow> length d = 20"
    by (auto simp: rfc4226_digest_def)
  have h: "hotp_value rfc4226_digest = 872921"
    by (simp add: hotp_value_def rfc4226_digest_def be_number_def Let_def)
  from generate_key_correct [of "\<lambda>k m. Some rfc4226_digest" 59 "[1]" 0] l h
  show ?thesis by auto
qed

text \<open>
  A generated code has at most six decimal digits, whatever the HMAC returns; every failure
  leaves the caller's previous value untouched.
\<close>

theorem generate_with_provider_bounds:
  "case generate_with_provider secret unix_seconds provider code of
     (CoreOk, code') \<Rightarrow> unat code' < 10 ^ unat kDigits
   | (_, code') \<Rightarrow> code' = code"
proof -
  have "unat (x mod kModulo) < 1000000" for x
    by (simp add: kModulo_def unat_mod)
  then show ?thesis
    by (auto simp: generate_with_provider_def generate_key_with_provider_def kDigits_def Let_def
        split: option.splits)
qed

end
