(* ===== verification/Trusted_Time.thy ===== *)
theory Trusted_Time
  imports Prelude
begin

text \<open>
  The current-boot trusted clock (\<open>m5auth_time/trusted_time.cpp\<close>). Unix seconds are 64-bit
  unsigned words. The monotonic timer is a signed 64-bit count of microseconds; it is an
  integer here, with \<open>int64\<close> for its range: the only arithmetic the code does on it is the
  difference of two timer readings after it has checked their order, and the comparison of that
  difference with constants. The mutex serialises the methods, so each is one atomic function.
\<close>

definition kResyncIntervalSeconds :: int where "kResyncIntervalSeconds = 6 * 60 * 60"
definition kStaleAfterSeconds :: int where "kStaleAfterSeconds = 24 * 60 * 60"
definition kMaxNtpJumpSeconds :: u64 where "kMaxNtpJumpSeconds = 300"

lemmas time_constants [m5_simps] =
  kResyncIntervalSeconds_def kStaleAfterSeconds_def kMaxNtpJumpSeconds_def

datatype readiness = NotSynced | Ready | Stale

datatype time_source = SourceNone | SourceNtp | SourceUsb

record time_snapshot =
  ts_readiness :: readiness
  ts_source :: time_source
  ts_last_sync_unix_seconds :: u64
  ts_age_seconds :: int
  ts_resync_due :: bool

definition initial_snapshot :: time_snapshot where
  "initial_snapshot = \<lparr>ts_readiness = NotSynced, ts_source = SourceNone,
     ts_last_sync_unix_seconds = 0, ts_age_seconds = 0, ts_resync_due = False\<rparr>"

record trusted_clock =
  tc_synchronized :: bool
  tc_base_unix_seconds :: u64
  tc_base_monotonic_us :: int
  tc_source :: time_source

definition initial_clock :: trusted_clock where
  "initial_clock = \<lparr>tc_synchronized = False, tc_base_unix_seconds = 0,
     tc_base_monotonic_us = 0, tc_source = SourceNone\<rparr>"

definition elapsed_us :: "int \<Rightarrow> int \<Rightarrow> int" where
  "elapsed_us now_monotonic_us base_monotonic_us =
     (if now_monotonic_us < base_monotonic_us then -1 else now_monotonic_us - base_monotonic_us)"

definition mark_synchronized ::
  "u64 \<Rightarrow> int \<Rightarrow> time_source \<Rightarrow> trusted_clock \<Rightarrow> trusted_clock" where
  "mark_synchronized unix_seconds monotonic_us source c =
     c\<lparr>tc_synchronized := True, tc_base_unix_seconds := unix_seconds,
       tc_base_monotonic_us := monotonic_us, tc_source := source\<rparr>"

text \<open>The bounded-jump test: \<open>None\<close> when the projection itself would overflow.\<close>

definition ntp_jump :: "trusted_clock \<Rightarrow> u64 \<Rightarrow> int \<Rightarrow> u64 option" where
  "ntp_jump c unix_seconds elapsed =
     (let elapsed_seconds = word_of_int (elapsed div 1000000) :: u64
      in if tc_base_unix_seconds c > max_u64 - elapsed_seconds then None
         else let projected = tc_base_unix_seconds c + elapsed_seconds
              in Some (if unix_seconds \<ge> projected then unix_seconds - projected
                       else projected - unix_seconds))"

definition accept_ntp_sample :: "u64 \<Rightarrow> int \<Rightarrow> trusted_clock \<Rightarrow> bool \<times> trusted_clock" where
  "accept_ntp_sample unix_seconds monotonic_us c =
     (let accepted = c\<lparr>tc_synchronized := True, tc_base_unix_seconds := unix_seconds,
                       tc_base_monotonic_us := monotonic_us, tc_source := SourceNtp\<rparr>
      in if tc_synchronized c then
           (let elapsed = elapsed_us monotonic_us (tc_base_monotonic_us c)
            in if elapsed < 0 then (False, c)
               else case ntp_jump c unix_seconds elapsed of
                 None \<Rightarrow> (False, c)
               | Some delta \<Rightarrow>
                   if delta > kMaxNtpJumpSeconds then (False, c) else (True, accepted))
         else (True, accepted))"

definition clock_snapshot :: "int \<Rightarrow> trusted_clock \<Rightarrow> time_snapshot" where
  "clock_snapshot monotonic_us c =
     (if \<not> tc_synchronized c then initial_snapshot
      else
        let result = initial_snapshot\<lparr>ts_source := tc_source c,
                       ts_last_sync_unix_seconds := tc_base_unix_seconds c\<rparr>;
            elapsed = elapsed_us monotonic_us (tc_base_monotonic_us c)
        in if elapsed < 0 then result\<lparr>ts_readiness := Stale, ts_resync_due := True\<rparr>
           else result\<lparr>ts_age_seconds := elapsed div 1000000,
                  ts_resync_due := elapsed \<ge> kResyncIntervalSeconds * 1000000,
                  ts_readiness := (if elapsed > kStaleAfterSeconds * 1000000 then Stale else Ready)\<rparr>)"

definition current_unix_seconds :: "int \<Rightarrow> trusted_clock \<Rightarrow> u64 option" where
  "current_unix_seconds monotonic_us c =
     (if \<not> tc_synchronized c then None
      else
        let elapsed = elapsed_us monotonic_us (tc_base_monotonic_us c)
        in if elapsed < 0 \<or> elapsed > kStaleAfterSeconds * 1000000 then None
           else let elapsed_seconds = word_of_int (elapsed div 1000000) :: u64
                in if tc_base_unix_seconds c > max_u64 - elapsed_seconds then None
                   else Some (tc_base_unix_seconds c + elapsed_seconds))"

definition readiness_name :: "readiness \<Rightarrow> string" where
  "readiness_name r = (case r of NotSynced \<Rightarrow> ''not_synced'' | Ready \<Rightarrow> ''ready'' | Stale \<Rightarrow> ''stale'')"

definition source_name :: "time_source \<Rightarrow> string" where
  "source_name s = (case s of SourceNone \<Rightarrow> ''none'' | SourceNtp \<Rightarrow> ''ntp'' | SourceUsb \<Rightarrow> ''usb'')"

definition source_authenticity_name :: "time_source \<Rightarrow> string" where
  "source_authenticity_name s = (case s of SourceNone \<Rightarrow> ''none''
     | SourceNtp \<Rightarrow> ''unauthenticated_network'' | SourceUsb \<Rightarrow> ''local_host_asserted'')"

section \<open>Projection\<close>

definition int64 :: "int \<Rightarrow> bool" where
  "int64 t \<longleftrightarrow> - (2 ^ 63) \<le> t \<and> t < 2 ^ 63"

text \<open>A clock is well formed when its anchor is a timer reading (the timer starts at 0).\<close>

definition clock_wf :: "trusted_clock \<Rightarrow> bool" where
  "clock_wf c \<longleftrightarrow> 0 \<le> tc_base_monotonic_us c \<and> int64 (tc_base_monotonic_us c)"

definition projected_seconds :: "int \<Rightarrow> trusted_clock \<Rightarrow> int" where
  "projected_seconds t c =
     uint (tc_base_unix_seconds c) + (t - tc_base_monotonic_us c) div 1000000"

lemma quotient_bound: "(1000000 :: int) * q + r = e \<Longrightarrow> 0 \<le> r \<Longrightarrow> e < 9223372036854775808 \<Longrightarrow> q < 18446744073709551616"
  by linarith

lemma uint_seconds:
  assumes "0 \<le> e" "e < 2 ^ 63"
  shows "uint (word_of_int (e div 1000000) :: u64) = e div 1000000"
proof -
  have "e div 1000000 < 18446744073709551616"
    using assms by (intro quotient_bound [of _ "e mod 1000000" e]) simp_all
  moreover have "0 \<le> e div 1000000" using assms by (simp add: pos_imp_zdiv_nonneg_iff)
  ultimately show ?thesis by (simp add: uint_word_of_int take_bit_int_eq_self)
qed

lemma not_overflow_iff: "\<not> (b :: u64) > max_u64 - s \<longleftrightarrow> uint b + uint s < 2 ^ 64"
proof -
  have "uint (max_u64 - s) = 2 ^ 64 - 1 - uint s"
    using uint_sub_if' [of max_u64 s] uint_lt2p [of s] by simp
  then show ?thesis by (auto simp: word_less_def)
qed

lemma uint_plus_no_overflow: "uint (b :: u64) + uint s < 2 ^ 64 \<Longrightarrow> uint (b + s) = uint b + uint s"
  by (simp add: uint_add_lem [symmetric])

text \<open>A reading and the anchor of a well-formed clock differ by less than \<open>2\<^sup>6\<^sup>3\<close>.\<close>

lemma elapsed_bounds:
  assumes "clock_wf c" "int64 t" "tc_base_monotonic_us c \<le> t"
  shows "0 \<le> t - tc_base_monotonic_us c" "t - tc_base_monotonic_us c < 2 ^ 63"
  using assms by (auto simp: clock_wf_def int64_def)

lemma elapsed_us_nonneg: "elapsed_us t b \<ge> 0 \<longleftrightarrow> b \<le> t"
  by (simp add: elapsed_us_def)

lemma elapsed_us_eq: "b \<le> t \<Longrightarrow> elapsed_us t b = t - b"
  by (simp add: elapsed_us_def)

lemma current_unix_seconds_cases:
  assumes "clock_wf c" "int64 t"
  shows "current_unix_seconds t c = Some u \<longleftrightarrow>
    ts_readiness (clock_snapshot t c) = Ready \<and> uint u = projected_seconds t c"
proof (cases "tc_synchronized c \<and> tc_base_monotonic_us c \<le> t
    \<and> t - tc_base_monotonic_us c \<le> kStaleAfterSeconds * 1000000")
  case False
  then show ?thesis
    by (auto simp: current_unix_seconds_def clock_snapshot_def elapsed_us_def initial_snapshot_def
        Let_def)
next
  case True
  define e where "e = t - tc_base_monotonic_us c"
  define s where "s = (word_of_int (e div 1000000) :: u64)"
  have e: "0 \<le> e" "e < 2 ^ 63" using elapsed_bounds [OF assms] True by (auto simp: e_def)
  have us: "uint s = e div 1000000" using uint_seconds [OF e] by (simp add: s_def)
  have ready: "ts_readiness (clock_snapshot t c) = Ready"
    using True by (simp add: clock_snapshot_def elapsed_us_def Let_def)
  have cur: "current_unix_seconds t c =
      (if tc_base_unix_seconds c > max_u64 - s then None else Some (tc_base_unix_seconds c + s))"
    using True by (simp add: current_unix_seconds_def elapsed_us_def Let_def e_def s_def)
  have proj: "projected_seconds t c = uint (tc_base_unix_seconds c) + uint s"
    by (simp add: projected_seconds_def us e_def)
  show ?thesis
  proof (cases "uint (tc_base_unix_seconds c) + uint s < 2 ^ 64")
    case True
    then have "current_unix_seconds t c = Some (tc_base_unix_seconds c + s)"
      using cur not_overflow_iff by metis
    with ready proj uint_plus_no_overflow [OF True] show ?thesis
      by (metis option.inject word_uint_eq_iff)
  next
    case False
    then have "current_unix_seconds t c = None" using cur not_overflow_iff by metis
    moreover have "uint u < 2 ^ 64" using uint_lt2p [of u] by simp
    ultimately show ?thesis using False proj by auto
  qed
qed

lemma projected_diff:
  assumes "t \<le> t'"
  shows "projected_seconds t c \<le> projected_seconds t' c"
    "projected_seconds t' c - projected_seconds t c \<le> (t' - t) div 1000000 + 1"
proof -
  let ?b = "tc_base_monotonic_us c"
  have q: "1000000 * (x div 1000000) + x mod 1000000 = x \<and> 0 \<le> x mod 1000000 \<and> x mod 1000000 < 1000000"
    for x :: int by simp
  show "projected_seconds t c \<le> projected_seconds t' c"
    "projected_seconds t' c - projected_seconds t c \<le> (t' - t) div 1000000 + 1"
    using q [of "t - ?b"] q [of "t' - ?b"] q [of "t' - t"] assms
    by (auto simp: projected_seconds_def)
qed

section \<open>The properties\<close>

text \<open>\<open>current_unix_seconds\<close> hands out a time exactly when the snapshot of the same
  instant says the clock is ready and the projection fits 64 bits, and what it hands out is the
  anchor plus the whole seconds elapsed: a clock that was never synchronised, is older than a
  day, or whose timer ran backwards gives no time.\<close>

theorem current_unix_seconds_iff:
  assumes "clock_wf c" "int64 t"
  shows "current_unix_seconds t c = Some u \<longleftrightarrow>
    ts_readiness (clock_snapshot t c) = Ready \<and> uint u = projected_seconds t c"
  using assms by (rule current_unix_seconds_cases)

lemma current_unix_seconds_iff_witness:
  "\<exists>u. current_unix_seconds 3700000 (mark_synchronized 1000 2500000 SourceUsb initial_clock) = Some u
     \<and> uint u = projected_seconds 3700000 (mark_synchronized 1000 2500000 SourceUsb initial_clock)"
  using current_unix_seconds_iff
    [of "mark_synchronized 1000 2500000 SourceUsb initial_clock" 3700000 1001]
  by (simp add: clock_wf_def int64_def mark_synchronized_def initial_clock_def clock_snapshot_def
      elapsed_us_def Let_def projected_seconds_def kStaleAfterSeconds_def)

text \<open>C28. Unauthenticated network time moves a synchronised clock by at most 300 seconds: a
  sample is accepted exactly when the timer did not run backwards, the projection does not
  overflow and the sample lies within 300 seconds of it; the accepted sample becomes the anchor,
  a refused one leaves the whole clock as it was.\<close>

theorem accept_ntp_sample_bounded:
  assumes "clock_wf c" "int64 t" "tc_synchronized c"
  shows "accept_ntp_sample u t c =
    (if tc_base_monotonic_us c \<le> t \<and> projected_seconds t c < 2 ^ 64
          \<and> \<bar>uint u - projected_seconds t c\<bar> \<le> 300
     then (True, mark_synchronized u t SourceNtp c) else (False, c))"
proof (cases "tc_base_monotonic_us c \<le> t")
  case False
  then show ?thesis using assms(3) by (simp add: accept_ntp_sample_def elapsed_us_def)
next
  case True
  define e where "e = t - tc_base_monotonic_us c"
  define s where "s = (word_of_int (e div 1000000) :: u64)"
  have e: "0 \<le> e" "e < 2 ^ 63" using elapsed_bounds [OF assms(1,2)] True by (auto simp: e_def)
  have us: "uint s = e div 1000000" using uint_seconds [OF e] by (simp add: s_def)
  have proj: "projected_seconds t c = uint (tc_base_unix_seconds c) + uint s"
    by (simp add: projected_seconds_def us e_def)
  have el: "elapsed_us t (tc_base_monotonic_us c) = e" using True by (simp add: elapsed_us_def e_def)
  show ?thesis
  proof (cases "uint (tc_base_unix_seconds c) + uint s < 2 ^ 64")
    case False
    then have "ntp_jump c u e = None"
      using not_overflow_iff by (auto simp: ntp_jump_def Let_def s_def)
    then show ?thesis using False proj el e assms(3) by (simp add: accept_ntp_sample_def)
  next
    case fits: True
    define p where "p = tc_base_unix_seconds c + s"
    have p: "uint p = projected_seconds t c" using uint_plus_no_overflow [OF fits] proj p_def by simp
    have j: "ntp_jump c u e = Some (if u \<ge> p then u - p else p - u)"
      using fits not_overflow_iff by (auto simp: ntp_jump_def Let_def s_def p_def)
    have d: "uint (if u \<ge> p then u - p else p - u) = \<bar>uint u - uint p\<bar>"
      by (auto simp: word_le_def uint_sub_if')
    have "(if u \<ge> p then u - p else p - u) > kMaxNtpJumpSeconds \<longleftrightarrow> \<bar>uint u - uint p\<bar> > 300"
      unfolding word_less_def d by (simp add: kMaxNtpJumpSeconds_def)
    then show ?thesis using True j p fits proj el e assms(3)
      by (auto simp: accept_ntp_sample_def mark_synchronized_def)
  qed
qed

lemma accept_ntp_sample_bounded_witness:
  "\<not> fst (accept_ntp_sample 2000 3700000 (mark_synchronized 1000 2500000 SourceUsb initial_clock))"
  using accept_ntp_sample_bounded
    [of "mark_synchronized 1000 2500000 SourceUsb initial_clock" 3700000 2000]
  by (simp add: clock_wf_def int64_def mark_synchronized_def initial_clock_def projected_seconds_def)

text \<open>The trusted time never runs backwards between two readings with no synchronisation
  in between, and advances by the elapsed whole seconds up to the rounding of one second.\<close>

theorem current_unix_seconds_mono:
  assumes "clock_wf c" "int64 t" "int64 t'" "t \<le> t'"
    and "current_unix_seconds t c = Some u" "current_unix_seconds t' c = Some u'"
  shows "u \<le> u' \<and> uint u' - uint u \<le> (t' - t) div 1000000 + 1"
  using assms projected_diff [OF assms(4), of c]
  by (simp add: current_unix_seconds_cases word_le_def)

lemma current_unix_seconds_mono_witness:
  "(1001 :: u64) \<le> 1002 \<and> uint (1002 :: u64) - uint (1001 :: u64) \<le> (4600000 - 3700000) div 1000000 + 1"
  using current_unix_seconds_mono
    [of "mark_synchronized 1000 2500000 SourceUsb initial_clock" 3700000 4600000 1001 1002]
  by (simp add: clock_wf_def int64_def mark_synchronized_def initial_clock_def
      current_unix_seconds_def elapsed_us_def Let_def kStaleAfterSeconds_def)

end
