(* ===== verification/Base64url.thy ===== *)
theory Base64url
  imports Bit_Stream
begin

text \<open>
  Canonical base64url without padding, the text form of every binary field of the session
  protocol (\<open>base64url_encode\<close> and \<open>base64url_decode\<close> of
  \<open>m5auth_session/session_protocol_v2.cpp\<close>).
\<close>

definition kAlphabet :: bytes where
  "kAlphabet = ascii ''ABCDEFGHIJKLMNOPQRSTUVWXYZabcdefghijklmnopqrstuvwxyz0123456789-_''"

definition decode_char :: "byte \<Rightarrow> int" where
  "decode_char ch =
     (if 65 \<le> ch \<and> ch \<le> 90 then uint ch - 65
      else if 97 \<le> ch \<and> ch \<le> 122 then uint ch - 97 + 26
      else if 48 \<le> ch \<and> ch \<le> 57 then uint ch - 48 + 52
      else if ch = 45 then 62
      else if ch = 95 then 63
      else -1)"

definition alphabet_at :: "nat \<Rightarrow> u32 \<Rightarrow> byte" where
  "alphabet_at shift bits = kAlphabet ! unat (drop_bit shift bits AND 0x3f)"

fun base64url_encode :: "bytes \<Rightarrow> bytes" where
  "base64url_encode (a # b # c # rest) =
     (let bits = push_bit 16 (ucast a) OR push_bit 8 (ucast b) OR ucast c :: u32
      in [alphabet_at 18 bits, alphabet_at 12 bits, alphabet_at 6 bits, alphabet_at 0 bits]
           @ base64url_encode rest)"
| "base64url_encode [a, b] =
     (let bits = push_bit 16 (ucast a) OR push_bit 8 (ucast b) :: u32
      in [alphabet_at 18 bits, alphabet_at 12 bits, alphabet_at 6 bits])"
| "base64url_encode [a] =
     (let bits = push_bit 16 (ucast a) :: u32
      in [alphabet_at 18 bits, alphabet_at 12 bits])"
| "base64url_encode [] = []"

fun base64url_decode_loop :: "bytes \<Rightarrow> u32 \<times> nat \<times> bytes \<Rightarrow> (u32 \<times> nat \<times> bytes) option" where
  "base64url_decode_loop [] st = Some st"
| "base64url_decode_loop (ch # rest) st =
     (let decoded = decode_char ch
      in if decoded < 0 then None
         else base64url_decode_loop rest (bit_step 6 (word_of_int decoded) st))"

definition base64url_decode :: "bytes \<Rightarrow> bytes option" where
  "base64url_decode v =
     (if length v mod 4 = 1 then None
      else case base64url_decode_loop v (0, 0, []) of
        None \<Rightarrow> None
      | Some (accumulator, bits, output) \<Rightarrow>
          if \<not> trailing_bits_zero accumulator bits then None
          else if base64url_encode output \<noteq> v then None
          else Some output)"

section \<open>The alphabet\<close>

lemma decode_alphabet: "list_all (\<lambda>i. decode_char (kAlphabet ! i) = int i) [0..<64]"
  by code_simp

lemma decode_char_alphabet: "i < 64 \<Longrightarrow> decode_char (kAlphabet ! i) = int i"
  using decode_alphabet by (simp add: list_all_iff)

section \<open>Digits of a byte string\<close>

fun base64_digits :: "bytes \<Rightarrow> nat list" where
  "base64_digits (a # b # c # rest) =
     (let n = be_number [a, b, c]
      in [n div 2 ^ 18 mod 64, n div 2 ^ 12 mod 64, n div 2 ^ 6 mod 64, n mod 64] @ base64_digits rest)"
| "base64_digits [a, b] =
     (let n = be_number [a, b, 0] in [n div 2 ^ 18 mod 64, n div 2 ^ 12 mod 64, n div 2 ^ 6 mod 64])"
| "base64_digits [a] =
     (let n = be_number [a, 0, 0] in [n div 2 ^ 18 mod 64, n div 2 ^ 12 mod 64])"
| "base64_digits [] = []"

definition pad_bits :: "bytes \<Rightarrow> nat" where
  "pad_bits v = (case length v mod 3 of 0 \<Rightarrow> 0 | Suc 0 \<Rightarrow> 4 | _ \<Rightarrow> 2)"

lemma unat_group:
  "unat (push_bit 16 (ucast a) OR push_bit 8 (ucast b) OR ucast c :: u32) = be_number [a, b, c]"
proof -
  have u: "unat (ucast y :: u32) = unat y" for y :: byte
    using take_bit_nat_eq_self [of "unat y" 32] unat_u8_less [of y] by (simp add: unsigned_ucast_eq)
  have e: "push_bit 16 (ucast a) OR push_bit 8 (ucast b) OR ucast c =
      (push_bit 8 (push_bit 8 (ucast a) OR ucast b) OR ucast c :: u32)"
    by (simp only: push_bit_or push_bit_push_bit or.assoc) simp
  have "unat (push_bit 8 (ucast a) OR ucast b :: u32) = unat a * 256 + unat b"
    using unat_append_byte [of "ucast a" b] unat_u8_less [of a] by (simp add: u)
  then show ?thesis
    unfolding e using unat_append_byte [of "push_bit 8 (ucast a) OR ucast b" c]
      unat_u8_less [of a] unat_u8_less [of b]
    by (simp add: be_number_def algebra_simps del: push_bit_or)
qed

lemma alphabet_at_number: "alphabet_at s bits = kAlphabet ! (unat bits div 2 ^ s mod 64)"
proof -
  have "drop_bit s bits AND 0x3f = take_bit 6 (drop_bit s bits)"
    by (simp add: take_bit_eq_mask mask_eq_exp_minus_1)
  moreover have "unat (take_bit 6 (drop_bit s bits)) = unat bits div 2 ^ s mod 64"
    using unat_drop_bit [of s bits] by (simp only: unsigned_take_bit_eq) (simp add: take_bit_eq_mod)
  ultimately show ?thesis by (simp only: alphabet_at_def)
qed

lemma base64url_encode_digits: "base64url_encode v = map (\<lambda>d. kAlphabet ! d) (base64_digits v)"
proof (induction v rule: base64url_encode.induct)
  case (2 a b)
  show ?case using unat_group [of a b 0]
    by (simp add: Let_def alphabet_at_number del: push_bit_or)
next
  case (3 a)
  show ?case using unat_group [of a 0 0]
    by (simp add: Let_def alphabet_at_number del: push_bit_or)
qed (simp_all add: Let_def alphabet_at_number unat_group del: push_bit_or)

lemma base64_digits_bound: "list_all (\<lambda>d. d < 64) (base64_digits v)"
  by (induction v rule: base64_digits.induct) (simp_all add: Let_def)

lemma pad_bits_step: "pad_bits (a # b # c # v) = pad_bits v"
  by (simp add: pad_bits_def)

lemma length_base64_digits: "6 * length (base64_digits v) = 8 * length v + pad_bits v"
  by (induction v rule: base64_digits.induct) (simp_all add: Let_def pad_bits_step pad_bits_def)

lemma group_digits:
  fixes n :: nat
  assumes "n < 2 ^ 24"
  shows "((n div 2 ^ 18 mod 64 * 64 + n div 2 ^ 12 mod 64) * 64 + n div 2 ^ 6 mod 64) * 64 + n mod 64 = n"
proof -
  have "n div 2 ^ 18 < 64" using assms by (simp add: less_mult_imp_div_less)
  moreover have d: "n div 2 ^ 18 = n div 2 ^ 12 div 64" "n div 2 ^ 12 = n div 2 ^ 6 div 64"
    "n div 2 ^ 6 = n div 64" by (simp_all add: div_mult2_eq [symmetric])
  ultimately show ?thesis unfolding d by (simp only: mod_less div_mult_mod_eq)
qed

lemma three_bytes: "be_number [a, b, c] = (unat a * 256 + unat b) * 256 + unat c"
  by (simp add: be_number_def algebra_simps)

lemma be_number_group_less: "be_number [a, b, c] < 2 ^ 24"
  using unat_u8_less [of a] unat_u8_less [of b] unat_u8_less [of c] by (simp add: three_bytes)

lemma digits4: "digits_number 64 [p, q, r, s] = ((p * 64 + q) * 64 + r) * 64 + s"
  by (simp add: digits_number_def algebra_simps)

lemma digits32:
  "digits_number 64 [p, q, r] = (p * 64 + q) * 64 + r" "digits_number 64 [p, q] = p * 64 + q"
  by (simp_all add: digits_number_def algebra_simps)

text \<open>A partial group is a whole one with its last digits dropped.\<close>

lemma group_prefix:
  fixes n :: nat
  assumes "n < 2 ^ 24"
  shows "(n div 2 ^ 18 mod 64 * 64 + n div 2 ^ 12 mod 64) * 64 + n div 2 ^ 6 mod 64 = n div 2 ^ 6"
    and "n div 2 ^ 18 mod 64 * 64 + n div 2 ^ 12 mod 64 = n div 2 ^ 12"
proof -
  have "n div 2 ^ 18 < 64" using assms by (simp add: less_mult_imp_div_less)
  moreover have d: "n div 2 ^ 18 = n div 2 ^ 12 div 64" "n div 2 ^ 12 = n div 2 ^ 6 div 64"
    by (simp_all add: div_mult2_eq [symmetric])
  ultimately show "(n div 2 ^ 18 mod 64 * 64 + n div 2 ^ 12 mod 64) * 64 + n div 2 ^ 6 mod 64 = n div 2 ^ 6"
    "n div 2 ^ 18 mod 64 * 64 + n div 2 ^ 12 mod 64 = n div 2 ^ 12"
    unfolding d by (simp_all only: mod_less div_mult_mod_eq)
qed

lemma power_lengths: "6 * d = 8 * l + p \<Longrightarrow> (64 :: nat) ^ d = 256 ^ l * 2 ^ p"
proof -
  assume e: "6 * d = 8 * l + p"
  have "(64 :: nat) ^ d = 2 ^ (6 * d)" by (simp add: power_mult)
  also have "\<dots> = 2 ^ (8 * l) * 2 ^ p" by (simp add: e power_add)
  finally show ?thesis by (simp add: power_mult)
qed

lemma digits_number_base64: "digits_number 64 (base64_digits v) = be_number v * 2 ^ pad_bits v"
proof (induction v rule: base64_digits.induct)
  case (1 a b c rest)
  have "digits_number 64 (base64_digits (a # b # c # rest)) =
      be_number [a, b, c] * 64 ^ length (base64_digits rest) + digits_number 64 (base64_digits rest)"
    using group_digits [OF be_number_group_less [of a b c]]
    by (simp only: base64_digits.simps Let_def digits_number_append digits4)
  also have "\<dots> = (be_number [a, b, c] * 256 ^ length rest + be_number rest) * 2 ^ pad_bits rest"
    by (simp add: power_lengths [OF length_base64_digits] 1 [OF refl] distrib_right)
  also have "\<dots> = be_number ([a, b, c] @ rest) * 2 ^ pad_bits rest"
    by (simp only: be_number_append)
  finally show ?case by (simp add: pad_bits_step)
next
  case (2 a b)
  have "digits_number 64 (base64_digits [a, b]) = be_number [a, b, 0] div 2 ^ 6"
    using group_prefix(1) [OF be_number_group_less [of a b 0]]
    by (simp only: base64_digits.simps Let_def digits32)
  then show ?case by (simp add: three_bytes be_number_def pad_bits_def algebra_simps)
next
  case (3 a)
  have "digits_number 64 (base64_digits [a]) = be_number [a, 0, 0] div 2 ^ 12"
    using group_prefix(2) [OF be_number_group_less [of a 0 0]]
    by (simp only: base64_digits.simps Let_def digits32)
  then show ?case by (simp add: three_bytes be_number_def pad_bits_def algebra_simps)
qed (simp add: pad_bits_def)

section \<open>The decoder\<close>

lemma decode_loop_digits:
  "list_all (\<lambda>d. d < 64) ds \<Longrightarrow>
   base64url_decode_loop (map (\<lambda>d. kAlphabet ! d) ds) st = Some (bit_run 6 (map of_nat ds) st)"
  by (induction ds arbitrary: st) (simp_all add: decode_char_alphabet Let_def)

lemma pad_bits_values: "pad_bits v = 0 \<or> pad_bits v = 2 \<or> pad_bits v = 4"
  by (simp add: pad_bits_def split: nat.split)

lemma no_single_digit: "24 * q + 6 = 8 * l + p \<Longrightarrow> p = 0 \<or> p = 2 \<or> p = 4 \<Longrightarrow> False" for l :: nat
  by presburger

lemma base64url_decode_encode: "base64url_decode (base64url_encode v) = Some v"
proof -
  let ?ds = "base64_digits v"
  obtain acc bits out where run: "bit_run 6 (map of_nat ?ds) (0, 0, []) = (acc, bits, out)"
    by (metis prod_cases3)
  have u: "map unat (map of_nat ?ds :: u32 list) = ?ds"
    using base64_digits_bound [of v] by (intro unat_digits) (auto simp: list_all_iff)
  have b: "list_all (\<lambda>v. unat v < 2 ^ 6) (map of_nat ?ds :: u32 list)"
    using base64_digits_bound [of v] by (auto simp: list_all_iff unat_of_nat)
  have n: "stream_number (acc, bits, out) = digits_number 64 ?ds" "bits < 8"
    "8 * length out + bits = 6 * length ?ds"
    using bit_run_number [OF _ b run] unfolding u by simp_all
  have p: "pad_bits v \<le> 4" by (simp add: pad_bits_def split: nat.split)
  have len: "8 * length out + bits = 8 * length v + pad_bits v"
    using n(3) length_base64_digits [of v] by simp
  have l1: "length out = length v" using len n(2) p by linarith
  then have l: "length out = length v" "bits = pad_bits v" using len by simp_all
  have e: "be_number out * 2 ^ bits + unat (take_bit bits acc) = be_number v * 2 ^ bits"
    using n(1) by (simp add: stream_number_def digits_number_base64 l)
  have "unat (take_bit bits acc) < 2 ^ bits" by (simp add: unsigned_take_bit_eq)
  then have "unat (take_bit bits acc) = 0" "be_number out = be_number v"
    using e by (simp_all only: scaled_number_eq)
  then have z: "take_bit bits acc = 0" "out = v"
    using be_number_inj [OF l(1)] by (simp_all only: unat_eq_zero)
  have m: "length (base64url_encode v) mod 4 \<noteq> 1"
  proof
    assume "length (base64url_encode v) mod 4 = 1"
    then obtain q where "length ?ds = 4 * q + 1"
      by (metis base64url_encode_digits length_map mult_div_mod_eq)
    then have "24 * q + 6 = 8 * length v + pad_bits v"
      using length_base64_digits [of v] by simp
    then show False using pad_bits_values [of v] no_single_digit by blast
  qed
  have "base64url_decode_loop (base64url_encode v) (0, 0, []) = Some (acc, bits, v)"
    using decode_loop_digits [OF base64_digits_bound [of v], of "(0, 0, [])"] run
    by (simp only: base64url_encode_digits z)
  then show ?thesis
    using n(2) z(1) m by (simp add: base64url_decode_def trailing_bits_zero_iff)
qed

text \<open>C27. base64url is canonical: a text decodes to a byte string exactly when it is the
  encoding of that byte string, so every byte string has one text, every accepted text has one
  byte string, and padding, foreign characters and stray trailing bits are all refused.\<close>

theorem base64url_decode_iff: "base64url_decode t = Some v \<longleftrightarrow> t = base64url_encode v"
  using base64url_decode_encode [of v]
  by (auto simp: base64url_decode_def split: if_splits option.splits)

end
