(* ===== verification/Session_Types.thy ===== *)
theory Session_Types
  imports Prelude
begin

text \<open>
  The types that the session layer shares (\<open>m5auth/session/session.hpp\<close> and
  \<open>m5auth/session/protocol_v2.hpp\<close>): sizes, operations and their names, the presence
  operation each asks for, and the two tests on public keys. That a 65-byte SEC1 key is a point
  of the curve is decided by the crypto library (PSA or OpenSSL): it is the parameter
  \<open>p256_point\<close> of every definition that needs it.
\<close>

definition kAttemptIdBytes :: nat where "kAttemptIdBytes = 16"
definition kDeviceChallengeBytes :: nat where "kDeviceChallengeBytes = 32"
definition kP256PublicKeyBytes :: nat where "kP256PublicKeyBytes = 65"
definition kSessionKeyBytes :: nat where "kSessionKeyBytes = 32"
definition kSessionNonceBytes :: nat where "kSessionNonceBytes = 12"
definition kSessionTagBytes :: nat where "kSessionTagBytes = 16"
definition kBrkSignatureBytes :: nat where "kBrkSignatureBytes = 64"
definition kAttemptTtlMs :: u64 where "kAttemptTtlMs = 30000"
definition kMaxHkdfContextBytes :: nat where "kMaxHkdfContextBytes = 4096"
definition kMaxTranscriptBytes :: nat where "kMaxTranscriptBytes = 16384"

definition kProtocolVersion :: u8 where "kProtocolVersion = 2"
definition kTranscriptVersion :: u8 where "kTranscriptVersion = 1"
definition kTranscriptVaultIdBytes :: nat where "kTranscriptVaultIdBytes = 16"
definition kRegistrationIdBytes :: nat where "kRegistrationIdBytes = 16"
definition kMaxDeviceIdBytes :: nat where "kMaxDeviceIdBytes = 64"
definition kTranscriptFixedBytes :: nat where "kTranscriptFixedBytes = 360"

lemmas session_sizes [m5_simps] =
  kAttemptIdBytes_def kDeviceChallengeBytes_def kP256PublicKeyBytes_def kSessionKeyBytes_def
  kSessionNonceBytes_def kSessionTagBytes_def kBrkSignatureBytes_def kMaxHkdfContextBytes_def
  kMaxTranscriptBytes_def kTranscriptVaultIdBytes_def kRegistrationIdBytes_def kMaxDeviceIdBytes_def
  kTranscriptFixedBytes_def

datatype operation =
    TrustedBrowserUnlock | InitialProvisioning | Recovery | BrowserReplacement | VmkRekey

datatype presence_operation_kind =
    PresTrustedBrowserUnlock | PresInitialProvisioning | PresRecovery | PresBrowserReplacement
  | PresVmkRekey | PresFactoryReset

datatype presence_state = PresenceIdle | PresenceAwaiting | PresenceConfirmed

text \<open>\<open>static_cast<std::uint8_t>(operation)\<close>.\<close>

definition operation_code :: "operation \<Rightarrow> u8" where
  "operation_code operation = (case operation of
     TrustedBrowserUnlock \<Rightarrow> 1 | InitialProvisioning \<Rightarrow> 2 | Recovery \<Rightarrow> 3
   | BrowserReplacement \<Rightarrow> 4 | VmkRekey \<Rightarrow> 5)"

definition operation_name :: "operation \<Rightarrow> bytes" where
  "operation_name operation = (case operation of
     TrustedBrowserUnlock \<Rightarrow> ascii ''trusted_browser_unlock''
   | InitialProvisioning \<Rightarrow> ascii ''initial_provisioning''
   | Recovery \<Rightarrow> ascii ''recovery''
   | BrowserReplacement \<Rightarrow> ascii ''browser_replacement''
   | VmkRekey \<Rightarrow> ascii ''vmk_rekey'')"

definition parse_operation :: "bytes \<Rightarrow> operation option" where
  "parse_operation v =
     (if v = ascii ''trusted_browser_unlock'' then Some TrustedBrowserUnlock
      else if v = ascii ''initial_provisioning'' then Some InitialProvisioning
      else if v = ascii ''recovery'' then Some Recovery
      else if v = ascii ''browser_replacement'' then Some BrowserReplacement
      else if v = ascii ''vmk_rekey'' then Some VmkRekey
      else None)"

definition presence_operation :: "operation \<Rightarrow> presence_operation_kind" where
  "presence_operation operation = (case operation of
     TrustedBrowserUnlock \<Rightarrow> PresTrustedBrowserUnlock
   | InitialProvisioning \<Rightarrow> PresInitialProvisioning
   | Recovery \<Rightarrow> PresRecovery
   | BrowserReplacement \<Rightarrow> PresBrowserReplacement
   | VmkRekey \<Rightarrow> PresVmkRekey)"

definition presence_operation_text :: "presence_operation_kind \<Rightarrow> string" where
  "presence_operation_text operation = (case operation of
     PresTrustedBrowserUnlock \<Rightarrow> ''Browser unlock''
   | PresInitialProvisioning \<Rightarrow> ''Initial setup''
   | PresRecovery \<Rightarrow> ''Recovery''
   | PresBrowserReplacement \<Rightarrow> ''Replace browser''
   | PresVmkRekey \<Rightarrow> ''Re-key Vault''
   | PresFactoryReset \<Rightarrow> ''FACTORY RESET'')"

definition is_zero_public_key :: "bytes \<Rightarrow> bool" where
  "is_zero_public_key key = list_all (\<lambda>v. v = 0) key"

definition valid_p256_public_key :: "(bytes \<Rightarrow> bool) \<Rightarrow> bytes \<Rightarrow> bool" where
  "valid_p256_public_key p256_point public_key =
     (if length public_key \<noteq> kP256PublicKeyBytes \<or> public_key ! 0 \<noteq> 4 then False
      else p256_point public_key)"

definition valid_optional_p256_identity :: "(bytes \<Rightarrow> bool) \<Rightarrow> bytes \<Rightarrow> bool" where
  "valid_optional_p256_identity p256_point key \<longleftrightarrow>
     is_zero_public_key key \<or> valid_p256_public_key p256_point key"

definition deadline_from :: "u64 \<Rightarrow> u64" where
  "deadline_from now_ms =
     (if now_ms > max_u64 - kAttemptTtlMs then max_u64 else now_ms + kAttemptTtlMs)"

lemma deadline_from_eq: "deadline_from now = saturating_deadline kAttemptTtlMs now"
  by (simp add: deadline_from_def saturating_deadline_def)

lemma is_zero_public_key_iff: "is_zero_public_key key \<longleftrightarrow> key = zeros (length key)"
  by (simp add: is_zero_public_key_def all_zero_iff [symmetric] all_zero_def)

lemma valid_p256_nonzero: "valid_p256_public_key p k \<Longrightarrow> \<not> is_zero_public_key k"
  by (cases k) (auto simp: valid_p256_public_key_def is_zero_public_key_def kP256PublicKeyBytes_def
      split: if_splits)

lemma parse_operation_name: "parse_operation (operation_name operation) = Some operation"
  by (cases operation) (simp_all add: parse_operation_def operation_name_def ascii_def)

lemma parse_operation_iff: "parse_operation v = Some operation \<longleftrightarrow> v = operation_name operation"
  using parse_operation_name [of operation]
  by (cases operation) (auto simp: parse_operation_def operation_name_def split: if_splits)

lemma operation_code_inj [simp]: "operation_code a = operation_code b \<longleftrightarrow> a = b"
  by (cases a; cases b) (simp_all add: operation_code_def)

lemma presence_operation_inj: "presence_operation a = presence_operation b \<longleftrightarrow> a = b"
  by (cases a; cases b) (simp_all add: presence_operation_def)

lemma presence_operation_not_reset: "presence_operation a \<noteq> PresFactoryReset"
  by (cases a) (simp_all add: presence_operation_def)

end
