(* ===== verification/User_Presence.thy ===== *)
theory User_Presence
  imports Session_Types
begin

text \<open>
  The physical-presence gate (\<open>m5auth_session/user_presence.cpp\<close>): a state machine fed with
  samples of the button, press events and requests. It is proved against a specification over
  the history of the inputs: a confirmation is possible only if, since the request that is being
  confirmed, the button was seen released in two consecutive samples, then released and pressed
  again, with a press event that is newer than the request and inside its 30 seconds.
\<close>

record presence_gate =
  pg_state :: presence_state
  pg_operation :: presence_operation_kind
  pg_attempt_id :: bytes
  pg_expires_at_ms :: u64
  pg_input_generation_at_start :: u64
  pg_neutral_samples :: u8
  pg_input_armed :: bool
  pg_last_input_pressed :: bool
  pg_post_arm_press_edge :: bool

text \<open>\<open>clear\<close> assigns every field its initial value.\<close>

definition gate_clear :: presence_gate where
  "gate_clear = \<lparr>pg_state = PresenceIdle, pg_operation = PresTrustedBrowserUnlock,
     pg_attempt_id = zeros kAttemptIdBytes, pg_expires_at_ms = 0,
     pg_input_generation_at_start = 0, pg_neutral_samples = 0, pg_input_armed = False,
     pg_last_input_pressed = False, pg_post_arm_press_edge = False\<rparr>"

definition gate_begin ::
  "presence_operation_kind \<Rightarrow> bytes \<Rightarrow> u64 \<Rightarrow> u64 \<Rightarrow> presence_gate \<Rightarrow> bool \<times> presence_gate" where
  "gate_begin operation attempt_id now_ms input_generation g =
     (True, gate_clear\<lparr>pg_operation := operation, pg_attempt_id := attempt_id,
        pg_expires_at_ms := deadline_from now_ms,
        pg_input_generation_at_start := input_generation,
        pg_state := PresenceAwaiting\<rparr>)"

definition observe_input_state :: "bool \<Rightarrow> presence_gate \<Rightarrow> presence_gate" where
  "observe_input_state pressed g =
     (if pg_state g \<noteq> PresenceAwaiting then g
      else if \<not> pg_input_armed g then
        (let g = g\<lparr>pg_post_arm_press_edge := False, pg_last_input_pressed := pressed\<rparr>
         in if pressed then g\<lparr>pg_neutral_samples := 0\<rparr>
            else
              let g = (if pg_neutral_samples g < 2
                       then g\<lparr>pg_neutral_samples := pg_neutral_samples g + 1\<rparr> else g)
              in if pg_neutral_samples g \<ge> 2
                 then g\<lparr>pg_input_armed := True, pg_last_input_pressed := False\<rparr>
                 else g)
      else
        let g = (if pressed \<and> \<not> pg_last_input_pressed g then g\<lparr>pg_post_arm_press_edge := True\<rparr>
                 else if \<not> pressed then g\<lparr>pg_post_arm_press_edge := False\<rparr>
                 else g)
        in g\<lparr>pg_last_input_pressed := pressed\<rparr>)"

definition gate_expire :: "u64 \<Rightarrow> presence_gate \<Rightarrow> bool \<times> presence_gate" where
  "gate_expire now_ms g =
     (if pg_state g = PresenceIdle \<or> now_ms < pg_expires_at_ms g then (False, g)
      else (True, gate_clear))"

definition confirm_current :: "u64 \<Rightarrow> u64 \<Rightarrow> presence_gate \<Rightarrow> bool \<times> presence_gate" where
  "confirm_current now_ms input_generation g =
     (let (expired, g) = gate_expire now_ms g
      in if expired \<or> pg_state g \<noteq> PresenceAwaiting then (False, g)
         else if \<not> pg_input_armed g \<or> \<not> pg_post_arm_press_edge g then (False, g)
         else
           let g = g\<lparr>pg_post_arm_press_edge := False\<rparr>
           in if input_generation \<le> pg_input_generation_at_start g then (False, g)
              else (True, g\<lparr>pg_state := PresenceConfirmed\<rparr>))"

definition consume_confirmation :: "bytes \<Rightarrow> u64 \<Rightarrow> presence_gate \<Rightarrow> bool \<times> presence_gate" where
  "consume_confirmation attempt_id now_ms g =
     (let (expired, g) = gate_expire now_ms g
      in if expired \<or> pg_state g \<noteq> PresenceConfirmed then (False, g)
         else if \<not> constant_time_equal attempt_id (pg_attempt_id g) then (False, gate_clear)
         else (True, gate_clear))"

definition gate_cancel :: "presence_gate \<Rightarrow> presence_gate" where
  "gate_cancel g = gate_clear"

definition gate_active :: "presence_gate \<Rightarrow> bool" where
  "gate_active g \<longleftrightarrow> pg_state g \<noteq> PresenceIdle"

section \<open>The gesture quarantine\<close>

record gesture_quarantine =
  gq_active :: bool
  gq_release_observed :: bool
  gq_release_observed_at_ms :: u64
  gq_click_decision_timeout_ms :: u32

definition quarantine_cancel :: gesture_quarantine where
  "quarantine_cancel = \<lparr>gq_active = False, gq_release_observed = False,
     gq_release_observed_at_ms = 0, gq_click_decision_timeout_ms = 0\<rparr>"

definition quarantine_begin :: "u64 \<Rightarrow> u32 \<Rightarrow> gesture_quarantine \<Rightarrow> gesture_quarantine" where
  "quarantine_begin now_ms click_decision_timeout_ms q =
     \<lparr>gq_active = True, gq_release_observed = False, gq_release_observed_at_ms = now_ms,
      gq_click_decision_timeout_ms = click_decision_timeout_ms\<rparr>"

definition quarantine_observe ::
  "bool \<Rightarrow> bool \<Rightarrow> u64 \<Rightarrow> gesture_quarantine \<Rightarrow> gesture_quarantine" where
  "quarantine_observe pressed deciding_click_count now_ms q =
     (if \<not> gq_active q then q
      else if pressed then q\<lparr>gq_release_observed := False\<rparr>
      else if \<not> gq_release_observed q
        then q\<lparr>gq_release_observed := True, gq_release_observed_at_ms := now_ms\<rparr>
      else if deciding_click_count then q
      else if now_ms < gq_release_observed_at_ms q then q
      else if now_ms - gq_release_observed_at_ms q \<le> ucast (gq_click_decision_timeout_ms q) then q
      else quarantine_cancel)"

section \<open>Basic facts\<close>

lemmas gate_defs = gate_clear_def gate_begin_def observe_input_state_def gate_expire_def
  confirm_current_def consume_confirmation_def gate_cancel_def gate_active_def

lemma gate_clear_state [simp]: "pg_state gate_clear = PresenceIdle"
  by (simp add: gate_clear_def)

lemma gate_expire_result:
  "gate_expire now g = (if pg_state g \<noteq> PresenceIdle \<and> pg_expires_at_ms g \<le> now
     then (True, gate_clear) else (False, g))"
  by (auto simp: gate_expire_def)

lemma consume_confirmation_iff:
  "consume_confirmation a now g = (True, g') \<longleftrightarrow>
   pg_state g = PresenceConfirmed \<and> now < pg_expires_at_ms g \<and> a = pg_attempt_id g \<and> g' = gate_clear"
  by (auto simp: consume_confirmation_def gate_expire_result Let_def not_le split: if_splits)

lemma confirm_current_iff:
  "fst (confirm_current now gen g) \<longleftrightarrow>
   pg_state g = PresenceAwaiting \<and> now < pg_expires_at_ms g \<and> pg_input_armed g \<and>
   pg_post_arm_press_edge g \<and> pg_input_generation_at_start g < gen"
  by (auto simp: confirm_current_def gate_expire_result Let_def not_le split: if_splits)

section \<open>Histories\<close>

text \<open>Everything that reaches the gate, in the order in which it arrives.\<close>

datatype gate_input =
    GBegin presence_operation_kind bytes u64 u64
  | GObserve bool
  | GConfirm u64 u64
  | GConsume bytes u64
  | GExpire u64
  | GCancel

fun gate_step :: "gate_input \<Rightarrow> presence_gate \<Rightarrow> presence_gate" where
  "gate_step (GBegin op a now gen) g = snd (gate_begin op a now gen g)"
| "gate_step (GObserve pressed) g = observe_input_state pressed g"
| "gate_step (GConfirm now gen) g = snd (confirm_current now gen g)"
| "gate_step (GConsume a now) g = snd (consume_confirmation a now g)"
| "gate_step (GExpire now) g = snd (gate_expire now g)"
| "gate_step GCancel g = gate_cancel g"

inductive gate_history :: "gate_input list \<Rightarrow> presence_gate \<Rightarrow> bool" where
  start: "gate_history [] gate_clear"
| input: "gate_history es g \<Longrightarrow> gate_history (es @ [e]) (gate_step e g)"

inductive_cases gate_history_NilE: "gate_history [] g"

lemma gate_history_run: "gate_history es (fold gate_step es gate_clear)"
  by (induction es rule: rev_induct) (auto intro: gate_history.intros)

text \<open>
  \<open>gesture\<close>: two consecutive released samples, and the latest run of pressed samples was
  preceded by a released one after (or of) those two.
\<close>

fun samples :: "gate_input list \<Rightarrow> bool list" where
  "samples [] = []"
| "samples (GObserve b # es) = b # samples es"
| "samples (_ # es) = samples es"

definition gesture :: "bool list \<Rightarrow> bool" where
  "gesture bs \<longleftrightarrow> (\<exists>a c n. bs = a @ [False, False] @ c @ replicate (Suc n) True \<and> (c = [] \<or> \<not> last c))"

definition is_restart :: "gate_input \<Rightarrow> bool" where
  "is_restart e \<longleftrightarrow> (case e of GBegin _ _ _ _ \<Rightarrow> True | GCancel \<Rightarrow> True | _ \<Rightarrow> False)"

lemma samples_append [simp]: "samples (es @ fs) = samples es @ samples fs"
  by (induction es rule: samples.induct) simp_all

lemma gesture_edge: "os = a @ [False, False] @ c \<Longrightarrow> \<not> last os \<Longrightarrow> gesture (os @ [True])"
  unfolding gesture_def
  by (rule exI [of _ a], rule exI [of _ c], rule exI [of _ 0]) (auto split: if_splits)

lemma gesture_hold: "gesture os \<Longrightarrow> gesture (os @ [True])"
proof -
  assume "gesture os"
  then obtain a c n where "os = a @ [False, False] @ c @ replicate (Suc n) True" "c = [] \<or> \<not> last c"
    by (auto simp: gesture_def)
  then have "os @ [True] = a @ [False, False] @ c @ replicate (Suc (Suc n)) True \<and> (c = [] \<or> \<not> last c)"
    by (simp add: replicate_append_same)
  then show ?thesis unfolding gesture_def by blast
qed

text \<open>What the sampling fields of an awaiting gate record about the samples of its request.\<close>

definition tracks :: "bool list \<Rightarrow> presence_gate \<Rightarrow> bool" where
  "tracks os g \<longleftrightarrow>
     (if pg_input_armed g
      then (\<exists>a c. os = a @ [False, False] @ c) \<and> pg_last_input_pressed g = last os \<and>
           (pg_post_arm_press_edge g \<longrightarrow> gesture os)
      else \<not> pg_post_arm_press_edge g \<and>
           (pg_neutral_samples g = 0 \<or> (pg_neutral_samples g = 1 \<and> (\<exists>a. os = a @ [False]))))"

lemma tracks_observe:
  assumes "tracks os g" "pg_state g = PresenceAwaiting"
  shows "tracks (os @ [b]) (observe_input_state b g)"
proof (cases "pg_input_armed g")
  case True
  then obtain a c where os: "os = a @ [False, False] @ c" and l: "pg_last_input_pressed g = last os"
    and e: "pg_post_arm_press_edge g \<longrightarrow> gesture os"
    using assms by (auto simp: tracks_def)
  have "\<exists>a c. os @ [b] = a @ [False, False] @ c" using os by auto
  then show ?thesis
    using True assms(2) l e gesture_edge [OF os] gesture_hold [of os]
    by (cases b) (auto simp: tracks_def observe_input_state_def Let_def)
next
  case False
  then have n: "pg_neutral_samples g = 0 \<or> (pg_neutral_samples g = 1 \<and> (\<exists>a. os = a @ [False]))"
    using assms by (simp add: tracks_def)
  show ?thesis
  proof (cases b)
    case True
    then show ?thesis using False assms(2) by (simp add: tracks_def observe_input_state_def Let_def)
  next
    case released: False
    show ?thesis
      using n
    proof
      assume "pg_neutral_samples g = 0"
      then show ?thesis using False released assms(2)
        by (simp add: tracks_def observe_input_state_def Let_def word_le_nat_alt)
    next
      assume "pg_neutral_samples g = 1 \<and> (\<exists>a. os = a @ [False])"
      moreover have "\<exists>aa c. a @ [False, False] = aa @ False # False # c" for a
        by (rule exI [of _ a], rule exI [of _ "[]"]) simp
      ultimately show ?thesis using False released assms(2)
        by (auto simp: tracks_def observe_input_state_def Let_def)
    qed
  qed
qed

lemma observe_frame:
  "pg_state (observe_input_state b g) = pg_state g"
  "pg_operation (observe_input_state b g) = pg_operation g"
  "pg_attempt_id (observe_input_state b g) = pg_attempt_id g"
  "pg_expires_at_ms (observe_input_state b g) = pg_expires_at_ms g"
  "pg_input_generation_at_start (observe_input_state b g) = pg_input_generation_at_start g"
  by (simp_all add: observe_input_state_def Let_def)

text \<open>
  The invariant: which request a busy gate belongs to and, once it is confirmed, the gesture and
  the press event that confirmed it.
\<close>

definition confirmed_by :: "u64 \<Rightarrow> u64 \<Rightarrow> gate_input list \<Rightarrow> bool" where
  "confirmed_by t0 gen0 mid \<longleftrightarrow> (\<exists>m1 now gen m2. mid = m1 @ GConfirm now gen # m2 \<and>
     gesture (samples m1) \<and> gen0 < gen \<and> now < deadline_from t0)"

definition gate_inv :: "gate_input list \<Rightarrow> presence_gate \<Rightarrow> bool" where
  "gate_inv es g \<longleftrightarrow> g = gate_clear \<or>
     (\<exists>pre op a t0 gen0 mid. es = pre @ GBegin op a t0 gen0 # mid \<and> list_all (\<lambda>e. \<not> is_restart e) mid \<and>
        pg_operation g = op \<and> pg_attempt_id g = a \<and> pg_expires_at_ms g = deadline_from t0 \<and>
        pg_input_generation_at_start g = gen0 \<and>
        (pg_state g = PresenceAwaiting \<and> tracks (samples mid) g \<or>
         pg_state g = PresenceConfirmed \<and> confirmed_by t0 gen0 mid))"

lemma confirmed_by_append: "confirmed_by t0 gen0 mid \<Longrightarrow> confirmed_by t0 gen0 (mid @ [e])"
  unfolding confirmed_by_def by fastforce

lemma gate_inv_keep:
  assumes "es = pre @ GBegin op a t0 gen0 # mid" "list_all (\<lambda>e. \<not> is_restart e) mid"
    and "\<not> is_restart e" "pg_operation g = op" "pg_attempt_id g = a"
    and "pg_expires_at_ms g = deadline_from t0" "pg_input_generation_at_start g = gen0"
    and "pg_state g = PresenceAwaiting \<and> tracks (samples (mid @ [e])) g \<or>
         pg_state g = PresenceConfirmed \<and> confirmed_by t0 gen0 (mid @ [e])"
  shows "gate_inv (es @ [e]) g"
  unfolding gate_inv_def
  using assms by (intro disjI2 exI [of _ pre] exI [of _ op] exI [of _ a] exI [of _ t0]
      exI [of _ gen0] exI [of _ "mid @ [e]"]) simp

lemma tracks_edge_used: "tracks os g \<Longrightarrow> tracks os (g\<lparr>pg_post_arm_press_edge := False\<rparr>)"
  by (auto simp: tracks_def)

lemma confirm_cases:
  "snd (confirm_current now gen g) =
   (if pg_state g \<noteq> PresenceIdle \<and> pg_expires_at_ms g \<le> now then gate_clear
    else if pg_state g = PresenceAwaiting \<and> pg_input_armed g \<and> pg_post_arm_press_edge g
      then if gen \<le> pg_input_generation_at_start g then g\<lparr>pg_post_arm_press_edge := False\<rparr>
           else g\<lparr>pg_post_arm_press_edge := False, pg_state := PresenceConfirmed\<rparr>
    else g)"
  by (auto simp: confirm_current_def gate_expire_result Let_def)

lemma consume_cases:
  "snd (consume_confirmation a now g) = g \<or> snd (consume_confirmation a now g) = gate_clear"
  by (auto simp: consume_confirmation_def gate_expire_result Let_def)

lemma gate_inv_busy_step:
  assumes es: "es = pre @ GBegin op a t0 gen0 # mid" and mid: "list_all (\<lambda>e. \<not> is_restart e) mid"
    and f: "pg_operation g = op" "pg_attempt_id g = a" "pg_expires_at_ms g = deadline_from t0"
      "pg_input_generation_at_start g = gen0"
    and st: "pg_state g = PresenceAwaiting \<and> tracks (samples mid) g \<or>
         pg_state g = PresenceConfirmed \<and> confirmed_by t0 gen0 mid"
    and e: "\<not> is_restart e"
  shows "gate_inv (es @ [e]) (gate_step e g)"
proof -
  have keep: "gate_inv (es @ [e]) g" if "\<And>b. e \<noteq> GObserve b"
  proof -
    have "samples (mid @ [e]) = samples mid" using that by (cases e) auto
    then show ?thesis using gate_inv_keep [OF es mid e f] st confirmed_by_append by auto
  qed
  have clear: "gate_inv (es @ [e]) gate_clear" by (simp add: gate_inv_def)
  show ?thesis
  proof (cases e)
    case (GBegin x1 x2 x3 x4)
    with e show ?thesis by (simp add: is_restart_def)
  next
    case GCancel
    with e show ?thesis by (simp add: is_restart_def)
  next
    case (GObserve b)
    have "pg_state g = PresenceAwaiting \<and> tracks (samples mid @ [b]) (observe_input_state b g) \<or>
         pg_state g = PresenceConfirmed \<and> confirmed_by t0 gen0 (mid @ [e])"
      using st tracks_observe confirmed_by_append by blast
    then show ?thesis
      using gate_inv_keep [OF es mid e, of "observe_input_state b g"] f
      by (simp add: GObserve observe_frame)
  next
    case (GConsume x1 x2)
    then show ?thesis using keep clear consume_cases [of x1 x2 g] by auto
  next
    case (GExpire x)
    then show ?thesis using keep clear by (simp add: gate_expire_result)
  next
    case (GConfirm now gen)
    have k: "gate_inv (es @ [e]) g" using keep GConfirm by simp
    have used: "gate_inv (es @ [e]) (g\<lparr>pg_post_arm_press_edge := False\<rparr>)"
      if "pg_state g = PresenceAwaiting"
      using gate_inv_keep [OF es mid e, of "g\<lparr>pg_post_arm_press_edge := False\<rparr>"] f st that
      by (simp add: GConfirm tracks_edge_used)
    have confirmed: "gate_inv (es @ [e])
        (g\<lparr>pg_post_arm_press_edge := False, pg_state := PresenceConfirmed\<rparr>)"
      if "pg_state g = PresenceAwaiting" "pg_input_armed g" "pg_post_arm_press_edge g" "gen0 < gen"
        "now < deadline_from t0"
    proof -
      have "gesture (samples mid)" using st that by (auto simp: tracks_def)
      then have "confirmed_by t0 gen0 (mid @ [e])"
        using that unfolding confirmed_by_def GConfirm by blast
      then show ?thesis
        using gate_inv_keep [OF es mid e, of "g\<lparr>pg_post_arm_press_edge := False, pg_state := PresenceConfirmed\<rparr>"] f
        by simp
    qed
    show ?thesis
      using k used confirmed clear f by (auto simp: GConfirm confirm_cases not_le)
  qed
qed

lemma gate_inv_step: "gate_inv es g \<Longrightarrow> gate_inv (es @ [e]) (gate_step e g)"
proof -
  assume inv: "gate_inv es g"
  show ?thesis
  proof (cases "is_restart e")
    case True
    show ?thesis
    proof (cases e)
      case (GBegin op a t0 gen0)
      have "gate_inv (es @ [e]) (gate_step e g)"
        unfolding gate_inv_def GBegin
        by (intro disjI2 exI [of _ es] exI [of _ op] exI [of _ a] exI [of _ t0] exI [of _ gen0]
            exI [of _ "[]"]) (simp add: gate_begin_def tracks_def gate_clear_def)
      then show ?thesis .
    qed (use True in \<open>simp_all add: is_restart_def gate_cancel_def gate_inv_def\<close>)
  next
    case False
    show ?thesis
    proof (cases "g = gate_clear")
      case True
      then have "gate_step e g = gate_clear"
        using False by (cases e) (simp_all add: is_restart_def observe_input_state_def
            confirm_current_def consume_confirmation_def gate_expire_def)
      then show ?thesis by (simp add: gate_inv_def)
    next
      case busy: False
      then show ?thesis using inv False gate_inv_busy_step unfolding gate_inv_def [of es] by blast
    qed
  qed
qed

lemma gate_history_inv: "gate_history es g \<Longrightarrow> gate_inv es g"
proof (induction rule: gate_history.induct)
  case start
  show ?case by (simp add: gate_inv_def)
next
  case (input es g e)
  then show ?case by (intro gate_inv_step)
qed

lemma consumed_inputs:
  assumes "gate_history es g" and "consume_confirmation a now g = (True, g')"
  shows "g' = gate_clear \<and> (\<exists>pre op t0 gen0 m1 at gen m2.
     es = pre @ GBegin op a t0 gen0 # m1 @ GConfirm at gen # m2 \<and>
     list_all (\<lambda>e. \<not> is_restart e) (m1 @ m2) \<and> op = pg_operation g \<and>
     gesture (samples m1) \<and> gen0 < gen \<and> at < deadline_from t0 \<and> now < deadline_from t0)"
proof -
  have c: "pg_state g = PresenceConfirmed" "now < pg_expires_at_ms g" "a = pg_attempt_id g"
    "g' = gate_clear" using assms(2) by (simp_all add: consume_confirmation_iff)
  then have "g \<noteq> gate_clear" by auto
  with gate_history_inv [OF assms(1)] c(1) obtain pre op t0 gen0 mid where
    "es = pre @ GBegin op (pg_attempt_id g) t0 gen0 # mid" "list_all (\<lambda>e. \<not> is_restart e) mid"
    "pg_operation g = op" "pg_expires_at_ms g = deadline_from t0" "confirmed_by t0 gen0 mid"
    by (auto simp: gate_inv_def)
  with c show ?thesis unfolding confirmed_by_def by fastforce
qed

text \<open>C8. No presence without a person: if a request's confirmation is consumed for an attempt
  id, then the inputs since the last \<open>begin\<close> (with no cancel in between) are for exactly that id
  and that operation, contain two consecutive released samples followed by a release-to-press
  edge, and after it a press event newer than the one current at \<open>begin\<close>, before the deadline;
  the consumption itself also comes before the deadline, and leaves the gate idle.\<close>

theorem consumed_presence_was_given:
  assumes "gate_history es g" and "consume_confirmation a now g = (True, g')"
  shows "g' = gate_clear \<and> (\<exists>pre op t0 gen0 m1 at gen m2.
     es = pre @ GBegin op a t0 gen0 # m1 @ GConfirm at gen # m2 \<and>
     list_all (\<lambda>e. \<not> is_restart e) (m1 @ m2) \<and> op = pg_operation g \<and>
     gesture (samples m1) \<and> gen0 < gen \<and> at < deadline_from t0 \<and> now < deadline_from t0)"
  using assms by (rule consumed_inputs)

definition given_presence :: "gate_input list" where
  "given_presence = [GBegin PresRecovery (zeros 16) 1000 7, GObserve True, GObserve False,
     GObserve False, GObserve True, GConfirm 1500 8]"

lemma consumed_presence_was_given_witness:
  "\<exists>pre op t0 gen0 m1 at gen m2.
     given_presence = pre @ GBegin op (zeros 16) t0 gen0 # m1 @ GConfirm at gen # m2 \<and>
     gesture (samples m1) \<and> gen0 < gen"
proof -
  let ?g = "fold gate_step given_presence gate_clear"
  have s: "pg_state ?g = PresenceConfirmed" "pg_expires_at_ms ?g = 31000" "pg_attempt_id ?g = zeros 16"
    by (simp_all add: given_presence_def gate_defs Let_def deadline_from_def kAttemptTtlMs_def)
  then have "consume_confirmation (zeros 16) 2000 ?g = (True, gate_clear)"
    by (simp add: consume_confirmation_iff)
  then show ?thesis
    using consumed_presence_was_given [OF gate_history_run, of "zeros 16" 2000 given_presence] by blast
qed

end
