(* ===== verification/Expiry.thy ===== *)
theory Expiry
  imports Prelude
begin

text \<open>
  The interface of everything that lives until a deadline: the presence gate, the session's
  ephemeral key, a revealed code, a factory-reset authorization, a staged key. Each has an
  \<open>expire\<close> that is called from a polling loop with a clock reading. The provider promises when
  \<open>expire\<close> fires and that firing clears; the client may then reason about any number of polls.
\<close>

locale expiring =
  fixes active :: "'s \<Rightarrow> bool"
    and deadline :: "'s \<Rightarrow> u64"
    and cleared :: "'s \<Rightarrow> 's"
    and expire :: "u64 \<Rightarrow> 's \<Rightarrow> bool \<times> 's"
  assumes expire_eq:
      "expire now s = (if active s \<and> deadline s \<le> now then (True, cleared s) else (False, s))"
    and cleared_inactive: "\<not> active (cleared s)"
begin

lemma expire_idem: "expire now (snd (expire now s)) = (False, snd (expire now s))"
  by (simp add: expire_eq cleared_inactive)

lemma expire_live: "active (snd (expire now s)) \<longleftrightarrow> active s \<and> now < deadline s"
  by (auto simp: expire_eq cleared_inactive not_le)

lemma expire_keeps_live: "now < deadline s \<Longrightarrow> expire now s = (False, s)"
  by (auto simp: expire_eq not_le)

text \<open>Any number of polls clears exactly if one of them reads the deadline or later.\<close>

lemma expire_polls:
  "fold (\<lambda>now s. snd (expire now s)) ts s =
     (if active s \<and> (\<exists>t\<in>set ts. deadline s \<le> t) then cleared s else s)"
proof (induction ts arbitrary: s)
  case Nil
  then show ?case by simp
next
  case (Cons t ts)
  then show ?case by (auto simp: expire_eq cleared_inactive)
qed

end

end
