(* ===== verification/Presence_Binding.thy ===== *)
theory Presence_Binding
  imports User_Presence Expiry
begin

text \<open>
  The abstract class \<open>PresenceBinding\<close> (\<open>m5auth/session/protocol_v2.hpp\<close>) through which the
  attempt coordinator reaches the physical button: its four virtual methods are the record
  \<open>presence_ops\<close>, and the locale \<open>presence_binding\<close> is its contract. The firmware
  implements it by \<open>CanonicalPresence\<close>, below.
\<close>

record 'p presence_ops =
  po_begin :: "presence_operation_kind \<Rightarrow> bytes \<Rightarrow> u64 \<Rightarrow> 'p \<Rightarrow> bool \<times> 'p"
  po_consume :: "bytes \<Rightarrow> u64 \<Rightarrow> 'p \<Rightarrow> bool \<times> 'p"
  po_cancel :: "'p \<Rightarrow> 'p"
  po_confirmed :: "'p \<Rightarrow> bool"

locale presence_binding =
  fixes ops :: "'p presence_ops"
    and request :: "'p \<Rightarrow> (presence_operation_kind \<times> bytes) option"
  assumes begin_request: "request (snd (po_begin ops op a now p)) = Some (op, a)"
    and begin_unconfirmed: "\<not> po_confirmed ops (snd (po_begin ops op a now p))"
    and consume_confirmed: "fst (po_consume ops a now p) \<Longrightarrow>
      po_confirmed ops p \<and> (\<exists>op. request p = Some (op, a))"
    and consume_clears: "fst (po_consume ops a now p) \<Longrightarrow> request (snd (po_consume ops a now p)) = None"
    and consume_keeps: "request (snd (po_consume ops a now p)) \<in> {request p, None}"
    and cancel_clears: "request (po_cancel ops p) = None"
    and confirmed_request: "po_confirmed ops p \<Longrightarrow> request p \<noteq> None"
begin

lemma idle_consume: "request p = None \<Longrightarrow> \<not> fst (po_consume ops a now p)"
  using consume_confirmed by fastforce

lemma consume_once:
  "fst (po_consume ops a now p) \<Longrightarrow> \<not> fst (po_consume ops b later (snd (po_consume ops a now p)))"
  by (rule idle_consume) (rule consume_clears)

lemma cancel_consume: "\<not> fst (po_consume ops a now (po_cancel ops p))"
  by (rule idle_consume) (rule cancel_clears)

lemma cancel_unconfirmed: "\<not> po_confirmed ops (po_cancel ops p)"
  using confirmed_request cancel_clears by blast

lemma begin_consume: "\<not> fst (po_consume ops b later (snd (po_begin ops op a now p)))"
  using consume_confirmed begin_unconfirmed by blast

end

section \<open>The gate and the gesture's deadline\<close>

definition gate_request :: "presence_gate \<Rightarrow> (presence_operation_kind \<times> bytes) option" where
  "gate_request g = (if gate_active g then Some (pg_operation g, pg_attempt_id g) else None)"

interpretation gate_ttl: expiring gate_active pg_expires_at_ms "\<lambda>_. gate_clear" gate_expire
  by unfold_locales (auto simp: gate_expire_def gate_active_def not_le)

lemma gate_consume_state:
  "snd (consume_confirmation a now g) = g \<or> snd (consume_confirmation a now g) = gate_clear"
  by (rule consume_cases)

lemma gate_consume_True:
  "fst (consume_confirmation a now g) \<Longrightarrow> pg_state g = PresenceConfirmed \<and> a = pg_attempt_id g \<and>
     snd (consume_confirmation a now g) = gate_clear"
  using consume_confirmation_iff [of a now g "snd (consume_confirmation a now g)"]
  by (cases "consume_confirmation a now g") simp

section \<open>CanonicalPresence\<close>

text \<open>\<open>m5auth_device_sticks3/canonical_device.cpp\<close>; its mutex makes each method atomic.\<close>

record canonical_presence =
  cp_gate :: presence_gate
  cp_button_press_generation :: u64

record presence_view =
  pv_active :: bool
  pv_confirmed :: bool
  pv_operation :: presence_operation_kind

definition canonical_begin_presence ::
  "presence_operation_kind \<Rightarrow> bytes \<Rightarrow> u64 \<Rightarrow> canonical_presence \<Rightarrow> bool \<times> canonical_presence" where
  "canonical_begin_presence op attempt_id now_ms p =
     (let (b, g) = gate_begin op attempt_id now_ms (cp_button_press_generation p) (cp_gate p)
      in (b, p\<lparr>cp_gate := g\<rparr>))"

definition canonical_consume_presence ::
  "bytes \<Rightarrow> u64 \<Rightarrow> canonical_presence \<Rightarrow> bool \<times> canonical_presence" where
  "canonical_consume_presence attempt_id now_ms p =
     (let (b, g) = consume_confirmation attempt_id now_ms (cp_gate p) in (b, p\<lparr>cp_gate := g\<rparr>))"

definition canonical_cancel_presence :: "canonical_presence \<Rightarrow> canonical_presence" where
  "canonical_cancel_presence p = p\<lparr>cp_gate := gate_cancel (cp_gate p)\<rparr>"

definition canonical_presence_confirmed :: "canonical_presence \<Rightarrow> bool" where
  "canonical_presence_confirmed p \<longleftrightarrow> pg_state (cp_gate p) = PresenceConfirmed"

text \<open>The press counter saturates; it counts presses while no request is open as well.\<close>

definition canonical_button_pressed :: "u64 \<Rightarrow> canonical_presence \<Rightarrow> bool \<times> canonical_presence" where
  "canonical_button_pressed now_ms p =
     (let p = (if cp_button_press_generation p \<noteq> max_u64
               then p\<lparr>cp_button_press_generation := cp_button_press_generation p + 1\<rparr> else p)
      in if \<not> gate_active (cp_gate p) then (False, p)
         else let (b, g) = confirm_current now_ms (cp_button_press_generation p) (cp_gate p)
              in (b, p\<lparr>cp_gate := g\<rparr>))"

definition canonical_observe :: "bool \<Rightarrow> canonical_presence \<Rightarrow> canonical_presence" where
  "canonical_observe pressed p = p\<lparr>cp_gate := observe_input_state pressed (cp_gate p)\<rparr>"

definition canonical_expire :: "u64 \<Rightarrow> canonical_presence \<Rightarrow> bool \<times> canonical_presence" where
  "canonical_expire now_ms p =
     (let (b, g) = gate_expire now_ms (cp_gate p) in (b, p\<lparr>cp_gate := g\<rparr>))"

definition canonical_view :: "canonical_presence \<Rightarrow> presence_view" where
  "canonical_view p = \<lparr>pv_active = gate_active (cp_gate p),
     pv_confirmed = (pg_state (cp_gate p) = PresenceConfirmed),
     pv_operation = pg_operation (cp_gate p)\<rparr>"

definition canonical_ops :: "canonical_presence presence_ops" where
  "canonical_ops = \<lparr>po_begin = canonical_begin_presence, po_consume = canonical_consume_presence,
     po_cancel = canonical_cancel_presence, po_confirmed = canonical_presence_confirmed\<rparr>"

lemmas canonical_defs = canonical_begin_presence_def canonical_consume_presence_def
  canonical_cancel_presence_def canonical_presence_confirmed_def canonical_button_pressed_def
  canonical_observe_def canonical_expire_def canonical_ops_def

lemma canonical_consume_result:
  "canonical_consume_presence a now p =
     (fst (consume_confirmation a now (cp_gate p)),
      p\<lparr>cp_gate := snd (consume_confirmation a now (cp_gate p))\<rparr>)"
  by (simp add: canonical_consume_presence_def split: prod.split)

interpretation canonical: presence_binding canonical_ops "\<lambda>p. gate_request (cp_gate p)"
proof
  fix op a now p
  show "gate_request (cp_gate (snd (po_begin canonical_ops op a now p))) = Some (op, a)"
    "\<not> po_confirmed canonical_ops (snd (po_begin canonical_ops op a now p))"
    by (simp_all add: canonical_defs gate_begin_def gate_request_def gate_active_def gate_clear_def)
  show "gate_request (cp_gate (po_cancel canonical_ops p)) = None"
    by (simp add: canonical_defs gate_cancel_def gate_request_def gate_active_def)
  show "po_confirmed canonical_ops p \<Longrightarrow> gate_request (cp_gate p) \<noteq> None"
    by (auto simp: canonical_defs gate_request_def gate_active_def)
  show "gate_request (cp_gate (snd (po_consume canonical_ops a now p))) \<in> {gate_request (cp_gate p), None}"
    using gate_consume_state [of a now "cp_gate p"]
    by (auto simp: canonical_ops_def canonical_consume_result gate_request_def gate_active_def)
  assume "fst (po_consume canonical_ops a now p)"
  then show "po_confirmed canonical_ops p \<and> (\<exists>op. gate_request (cp_gate p) = Some (op, a))"
    "gate_request (cp_gate (snd (po_consume canonical_ops a now p))) = None"
    using gate_consume_True [of a now "cp_gate p"]
    by (auto simp: canonical_ops_def canonical_consume_result canonical_presence_confirmed_def
        gate_request_def gate_active_def)
qed

end
