(* ===== verification/Transcript.thy ===== *)
theory Transcript
  imports Session_Types Codec
begin

text \<open>
  The binary transcript that binds every field of a session attempt
  (\<open>encode_transcript\<close> of \<open>m5auth_session/session_protocol_v2.cpp\<close>). It is the message the
  browser signs and the HKDF info and the associated data of the delivered key, so what matters
  is that it determines every field.
\<close>

record transcript_input =
  ti_operation :: operation
  ti_device_id :: bytes
  ti_vault_id :: bytes
  ti_expected_generation :: u64
  ti_registration_id :: bytes
  ti_registration_epoch :: u32
  ti_attempt_id :: bytes
  ti_challenge :: bytes
  ti_device_ephemeral_public_key :: bytes
  ti_web_ephemeral_public_key :: bytes
  ti_current_brk_public_key :: bytes
  ti_proposed_brk_public_key :: bytes

definition append_u32 :: "bytes \<Rightarrow> u32 \<Rightarrow> bytes" where
  "append_u32 out value =
     out @ [ucast (drop_bit 24 value AND 0xff), ucast (drop_bit 16 value AND 0xff),
            ucast (drop_bit 8 value AND 0xff), ucast (value AND 0xff)]"

text \<open>The \<open>switch\<close> on the operation: the case is refused when this is true.\<close>

definition transcript_operation_rejected :: "transcript_input \<Rightarrow> bool" where
  "transcript_operation_rejected input = (case ti_operation input of
     TrustedBrowserUnlock \<Rightarrow>
       is_zero_public_key (ti_current_brk_public_key input) \<or> ti_registration_epoch input = 0
   | InitialProvisioning \<Rightarrow>
       \<not> is_zero_public_key (ti_current_brk_public_key input) \<or>
       is_zero_public_key (ti_proposed_brk_public_key input) \<or> ti_registration_epoch input \<noteq> 0
   | Recovery \<Rightarrow> is_zero_public_key (ti_proposed_brk_public_key input)
   | BrowserReplacement \<Rightarrow> is_zero_public_key (ti_proposed_brk_public_key input)
   | VmkRekey \<Rightarrow>
       is_zero_public_key (ti_current_brk_public_key input) \<or> ti_registration_epoch input = 0)"

definition transcript_bytes :: "transcript_input \<Rightarrow> bytes" where
  "transcript_bytes input =
     (let output = [] @ ascii ''M5AS'';
          output = output @ [kTranscriptVersion];
          output = output @ [kProtocolVersion];
          output = output @ [operation_code (ti_operation input)];
          output = output @ [word_of_nat (length (ti_device_id input))];
          output = output @ ti_device_id input;
          output = output @ ti_vault_id input;
          output = append_u64 output (ti_expected_generation input);
          output = output @ ti_registration_id input;
          output = append_u32 output (ti_registration_epoch input);
          output = output @ ti_attempt_id input;
          output = output @ ti_challenge input;
          output = output @ ti_device_ephemeral_public_key input;
          output = output @ ti_web_ephemeral_public_key input;
          output = output @ ti_current_brk_public_key input
      in output @ ti_proposed_brk_public_key input)"

definition encode_transcript :: "(bytes \<Rightarrow> bool) \<Rightarrow> transcript_input \<Rightarrow> bytes option" where
  "encode_transcript p256_point input =
     (if ti_device_id input = [] \<or> length (ti_device_id input) > kMaxDeviceIdBytes then None
      else if \<not> valid_p256_public_key p256_point (ti_device_ephemeral_public_key input)
            \<or> \<not> valid_p256_public_key p256_point (ti_web_ephemeral_public_key input) then None
      else if \<not> valid_optional_p256_identity p256_point (ti_current_brk_public_key input)
            \<or> \<not> valid_optional_p256_identity p256_point (ti_proposed_brk_public_key input) then None
      else if transcript_operation_rejected input then None
      else
        let output = transcript_bytes input
        in if length output = kTranscriptFixedBytes + length (ti_device_id input)
           then Some output else None)"

section \<open>Big-endian fields\<close>

definition be32 :: "u32 \<Rightarrow> bytes" where
  "be32 v = append_u32 [] v"

lemma append_u32_be32 [codec_simps]: "append_u32 out v = out @ be32 v"
  by (simp add: append_u32_def be32_def)

lemma length_be32 [simp]: "length (be32 v) = 4"
  by (simp add: be32_def append_u32_def)

lemma be32_inj [simp]: "be32 v = be32 w \<longleftrightarrow> v = w"
proof
  assume "be32 v = be32 w"
  then have "ucast (drop_bit k v AND 0xff) = (ucast (drop_bit k w AND 0xff) :: byte)"
    if "k \<in> {0, 8, 16, 24}" for k
    using that by (auto simp: be32_def append_u32_def)
  then have k: "bit v (k + n) \<longleftrightarrow> bit w (k + n)" if "k \<in> {0, 8, 16, 24}" "n < 8" for k n
  proof -
    from that have "bit (ucast (drop_bit k v AND 0xff) :: byte) n \<longleftrightarrow>
        bit (ucast (drop_bit k w AND 0xff) :: byte) n"
      using \<open>\<And>k. k \<in> _ \<Longrightarrow> _\<close> by simp
    then show ?thesis using that(2) unfolding and_255 by (auto simp: bit_simps dest: bit_imp_le_length)
  qed
  show "v = w"
  proof (rule bit_word_eqI)
    fix n assume n: "n < LENGTH(32)"
    have "n = 8 * (n div 8) + n mod 8" "n mod 8 < 8" by simp_all
    moreover have "8 * (n div 8) \<in> {0, 8, 16, 24}"
    proof -
      have "n div 8 < 4" using n by simp
      then have "n div 8 \<in> {0, 1, 2, 3}" by auto
      then show ?thesis by auto
    qed
    ultimately show "bit v n \<longleftrightarrow> bit w n" using k by metis
  qed
qed simp

section \<open>The layout\<close>

text \<open>The lengths of the \<open>std::array\<close> fields.\<close>

definition transcript_wf :: "transcript_input \<Rightarrow> bool" where
  "transcript_wf input \<longleftrightarrow>
     length (ti_vault_id input) = kTranscriptVaultIdBytes \<and>
     length (ti_registration_id input) = kRegistrationIdBytes \<and>
     length (ti_attempt_id input) = kAttemptIdBytes \<and>
     length (ti_challenge input) = kDeviceChallengeBytes \<and>
     length (ti_device_ephemeral_public_key input) = kP256PublicKeyBytes \<and>
     length (ti_web_ephemeral_public_key input) = kP256PublicKeyBytes \<and>
     length (ti_current_brk_public_key input) = kP256PublicKeyBytes \<and>
     length (ti_proposed_brk_public_key input) = kP256PublicKeyBytes"

lemma transcript_bytes_layout:
  "transcript_bytes input =
     ascii ''M5AS'' @ [kTranscriptVersion, kProtocolVersion, operation_code (ti_operation input),
       word_of_nat (length (ti_device_id input))] @
     ti_device_id input @ ti_vault_id input @ be64 (ti_expected_generation input) @
     ti_registration_id input @ be32 (ti_registration_epoch input) @ ti_attempt_id input @
     ti_challenge input @ ti_device_ephemeral_public_key input @ ti_web_ephemeral_public_key input @
     ti_current_brk_public_key input @ ti_proposed_brk_public_key input"
  by (simp add: transcript_bytes_def Let_def append_u64_be64 append_u32_be32)

lemma length_transcript:
  "transcript_wf input \<Longrightarrow>
   length (transcript_bytes input) = kTranscriptFixedBytes + length (ti_device_id input)"
  by (simp add: transcript_wf_def transcript_bytes_layout session_sizes ascii_def)

lemma encode_transcript_Some:
  "encode_transcript p input = Some out \<Longrightarrow>
   out = transcript_bytes input \<and> ti_device_id input \<noteq> [] \<and> length (ti_device_id input) \<le> 64"
  by (auto simp: encode_transcript_def Let_def kMaxDeviceIdBytes_def split: if_splits)

lemma encode_transcript_wf_iff:
  "transcript_wf input \<Longrightarrow> encode_transcript p input = Some out \<longleftrightarrow>
   out = transcript_bytes input \<and> ti_device_id input \<noteq> [] \<and>
   length (ti_device_id input) \<le> kMaxDeviceIdBytes \<and>
   valid_p256_public_key p (ti_device_ephemeral_public_key input) \<and>
   valid_p256_public_key p (ti_web_ephemeral_public_key input) \<and>
   valid_optional_p256_identity p (ti_current_brk_public_key input) \<and>
   valid_optional_p256_identity p (ti_proposed_brk_public_key input) \<and>
   \<not> transcript_operation_rejected input"
  by (auto simp: encode_transcript_def length_transcript not_le)

lemma transcript_bytes_inj:
  assumes "transcript_wf i" "transcript_wf j"
    and "length (ti_device_id i) \<le> 64" "length (ti_device_id j) \<le> 64"
    and "transcript_bytes i = transcript_bytes j"
  shows "i = j"
proof -
  have "word_of_nat (length (ti_device_id i)) = (word_of_nat (length (ti_device_id j)) :: u8)"
    using assms(5) by (simp add: transcript_bytes_layout)
  then have "length (ti_device_id i) = length (ti_device_id j)"
    using assms(3,4) by (simp add: word_of_nat_eq_iff take_bit_nat_eq_self)
  then show ?thesis
    using assms(1,2,5)
    by (intro transcript_input.equality)
      (simp_all add: transcript_bytes_layout transcript_wf_def append_eq_append_conv)
qed

text \<open>C25. A transcript binds its attempt: two attempts with the same transcript are equal in
  every field (operation, device, vault, generation, registration, epoch, attempt id, challenge
  and all four public keys), although the device id has a variable length.\<close>

theorem encode_transcript_injective:
  assumes "transcript_wf i" "transcript_wf j"
    and "encode_transcript p i = Some out" "encode_transcript p j = Some out"
  shows "i = j \<and> length out = 360 + length (ti_device_id i) \<and> length out \<le> 424"
proof -
  note e = encode_transcript_Some [OF assms(3)] encode_transcript_Some [OF assms(4)]
  then have "i = j" using transcript_bytes_inj [OF assms(1,2)] by simp
  with e length_transcript [OF assms(1)] show ?thesis by (simp add: kTranscriptFixedBytes_def)
qed

definition sample_key :: bytes where
  "sample_key = 4 # replicate 64 7"

definition sample_transcript :: transcript_input where
  "sample_transcript = \<lparr>ti_operation = TrustedBrowserUnlock, ti_device_id = ascii ''m5'',
     ti_vault_id = zeros 16, ti_expected_generation = 3, ti_registration_id = zeros 16,
     ti_registration_epoch = 1, ti_attempt_id = zeros 16, ti_challenge = zeros 32,
     ti_device_ephemeral_public_key = sample_key, ti_web_ephemeral_public_key = sample_key,
     ti_current_brk_public_key = sample_key, ti_proposed_brk_public_key = zeros 65\<rparr>"

lemma sample_key_valid: "valid_p256_public_key (\<lambda>_. True) sample_key"
  by (simp add: valid_p256_public_key_def sample_key_def kP256PublicKeyBytes_def)

lemma sample_transcript_wf: "transcript_wf sample_transcript"
  by (simp add: transcript_wf_def sample_transcript_def session_sizes sample_key_def)

lemma encode_transcript_injective_witness:
  "\<exists>out. encode_transcript (\<lambda>_. True) sample_transcript = Some out \<and> length out = 362"
proof -
  have "encode_transcript (\<lambda>_. True) sample_transcript = Some (transcript_bytes sample_transcript)"
    unfolding encode_transcript_wf_iff [OF sample_transcript_wf]
    using sample_key_valid valid_p256_nonzero [OF sample_key_valid]
    by (simp add: sample_transcript_def valid_optional_p256_identity_def transcript_operation_rejected_def
        is_zero_public_key_iff kMaxDeviceIdBytes_def ascii_def)
  then show ?thesis
    using encode_transcript_injective [OF sample_transcript_wf sample_transcript_wf, of "\<lambda>_. True"
        "transcript_bytes sample_transcript"]
    by (simp add: sample_transcript_def ascii_def)
qed

end
