(* ===== verification/Device_Session.thy ===== *)
theory Device_Session
  imports Session_Types Expiry
begin

text \<open>
  The device side of one key delivery (class \<open>DeviceSession\<close> of
  \<open>m5auth_session/session_crypto.cpp\<close>): a fresh attempt id, challenge and ephemeral P-256 key
  that live for 30 seconds and are destroyed by the first use, failed or not. The cryptographic
  primitives (PSA on the device, OpenSSL in the host tests) are the fields of
  \<open>session_primitives\<close>, and what the random generator and the key generator return in one call of
  \<open>begin\<close> is its argument.
\<close>

record 'k session_primitives =
  sp_verify :: "bytes \<Rightarrow> bytes \<Rightarrow> bytes \<Rightarrow> bool"
  sp_agree :: "'k \<Rightarrow> bytes \<Rightarrow> bytes option"
  sp_hkdf :: "bytes \<Rightarrow> bytes \<Rightarrow> bytes \<Rightarrow> bytes option"
  sp_gcm_open :: "bytes \<Rightarrow> bytes \<Rightarrow> bytes \<Rightarrow> bytes \<Rightarrow> bytes \<Rightarrow> bytes option"

text \<open>\<open>None\<close> is the failure of the generator.\<close>

record 'k session_entropy =
  en_attempt_id :: "bytes option"
  en_challenge :: "bytes option"
  en_key :: "('k \<times> bytes) option"

record attempt_descriptor =
  ad_attempt_id :: bytes
  ad_challenge :: bytes
  ad_device_public_key :: bytes
  ad_expires_at_ms :: u64

record 'k device_session =
  ds_attempt_id :: bytes
  ds_challenge :: bytes
  ds_device_public_key :: bytes
  ds_expires_at_ms :: u64
  ds_active :: bool
  ds_key :: "'k option"

definition session_reset :: "'k device_session" where
  "session_reset = \<lparr>ds_attempt_id = zeros kAttemptIdBytes,
     ds_challenge = zeros kDeviceChallengeBytes,
     ds_device_public_key = zeros kP256PublicKeyBytes,
     ds_expires_at_ms = 0, ds_active = False, ds_key = None\<rparr>"

definition bounded_nonempty :: "bytes \<Rightarrow> nat \<Rightarrow> bool" where
  "bounded_nonempty v maximum \<longleftrightarrow> v \<noteq> [] \<and> length v \<le> maximum"

definition session_begin ::
  "'k session_entropy \<Rightarrow> u64 \<Rightarrow> 'k device_session \<Rightarrow> attempt_descriptor option \<times> 'k device_session" where
  "session_begin entropy now_ms s =
     (case (en_attempt_id entropy, en_challenge entropy, en_key entropy) of
        (Some attempt, Some challenge, Some (key, public_key)) \<Rightarrow>
          if length public_key \<noteq> kP256PublicKeyBytes \<or> public_key ! 0 \<noteq> 4 then (None, session_reset)
          else
            let s = \<lparr>ds_attempt_id = attempt, ds_challenge = challenge,
                     ds_device_public_key = public_key,
                     ds_expires_at_ms = deadline_from now_ms, ds_active = True,
                     ds_key = Some key\<rparr>
            in (Some \<lparr>ad_attempt_id = ds_attempt_id s, ad_challenge = ds_challenge s,
                      ad_device_public_key = ds_device_public_key s,
                      ad_expires_at_ms = ds_expires_at_ms s\<rparr>, s)
      | _ \<Rightarrow> (None, session_reset))"

definition session_active :: "u64 \<Rightarrow> 'k device_session \<Rightarrow> bool" where
  "session_active now_ms s \<longleftrightarrow> ds_active s \<and> now_ms < ds_expires_at_ms s"

definition session_expire :: "u64 \<Rightarrow> 'k device_session \<Rightarrow> bool \<times> 'k device_session" where
  "session_expire now_ms s =
     (if \<not> ds_active s \<or> now_ms < ds_expires_at_ms s then (False, s) else (True, session_reset))"

definition session_cancel :: "'k device_session \<Rightarrow> 'k device_session" where
  "session_cancel s = session_reset"

definition matches_attempt :: "bytes \<Rightarrow> u64 \<Rightarrow> 'k device_session \<Rightarrow> bool \<times> 'k device_session" where
  "matches_attempt attempt_id now_ms s =
     (if \<not> session_active now_ms s then (False, session_reset)
      else if \<not> constant_time_equal attempt_id (ds_attempt_id s) then (False, session_reset)
      else (True, s))"

definition verify_brk_signature ::
  "'k session_primitives \<Rightarrow> bytes \<Rightarrow> bytes \<Rightarrow> bytes \<Rightarrow> u64 \<Rightarrow> 'k device_session \<Rightarrow>
   bool \<times> 'k device_session" where
  "verify_brk_signature prim brk_public_key transcript signature now_ms s =
     (if \<not> session_active now_ms s
         \<or> length brk_public_key \<noteq> kP256PublicKeyBytes
         \<or> brk_public_key ! 0 \<noteq> 4
         \<or> \<not> bounded_nonempty transcript kMaxTranscriptBytes
         \<or> length signature \<noteq> kBrkSignatureBytes
         \<or> \<not> sp_verify prim brk_public_key transcript signature
      then (False, session_reset)
      else (True, s))"

text \<open>The key agreement uses the ephemeral private key; a result of another length is an error.\<close>

definition shared_secret :: "'k session_primitives \<Rightarrow> 'k device_session \<Rightarrow> bytes \<Rightarrow> bytes option" where
  "shared_secret prim s web_public_key =
     (case ds_key s of None \<Rightarrow> None
      | Some key \<Rightarrow>
          case sp_agree prim key web_public_key of
            None \<Rightarrow> None
          | Some shared \<Rightarrow> if length shared = kSessionKeyBytes then Some shared else None)"

text \<open>
  The second component is the caller's \<open>vmk\<close>: zeros unless the key was opened. Every path ends
  in \<open>reset\<close>.
\<close>

definition open_vmk ::
  "'k session_primitives \<Rightarrow> bytes \<Rightarrow> bytes \<Rightarrow> bytes \<Rightarrow> bytes \<Rightarrow> bytes \<Rightarrow> bytes \<Rightarrow> bytes \<Rightarrow> u64 \<Rightarrow>
   'k device_session \<Rightarrow> bool \<times> bytes \<times> 'k device_session" where
  "open_vmk prim web_public_key hkdf_salt hkdf_info nonce ciphertext tag transcript_aad now_ms s =
     (let vmk = zeros kSessionKeyBytes
      in if \<not> session_active now_ms s
            \<or> length web_public_key \<noteq> kP256PublicKeyBytes
            \<or> web_public_key ! 0 \<noteq> 4
            \<or> \<not> bounded_nonempty hkdf_salt kMaxHkdfContextBytes
            \<or> \<not> bounded_nonempty hkdf_info kMaxHkdfContextBytes
            \<or> length nonce \<noteq> kSessionNonceBytes
            \<or> length ciphertext \<noteq> kSessionKeyBytes
            \<or> length tag \<noteq> kSessionTagBytes
            \<or> \<not> bounded_nonempty transcript_aad kMaxTranscriptBytes
         then (False, vmk, session_reset)
         else
           case shared_secret prim s web_public_key of
             None \<Rightarrow> (False, vmk, session_reset)
           | Some shared \<Rightarrow>
               case sp_hkdf prim shared hkdf_salt hkdf_info of
                 None \<Rightarrow> (False, vmk, session_reset)
               | Some session_key \<Rightarrow>
                   case sp_gcm_open prim session_key nonce ciphertext tag transcript_aad of
                     None \<Rightarrow> (False, vmk, session_reset)
                   | Some vmk \<Rightarrow> (True, vmk, session_reset))"

section \<open>Facts\<close>

lemma session_reset_inactive [simp]: "\<not> ds_active session_reset"
  by (simp add: session_reset_def)

lemma session_reset_not_active [simp]: "\<not> session_active now session_reset"
  by (simp add: session_active_def)

interpretation device_ttl: expiring ds_active ds_expires_at_ms "\<lambda>_. session_reset" session_expire
  by unfold_locales (auto simp: session_expire_def not_le)

lemma matches_attempt_iff:
  "matches_attempt a now s =
     (if session_active now s \<and> a = ds_attempt_id s then (True, s) else (False, session_reset))"
  by (simp add: matches_attempt_def)

lemma verify_brk_signature_cases:
  "verify_brk_signature prim k t sig now s = (True, s') \<Longrightarrow> s' = s \<and> session_active now s \<and>
     sp_verify prim k t sig"
  "verify_brk_signature prim k t sig now s = (False, s') \<Longrightarrow> s' = session_reset"
  by (auto simp: verify_brk_signature_def split: if_splits)

lemma open_vmk_resets: "snd (snd (open_vmk prim w salt info n c tag aad now s)) = session_reset"
  by (simp add: open_vmk_def Let_def split: option.split)

text \<open>The session key of a delivery.\<close>

definition session_key :: "'k session_primitives \<Rightarrow> 'k device_session \<Rightarrow> bytes \<Rightarrow> bytes \<Rightarrow> bytes \<Rightarrow> bytes option" where
  "session_key prim s web salt info =
     (case shared_secret prim s web of None \<Rightarrow> None | Some shared \<Rightarrow> sp_hkdf prim shared salt info)"

lemma open_vmk_True:
  "open_vmk prim w salt info n c tag aad now s = (True, vmk, s') \<Longrightarrow>
   s' = session_reset \<and> session_active now s \<and>
   (\<exists>k. session_key prim s w salt info = Some k \<and> sp_gcm_open prim k n c tag aad = Some vmk)"
  by (auto simp: open_vmk_def session_key_def Let_def split: if_splits option.splits)

lemma open_vmk_False:
  "open_vmk prim w salt info n c tag aad now s = (False, vmk, s') \<Longrightarrow>
   s' = session_reset \<and> vmk = zeros kSessionKeyBytes"
  by (auto simp: open_vmk_def Let_def split: if_splits option.splits)

section \<open>One use\<close>

text \<open>Everything a caller can do with a session.\<close>

datatype session_call =
    SMatch bytes u64
  | SVerify bytes bytes bytes u64
  | SOpen bytes bytes bytes bytes bytes bytes bytes u64
  | SExpire u64
  | SCancel

fun session_step :: "'k session_primitives \<Rightarrow> session_call \<Rightarrow> 'k device_session \<Rightarrow> 'k device_session" where
  "session_step prim (SMatch a now) s = snd (matches_attempt a now s)"
| "session_step prim (SVerify k t sig now) s = snd (verify_brk_signature prim k t sig now s)"
| "session_step prim (SOpen w salt info n c tag aad now) s =
     snd (snd (open_vmk prim w salt info n c tag aad now s))"
| "session_step prim (SExpire now) s = snd (session_expire now s)"
| "session_step prim SCancel s = session_cancel s"

lemma session_step_reset: "session_step prim call session_reset = session_reset"
  by (cases call) (simp_all add: matches_attempt_iff open_vmk_resets verify_brk_signature_def
      session_expire_def session_cancel_def)

lemma session_steps_reset: "fold (session_step prim) calls session_reset = session_reset"
  by (induction calls) (simp_all add: session_step_reset)

lemma session_step_cases: "session_step prim call s = s \<or> session_step prim call s = session_reset"
  by (cases call) (auto simp: matches_attempt_iff open_vmk_resets verify_brk_signature_def
      session_expire_def session_cancel_def)

text \<open>A call that spends the session: any delivery, a cancellation, any check that fails and
  an expiry that fires.\<close>

fun spends :: "'k session_primitives \<Rightarrow> session_call \<Rightarrow> 'k device_session \<Rightarrow> bool" where
  "spends prim (SMatch a now) s = (\<not> fst (matches_attempt a now s))"
| "spends prim (SVerify k t sig now) s = (\<not> fst (verify_brk_signature prim k t sig now s))"
| "spends prim (SExpire now) s = fst (session_expire now s)"
| "spends prim _ s = True"

lemma spends_resets: "spends prim call s \<Longrightarrow> session_step prim call s = session_reset"
  by (cases call) (auto simp: matches_attempt_iff open_vmk_resets verify_brk_signature_def
      session_expire_def session_cancel_def split: if_splits)

text \<open>An ephemeral key serves at most one delivery: once any call has opened or tried to
  open a key, cancelled, presented a wrong attempt id or a bad signature, or run past the
  deadline, no later sequence of calls on the same session opens a key, verifies a signature or
  matches an attempt again; only a new \<open>begin\<close> does.\<close>

theorem device_session_one_shot:
  assumes "spends prim call s"
  shows "let s2 = fold (session_step prim) calls (session_step prim call s) in
    \<not> fst (open_vmk prim w salt info n c tag aad now s2) \<and>
    \<not> fst (verify_brk_signature prim k t sig now s2) \<and>
    \<not> fst (matches_attempt a now s2)"
  using assms
  by (simp add: spends_resets session_steps_reset matches_attempt_iff verify_brk_signature_def
      open_vmk_def Let_def)

definition sample_session :: "unit device_session" where
  "sample_session = \<lparr>ds_attempt_id = zeros 16, ds_challenge = zeros 32,
     ds_device_public_key = 4 # zeros 64, ds_expires_at_ms = 31000, ds_active = True, ds_key = Some ()\<rparr>"

definition sample_primitives :: "unit session_primitives" where
  "sample_primitives = \<lparr>sp_verify = \<lambda>_ _ _. True, sp_agree = \<lambda>_ _. Some (zeros 32),
     sp_hkdf = \<lambda>s _ _. Some s, sp_gcm_open = \<lambda>_ _ c _ _. Some c\<rparr>"

lemma device_session_one_shot_witness:
  "fst (matches_attempt (zeros 16) 2000 sample_session) \<and>
   \<not> fst (matches_attempt (zeros 16) 2000
       (session_step sample_primitives (SOpen [] [] [] [] [] [] [] 1000) sample_session))"
  using device_session_one_shot [of sample_primitives "SOpen [] [] [] [] [] [] [] 1000" sample_session,
      where calls = "[]" and a = "zeros 16" and now = 2000]
  by (simp add: Let_def matches_attempt_iff sample_session_def session_active_def)

end
