(* ===== verification/Attempt_Coordinator.thy ===== *)
theory Attempt_Coordinator
  imports Presence_Binding Transcript Device_Session
begin

text \<open>
  The attempt coordinator (\<open>m5auth_session/attempt_coordinator.cpp\<close>), which turns one
  authenticated, physically confirmed exchange into one Vault key: \<open>begin\<close> opens an attempt,
  \<open>authorize\<close> builds the transcript, checks the browser's signature over it and asks for
  presence, \<open>complete\<close> consumes the presence and opens the delivered key under the transcript.
  The presence provider is reached through \<open>presence_ops\<close>, the library through
  \<open>session_primitives\<close> and the curve check \<open>p256_point\<close>.
\<close>

record begin_context =
  bc_operation :: operation
  bc_device_id :: bytes
  bc_vault_id :: bytes
  bc_expected_generation :: u64
  bc_registration_id :: bytes
  bc_registration_epoch :: u32
  bc_current_brk_public_key :: bytes
  bc_proposed_brk_public_key :: bytes

datatype attempt_state = AttemptIdle | AwaitingAuthorization | AwaitingPresence | AttemptConfirmed

record 'k coordinator =
  co_crypto :: "'k device_session"
  co_context :: begin_context
  co_descriptor :: attempt_descriptor
  co_web_public_key :: bytes
  co_transcript :: bytes
  co_active :: bool
  co_state :: attempt_state

definition context_valid :: "(bytes \<Rightarrow> bool) \<Rightarrow> begin_context \<Rightarrow> bool" where
  "context_valid p256_point context =
     (if bc_device_id context = [] \<or> length (bc_device_id context) > kMaxDeviceIdBytes then False
      else if all_zero (bc_registration_id context) then False
      else if \<not> valid_optional_p256_identity p256_point (bc_current_brk_public_key context)
            \<or> \<not> valid_optional_p256_identity p256_point (bc_proposed_brk_public_key context) then False
      else case bc_operation context of
        TrustedBrowserUnlock \<Rightarrow> bc_registration_epoch context > 0 \<and>
          \<not> is_zero_public_key (bc_current_brk_public_key context)
      | VmkRekey \<Rightarrow> bc_registration_epoch context > 0 \<and>
          \<not> is_zero_public_key (bc_current_brk_public_key context)
      | InitialProvisioning \<Rightarrow> bc_registration_epoch context = 0 \<and>
          is_zero_public_key (bc_current_brk_public_key context) \<and>
          \<not> is_zero_public_key (bc_proposed_brk_public_key context)
      | Recovery \<Rightarrow> bc_registration_epoch context > 0 \<and>
          \<not> is_zero_public_key (bc_proposed_brk_public_key context)
      | BrowserReplacement \<Rightarrow> bc_registration_epoch context > 0 \<and>
          \<not> is_zero_public_key (bc_proposed_brk_public_key context))"

definition brk_signature_required :: "operation \<Rightarrow> bool" where
  "brk_signature_required operation \<longleftrightarrow> operation = TrustedBrowserUnlock \<or> operation = VmkRekey"

definition hkdf_salt :: "attempt_descriptor \<Rightarrow> bytes" where
  "hkdf_salt descriptor = ad_attempt_id descriptor @ ad_challenge descriptor"

definition wipe_staged :: "'k coordinator \<Rightarrow> 'k coordinator" where
  "wipe_staged c =
     c\<lparr>co_context := (co_context c)\<lparr>bc_device_id := [], bc_vault_id := wipe (bc_vault_id (co_context c)),
         bc_expected_generation := 0, bc_registration_id := wipe (bc_registration_id (co_context c)),
         bc_registration_epoch := 0,
         bc_current_brk_public_key := wipe (bc_current_brk_public_key (co_context c)),
         bc_proposed_brk_public_key := wipe (bc_proposed_brk_public_key (co_context c))\<rparr>,
       co_descriptor := \<lparr>ad_attempt_id = wipe (ad_attempt_id (co_descriptor c)),
         ad_challenge = wipe (ad_challenge (co_descriptor c)),
         ad_device_public_key = wipe (ad_device_public_key (co_descriptor c)), ad_expires_at_ms = 0\<rparr>,
       co_web_public_key := wipe (co_web_public_key c),
       co_transcript := [], co_active := False, co_state := AttemptIdle\<rparr>"

definition coordinator_cancel ::
  "'p presence_ops \<Rightarrow> 'k coordinator \<times> 'p \<Rightarrow> 'k coordinator \<times> 'p" where
  "coordinator_cancel ops st = (case st of (c, p) \<Rightarrow>
     (wipe_staged (c\<lparr>co_crypto := session_cancel (co_crypto c)\<rparr>), po_cancel ops p))"

definition coordinator_begin ::
  "(bytes \<Rightarrow> bool) \<Rightarrow> 'p presence_ops \<Rightarrow> 'k session_entropy \<Rightarrow> begin_context \<Rightarrow> u64 \<Rightarrow>
   'k coordinator \<times> 'p \<Rightarrow> attempt_descriptor option \<times> 'k coordinator \<times> 'p" where
  "coordinator_begin p256_point ops entropy context now_ms st =
     (let (c, p) = coordinator_cancel ops st
      in if \<not> context_valid p256_point context then (None, c, p)
         else case session_begin entropy now_ms (co_crypto c) of
           (None, s) \<Rightarrow> (None, c\<lparr>co_crypto := s\<rparr>, p)
         | (Some generated, s) \<Rightarrow>
             (Some generated,
              c\<lparr>co_crypto := s, co_context := context, co_descriptor := generated,
                co_web_public_key := zeros kP256PublicKeyBytes, co_transcript := [],
                co_active := True, co_state := AwaitingAuthorization\<rparr>, p))"

definition attempt_transcript_input ::
  "begin_context \<Rightarrow> attempt_descriptor \<Rightarrow> bytes \<Rightarrow> transcript_input" where
  "attempt_transcript_input context descriptor web_public_key =
     \<lparr>ti_operation = bc_operation context, ti_device_id = bc_device_id context,
      ti_vault_id = bc_vault_id context, ti_expected_generation = bc_expected_generation context,
      ti_registration_id = bc_registration_id context,
      ti_registration_epoch = bc_registration_epoch context,
      ti_attempt_id = ad_attempt_id descriptor, ti_challenge = ad_challenge descriptor,
      ti_device_ephemeral_public_key = ad_device_public_key descriptor,
      ti_web_ephemeral_public_key = web_public_key,
      ti_current_brk_public_key = bc_current_brk_public_key context,
      ti_proposed_brk_public_key = bc_proposed_brk_public_key context\<rparr>"

text \<open>
  The signature check of \<open>authorize\<close>: required for some operations, optional for the others,
  and never ignored when present. It returns the session too, since a failed check destroys it.
\<close>

definition authorize_signature ::
  "'k session_primitives \<Rightarrow> begin_context \<Rightarrow> bytes \<Rightarrow> bytes \<Rightarrow> u64 \<Rightarrow> 'k device_session \<Rightarrow>
   bool \<times> 'k device_session" where
  "authorize_signature prim context transcript brk_signature now_ms s =
     (if brk_signature_required (bc_operation context) then
        (if length brk_signature \<noteq> kBrkSignatureBytes then (False, s)
         else verify_brk_signature prim (bc_current_brk_public_key context) transcript
                brk_signature now_ms s)
      else if brk_signature \<noteq> [] then
        (if is_zero_public_key (bc_current_brk_public_key context)
            \<or> length brk_signature \<noteq> kBrkSignatureBytes then (False, s)
         else verify_brk_signature prim (bc_current_brk_public_key context) transcript
                brk_signature now_ms s)
      else (True, s))"

definition coordinator_authorize ::
  "(bytes \<Rightarrow> bool) \<Rightarrow> 'k session_primitives \<Rightarrow> 'p presence_ops \<Rightarrow> bytes \<Rightarrow> bytes \<Rightarrow> u64 \<Rightarrow>
   'k coordinator \<times> 'p \<Rightarrow> bool \<times> 'k coordinator \<times> 'p" where
  "coordinator_authorize p256_point prim ops web_public_key brk_signature now_ms st =
     (case st of (c, p) \<Rightarrow>
       if \<not> co_active c \<or> co_state c \<noteq> AwaitingAuthorization then (False, coordinator_cancel ops (c, p))
       else case matches_attempt (ad_attempt_id (co_descriptor c)) now_ms (co_crypto c) of
         (False, s) \<Rightarrow> (False, coordinator_cancel ops (c\<lparr>co_crypto := s\<rparr>, p))
       | (True, s) \<Rightarrow>
           let c = c\<lparr>co_crypto := s\<rparr>
           in case encode_transcript p256_point
                     (attempt_transcript_input (co_context c) (co_descriptor c) web_public_key) of
                None \<Rightarrow> (False, coordinator_cancel ops (c, p))
              | Some transcript \<Rightarrow>
                  case authorize_signature prim (co_context c) transcript brk_signature now_ms
                         (co_crypto c) of
                    (False, s) \<Rightarrow> (False, coordinator_cancel ops (c\<lparr>co_crypto := s\<rparr>, p))
                  | (True, s) \<Rightarrow>
                      let c = c\<lparr>co_crypto := s\<rparr>
                      in case po_begin ops (presence_operation (bc_operation (co_context c)))
                                (ad_attempt_id (co_descriptor c)) now_ms p of
                           (False, p) \<Rightarrow> (False, coordinator_cancel ops (c, p))
                         | (True, p) \<Rightarrow>
                             (True, c\<lparr>co_web_public_key := web_public_key,
                                      co_transcript := transcript,
                                      co_state := AwaitingPresence\<rparr>, p))"

text \<open>The second component is the caller's \<open>*vmk\<close>.\<close>

definition coordinator_complete ::
  "'k session_primitives \<Rightarrow> 'p presence_ops \<Rightarrow> bytes \<Rightarrow> bytes \<Rightarrow> bytes \<Rightarrow> u64 \<Rightarrow>
   'k coordinator \<times> 'p \<Rightarrow> bool \<times> bytes \<times> 'k coordinator \<times> 'p" where
  "coordinator_complete prim ops nonce ciphertext tag now_ms st =
     (case st of (c, p) \<Rightarrow>
       let vmk = zeros kSessionKeyBytes
       in if \<not> co_active c \<or> (co_state c \<noteq> AwaitingPresence \<and> co_state c \<noteq> AttemptConfirmed)
          then (False, vmk, coordinator_cancel ops (c, p))
          else case matches_attempt (ad_attempt_id (co_descriptor c)) now_ms (co_crypto c) of
            (False, s) \<Rightarrow> (False, vmk, coordinator_cancel ops (c\<lparr>co_crypto := s\<rparr>, p))
          | (True, s) \<Rightarrow>
              let c = c\<lparr>co_crypto := s\<rparr>
              in case po_consume ops (ad_attempt_id (co_descriptor c)) now_ms p of
                   (False, p) \<Rightarrow> (False, vmk, coordinator_cancel ops (c, p))
                 | (True, p) \<Rightarrow>
                     let (opened, vmk, s) =
                           open_vmk prim (co_web_public_key c) (hkdf_salt (co_descriptor c))
                             (co_transcript c) nonce ciphertext tag (co_transcript c) now_ms
                             (co_crypto c);
                         c = wipe_staged (c\<lparr>co_crypto := s\<rparr>)
                     in (opened, if opened then vmk else zeros kSessionKeyBytes, c, p))"

definition coordinator_expire ::
  "'p presence_ops \<Rightarrow> u64 \<Rightarrow> 'k coordinator \<times> 'p \<Rightarrow> bool \<times> 'k coordinator \<times> 'p" where
  "coordinator_expire ops now_ms st =
     (case st of (c, p) \<Rightarrow>
       if \<not> co_active c then (False, c, p)
       else
         let (crypto_expired, s) = session_expire now_ms (co_crypto c); c = c\<lparr>co_crypto := s\<rparr>
         in if crypto_expired \<or> now_ms \<ge> ad_expires_at_ms (co_descriptor c)
            then (True, coordinator_cancel ops (c, p))
            else (False, c, p))"

definition coordinator_state :: "'p presence_ops \<Rightarrow> 'k coordinator \<times> 'p \<Rightarrow> attempt_state" where
  "coordinator_state ops st = (case st of (c, p) \<Rightarrow>
     if co_active c \<and> co_state c = AwaitingPresence \<and> po_confirmed ops p then AttemptConfirmed
     else co_state c)"

definition initial_context :: begin_context where
  "initial_context = \<lparr>bc_operation = TrustedBrowserUnlock, bc_device_id = [],
     bc_vault_id = zeros kTranscriptVaultIdBytes, bc_expected_generation = 0,
     bc_registration_id = zeros kRegistrationIdBytes, bc_registration_epoch = 0,
     bc_current_brk_public_key = zeros kP256PublicKeyBytes,
     bc_proposed_brk_public_key = zeros kP256PublicKeyBytes\<rparr>"

definition initial_coordinator :: "'k coordinator" where
  "initial_coordinator = \<lparr>co_crypto = session_reset, co_context = initial_context,
     co_descriptor = \<lparr>ad_attempt_id = zeros kAttemptIdBytes, ad_challenge = zeros kDeviceChallengeBytes,
       ad_device_public_key = zeros kP256PublicKeyBytes, ad_expires_at_ms = 0\<rparr>,
     co_web_public_key = zeros kP256PublicKeyBytes, co_transcript = [], co_active = False,
     co_state = AttemptIdle\<rparr>"

section \<open>Runs\<close>

text \<open>
  The calls on the coordinator, interleaved with what happens to the presence provider behind
  its back (\<open>CEnv\<close>: button samples, button presses, its own expiry).
\<close>

datatype ('k, 'e) coordinator_call =
    CBegin "'k session_entropy" begin_context u64
  | CAuthorize bytes bytes u64
  | CComplete bytes bytes bytes u64
  | CExpire u64
  | CCancel
  | CEnv 'e

fun coordinator_step ::
  "(bytes \<Rightarrow> bool) \<Rightarrow> 'k session_primitives \<Rightarrow> 'p presence_ops \<Rightarrow> ('e \<Rightarrow> 'p \<Rightarrow> 'p) \<Rightarrow>
   ('k, 'e) coordinator_call \<Rightarrow> 'k coordinator \<times> 'p \<Rightarrow> 'k coordinator \<times> 'p" where
  "coordinator_step p256 prim ops env (CBegin entropy ctx now) st =
     snd (coordinator_begin p256 ops entropy ctx now st)"
| "coordinator_step p256 prim ops env (CAuthorize web sig now) st =
     snd (coordinator_authorize p256 prim ops web sig now st)"
| "coordinator_step p256 prim ops env (CComplete nonce ct tag now) st =
     snd (snd (coordinator_complete prim ops nonce ct tag now st))"
| "coordinator_step p256 prim ops env (CExpire now) st = snd (coordinator_expire ops now st)"
| "coordinator_step p256 prim ops env CCancel st = coordinator_cancel ops st"
| "coordinator_step p256 prim ops env (CEnv e) st = (fst st, env e (snd st))"

inductive coordinator_run ::
  "(bytes \<Rightarrow> bool) \<Rightarrow> 'k session_primitives \<Rightarrow> 'p presence_ops \<Rightarrow> ('e \<Rightarrow> 'p \<Rightarrow> 'p) \<Rightarrow> 'p \<Rightarrow>
   ('k, 'e) coordinator_call list \<Rightarrow> 'k coordinator \<times> 'p \<Rightarrow> bool"
  for p256 prim ops env p0 where
  start: "coordinator_run p256 prim ops env p0 [] (initial_coordinator, p0)"
| call: "coordinator_run p256 prim ops env p0 cs st \<Longrightarrow>
    coordinator_run p256 prim ops env p0 (cs @ [c]) (coordinator_step p256 prim ops env c st)"

lemma coordinator_run_fold:
  "coordinator_run p256 prim ops env p0 cs
     (fold (coordinator_step p256 prim ops env) cs (initial_coordinator, p0))"
  by (induction cs rule: rev_induct) (auto intro: coordinator_run.intros)

text \<open>The calls that begin, authorize, complete or cancel an attempt.\<close>

fun moves_attempt :: "('k, 'e) coordinator_call \<Rightarrow> bool" where
  "moves_attempt (CBegin _ _ _) = True"
| "moves_attempt (CAuthorize _ _ _) = True"
| "moves_attempt (CComplete _ _ _ _) = True"
| "moves_attempt CCancel = True"
| "moves_attempt _ = False"

section \<open>What an authorized attempt rests on\<close>

definition signature_ok :: "'k session_primitives \<Rightarrow> begin_context \<Rightarrow> bytes \<Rightarrow> bytes \<Rightarrow> bool" where
  "signature_ok prim ctx transcript sig \<longleftrightarrow>
     (if brk_signature_required (bc_operation ctx) \<or> sig \<noteq> []
      then length sig = kBrkSignatureBytes \<and>
           sp_verify prim (bc_current_brk_public_key ctx) transcript sig
      else True)"

lemma authorize_signature_True:
  "authorize_signature prim ctx t sig now s = (True, s') \<Longrightarrow> s' = s \<and> signature_ok prim ctx t sig"
  by (auto simp: authorize_signature_def signature_ok_def verify_brk_signature_def split: if_splits)

definition session_holds :: "'k device_session \<Rightarrow> attempt_descriptor \<Rightarrow> bool" where
  "session_holds s d \<longleftrightarrow> ds_active s \<and> ds_attempt_id s = ad_attempt_id d \<and>
     ds_challenge s = ad_challenge d \<and> ds_device_public_key s = ad_device_public_key d \<and>
     ds_expires_at_ms s = ad_expires_at_ms d"

lemma session_begin_Some:
  "session_begin entropy now s0 = (Some d, s) \<Longrightarrow> session_holds s d \<and>
     ad_expires_at_ms d = deadline_from now \<and> en_attempt_id entropy = Some (ad_attempt_id d) \<and>
     en_challenge entropy = Some (ad_challenge d) \<and>
     (\<exists>key. en_key entropy = Some (key, ad_device_public_key d) \<and> ds_key s = Some key)"
  by (auto simp: session_begin_def session_holds_def Let_def split: option.splits if_splits)

lemma wipe_staged_idle [simp]:
  "\<not> co_active (wipe_staged c)" "co_state (wipe_staged c) = AttemptIdle"
  "co_transcript (wipe_staged c) = []" "co_crypto (wipe_staged c) = co_crypto c"
  by (simp_all add: wipe_staged_def)

lemma cancel_idle:
  "\<not> co_active (fst (coordinator_cancel ops st))" "co_state (fst (coordinator_cancel ops st)) = AttemptIdle"
  "co_crypto (fst (coordinator_cancel ops st)) = session_reset"
  "snd (coordinator_cancel ops st) = po_cancel ops (snd st)"
  by (cases st; simp add: coordinator_cancel_def session_cancel_def)+

text \<open>The outcome of each call in one equation.\<close>

lemma coordinator_authorize_True:
  assumes "coordinator_authorize p256 prim ops web sig now (c, p) = (True, c', p')"
  shows "co_active c \<and> co_state c = AwaitingAuthorization \<and> session_active now (co_crypto c) \<and>
    ad_attempt_id (co_descriptor c) = ds_attempt_id (co_crypto c) \<and>
    (\<exists>t. encode_transcript p256 (attempt_transcript_input (co_context c) (co_descriptor c) web) = Some t \<and>
      signature_ok prim (co_context c) t sig \<and>
      po_begin ops (presence_operation (bc_operation (co_context c))) (ad_attempt_id (co_descriptor c)) now p
        = (True, p') \<and>
      c' = c\<lparr>co_web_public_key := web, co_transcript := t, co_state := AwaitingPresence\<rparr>)"
  using assms
  by (auto simp: coordinator_authorize_def matches_attempt_iff Let_def
      split: if_splits option.splits prod.splits bool.splits dest!: authorize_signature_True)

lemma coordinator_authorize_False:
  assumes "coordinator_authorize p256 prim ops web sig now (c, p) = (False, st')"
  shows "\<exists>c'' p''. st' = coordinator_cancel ops (c'', p'')"
  using assms
  by (auto simp: coordinator_authorize_def Let_def
      split: if_splits option.splits prod.splits bool.splits)

lemma coordinator_complete_idle:
  "\<not> co_active (fst (snd (snd (coordinator_complete prim ops nonce ct tag now st))))"
  "co_state (fst (snd (snd (coordinator_complete prim ops nonce ct tag now st)))) = AttemptIdle"
  by (cases st; auto simp: coordinator_complete_def Let_def cancel_idle
      split: if_splits option.splits prod.splits bool.splits)+

lemma coordinator_complete_True:
  assumes "coordinator_complete prim ops nonce ct tag now (c, p) = (True, vmk, st')"
  shows "co_active c \<and> (co_state c = AwaitingPresence \<or> co_state c = AttemptConfirmed) \<and>
    session_active now (co_crypto c) \<and> ad_attempt_id (co_descriptor c) = ds_attempt_id (co_crypto c) \<and>
    fst (po_consume ops (ad_attempt_id (co_descriptor c)) now p) \<and>
    (\<exists>k. session_key prim (co_crypto c) (co_web_public_key c) (hkdf_salt (co_descriptor c)) (co_transcript c)
           = Some k \<and> sp_gcm_open prim k nonce ct tag (co_transcript c) = Some vmk)"
proof -
  have a: "co_active c" "co_state c = AwaitingPresence \<or> co_state c = AttemptConfirmed"
    using assms by (auto simp: coordinator_complete_def Let_def split: if_splits)
  then have m: "matches_attempt (ad_attempt_id (co_descriptor c)) now (co_crypto c) = (True, co_crypto c)"
    using assms by (auto simp: coordinator_complete_def Let_def matches_attempt_iff split: if_splits)
  obtain b p1 where con: "po_consume ops (ad_attempt_id (co_descriptor c)) now p = (b, p1)" by fastforce
  obtain opened v s1 where op: "open_vmk prim (co_web_public_key c) (hkdf_salt (co_descriptor c))
      (co_transcript c) nonce ct tag (co_transcript c) now (co_crypto c) = (opened, v, s1)"
    using prod_cases3 by blast
  have r: b opened "v = vmk"
    using assms a m con op by (auto simp: coordinator_complete_def Let_def split: if_splits bool.splits)
  show ?thesis using a m con r open_vmk_True [of prim _ _ _ nonce ct tag _ now "co_crypto c" v s1] op
    by (auto simp: matches_attempt_iff split: if_splits)
qed

text \<open>What an active attempt is, in terms of the calls that led to it.\<close>

definition attempt_begun ::
  "(bytes \<Rightarrow> bool) \<Rightarrow> 'k session_entropy \<Rightarrow> begin_context \<Rightarrow> u64 \<Rightarrow> 'k coordinator \<Rightarrow> bool" where
  "attempt_begun p256 entropy ctx t0 c \<longleftrightarrow>
     context_valid p256 ctx \<and> co_context c = ctx \<and> session_holds (co_crypto c) (co_descriptor c) \<and>
     ad_expires_at_ms (co_descriptor c) = deadline_from t0 \<and>
     en_attempt_id entropy = Some (ad_attempt_id (co_descriptor c)) \<and>
     en_challenge entropy = Some (ad_challenge (co_descriptor c)) \<and>
     (\<exists>key. en_key entropy = Some (key, ad_device_public_key (co_descriptor c)) \<and>
        ds_key (co_crypto c) = Some key)"

definition attempt_authorized ::
  "(bytes \<Rightarrow> bool) \<Rightarrow> 'k session_primitives \<Rightarrow> bytes \<Rightarrow> bytes \<Rightarrow> u64 \<Rightarrow> u64 \<Rightarrow> 'k coordinator \<Rightarrow> bool" where
  "attempt_authorized p256 prim web sig t0 t1 c \<longleftrightarrow>
     co_state c = AwaitingPresence \<and> co_web_public_key c = web \<and> t1 < deadline_from t0 \<and>
     encode_transcript p256 (attempt_transcript_input (co_context c) (co_descriptor c) web)
       = Some (co_transcript c) \<and>
     signature_ok prim (co_context c) (co_transcript c) sig"

inductive attempt_inv ::
  "(bytes \<Rightarrow> bool) \<Rightarrow> 'k session_primitives \<Rightarrow> ('p \<Rightarrow> (presence_operation_kind \<times> bytes) option) \<Rightarrow>
   ('k, 'e) coordinator_call list \<Rightarrow> 'k coordinator \<times> 'p \<Rightarrow> bool"
  for p256 prim request cs where
  idle: "\<not> co_active c \<Longrightarrow> co_state c = AttemptIdle \<Longrightarrow> attempt_inv p256 prim request cs (c, p)"
| begun: "co_active c \<Longrightarrow> co_state c = AwaitingAuthorization \<Longrightarrow> attempt_begun p256 entropy ctx t0 c \<Longrightarrow>
    cs = pre @ CBegin entropy ctx t0 # mid \<Longrightarrow> list_all (\<lambda>e. \<not> moves_attempt e) mid \<Longrightarrow>
    attempt_inv p256 prim request cs (c, p)"
| authorized: "co_active c \<Longrightarrow> attempt_begun p256 entropy ctx t0 c \<Longrightarrow>
    attempt_authorized p256 prim web sig t0 t1 c \<Longrightarrow>
    cs = pre @ CBegin entropy ctx t0 # m1 @ CAuthorize web sig t1 # m2 \<Longrightarrow>
    list_all (\<lambda>e. \<not> moves_attempt e) (m1 @ m2) \<Longrightarrow>
    request p \<in> {Some (presence_operation (bc_operation ctx), ad_attempt_id (co_descriptor c)), None} \<Longrightarrow>
    attempt_inv p256 prim request cs (c, p)"

inductive_cases attempt_inv_E: "attempt_inv p256 prim request cs (c, p)"

lemma attempt_inv_cases [consumes 1, case_names idle begun authorized]:
  assumes "attempt_inv p256 prim request cs (c, p)"
  obtains "\<not> co_active c" "co_state c = AttemptIdle"
  | entropy ctx t0 pre mid where "co_active c" "co_state c = AwaitingAuthorization"
      "attempt_begun p256 entropy ctx t0 c" "cs = pre @ CBegin entropy ctx t0 # mid"
      "list_all (\<lambda>e. \<not> moves_attempt e) mid"
  | entropy ctx t0 web sig t1 pre m1 m2 where "co_active c" "attempt_begun p256 entropy ctx t0 c"
      "attempt_authorized p256 prim web sig t0 t1 c"
      "cs = pre @ CBegin entropy ctx t0 # m1 @ CAuthorize web sig t1 # m2"
      "list_all (\<lambda>e. \<not> moves_attempt e) m1" "list_all (\<lambda>e. \<not> moves_attempt e) m2"
      "request p = Some (presence_operation (bc_operation ctx), ad_attempt_id (co_descriptor c)) \<or>
       request p = None"
  using assms by (rule attempt_inv_E) blast+

lemma attempt_inv_cancel: "attempt_inv p256 prim request cs (coordinator_cancel ops st)"
proof -
  have "coordinator_cancel ops st = (fst (coordinator_cancel ops st), snd (coordinator_cancel ops st))"
    by simp
  then show ?thesis using attempt_inv.idle cancel_idle by metis
qed

lemma begin_inv:
  "attempt_inv p256 prim request (cs @ [CBegin entropy ctx now])
     (snd (coordinator_begin p256 ops entropy ctx now st))"
proof -
  obtain c p where cp: "coordinator_cancel ops st = (c, p)" by fastforce
  then have idle: "\<not> co_active c" "co_state c = AttemptIdle" using cancel_idle [of ops st] by auto
  obtain d s where sb: "session_begin entropy now (co_crypto c) = (d, s)" by fastforce
  show ?thesis
  proof (cases "context_valid p256 ctx \<and> d \<noteq> None")
    case False
    then show ?thesis using idle sb
      by (auto simp: coordinator_begin_def cp intro!: attempt_inv.idle)
  next
    case True
    then obtain g where "d = Some g" by auto
    with True sb session_begin_Some [of entropy now "co_crypto c" g s] show ?thesis
      by (auto simp: coordinator_begin_def cp attempt_begun_def
          intro!: attempt_inv.begun [of _ _ entropy ctx now _ cs "[]"])
  qed
qed

lemma complete_inv:
  "attempt_inv p256 prim request cs (snd (snd (coordinator_complete prim ops nonce ct tag now st)))"
proof -
  have "snd (snd (coordinator_complete prim ops nonce ct tag now st)) =
      (fst (snd (snd (coordinator_complete prim ops nonce ct tag now st))),
       snd (snd (snd (coordinator_complete prim ops nonce ct tag now st))))" by simp
  then show ?thesis using attempt_inv.idle coordinator_complete_idle by metis
qed

lemma expire_result:
  "coordinator_expire ops now (c, p) = (b, st') \<Longrightarrow>
   st' = (c, p) \<or> (\<exists>st''. st' = coordinator_cancel ops st'')"
  by (auto simp: coordinator_expire_def device_ttl.expire_eq Let_def split: if_splits)

text \<open>A call that does not move the attempt extends the history of an unchanged attempt.\<close>

lemma attempt_inv_extend:
  assumes "attempt_inv p256 prim request cs (c, p)" and "\<not> moves_attempt e"
    and "request p' \<in> {request p, None}"
  shows "attempt_inv p256 prim request (cs @ [e]) (c, p')"
  using assms(1)
proof (cases rule: attempt_inv_cases)
  case idle
  then show ?thesis by (intro attempt_inv.idle)
next
  case (begun entropy ctx t0 pre mid)
  then show ?thesis using assms(2)
    by (intro attempt_inv.begun [of _ _ entropy ctx t0 _ pre "mid @ [e]"]) simp_all
next
  case (authorized entropy ctx t0 web sig t1 pre m1 m2)
  then show ?thesis using assms(2,3)
    by (intro attempt_inv.authorized [of _ _ entropy ctx t0 _ web sig t1 _ pre m1 "m2 @ [e]"]) auto
qed

section \<open>The contract with the presence provider\<close>

text \<open>\<open>env\<close>: what the outside does to the provider never opens a request of its own.\<close>

locale presence_environment = presence_binding ops request
  for ops :: "'p presence_ops" and request +
  fixes env :: "'e \<Rightarrow> 'p \<Rightarrow> 'p"
  assumes env_request: "request (env e p) \<in> {request p, None}"
begin

lemma authorize_inv:
  assumes "attempt_inv p256 prim request cs (c, p)"
  shows "attempt_inv p256 prim request (cs @ [CAuthorize web sig now])
    (snd (coordinator_authorize p256 prim ops web sig now (c, p)))"
proof -
  obtain b c' p' where r: "coordinator_authorize p256 prim ops web sig now (c, p) = (b, c', p')"
    using prod_cases3 by blast
  show ?thesis
  proof (cases b)
    case False
    then show ?thesis using r coordinator_authorize_False attempt_inv_cancel by fastforce
  next
    case True
    from r True have "coordinator_authorize p256 prim ops web sig now (c, p) = (True, c', p')" by simp
    note a = coordinator_authorize_True [OF this]
    from assms a obtain entropy ctx t0 pre mid where
      h: "attempt_begun p256 entropy ctx t0 c" "cs = pre @ CBegin entropy ctx t0 # mid"
        "list_all (\<lambda>e. \<not> moves_attempt e) mid"
      by (cases rule: attempt_inv_cases) (auto simp: attempt_authorized_def)
    from a obtain t where t: "encode_transcript p256
        (attempt_transcript_input (co_context c) (co_descriptor c) web) = Some t"
      "signature_ok prim (co_context c) t sig"
      "c' = c\<lparr>co_web_public_key := web, co_transcript := t, co_state := AwaitingPresence\<rparr>"
      "po_begin ops (presence_operation (bc_operation (co_context c))) (ad_attempt_id (co_descriptor c)) now p
        = (True, p')" by blast
    have live: "now < deadline_from t0"
      using a h(1) by (auto simp: attempt_begun_def session_holds_def session_active_def)
    have "request p' = Some (presence_operation (bc_operation ctx), ad_attempt_id (co_descriptor c))"
      using begin_request [of "presence_operation (bc_operation (co_context c))"
          "ad_attempt_id (co_descriptor c)" now p] t(4) h(1) by (simp add: attempt_begun_def)
    then show ?thesis
      using a h t live
      by (auto simp: r attempt_begun_def attempt_authorized_def
          intro!: attempt_inv.authorized [of _ _ entropy ctx t0 _ web sig now _ pre mid "[]"])
  qed
qed

lemma step_inv:
  assumes "attempt_inv p256 prim request cs st"
  shows "attempt_inv p256 prim request (cs @ [e]) (coordinator_step p256 prim ops env e st)"
proof -
  obtain c p where st: "st = (c, p)" by fastforce
  show ?thesis
  proof (cases e)
    case (CExpire now)
    obtain b st' where r: "coordinator_expire ops now (c, p) = (b, st')"
      by (cases "coordinator_expire ops now (c, p)")
    show ?thesis
      using expire_result [OF r] attempt_inv_extend [OF assms [unfolded st], of e p] attempt_inv_cancel
      by (auto simp: CExpire st r)
  next
    case (CEnv x)
    then show ?thesis
      using attempt_inv_extend [OF assms [unfolded st], of e "env x p"] env_request [of x p]
      by (simp add: st)
  qed (use assms st begin_inv authorize_inv complete_inv attempt_inv_cancel in auto)
qed

lemma run_inv:
  "coordinator_run p256 prim ops env p0 cs st \<Longrightarrow> attempt_inv p256 prim request cs st"
proof (induction rule: coordinator_run.induct)
  case start
  show ?case by (rule attempt_inv.idle) (simp_all add: initial_coordinator_def)
next
  case (call cs st c)
  then show ?case by (intro step_inv)
qed

text \<open>The main lemma: what a successful delivery proves about the past.\<close>

lemma delivery:
  assumes "coordinator_run p256 prim ops env p0 cs (c, p)"
    and "coordinator_complete prim ops nonce ct tag now (c, p) = (True, vmk, c', p')"
  obtains pre entropy ctx t0 m1 web sig t1 m2 d t key k where
    "cs = pre @ CBegin entropy ctx t0 # m1 @ CAuthorize web sig t1 # m2"
    "list_all (\<lambda>e. \<not> moves_attempt e) (m1 @ m2)"
    "context_valid p256 ctx"
    "entropy = \<lparr>en_attempt_id = Some (ad_attempt_id d), en_challenge = Some (ad_challenge d),
       en_key = Some (key, ad_device_public_key d)\<rparr>"
    "encode_transcript p256 (attempt_transcript_input ctx d web) = Some t"
    "signature_ok prim ctx t sig" "now < deadline_from t0" "t1 < deadline_from t0"
    "po_confirmed ops p"
    "request p = Some (presence_operation (bc_operation ctx), ad_attempt_id d)"
    "session_key prim (co_crypto c) web (ad_attempt_id d @ ad_challenge d) t = Some k"
    "ds_key (co_crypto c) = Some key"
    "sp_gcm_open prim k nonce ct tag t = Some vmk"
proof -
  note dl = coordinator_complete_True [OF assms(2)]
  then have con: "fst (po_consume ops (ad_attempt_id (co_descriptor c)) now p)" by blast
  from dl obtain k where k:
    "session_key prim (co_crypto c) (co_web_public_key c) (hkdf_salt (co_descriptor c)) (co_transcript c) = Some k"
    "sp_gcm_open prim k nonce ct tag (co_transcript c) = Some vmk" by blast
  from run_inv [OF assms(1)] show ?thesis
  proof (cases rule: attempt_inv_cases)
    case (authorized entropy ctx t0 web sig t1 pre m1 m2)
    have "request p = Some (presence_operation (bc_operation ctx), ad_attempt_id (co_descriptor c))"
      using authorized(7) consume_confirmed [OF con] by auto
    moreover obtain key where "en_key entropy = Some (key, ad_device_public_key (co_descriptor c))"
      "ds_key (co_crypto c) = Some key" using authorized(2) by (auto simp: attempt_begun_def)
    moreover have "entropy = \<lparr>en_attempt_id = Some (ad_attempt_id (co_descriptor c)),
        en_challenge = Some (ad_challenge (co_descriptor c)),
        en_key = Some (key, ad_device_public_key (co_descriptor c))\<rparr>"
      using authorized(2) calculation(2) by (intro session_entropy.equality) (simp_all add: attempt_begun_def)
    ultimately show ?thesis
      using authorized dl k consume_confirmed [OF con]
      by (intro that [of pre entropy ctx t0 m1 web sig t1 m2 "co_descriptor c" key "co_transcript c" k])
        (auto simp: attempt_begun_def attempt_authorized_def session_active_def session_holds_def hkdf_salt_def)
  qed (use dl in auto)
qed

end

end
