(* ===== verification/Delivery.thy ===== *)
theory Delivery
  imports Attempt_Coordinator
begin

text \<open>
  The session layer as it is put together on the device: the attempt coordinator with
  \<open>CanonicalPresence\<close> as its presence provider. The end-to-end property joins the history of the
  coordinator with the history of the button.
\<close>

text \<open>What reaches \<open>CanonicalPresence\<close> from the UI task.\<close>

datatype button_input = PObserve bool | PButton u64 | PExpire u64

fun button_step :: "button_input \<Rightarrow> canonical_presence \<Rightarrow> canonical_presence" where
  "button_step (PObserve pressed) p = canonical_observe pressed p"
| "button_step (PButton now) p = snd (canonical_button_pressed now p)"
| "button_step (PExpire now) p = snd (canonical_expire now p)"

definition initial_presence :: canonical_presence where
  "initial_presence = \<lparr>cp_gate = gate_clear, cp_button_press_generation = 0\<rparr>"

lemma button_request:
  "gate_request (cp_gate (button_step e p)) \<in> {gate_request (cp_gate p), None}"
proof (cases e)
  case (PObserve b)
  then show ?thesis by (simp add: canonical_observe_def gate_request_def gate_active_def observe_frame)
next
  case (PButton now)
  then show ?thesis
    by (auto simp: canonical_button_pressed_def gate_request_def gate_active_def confirm_current_def
        gate_expire_result Let_def split: if_splits prod.splits)
next
  case (PExpire now)
  then show ?thesis
    by (auto simp: canonical_expire_def gate_request_def gate_active_def gate_expire_result)
qed

interpretation device: presence_environment canonical_ops "\<lambda>p. gate_request (cp_gate p)" button_step
  by unfold_locales (rule button_request)

section \<open>The button's history inside the coordinator's\<close>

type_synonym 'k device_call = "('k, button_input) coordinator_call"

fun call_samples :: "'k device_call list \<Rightarrow> bool list" where
  "call_samples [] = []"
| "call_samples (CEnv (PObserve b) # cs) = b # call_samples cs"
| "call_samples (_ # cs) = call_samples cs"

lemma call_samples_append [simp]: "call_samples (cs @ ds) = call_samples cs @ call_samples ds"
  by (induction cs rule: call_samples.induct) simp_all

text \<open>The inputs that the gate receives from calls that do not move the attempt; a press while
  the gate is idle does not reach it.\<close>

inductive gate_trace :: "'k device_call list \<Rightarrow> gate_input list \<Rightarrow> bool" where
  none: "gate_trace [] []"
| observe: "gate_trace cs xs \<Longrightarrow> gate_trace (cs @ [CEnv (PObserve b)]) (xs @ [GObserve b])"
| press: "gate_trace cs xs \<Longrightarrow> gate_trace (cs @ [CEnv (PButton now)]) (xs @ [GConfirm now gen])"
| press_idle: "gate_trace cs xs \<Longrightarrow> gate_trace (cs @ [CEnv (PButton now)]) xs"
| expire: "gate_trace cs xs \<Longrightarrow> gate_trace (cs @ [CEnv (PExpire now)]) (xs @ [GExpire now])"
| poll: "gate_trace cs xs \<Longrightarrow> gate_trace (cs @ [CExpire now]) xs"

lemma gate_trace_samples: "gate_trace cs xs \<Longrightarrow> samples xs = call_samples cs"
  by (induction rule: gate_trace.induct) simp_all

lemma gate_trace_no_restart: "gate_trace cs xs \<Longrightarrow> list_all (\<lambda>e. \<not> is_restart e) xs"
  by (induction rule: gate_trace.induct) (simp_all add: is_restart_def)

lemma gate_trace_press:
  "gate_trace cs xs \<Longrightarrow> xs = x1 @ GConfirm at gen # x2 \<Longrightarrow>
   \<exists>n1 n2. cs = n1 @ CEnv (PButton at) # n2 \<and> samples x1 = call_samples n1"
proof (induction arbitrary: x2 rule: gate_trace.induct)
  case none
  then show ?case by simp
next
  case (observe cs xs b)
  then obtain y where "x2 = y @ [GObserve b]" "xs = x1 @ GConfirm at gen # y"
    by (cases x2 rule: rev_cases) auto
  with observe.IH show ?case by fastforce
next
  case (press cs xs now g)
  show ?case
  proof (cases x2 rule: rev_cases)
    case Nil
    then show ?thesis using press gate_trace_samples by fastforce
  next
    case (snoc y z)
    then show ?thesis using press by fastforce
  qed
next
  case (press_idle cs xs now)
  then show ?case by fastforce
next
  case (expire cs xs now)
  then obtain y where "x2 = y @ [GExpire now]" "xs = x1 @ GConfirm at gen # y"
    by (cases x2 rule: rev_cases) auto
  with expire.IH show ?case by fastforce
next
  case (poll cs xs now)
  then show ?case by fastforce
qed

section \<open>The gate behind the coordinator\<close>

definition gate_reached :: "canonical_presence \<Rightarrow> bool" where
  "gate_reached p \<longleftrightarrow> (\<exists>gs. gate_history gs (cp_gate p))"

lemma gate_reached_step: "gate_reached p \<Longrightarrow> cp_gate p' = gate_step e (cp_gate p) \<Longrightarrow> gate_reached p'"
  unfolding gate_reached_def by (metis gate_history.input)

lemma reached_cancel: "gate_reached p \<Longrightarrow> gate_reached (po_cancel canonical_ops p)"
  by (erule gate_reached_step [where e = GCancel]) (simp add: canonical_defs)

lemma reached_consume: "gate_reached p \<Longrightarrow> gate_reached (snd (po_consume canonical_ops a now p))"
  by (erule gate_reached_step [where e = "GConsume a now"])
    (simp add: canonical_ops_def canonical_consume_result)

lemma reached_begin: "gate_reached p \<Longrightarrow> gate_reached (snd (po_begin canonical_ops op a now p))"
  by (erule gate_reached_step [where e = "GBegin op a now (cp_button_press_generation p)"])
    (simp add: canonical_ops_def canonical_begin_presence_def split: prod.split)

lemma authorize_False_presence:
  assumes "coordinator_authorize p256 prim ops web sig now (c, p) = (False, c', p')"
  shows "co_state c' = AttemptIdle \<and> (p' = po_cancel ops p \<or>
    (\<exists>op a. p' = po_cancel ops (snd (po_begin ops op a now p))))"
  using assms
  by (auto simp: coordinator_authorize_def Let_def coordinator_cancel_def
      split: if_splits option.splits prod.splits bool.splits) (metis snd_conv)+

lemma complete_presence:
  "snd (snd (snd (coordinator_complete prim ops nonce ct tag now (c, p)))) \<in>
     {po_cancel ops p, snd (po_consume ops (ad_attempt_id (co_descriptor c)) now p),
      po_cancel ops (snd (po_consume ops (ad_attempt_id (co_descriptor c)) now p))}"
  by (auto simp: coordinator_complete_def Let_def coordinator_cancel_def
      split: if_splits option.splits prod.splits bool.splits)

text \<open>While the coordinator awaits presence, the gate's history is the request that its last
  \<open>authorize\<close> opened, followed by the button inputs since then.\<close>

inductive device_inv :: "'k device_call list \<Rightarrow> 'k coordinator \<times> canonical_presence \<Rightarrow> bool"
  for cs where
  other: "co_state c \<noteq> AwaitingPresence \<Longrightarrow> gate_reached p \<Longrightarrow> device_inv cs (c, p)"
| awaiting: "cs = pre @ CAuthorize web sig t1 # m \<Longrightarrow> list_all (\<lambda>e. \<not> moves_attempt e) m \<Longrightarrow>
    gate_trace m xs \<Longrightarrow> gate_history (gs @ GBegin op a t1 gen0 # xs) (cp_gate p) \<Longrightarrow>
    device_inv cs (c, p)"

lemma device_inv_reached: "device_inv cs (c, p) \<Longrightarrow> gate_reached p"
  by (cases rule: device_inv.cases, assumption) (auto simp: gate_reached_def)

lemma device_inv_button:
  assumes "device_inv cs (c, p)"
  shows "device_inv (cs @ [CEnv e]) (c, button_step e p)"
proof -
  have reached: "gate_reached (button_step e p)"
  proof (cases e)
    case (PObserve b)
    then show ?thesis using device_inv_reached [OF assms]
      by (auto elim: gate_reached_step [where e = "GObserve b"] simp: canonical_observe_def)
  next
    case (PButton now)
    then show ?thesis using device_inv_reached [OF assms]
      by (auto simp: canonical_button_pressed_def Let_def gate_reached_def split: prod.splits)
        (metis gate_history.input gate_step.simps(3) snd_conv)+
  next
    case (PExpire now)
    then show ?thesis using device_inv_reached [OF assms]
      by (auto elim: gate_reached_step [where e = "GExpire now"] simp: canonical_expire_def split: prod.splits)
  qed
  from assms show ?thesis
  proof (cases rule: device_inv.cases)
    case other
    then show ?thesis using reached by (auto intro: device_inv.other)
  next
    case (awaiting pre web sig t1 m xs gs op a gen0)
    have cs: "cs @ [CEnv e] = pre @ CAuthorize web sig t1 # (m @ [CEnv e])"
      "list_all (\<lambda>e. \<not> moves_attempt e) (m @ [CEnv e])" using awaiting by simp_all
    have step: "gate_history (gs @ GBegin op a t1 gen0 # (xs @ [x])) (gate_step x (cp_gate p))" for x
      using gate_history.input [of "gs @ GBegin op a t1 gen0 # xs" "cp_gate p" x] awaiting by simp
    have keep: "device_inv (cs @ [CEnv e]) (c, p')"
      if "gate_trace (m @ [CEnv e]) ys" "gate_history (gs @ GBegin op a t1 gen0 # ys) (cp_gate p')" for ys p'
      by (rule device_inv.awaiting [OF cs that])
    show ?thesis
    proof (cases e)
      case (PObserve b)
      show ?thesis
        by (rule keep [of "xs @ [GObserve b]"])
          (use step [of "GObserve b"] gate_trace.observe [OF awaiting(3)] in
            \<open>simp_all add: PObserve canonical_observe_def\<close>)
    next
      case (PExpire now)
      show ?thesis
        by (rule keep [of "xs @ [GExpire now]"])
          (use step [of "GExpire now"] gate_trace.expire [OF awaiting(3)] in
            \<open>simp_all add: PExpire canonical_expire_def split_beta\<close>)
    next
      case (PButton now)
      show ?thesis
      proof (cases "gate_active (cp_gate p)")
        case False
        then show ?thesis
          by (intro keep [of xs])
            (use awaiting gate_trace.press_idle [OF awaiting(3)] in
              \<open>auto simp: PButton canonical_button_pressed_def Let_def\<close>)
      next
        case True
        define gen where "gen = cp_button_press_generation (if cp_button_press_generation p \<noteq> max_u64
            then p\<lparr>cp_button_press_generation := cp_button_press_generation p + 1\<rparr> else p)"
        have "cp_gate (button_step e p) = gate_step (GConfirm now gen) (cp_gate p)"
          using True by (auto simp: PButton canonical_button_pressed_def Let_def gen_def split: prod.splits)
        then show ?thesis
          using step [of "GConfirm now gen"] gate_trace.press [OF awaiting(3)]
          by (intro keep [of "xs @ [GConfirm now gen]"]) (simp_all add: PButton)
      qed
    qed
  qed
qed

lemma device_inv_authorize:
  assumes "device_inv cs (c, p)"
  shows "device_inv (cs @ [CAuthorize web sig now])
    (snd (coordinator_authorize p256 prim canonical_ops web sig now (c, p)))"
proof -
  note reached = device_inv_reached [OF assms]
  obtain b c' p' where r: "coordinator_authorize p256 prim canonical_ops web sig now (c, p) = (b, c', p')"
    using prod_cases3 by blast
  show ?thesis
  proof (cases b)
    case False
    then have "co_state c' = AttemptIdle" "gate_reached p'"
      using authorize_False_presence [of p256 prim canonical_ops web sig now c p c' p'] r reached
      by (auto intro: reached_cancel reached_begin)
    then show ?thesis by (auto simp: r intro: device_inv.other)
  next
    case True
    with r have "coordinator_authorize p256 prim canonical_ops web sig now (c, p) = (True, c', p')" by simp
    note a = coordinator_authorize_True [OF this]
    then obtain op at where b: "po_begin canonical_ops op at now p = (True, p')" by blast
    obtain gs where gs: "gate_history gs (cp_gate p)" using reached by (auto simp: gate_reached_def)
    have "cp_gate p' = gate_step (GBegin op at now (cp_button_press_generation p)) (cp_gate p)"
      using b by (auto simp: canonical_ops_def canonical_begin_presence_def split: prod.splits)
    then have "gate_history (gs @ GBegin op at now (cp_button_press_generation p) # []) (cp_gate p')"
      using gate_history.input [OF gs, of "GBegin op at now (cp_button_press_generation p)"] by simp
    then show ?thesis
      using device_inv.awaiting [of "cs @ [CAuthorize web sig now]" cs web sig now "[]" "[]"]
      by (simp add: r gate_trace.none)
  qed
qed

lemma device_inv_step:
  assumes "device_inv cs (c, p)"
  shows "device_inv (cs @ [e]) (coordinator_step p256 prim canonical_ops button_step e (c, p))"
proof -
  note reached = device_inv_reached [OF assms]
  have other: "device_inv cs' st" if "co_state (fst st) \<noteq> AwaitingPresence" "gate_reached (snd st)"
    for cs' :: "'a device_call list" and st :: "'a coordinator \<times> canonical_presence"
    using device_inv.other [of "fst st" "snd st"] that by simp
  show ?thesis
  proof (cases e)
    case (CAuthorize web sig now)
    then show ?thesis using device_inv_authorize [OF assms] by simp
  next
    case (CEnv x)
    then show ?thesis using device_inv_button [OF assms] by simp
  next
    case CCancel
    then show ?thesis using reached by (auto simp: cancel_idle intro!: other reached_cancel)
  next
    case (CComplete n ct tag now)
    then show ?thesis
      using reached complete_presence [of prim canonical_ops n ct tag now c p]
        coordinator_complete_idle(2) [of prim canonical_ops n ct tag now "(c, p)"]
      by (auto intro!: other reached_cancel reached_consume)
  next
    case (CBegin en ctx now)
    have "co_state (fst (snd (coordinator_begin p256 canonical_ops en ctx now (c, p)))) \<noteq> AwaitingPresence \<and>
        snd (snd (coordinator_begin p256 canonical_ops en ctx now (c, p))) = po_cancel canonical_ops p"
      using cancel_idle [of canonical_ops "(c, p)"]
      by (auto simp: coordinator_begin_def split: prod.splits option.splits)
    then show ?thesis using reached by (auto simp: CBegin intro!: other reached_cancel)
  next
    case (CExpire now)
    obtain b st' where r: "coordinator_expire canonical_ops now (c, p) = (b, st')"
      by (cases "coordinator_expire canonical_ops now (c, p)")
    show ?thesis
    proof (cases "st' = (c, p)")
      case False
      then have "co_state (fst st') = AttemptIdle" "snd st' = po_cancel canonical_ops p"
        using r by (auto simp: coordinator_expire_def coordinator_cancel_def Let_def device_ttl.expire_eq
            split: if_splits)
      then show ?thesis using reached by (auto simp: CExpire r intro!: other reached_cancel)
    next
      case True
      from assms show ?thesis
      proof (cases rule: device_inv.cases)
        case other
        then show ?thesis using reached True by (auto simp: CExpire r intro: device_inv.other)
      next
        case (awaiting pre web sig t1 m xs gs op a gen0)
        then show ?thesis
          using device_inv.awaiting [of "cs @ [e]" pre web sig t1 "m @ [e]" xs gs op a gen0 p c]
            gate_trace.poll [OF awaiting(3), of now] True by (simp add: CExpire r)
      qed
    qed
  qed
qed

lemma device_run_inv:
  "coordinator_run p256 prim canonical_ops button_step initial_presence cs st \<Longrightarrow> device_inv cs st"
proof (induction rule: coordinator_run.induct)
  case start
  show ?case
    using gate_history.start
    by (auto simp: initial_coordinator_def initial_presence_def gate_reached_def intro!: device_inv.other)
next
  case (call cs st e)
  then show ?case using device_inv_step [of cs "fst st" "snd st"] by simp
qed

section \<open>End to end\<close>

lemma delivery_gesture:
  assumes run: "coordinator_run p256 prim canonical_ops button_step initial_presence cs (c, p)"
    and consumed: "fst (canonical_consume_presence a now p)"
    and cs: "cs = pre @ CAuthorize web sig t1 # m2" "list_all (\<lambda>e. \<not> moves_attempt e) m2"
    and state: "co_state c = AwaitingPresence"
  shows "\<exists>n1 at n2. m2 = n1 @ CEnv (PButton at) # n2 \<and> gesture (call_samples n1) \<and> at < deadline_from t1"
  using device_run_inv [OF run]
proof (cases rule: device_inv.cases)
  case other
  then show ?thesis using state by simp
next
  case (awaiting pre' web' sig' t1' m xs gs op b gen0)
  have "pre = pre' \<and> CAuthorize web sig t1 = CAuthorize web' sig' t1' \<and> m2 = m"
    using last_split_unique [of pre "CAuthorize web sig t1" m2 pre' "CAuthorize web' sig' t1'" m
        moves_attempt] awaiting cs by auto
  then have eq: "t1' = t1" "m = m2" by simp_all
  have "consume_confirmation a now (cp_gate p) =
      (True, snd (consume_confirmation a now (cp_gate p)))"
    using consumed by (cases "consume_confirmation a now (cp_gate p)") (simp add: canonical_consume_result)
  from consumed_inputs [OF awaiting(4) this] obtain pre2 op2 t0 gen2 x1 at gen x2 where
    d: "gs @ GBegin op b t1' gen0 # xs = pre2 @ GBegin op2 a t0 gen2 # x1 @ GConfirm at gen # x2"
      "list_all (\<lambda>e. \<not> is_restart e) (x1 @ x2)" "gesture (samples x1)" "at < deadline_from t0" by blast
  have "gs = pre2 \<and> GBegin op b t1' gen0 = GBegin op2 a t0 gen2 \<and> xs = x1 @ GConfirm at gen # x2"
    using d(1,2) gate_trace_no_restart [OF awaiting(3)]
    by (intro last_split_unique [where P = is_restart]) (auto simp: is_restart_def)
  then have "xs = x1 @ GConfirm at gen # x2" "t0 = t1" using eq by simp_all
  with gate_trace_press [OF awaiting(3)] d(3,4) eq show ?thesis by metis
qed

text \<open>C3. The end-to-end guarantee of a session. If \<open>complete\<close> hands out a key, then the calls on
  the coordinator and the inputs from the button since power-up contain, in this order and with
  no other \<open>begin\<close>, \<open>authorize\<close>, \<open>complete\<close> or \<open>cancel\<close> in between: the \<open>begin\<close> of a valid context; an
  \<open>authorize\<close> whose transcript of exactly that context, of the attempt id, challenge and device
  key drawn in that \<open>begin\<close> and of the browser's key is properly signed where the operation needs
  it; and a deliberate press of the physical button, released before and inside 30 seconds of
  the authorization. The key is the authenticated decryption under the session key of exactly
  that transcript, agreed with that ephemeral device key, before the attempt's deadline.\<close>

theorem delivered_key_was_authorized:
  assumes "coordinator_run p256 prim canonical_ops button_step initial_presence cs (c, p)"
    and "coordinator_complete prim canonical_ops nonce ct tag now (c, p) = (True, vmk, c', p')"
  shows "\<exists>pre d key ctx t0 m1 web sig t1 n1 at n2 t k.
    cs = pre @ CBegin \<lparr>en_attempt_id = Some (ad_attempt_id d), en_challenge = Some (ad_challenge d),
           en_key = Some (key, ad_device_public_key d)\<rparr> ctx t0
         # m1 @ CAuthorize web sig t1 # n1 @ CEnv (PButton at) # n2 \<and>
    list_all (\<lambda>e. \<not> moves_attempt e) (m1 @ n1 @ n2) \<and>
    context_valid p256 ctx \<and>
    encode_transcript p256 (attempt_transcript_input ctx d web) = Some t \<and> signature_ok prim ctx t sig \<and>
    gesture (call_samples n1) \<and> at < deadline_from t1 \<and> t1 < deadline_from t0 \<and> now < deadline_from t0 \<and>
    ds_key (co_crypto c) = Some key \<and>
    session_key prim (co_crypto c) web (ad_attempt_id d @ ad_challenge d) t = Some k \<and>
    sp_gcm_open prim k nonce ct tag t = Some vmk"
proof -
  obtain pre entropy ctx t0 m1 web sig t1 m2 d t key k where
    h: "cs = pre @ CBegin entropy ctx t0 # m1 @ CAuthorize web sig t1 # m2"
    "list_all (\<lambda>e. \<not> moves_attempt e) (m1 @ m2)" "context_valid p256 ctx"
    "entropy = \<lparr>en_attempt_id = Some (ad_attempt_id d), en_challenge = Some (ad_challenge d),
       en_key = Some (key, ad_device_public_key d)\<rparr>"
    "encode_transcript p256 (attempt_transcript_input ctx d web) = Some t"
    "signature_ok prim ctx t sig" "now < deadline_from t0" "t1 < deadline_from t0"
    "session_key prim (co_crypto c) web (ad_attempt_id d @ ad_challenge d) t = Some k"
    "ds_key (co_crypto c) = Some key" "sp_gcm_open prim k nonce ct tag t = Some vmk"
    by (rule device.delivery [OF assms]) blast
  note cp = coordinator_complete_True [OF assms(2)]
  have st: "co_state c = AwaitingPresence"
    using device.run_inv [OF assms(1)] cp
    by (cases rule: attempt_inv_cases) (auto simp: attempt_authorized_def)
  from cp have "fst (po_consume canonical_ops (ad_attempt_id (co_descriptor c)) now p)" by blast
  then have con: "fst (canonical_consume_presence (ad_attempt_id (co_descriptor c)) now p)"
    by (simp add: canonical_ops_def)
  have cs: "cs = (pre @ CBegin entropy ctx t0 # m1) @ CAuthorize web sig t1 # m2"
    "list_all (\<lambda>e. \<not> moves_attempt e) m2" using h(1,2) by simp_all
  from delivery_gesture [OF assms(1) con cs st] obtain n1 at n2 where n: "m2 = n1 @ CEnv (PButton at) # n2" "gesture (call_samples n1)"
    "at < deadline_from t1"
    by blast
  show ?thesis
    by (rule exI [of _ pre], rule exI [of _ d], rule exI [of _ key], rule exI [of _ ctx],
        rule exI [of _ t0], rule exI [of _ m1], rule exI [of _ web], rule exI [of _ sig],
        rule exI [of _ t1], rule exI [of _ n1], rule exI [of _ at], rule exI [of _ n2],
        rule exI [of _ t], rule exI [of _ k]) (use h n in simp)
qed

text \<open>A concrete session: an unlock by a trusted browser, with one press of the button.\<close>

definition sample_context :: begin_context where
  "sample_context = \<lparr>bc_operation = TrustedBrowserUnlock, bc_device_id = ascii ''m5'',
     bc_vault_id = zeros 16, bc_expected_generation = 3, bc_registration_id = 1 # zeros 15,
     bc_registration_epoch = 1, bc_current_brk_public_key = sample_key,
     bc_proposed_brk_public_key = zeros 65\<rparr>"

definition sample_entropy :: "unit session_entropy" where
  "sample_entropy = \<lparr>en_attempt_id = Some (zeros 16), en_challenge = Some (zeros 32),
     en_key = Some ((), sample_key)\<rparr>"

definition sample_calls :: "unit device_call list" where
  "sample_calls = [CBegin sample_entropy sample_context 1000, CAuthorize sample_key (zeros 64) 2000,
     CEnv (PObserve False), CEnv (PObserve False), CEnv (PObserve True), CEnv (PButton 3000)]"

definition sample_descriptor :: attempt_descriptor where
  "sample_descriptor = \<lparr>ad_attempt_id = zeros 16, ad_challenge = zeros 32,
     ad_device_public_key = sample_key, ad_expires_at_ms = 31000\<rparr>"

definition sample_state :: "unit coordinator \<times> canonical_presence" where
  "sample_state = fold (coordinator_step (\<lambda>_. True) sample_primitives canonical_ops button_step)
     sample_calls (initial_coordinator, initial_presence)"

lemma sample_encode:
  "encode_transcript (\<lambda>_. True) (attempt_transcript_input sample_context sample_descriptor sample_key)
     = Some (transcript_bytes (attempt_transcript_input sample_context sample_descriptor sample_key))"
    (is "encode_transcript _ ?i = _")
  and sample_transcript_length:
    "length (transcript_bytes (attempt_transcript_input sample_context sample_descriptor sample_key)) = 362"
proof -
  have wf: "transcript_wf ?i"
    by (simp add: transcript_wf_def attempt_transcript_input_def sample_context_def sample_descriptor_def
        session_sizes sample_key_def)
  show "encode_transcript (\<lambda>_. True) ?i = Some (transcript_bytes ?i)"
    unfolding encode_transcript_wf_iff [OF wf]
    using sample_key_valid valid_p256_nonzero [OF sample_key_valid]
    by (simp add: attempt_transcript_input_def sample_context_def sample_descriptor_def
        valid_optional_p256_identity_def transcript_operation_rejected_def is_zero_public_key_iff
        kMaxDeviceIdBytes_def ascii_def)
  show "length (transcript_bytes ?i) = 362"
    using length_transcript [OF wf]
    by (simp add: kTranscriptFixedBytes_def attempt_transcript_input_def sample_context_def ascii_def)
qed

lemma sample_context_valid: "context_valid (\<lambda>_. True) sample_context"
  using sample_key_valid valid_p256_nonzero [OF sample_key_valid]
  by (simp add: context_valid_def sample_context_def kMaxDeviceIdBytes_def ascii_def all_zero_def
      valid_optional_p256_identity_def is_zero_public_key_iff)

definition sample_begun :: "unit coordinator" where
  "sample_begun = \<lparr>co_crypto = \<lparr>ds_attempt_id = zeros 16, ds_challenge = zeros 32,
       ds_device_public_key = sample_key, ds_expires_at_ms = 31000, ds_active = True, ds_key = Some ()\<rparr>,
     co_context = sample_context, co_descriptor = sample_descriptor,
     co_web_public_key = zeros 65, co_transcript = [], co_active = True,
     co_state = AwaitingAuthorization\<rparr>"

definition sample_authorized :: "unit coordinator" where
  "sample_authorized = sample_begun\<lparr>co_web_public_key := sample_key,
     co_transcript := transcript_bytes (attempt_transcript_input sample_context sample_descriptor sample_key),
     co_state := AwaitingPresence\<rparr>"

lemma initial_cancel:
  "coordinator_cancel canonical_ops (initial_coordinator, initial_presence) =
     (initial_coordinator, initial_presence)"
  by (simp add: coordinator_cancel_def initial_coordinator_def wipe_staged_def initial_context_def
      session_cancel_def canonical_ops_def canonical_cancel_presence_def gate_cancel_def initial_presence_def)

lemma sample_key_shape [simp]: "length sample_key = 65" "sample_key ! 0 = 4"
  by (simp_all add: sample_key_def)

lemma sample_fields [simp]:
  "bc_operation sample_context = TrustedBrowserUnlock"
  "bc_current_brk_public_key sample_context = sample_key"
  "ad_attempt_id sample_descriptor = zeros 16" "ad_challenge sample_descriptor = zeros 32"
  by (simp_all add: sample_context_def sample_descriptor_def)

lemma sample_begin:
  "coordinator_begin (\<lambda>_. True) canonical_ops sample_entropy sample_context 1000
     (initial_coordinator, initial_presence) = (Some sample_descriptor, sample_begun, initial_presence)"
proof -
  have "session_begin sample_entropy 1000 s = (Some sample_descriptor, co_crypto sample_begun)" for s
    by (simp add: session_begin_def sample_entropy_def Let_def sample_descriptor_def sample_begun_def
        deadline_from_def kAttemptTtlMs_def kP256PublicKeyBytes_def)
  then show ?thesis
    by (simp add: coordinator_begin_def initial_cancel sample_context_valid)
      (simp add: initial_coordinator_def sample_begun_def kP256PublicKeyBytes_def)
qed

lemma sample_authorize:
  "snd (coordinator_authorize (\<lambda>_. True) sample_primitives canonical_ops sample_key (zeros 64) 2000
     (sample_begun, initial_presence)) =
   (sample_authorized, snd (canonical_begin_presence PresTrustedBrowserUnlock (zeros 16) 2000 initial_presence))"
  using sample_encode sample_transcript_length
  by (simp add: coordinator_authorize_def sample_begun_def sample_authorized_def matches_attempt_iff
      session_active_def Let_def authorize_signature_def brk_signature_required_def
      verify_brk_signature_def kBrkSignatureBytes_def bounded_nonempty_def kP256PublicKeyBytes_def
      kMaxTranscriptBytes_def sample_primitives_def canonical_ops_def
      canonical_begin_presence_def gate_begin_def presence_operation_def flip: length_0_conv)

definition sample_presence :: canonical_presence where
  "sample_presence = fold button_step [PObserve False, PObserve False, PObserve True, PButton 3000]
     (snd (canonical_begin_presence PresTrustedBrowserUnlock (zeros 16) 2000 initial_presence))"

lemma sample_state_eq: "sample_state = (sample_authorized, sample_presence)"
  by (simp add: sample_state_def sample_calls_def sample_begin sample_authorize sample_presence_def)

lemma sample_consume: "fst (canonical_consume_presence (zeros 16) 4000 sample_presence)"
proof -
  have "pg_state (cp_gate sample_presence) = PresenceConfirmed"
    "pg_expires_at_ms (cp_gate sample_presence) = 32000"
    "pg_attempt_id (cp_gate sample_presence) = zeros 16"
    by (simp_all add: sample_presence_def canonical_defs gate_defs Let_def deadline_from_def
        kAttemptTtlMs_def initial_presence_def word_le_nat_alt)
  then have "consume_confirmation (zeros 16) 4000 (cp_gate sample_presence) = (True, gate_clear)"
    by (simp add: consume_confirmation_iff)
  then show ?thesis by (simp add: canonical_consume_result)
qed

lemma sample_complete:
  "\<exists>st'. coordinator_complete sample_primitives canonical_ops (zeros 12) (replicate 32 9) (zeros 16) 4000
     (sample_authorized, sample_presence) = (True, replicate 32 9, st')"
proof -
  obtain p' where c: "canonical_consume_presence (zeros 16) 4000 sample_presence = (True, p')"
    using sample_consume by (cases "canonical_consume_presence (zeros 16) 4000 sample_presence") simp
  have m: "matches_attempt (zeros 16) 4000 (co_crypto sample_authorized) = (True, co_crypto sample_authorized)"
    by (simp add: matches_attempt_iff session_active_def sample_authorized_def sample_begun_def)
  have o: "open_vmk sample_primitives (co_web_public_key sample_authorized) (zeros 16 @ zeros 32)
      (co_transcript sample_authorized) (zeros 12) (replicate 32 9) (zeros 16)
      (co_transcript sample_authorized) 4000 (co_crypto sample_authorized) = (True, replicate 32 9, session_reset)"
    using sample_transcript_length
    by (simp add: open_vmk_def session_active_def sample_authorized_def sample_begun_def session_sizes
        bounded_nonempty_def shared_secret_def sample_primitives_def Let_def flip: length_0_conv)
  have "co_active sample_authorized" "co_state sample_authorized = AwaitingPresence"
    "co_descriptor sample_authorized = sample_descriptor"
    by (simp_all add: sample_authorized_def sample_begun_def)
  then show ?thesis
    using c m o by (simp add: coordinator_complete_def Let_def canonical_ops_def hkdf_salt_def)
qed

lemma delivered_key_was_authorized_witness:
  "\<exists>pre en ctx t0 m1 web sig t1 n1 at n2.
     sample_calls = pre @ CBegin en ctx t0 # m1 @ CAuthorize web sig t1 # n1 @ CEnv (PButton at) # n2 \<and>
     gesture (call_samples n1)"
proof -
  obtain c' p' where c: "coordinator_complete sample_primitives canonical_ops (zeros 12) (replicate 32 9)
      (zeros 16) 4000 (sample_authorized, sample_presence) = (True, replicate 32 9, c', p')"
    using sample_complete by (metis prod.collapse)
  have r: "coordinator_run (\<lambda>_. True) sample_primitives canonical_ops button_step initial_presence
      sample_calls (sample_authorized, sample_presence)"
    using coordinator_run_fold sample_state_eq unfolding sample_state_def by metis
  from delivered_key_was_authorized [OF r c] show ?thesis by (elim exE conjE) (intro exI conjI)
qed

end
