(* ===== verification/Vault_Crypto.thy ===== *)
theory Vault_Crypto
  imports Vault_Format_Correct
begin

text \<open>
  Sealing and opening of the encrypted Vault and of the wrapped key
  (\<open>m5auth_vault/vault_crypto.cpp\<close>). AES-256-GCM itself is mbedtls on the device and OpenSSL in
  the host tests: the record \<open>gcm\<close>. What the random generator returns is an argument, \<open>None\<close> for
  its failure. An output that the code leaves unwritten on failure is \<open>None\<close>.
\<close>

record gcm =
  gcm_encrypt :: "bytes \<Rightarrow> bytes \<Rightarrow> bytes \<Rightarrow> bytes \<Rightarrow> (bytes \<times> bytes) option"
  gcm_decrypt :: "bytes \<Rightarrow> bytes \<Rightarrow> bytes \<Rightarrow> bytes \<Rightarrow> bytes \<Rightarrow> bytes option"

record vault_envelope =
  ve_vault_format_version :: u16
  ve_storage_schema_version :: u16
  ve_vault_id :: bytes
  ve_generation :: u64
  ve_nonce :: bytes
  ve_ciphertext :: bytes
  ve_tag :: bytes

definition empty_envelope :: vault_envelope where
  "empty_envelope = \<lparr>ve_vault_format_version = kVaultFormatVersion1,
     ve_storage_schema_version = kTargetStorageSchemaVersion, ve_vault_id = zeros kVaultIdBytes,
     ve_generation = 0, ve_nonce = zeros kVaultNonceBytes, ve_ciphertext = [],
     ve_tag = zeros kVaultTagBytes\<rparr>"

record vmk_wrap_envelope =
  we_package_version :: u16
  we_wrap_version :: u16
  we_vault_id :: bytes
  we_nonce :: bytes
  we_ciphertext :: bytes
  we_tag :: bytes

definition encrypt_vault_with_nonce ::
  "gcm \<Rightarrow> bytes \<Rightarrow> bytes \<Rightarrow> bytes \<Rightarrow> u64 \<Rightarrow> bytes \<Rightarrow> u16 \<Rightarrow> vault_envelope option" where
  "encrypt_vault_with_nonce g plaintext vmk vault_id generation nonce fmt =
     (if \<not> is_supported_vault_format fmt then None
      else do {
        aad \<leftarrow> build_vault_aad vault_id generation fmt kTargetStorageSchemaVersion;
        (ciphertext, tag) \<leftarrow> gcm_encrypt g vmk nonce aad plaintext;
        Some \<lparr>ve_vault_format_version = fmt,
              ve_storage_schema_version = kTargetStorageSchemaVersion,
              ve_vault_id = vault_id, ve_generation = generation, ve_nonce = nonce,
              ve_ciphertext = ciphertext, ve_tag = tag\<rparr> })"

definition encrypt_vault ::
  "gcm \<Rightarrow> bytes option \<Rightarrow> bytes \<Rightarrow> bytes \<Rightarrow> bytes \<Rightarrow> u64 \<Rightarrow> u16 \<Rightarrow> vault_envelope option" where
  "encrypt_vault g random_nonce plaintext vmk vault_id generation fmt =
     (case random_nonce of None \<Rightarrow> None
      | Some nonce \<Rightarrow> encrypt_vault_with_nonce g plaintext vmk vault_id generation nonce fmt)"

definition decrypt_vault :: "gcm \<Rightarrow> vault_envelope \<Rightarrow> bytes \<Rightarrow> bytes option" where
  "decrypt_vault g envelope vmk =
     (if \<not> is_supported_vault_format (ve_vault_format_version envelope)
         \<or> ve_storage_schema_version envelope \<noteq> kTargetStorageSchemaVersion then None
      else do {
        aad \<leftarrow> build_vault_aad (ve_vault_id envelope) (ve_generation envelope)
                 (ve_vault_format_version envelope) (ve_storage_schema_version envelope);
        gcm_decrypt g vmk (ve_nonce envelope) aad (ve_ciphertext envelope) (ve_tag envelope) })"

definition wrap_vmk_with_key_and_nonce ::
  "gcm \<Rightarrow> bytes \<Rightarrow> bytes \<Rightarrow> bytes \<Rightarrow> bytes \<Rightarrow> vmk_wrap_envelope option" where
  "wrap_vmk_with_key_and_nonce g vmk wrapping_key vault_id nonce =
     do {
       aad \<leftarrow> build_vmk_wrap_aad vault_id kRecoveryPackageVersion kVmkWrapVersion;
       (ciphertext, tag) \<leftarrow> gcm_encrypt g wrapping_key nonce aad vmk;
       if length ciphertext \<noteq> kVmkBytes then None
       else Some \<lparr>we_package_version = kRecoveryPackageVersion, we_wrap_version = kVmkWrapVersion,
                  we_vault_id = vault_id, we_nonce = nonce, we_ciphertext = ciphertext,
                  we_tag = tag\<rparr> }"

definition unwrap_vmk_with_key :: "gcm \<Rightarrow> vmk_wrap_envelope \<Rightarrow> bytes \<Rightarrow> bytes option" where
  "unwrap_vmk_with_key g envelope wrapping_key =
     (if we_package_version envelope \<noteq> kRecoveryPackageVersion
         \<or> we_wrap_version envelope \<noteq> kVmkWrapVersion then None
      else do {
        aad \<leftarrow> build_vmk_wrap_aad (we_vault_id envelope) (we_package_version envelope)
                 (we_wrap_version envelope);
        plaintext \<leftarrow> gcm_decrypt g wrapping_key (we_nonce envelope) aad (we_ciphertext envelope)
                 (we_tag envelope);
        if length plaintext \<noteq> kVmkBytes then None else Some plaintext })"

section \<open>What the code relies on\<close>

text \<open>
  AES-GCM as documented: decryption recomputes the tag, so it succeeds exactly on the output of
  an encryption with the same key, nonce and associated data; the ciphertext is as long as the
  plaintext and the tag has sixteen bytes.
\<close>

definition gcm_laws :: "gcm \<Rightarrow> bool" where
  "gcm_laws g \<longleftrightarrow>
     (\<forall>k n a p c t. gcm_decrypt g k n a c t = Some p \<longleftrightarrow> gcm_encrypt g k n a p = Some (c, t)) \<and>
     (\<forall>k n a p c t. gcm_encrypt g k n a p = Some (c, t) \<longrightarrow> length c = length p \<and> length t = 16)"

lemma gcm_decrypt_iff:
  "gcm_laws g \<Longrightarrow> gcm_decrypt g k n a c t = Some p \<longleftrightarrow> gcm_encrypt g k n a p = Some (c, t)"
  by (simp add: gcm_laws_def)

lemma gcm_length: "gcm_laws g \<Longrightarrow> gcm_encrypt g k n a p = Some (c, t) \<Longrightarrow> length c = length p"
  by (auto simp: gcm_laws_def)

text \<open>A concrete instance, so that the hypothesis is seen to hold of something: a stream cipher
  that adds the first key byte, with the key, nonce and associated data of the last block in the
  tag.\<close>

definition toy_tag :: "bytes \<Rightarrow> bytes \<Rightarrow> bytes \<Rightarrow> bytes" where
  "toy_tag k n a = take 16 (k @ n @ a @ zeros 16)"

definition toy_gcm :: gcm where
  "toy_gcm = \<lparr>gcm_encrypt = \<lambda>k n a p. Some (map (\<lambda>b. b + hd (k @ [0])) p, toy_tag k n a),
     gcm_decrypt = \<lambda>k n a c t. if t = toy_tag k n a then Some (map (\<lambda>b. b - hd (k @ [0])) c) else None\<rparr>"

lemma toy_gcm_laws: "gcm_laws toy_gcm"
proof -
  have "map (\<lambda>b. b - k) c = p \<longleftrightarrow> map (\<lambda>b. b + k) p = c" for k :: byte and c p
    by (auto simp: map_idI)
  then show ?thesis by (auto simp: gcm_laws_def toy_gcm_def toy_tag_def)
qed

section \<open>Round trips\<close>

lemma decrypt_vault_iff:
  assumes "gcm_laws g"
  shows "decrypt_vault g env vmk = Some p \<longleftrightarrow>
    encrypt_vault_with_nonce g p vmk (ve_vault_id env) (ve_generation env) (ve_nonce env)
      (ve_vault_format_version env) = Some env"
proof -
  have "env = \<lparr>ve_vault_format_version = ve_vault_format_version env,
      ve_storage_schema_version = ve_storage_schema_version env, ve_vault_id = ve_vault_id env,
      ve_generation = ve_generation env, ve_nonce = ve_nonce env,
      ve_ciphertext = ve_ciphertext env, ve_tag = ve_tag env\<rparr>" by simp
  then show ?thesis
    using gcm_decrypt_iff [OF assms]
    by (cases env) (auto simp: decrypt_vault_def encrypt_vault_with_nonce_def bind_eq_Some_conv)
qed

text \<open>Two associated data under which GCM, with one key and one nonce, gives the same ciphertext and tag:
  what a forger of AES-GCM would have to find.\<close>

definition aad_collision :: "gcm \<Rightarrow> bytes \<Rightarrow> bytes \<Rightarrow> bytes \<Rightarrow> bytes \<Rightarrow> bytes \<Rightarrow> bytes \<Rightarrow> bool" where
  "aad_collision g k n p p' c t \<longleftrightarrow>
     (\<exists>a a'. a \<noteq> a' \<and> gcm_encrypt g k n a p = Some (c, t) \<and> gcm_encrypt g k n a' p' = Some (c, t))"

lemma decrypt_vault_uses:
  assumes "gcm_laws g" "decrypt_vault g env k = Some p"
  shows "\<exists>a. build_vault_aad (ve_vault_id env) (ve_generation env) (ve_vault_format_version env)
      (ve_storage_schema_version env) = Some a \<and> gcm_encrypt g k (ve_nonce env) a p = Some (ve_ciphertext env, ve_tag env)"
  using assms by (auto simp: decrypt_vault_def bind_eq_Some_conv gcm_decrypt_iff split: if_splits)

text \<open>C31. The seal of a Vault covers its header. A sealed Vault opens, with its key, to what was sealed, and
  says the id, the generation and the format it was sealed with. Any other envelope around the same nonce, ciphertext and
  tag (a replaced Vault id, generation, format or schema, in any combination) opens with that key only
  if AES-GCM itself gives the same ciphertext and tag for two different associated data.\<close>

theorem vault_seal_covers_header:
  assumes "gcm_laws g" "encrypt_vault_with_nonce g p k vid gen n fmt = Some env"
  shows "decrypt_vault g env k = Some p \<and> ve_vault_id env = vid \<and> ve_generation env = gen \<and>
    ve_vault_format_version env = fmt \<and>
    (\<forall>env' p'. ve_nonce env' = ve_nonce env \<and> ve_ciphertext env' = ve_ciphertext env \<and> ve_tag env' = ve_tag env \<and>
       decrypt_vault g env' k = Some p' \<longrightarrow>
       env' = env \<and> p' = p \<or> aad_collision g k n p p' (ve_ciphertext env) (ve_tag env))"
proof (intro conjI allI impI)
  have fields: "ve_vault_id env = vid" "ve_generation env = gen" "ve_nonce env = n" "ve_vault_format_version env = fmt"
    using assms(2) by (auto simp: encrypt_vault_with_nonce_def bind_eq_Some_conv split: if_splits)
  show opens: "decrypt_vault g env k = Some p" using decrypt_vault_iff [OF assms(1)] assms(2) by (simp add: fields)
  show "ve_vault_id env = vid" "ve_generation env = gen" "ve_vault_format_version env = fmt" by (fact fields)+
  fix env' p'
  assume same: "ve_nonce env' = ve_nonce env \<and> ve_ciphertext env' = ve_ciphertext env \<and> ve_tag env' = ve_tag env \<and>
    decrypt_vault g env' k = Some p'"
  obtain a where a: "build_vault_aad (ve_vault_id env) (ve_generation env) (ve_vault_format_version env)
      (ve_storage_schema_version env) = Some a" "gcm_encrypt g k n a p = Some (ve_ciphertext env, ve_tag env)"
    using decrypt_vault_uses [OF assms(1) opens] unfolding fields(3) by blast
  have opens': "decrypt_vault g env' k = Some p'" "ve_nonce env' = n" "ve_ciphertext env' = ve_ciphertext env"
    "ve_tag env' = ve_tag env" using same fields(3) by blast+
  obtain a' where a': "build_vault_aad (ve_vault_id env') (ve_generation env') (ve_vault_format_version env')
      (ve_storage_schema_version env') = Some a'" "gcm_encrypt g k n a' p' = Some (ve_ciphertext env, ve_tag env)"
    using decrypt_vault_uses [OF assms(1) opens'(1)] unfolding opens'(2-4) by blast
  show "env' = env \<and> p' = p \<or> aad_collision g k n p p' (ve_ciphertext env) (ve_tag env)"
  proof (cases "a = a'")
    case True
    have "ve_vault_id env' = ve_vault_id env \<and> ve_generation env' = ve_generation env \<and>
        ve_vault_format_version env' = ve_vault_format_version env \<and>
        ve_storage_schema_version env' = ve_storage_schema_version env"
      using vault_aad_injective [OF a'(1)] a(1) True by metis
    then have "env' = env" using opens'(2-4) fields(3) by (intro vault_envelope.equality) simp_all
    then show ?thesis using opens opens'(1) by simp
  next
    case False
    then show ?thesis using a(2) a'(2) unfolding aad_collision_def by blast
  qed
qed

definition sample_envelope :: vault_envelope where
  "sample_envelope = \<lparr>ve_vault_format_version = 1, ve_storage_schema_version = 2,
     ve_vault_id = zeros 16, ve_generation = 1, ve_nonce = zeros 12, ve_ciphertext = [8, 9],
     ve_tag = toy_tag [7] (zeros 12) (the (build_vault_aad (zeros 16) 1 1 2))\<rparr>"

text \<open>The tag of the toy cipher has room for three bytes of the associated data only, so it does collide.\<close>

lemma vault_seal_covers_header_witness:
  "decrypt_vault toy_gcm sample_envelope [7] = Some [1, 2] \<and>
   aad_collision toy_gcm [7] (zeros 12) [1, 2] [1, 2] [8, 9] (ve_tag sample_envelope)"
proof -
  have sealed: "encrypt_vault_with_nonce toy_gcm [1, 2] [7] (zeros 16) 1 (zeros 12) 1 = Some sample_envelope"
    by (simp add: encrypt_vault_with_nonce_def sample_envelope_def toy_gcm_def vault_constants
        is_supported_vault_format_def build_vault_aad_def aad_magic_def)
  let ?e = "sample_envelope\<lparr>ve_generation := 2\<rparr>"
  have tag: "toy_tag [7] (zeros 12) (the (build_vault_aad (zeros 16) gen 1 2)) = [7] @ zeros 12 @ take 3 kVaultAadMagicV1" for gen
  proof -
    have "3 \<le> length kVaultAadMagicV1" by (simp add: kVaultAadMagicV1_def c_string_def ascii_def)
    then show ?thesis
      by (simp add: toy_tag_def zeros_def build_vault_aad_def is_supported_vault_format_def vault_constants
          aad_magic_def append_u16_def append_u64_def)
  qed
  have opens: "decrypt_vault toy_gcm ?e [7] = Some [1, 2]"
    using tag [of 1] tag [of 2]
    by (simp add: decrypt_vault_def sample_envelope_def toy_gcm_def vault_constants is_supported_vault_format_def
        build_vault_aad_def aad_magic_def)
  have same: "ve_nonce ?e = ve_nonce sample_envelope" "ve_ciphertext ?e = ve_ciphertext sample_envelope"
    "ve_tag ?e = ve_tag sample_envelope" by simp_all
  note seal = vault_seal_covers_header [OF toy_gcm_laws sealed]
  have "?e \<noteq> sample_envelope"
  proof
    assume "?e = sample_envelope"
    then have "ve_generation ?e = ve_generation sample_envelope" by simp
    then show False by (simp add: sample_envelope_def)
  qed
  then have "aad_collision toy_gcm [7] (zeros 12) [1, 2] [1, 2] (ve_ciphertext sample_envelope) (ve_tag sample_envelope)"
    using seal opens same by blast
  then show ?thesis using seal by (simp add: sample_envelope_def)
qed

lemma unwrap_wrap:
  assumes "gcm_laws g" "length vmk = kVmkBytes"
  shows "unwrap_vmk_with_key g env key = Some vmk \<longleftrightarrow>
    wrap_vmk_with_key_and_nonce g vmk key (we_vault_id env) (we_nonce env) = Some env"
proof -
  have len: "length c = kVmkBytes" if "gcm_encrypt g k n a vmk = Some (c, t)" for k n a c t
    using gcm_length [OF assms(1) that] assms(2) by simp
  show ?thesis
    by (cases env, auto simp: unwrap_vmk_with_key_def wrap_vmk_with_key_and_nonce_def
        build_vmk_wrap_aad_def bind_eq_Some_conv gcm_decrypt_iff [OF assms(1)] assms(2)
        split: if_split_asm dest: len, rule exI [of _ vmk], simp add: assms(2))
qed

text \<open>The same for the recovery wrapping of the Vault key.\<close>

theorem unwrap_vmk_iff_wrap:
  assumes "gcm_laws g" "length vmk = kVmkBytes"
  shows "unwrap_vmk_with_key g env key = Some vmk \<longleftrightarrow>
    wrap_vmk_with_key_and_nonce g vmk key (we_vault_id env) (we_nonce env) = Some env"
  using assms by (rule unwrap_wrap)

lemma unwrap_vmk_iff_wrap_witness:
  "\<exists>env. unwrap_vmk_with_key toy_gcm env [7] = Some (replicate 32 5)"
proof -
  let ?aad = "the (build_vmk_wrap_aad (zeros 16) 1 1)"
  have "wrap_vmk_with_key_and_nonce toy_gcm (replicate 32 5) [7] (zeros 16) (zeros 12) =
      Some \<lparr>we_package_version = 1, we_wrap_version = 1, we_vault_id = zeros 16, we_nonce = zeros 12,
        we_ciphertext = replicate 32 12, we_tag = toy_tag [7] (zeros 12) ?aad\<rparr>" (is "_ = Some ?e")
    by (simp add: wrap_vmk_with_key_and_nonce_def toy_gcm_def vault_constants build_vmk_wrap_aad_def)
  then have "unwrap_vmk_with_key toy_gcm ?e [7] = Some (replicate 32 5)"
    using unwrap_vmk_iff_wrap [OF toy_gcm_laws, of "replicate 32 5" ?e "[7]"] by (simp add: vault_constants)
  then show ?thesis ..
qed

end
