(* ===== verification/Vault_Runtime.thy ===== *)
theory Vault_Runtime
  imports Vault_Crypto
begin

text \<open>
  The Vault state machine of the device (class \<open>Runtime\<close> of \<open>m5auth_vault_runtime/runtime.cpp\<close>,
  \<open>rekey.cpp\<close> and \<open>metadata.cpp\<close>): which state the Vault is in, when the Vault key is resident,
  and every operation on the encrypted Vault. The storage is reached through the abstract class
  \<open>Persistence\<close>, the record \<open>persistence\<close> of its virtual methods over an unspecified medium;
  every method may fail and may leave the medium in any state.

  Every operation takes and returns the runtime's own state and the medium. \<open>secure_zero\<close> on a
  by-value key at scope exit has no observable effect and is not represented; the wiping of the
  resident key is.
\<close>

definition kStorageSchemaVersion :: u32 where "kStorageSchemaVersion = 2"
definition kMaxPersistedCiphertextBytes :: nat where "kMaxPersistedCiphertextBytes = 64 * 1024"
definition kMillisecondsPerDay :: u64 where "kMillisecondsPerDay = 86400000"

datatype status =
    Ok | NotReady | StUnprovisioned | StLocked | InvalidState | InvalidArgument | NotFound
  | StReprovisionRequired | UnsupportedSchema | UnsupportedVaultFormat | GenerationMismatch
  | AuthenticationFailed | Corrupt | Io

datatype vault_state = Unprovisioned | ReprovisionRequired | Locked | Unlocked | VaultError

definition status_code :: "status \<Rightarrow> string" where
  "status_code status = (case status of
     Ok \<Rightarrow> ''ok'' | NotReady \<Rightarrow> ''not_ready'' | StUnprovisioned \<Rightarrow> ''unprovisioned''
   | StLocked \<Rightarrow> ''locked'' | InvalidState \<Rightarrow> ''invalid_state''
   | InvalidArgument \<Rightarrow> ''invalid_argument'' | NotFound \<Rightarrow> ''not_found''
   | StReprovisionRequired \<Rightarrow> ''reprovision_required''
   | UnsupportedSchema \<Rightarrow> ''unsupported_schema''
   | UnsupportedVaultFormat \<Rightarrow> ''unsupported_vault_format''
   | GenerationMismatch \<Rightarrow> ''generation_mismatch''
   | AuthenticationFailed \<Rightarrow> ''authentication_failed''
   | Corrupt \<Rightarrow> ''corrupt'' | Io \<Rightarrow> ''io_error'')"

record persisted_snapshot =
  ps_schema_ready :: bool
  ps_has_vault :: bool
  ps_envelope :: vault_envelope
  ps_last_used :: "bytes option"

definition empty_snapshot :: persisted_snapshot where
  "empty_snapshot = \<lparr>ps_schema_ready = False, ps_has_vault = False,
     ps_envelope = empty_envelope, ps_last_used = None\<rparr>"

text \<open>\<open>load\<close> writes its output argument even when it fails; no caller reads it then.\<close>

record 'w persistence =
  pe_load :: "'w \<Rightarrow> (status \<times> persisted_snapshot) \<times> 'w"
  pe_format_schema2 :: "'w \<Rightarrow> status \<times> 'w"
  pe_replace_envelope :: "u64 \<Rightarrow> vault_envelope \<Rightarrow> 'w \<Rightarrow> status \<times> 'w"
  pe_set_last_used :: "bytes option \<Rightarrow> 'w \<Rightarrow> status \<times> 'w"
  pe_erase_all :: "'w \<Rightarrow> status \<times> 'w"

record runtime =
  rt_initialized :: bool
  rt_schema_ready :: bool
  rt_has_vault :: bool
  rt_recovery_reset_allowed :: bool
  rt_state :: vault_state
  rt_envelope :: vault_envelope
  rt_last_used :: "bytes option"
  rt_vmk :: bytes
  rt_vmk_present :: bool
  rt_auto_lock_days :: "u8 option"
  rt_unlocked_since_ms :: u64
  rt_unlock_session_active :: bool

definition new_runtime :: runtime where
  "new_runtime = \<lparr>rt_initialized = False, rt_schema_ready = False, rt_has_vault = False,
     rt_recovery_reset_allowed = False, rt_state = Unprovisioned, rt_envelope = empty_envelope,
     rt_last_used = None, rt_vmk = zeros kVmkBytes, rt_vmk_present = False,
     rt_auto_lock_days = None, rt_unlocked_since_ms = 0, rt_unlock_session_active = False\<rparr>"

definition valid_envelope_framing :: "vault_envelope \<Rightarrow> bool" where
  "valid_envelope_framing envelope \<longleftrightarrow>
     is_supported_vault_format (ve_vault_format_version envelope) \<and>
     ve_storage_schema_version envelope = kTargetStorageSchemaVersion \<and>
     ve_generation envelope \<noteq> 0 \<and> ve_ciphertext envelope \<noteq> [] \<and>
     length (ve_ciphertext envelope) \<le> kMaxPersistedCiphertextBytes"

definition same_envelope :: "vault_envelope \<Rightarrow> vault_envelope \<Rightarrow> bool" where
  "same_envelope left right \<longleftrightarrow>
     ve_vault_format_version left = ve_vault_format_version right \<and>
     ve_storage_schema_version left = ve_storage_schema_version right \<and>
     ve_vault_id left = ve_vault_id right \<and> ve_generation left = ve_generation right \<and>
     ve_nonce left = ve_nonce right \<and> ve_ciphertext left = ve_ciphertext right \<and>
     ve_tag left = ve_tag right"

definition explicit_reset_recovery_status :: "status \<Rightarrow> bool" where
  "explicit_reset_recovery_status status \<longleftrightarrow>
     status = Corrupt \<or> status = UnsupportedSchema \<or> status = StReprovisionRequired"

section \<open>The unlock session\<close>

definition wipe_vmk :: "runtime \<Rightarrow> runtime" where
  "wipe_vmk r = r\<lparr>rt_vmk := wipe (rt_vmk r), rt_vmk_present := False\<rparr>"

definition clear_unlock_session_state :: "runtime \<Rightarrow> runtime" where
  "clear_unlock_session_state r =
     (wipe_vmk r)\<lparr>rt_auto_lock_days := None, rt_unlocked_since_ms := 0,
                  rt_unlock_session_active := False\<rparr>"

definition begin_unlock_session :: "u8 option \<Rightarrow> u64 \<Rightarrow> runtime \<Rightarrow> runtime" where
  "begin_unlock_session auto_lock_days now_ms r =
     r\<lparr>rt_auto_lock_days := auto_lock_days, rt_unlocked_since_ms := now_ms,
       rt_unlock_session_active := True\<rparr>"

section \<open>Loading\<close>

definition initialize :: "'w persistence \<Rightarrow> runtime \<times> 'w \<Rightarrow> status \<times> runtime \<times> 'w" where
  "initialize p st = (case st of (r, w) \<Rightarrow>
     let r = (clear_unlock_session_state r)\<lparr>rt_initialized := True, rt_schema_ready := False,
           rt_has_vault := False, rt_recovery_reset_allowed := False,
           rt_envelope := empty_envelope, rt_last_used := None, rt_state := Unprovisioned\<rparr>;
         ((status, snapshot), w) = pe_load p w
     in if status = StUnprovisioned then (status, r, w)
        else if status = StReprovisionRequired then
          (status, r\<lparr>rt_state := ReprovisionRequired, rt_recovery_reset_allowed := True\<rparr>, w)
        else if status \<noteq> Ok then
          (status, r\<lparr>rt_state := VaultError,
                     rt_recovery_reset_allowed := explicit_reset_recovery_status status\<rparr>, w)
        else if \<not> ps_schema_ready snapshot then
          (Corrupt, r\<lparr>rt_state := VaultError, rt_recovery_reset_allowed := True\<rparr>, w)
        else
          let r = r\<lparr>rt_schema_ready := True, rt_last_used := ps_last_used snapshot\<rparr>
          in if \<not> ps_has_vault snapshot then (StUnprovisioned, r, w)
             else if \<not> valid_envelope_framing (ps_envelope snapshot) then
               (let supported_format =
                      is_supported_vault_format (ve_vault_format_version (ps_envelope snapshot))
                in (if supported_format then Corrupt else UnsupportedVaultFormat,
                    r\<lparr>rt_state := VaultError, rt_recovery_reset_allowed := supported_format\<rparr>, w))
             else (Ok, r\<lparr>rt_has_vault := True, rt_envelope := ps_envelope snapshot,
                         rt_state := Locked\<rparr>, w))"

definition reload_after_persistence ::
  "'w persistence \<Rightarrow> runtime \<times> 'w \<Rightarrow> status \<times> runtime \<times> 'w" where
  "reload_after_persistence p st = (case st of (r, w) \<Rightarrow>
     let ((status, snapshot), w) = pe_load p w
     in if status \<noteq> Ok \<or> \<not> ps_schema_ready snapshot then
          (if status = Ok then Corrupt else status,
           clear_unlock_session_state (r\<lparr>rt_state := VaultError,
             rt_recovery_reset_allowed := (status = Ok \<or> explicit_reset_recovery_status status)\<rparr>), w)
        else
          let r = r\<lparr>rt_recovery_reset_allowed := False, rt_schema_ready := True,
                    rt_last_used := ps_last_used snapshot, rt_has_vault := ps_has_vault snapshot\<rparr>
          in if \<not> rt_has_vault r then
               (Ok, clear_unlock_session_state
                      (r\<lparr>rt_envelope := empty_envelope, rt_state := Unprovisioned\<rparr>), w)
             else if \<not> valid_envelope_framing (ps_envelope snapshot) then
               (let supported_format =
                      is_supported_vault_format (ve_vault_format_version (ps_envelope snapshot))
                in (if supported_format then Corrupt else UnsupportedVaultFormat,
                    clear_unlock_session_state (r\<lparr>rt_state := VaultError,
                      rt_recovery_reset_allowed := supported_format\<rparr>), w))
             else (Ok, clear_unlock_session_state
                         (r\<lparr>rt_envelope := ps_envelope snapshot, rt_state := Locked\<rparr>), w))"

definition format_for_schema2 :: "'w persistence \<Rightarrow> runtime \<times> 'w \<Rightarrow> status \<times> runtime \<times> 'w" where
  "format_for_schema2 p st = (case st of (r, w) \<Rightarrow>
     if \<not> rt_initialized r then (NotReady, r, w)
     else
       let r = clear_unlock_session_state r; (status, w) = pe_format_schema2 p w
       in if status \<noteq> Ok then
            (status, r\<lparr>rt_state := VaultError,
                       rt_recovery_reset_allowed := explicit_reset_recovery_status status\<rparr>, w)
          else reload_after_persistence p (r, w))"

section \<open>Validation\<close>

text \<open>\<open>Inr\<close>: the authenticated automatic-lock policy of a Vault that opens and decodes.\<close>

definition validate_envelope_with_key ::
  "gcm \<Rightarrow> vault_envelope \<Rightarrow> bytes \<Rightarrow> status + u8 option" where
  "validate_envelope_with_key g envelope vmk =
     (if \<not> valid_envelope_framing envelope then
        Inl (if is_supported_vault_format (ve_vault_format_version envelope) then InvalidArgument
             else UnsupportedVaultFormat)
      else case decrypt_vault g envelope vmk of
        None \<Rightarrow> Inl AuthenticationFailed
      | Some encoded_plaintext \<Rightarrow>
          case decode_plaintext encoded_plaintext of
            None \<Rightarrow> Inl Corrupt
          | Some (plaintext, decoded_format) \<Rightarrow>
              if decoded_format \<noteq> ve_vault_format_version envelope then Inl Corrupt
              else Inr (vp_auto_lock_days plaintext))"

section \<open>Unlocking and locking\<close>

definition unlock :: "gcm \<Rightarrow> bytes \<Rightarrow> u64 \<Rightarrow> runtime \<Rightarrow> status \<times> runtime" where
  "unlock g vmk now_ms r =
     (if \<not> rt_initialized r then (NotReady, r)
      else if rt_state r \<noteq> Locked \<or> \<not> rt_has_vault r then (InvalidState, r)
      else case validate_envelope_with_key g (rt_envelope r) vmk of
        Inl status \<Rightarrow> (status, r)
      | Inr policy \<Rightarrow>
          let r = clear_unlock_session_state r;
              r = r\<lparr>rt_vmk := vmk, rt_vmk_present := True\<rparr>;
              r = begin_unlock_session policy now_ms r
          in (Ok, r\<lparr>rt_state := Unlocked, rt_recovery_reset_allowed := False\<rparr>))"

definition lock :: "runtime \<Rightarrow> status \<times> runtime" where
  "lock r =
     (if \<not> rt_initialized r then (NotReady, r)
      else let r = clear_unlock_session_state r
           in if rt_state r = VaultError then (InvalidState, r)
              else (Ok, r\<lparr>rt_state := (if rt_has_vault r then Locked else Unprovisioned)\<rparr>))"

definition enter_recovery_boundary :: "runtime \<Rightarrow> status \<times> runtime" where
  "enter_recovery_boundary r =
     (if \<not> rt_initialized r then (NotReady, r)
      else let r = clear_unlock_session_state r
           in if rt_state r = VaultError then (InvalidState, r)
              else (Ok, r\<lparr>rt_state := (if rt_has_vault r then Locked else Unprovisioned)\<rparr>))"

definition enter_registration_replacement_boundary :: "runtime \<Rightarrow> status \<times> runtime" where
  "enter_registration_replacement_boundary r = enter_recovery_boundary r"

definition fatal_security_error :: "runtime \<Rightarrow> status \<times> runtime" where
  "fatal_security_error r =
     (if \<not> rt_initialized r then (NotReady, r)
      else (Ok, (clear_unlock_session_state r)\<lparr>rt_state := VaultError,
                  rt_recovery_reset_allowed := True\<rparr>))"

definition enter_vmk_rekey_boundary :: "runtime \<Rightarrow> status \<times> runtime" where
  "enter_vmk_rekey_boundary r =
     (if \<not> rt_initialized r then (NotReady, r)
      else if rt_state r \<noteq> Unlocked \<or> \<not> rt_vmk_present r \<or> \<not> rt_has_vault r
            \<or> \<not> rt_unlock_session_active r then (InvalidState, r)
      else (Ok, (wipe_vmk r)\<lparr>rt_state := Locked\<rparr>))"

definition unlocked :: "runtime \<Rightarrow> bool" where
  "unlocked r \<longleftrightarrow> rt_initialized r \<and> rt_state r = Unlocked \<and> rt_vmk_present r"

definition automatic_lock_due :: "u64 \<Rightarrow> runtime \<Rightarrow> bool" where
  "automatic_lock_due now_ms r =
     (case rt_auto_lock_days r of
        None \<Rightarrow> False
      | Some days \<Rightarrow>
          if \<not> unlocked r \<or> \<not> rt_unlock_session_active r then False
          else if now_ms < rt_unlocked_since_ms r then False
          else now_ms - rt_unlocked_since_ms r \<ge> ucast days * kMillisecondsPerDay)"

section \<open>Writing the Vault\<close>

definition install_encrypted_vault ::
  "'w persistence \<Rightarrow> gcm \<Rightarrow> vault_envelope \<Rightarrow> bytes \<Rightarrow> runtime \<times> 'w \<Rightarrow> status \<times> runtime \<times> 'w" where
  "install_encrypted_vault p g envelope vmk st = (case st of (r, w) \<Rightarrow>
     if \<not> rt_initialized r then (NotReady, r, w)
     else if \<not> rt_schema_ready r then (NotReady, r, w)
     else if rt_state r \<noteq> Unprovisioned \<or> rt_has_vault r then (InvalidState, r, w)
     else case validate_envelope_with_key g envelope vmk of
       Inl status \<Rightarrow> (status, r, w)
     | Inr _ \<Rightarrow>
         let (status, w) = pe_replace_envelope p 0 envelope w
         in if status \<noteq> Ok then (status, r, w)
            else
              let (status, r, w) = reload_after_persistence p (r, w)
              in if status \<noteq> Ok \<or> \<not> rt_has_vault r \<or> \<not> same_envelope (rt_envelope r) envelope
                 then (if status = Ok then Corrupt else status,
                       clear_unlock_session_state (r\<lparr>rt_state := VaultError,
                         rt_recovery_reset_allowed :=
                           (status = Ok \<or> explicit_reset_recovery_status status)\<rparr>), w)
                 else (Ok, r, w))"

text \<open>The guards that \<open>update_encrypted_vault\<close> and \<open>rekey_encrypted_vault\<close> share: the candidate
  is the next generation of the same Vault and not of an older format.\<close>

definition successor_check :: "u64 \<Rightarrow> vault_envelope \<Rightarrow> vault_envelope \<Rightarrow> status" where
  "successor_check expected_generation current envelope =
     (if expected_generation \<noteq> ve_generation current \<or> expected_generation = max_u64
         \<or> ve_generation envelope \<noteq> expected_generation + 1
         \<or> ve_vault_id envelope \<noteq> ve_vault_id current then GenerationMismatch
      else if \<not> is_supported_vault_format (ve_vault_format_version envelope) then UnsupportedVaultFormat
      else if ve_vault_format_version current = kVaultFormatVersion2
            \<and> ve_vault_format_version envelope = kVaultFormatVersion1 then InvalidArgument
      else Ok)"

definition commit_verified :: "status \<Rightarrow> persisted_snapshot \<Rightarrow> vault_envelope \<Rightarrow> bool" where
  "commit_verified status snapshot envelope \<longleftrightarrow>
     \<not> (status \<noteq> Ok \<or> \<not> ps_schema_ready snapshot \<or> \<not> ps_has_vault snapshot
        \<or> \<not> same_envelope (ps_envelope snapshot) envelope)"

text \<open>The second component is \<open>*automatic_lock_due_after_commit\<close>.\<close>

definition update_encrypted_vault ::
  "'w persistence \<Rightarrow> gcm \<Rightarrow> u64 \<Rightarrow> vault_envelope \<Rightarrow> u64 \<Rightarrow> runtime \<times> 'w \<Rightarrow>
   status \<times> bool \<times> runtime \<times> 'w" where
  "update_encrypted_vault p g expected_generation envelope now_ms st = (case st of (r, w) \<Rightarrow>
     if \<not> rt_initialized r then (NotReady, False, r, w)
     else if rt_state r \<noteq> Unlocked \<or> \<not> rt_vmk_present r \<or> \<not> rt_has_vault r then (StLocked, False, r, w)
     else
       let check = successor_check expected_generation (rt_envelope r) envelope
       in if check \<noteq> Ok then (check, False, r, w)
          else case validate_envelope_with_key g envelope (rt_vmk r) of
            Inl status \<Rightarrow> (status, False, r, w)
          | Inr candidate_policy \<Rightarrow>
              let (status, w) = pe_replace_envelope p expected_generation envelope w
              in if status \<noteq> Ok then (status, False, r, w)
                 else
                   let ((status, snapshot), w) = pe_load p w
                   in if \<not> commit_verified status snapshot envelope
                      then (if status = Ok then Corrupt else status, False,
                            snd (fatal_security_error r), w)
                      else
                        let r = r\<lparr>rt_envelope := ps_envelope snapshot,
                                  rt_last_used := ps_last_used snapshot, rt_schema_ready := True,
                                  rt_has_vault := True, rt_recovery_reset_allowed := False,
                                  rt_state := Unlocked, rt_auto_lock_days := candidate_policy\<rparr>
                        in (Ok, automatic_lock_due now_ms r, r, w))"

definition rekey_encrypted_vault ::
  "'w persistence \<Rightarrow> gcm \<Rightarrow> u64 \<Rightarrow> vault_envelope \<Rightarrow> bytes \<Rightarrow> u64 \<Rightarrow> runtime \<times> 'w \<Rightarrow>
   status \<times> runtime \<times> 'w" where
  "rekey_encrypted_vault p g expected_generation envelope vmk now_ms st = (case st of (r, w) \<Rightarrow>
     if \<not> rt_initialized r then (NotReady, r, w)
     else if rt_state r \<noteq> Locked \<or> rt_vmk_present r \<or> \<not> rt_has_vault r
           \<or> \<not> rt_unlock_session_active r then (InvalidState, r, w)
     else
       let check = successor_check expected_generation (rt_envelope r) envelope
       in if check \<noteq> Ok then (check, r, w)
          else case validate_envelope_with_key g envelope vmk of
            Inl status \<Rightarrow> (status, r, w)
          | Inr policy \<Rightarrow>
              let (status, w) = pe_replace_envelope p expected_generation envelope w
              in if status \<noteq> Ok then (status, r, w)
                 else
                   let ((status, snapshot), w) = pe_load p w
                   in if \<not> commit_verified status snapshot envelope
                      then (if status = Ok then Corrupt else status,
                            clear_unlock_session_state (r\<lparr>rt_state := VaultError\<rparr>), w)
                      else
                        let r = wipe_vmk (r\<lparr>rt_envelope := ps_envelope snapshot,
                                  rt_last_used := ps_last_used snapshot, rt_schema_ready := True,
                                  rt_has_vault := True\<rparr>)
                        in (Ok, r\<lparr>rt_vmk := vmk, rt_vmk_present := True,
                                  rt_auto_lock_days := policy, rt_state := Unlocked,
                                  rt_recovery_reset_allowed := False\<rparr>, w))"

definition factory_reset :: "'w persistence \<Rightarrow> runtime \<times> 'w \<Rightarrow> status \<times> runtime \<times> 'w" where
  "factory_reset p st = (case st of (r, w) \<Rightarrow>
     if \<not> rt_initialized r then (NotReady, r, w)
     else
       let r = clear_unlock_session_state r; (status, w) = pe_erase_all p w
       in if status \<noteq> Ok then
            (status, r\<lparr>rt_state := VaultError, rt_recovery_reset_allowed := False\<rparr>, w)
          else (Ok, r\<lparr>rt_schema_ready := False, rt_has_vault := False,
                      rt_recovery_reset_allowed := False, rt_envelope := empty_envelope,
                      rt_last_used := None, rt_state := Unprovisioned\<rparr>, w))"

section \<open>Reading the Vault\<close>

text \<open>The opening of the resident Vault that starts every reading operation. A failure is fatal.\<close>

definition open_resident_vault :: "gcm \<Rightarrow> runtime \<Rightarrow> status + vault_plaintext" where
  "open_resident_vault g r =
     (case decrypt_vault g (rt_envelope r) (rt_vmk r) of
        None \<Rightarrow> Inl AuthenticationFailed
      | Some encoded_plaintext \<Rightarrow>
          case decode_plaintext encoded_plaintext of
            None \<Rightarrow> Inl Corrupt
          | Some (plaintext, decoded_format) \<Rightarrow>
              if decoded_format \<noteq> ve_vault_format_version (rt_envelope r) then Inl Corrupt
              else Inr plaintext)"

definition find_credential :: "bytes \<Rightarrow> credential list \<Rightarrow> credential option" where
  "find_credential credential_id credentials =
     List.find (\<lambda>credential. cr_credential_id credential = credential_id) credentials"

text \<open>\<open>consumer\<close> is the caller's function object: \<open>None\<close> when empty; it may change its own
  state \<open>'c\<close>.\<close>

definition with_credential ::
  "'w persistence \<Rightarrow> gcm \<Rightarrow> bytes \<Rightarrow> (credential \<Rightarrow> 'c \<Rightarrow> status \<times> 'c) option \<Rightarrow>
   'c \<Rightarrow> runtime \<times> 'w \<Rightarrow> status \<times> 'c \<times> runtime \<times> 'w" where
  "with_credential p g credential_id consumer c st = (case st of (r, w) \<Rightarrow>
     if \<not> rt_initialized r then (NotReady, c, r, w)
     else if rt_state r \<noteq> Unlocked \<or> \<not> rt_vmk_present r \<or> \<not> rt_has_vault r then (StLocked, c, r, w)
     else case consumer of
       None \<Rightarrow> (InvalidArgument, c, r, w)
     | Some consume \<Rightarrow>
         case open_resident_vault g r of
           Inl status \<Rightarrow> (status, c, snd (fatal_security_error r), w)
         | Inr plaintext \<Rightarrow>
             case find_credential credential_id (vp_credentials plaintext) of
               None \<Rightarrow> (NotFound, c, r, w)
             | Some found \<Rightarrow>
                 let (status, c) = consume found c
                 in if status = Ok then
                      (let (last_used_status, w) = pe_set_last_used p (Some credential_id) w
                       in if last_used_status = Ok
                          then (Ok, c, r\<lparr>rt_last_used := Some credential_id\<rparr>, w)
                          else (last_used_status, c, r, w))
                    else (status, c, r, w))"

definition with_wifi ::
  "gcm \<Rightarrow> (wifi_record \<Rightarrow> 'c \<Rightarrow> status \<times> 'c) option \<Rightarrow> 'c \<Rightarrow> runtime \<Rightarrow> status \<times> 'c \<times> runtime" where
  "with_wifi g consumer c r =
     (if \<not> rt_initialized r then (NotReady, c, r)
      else if rt_state r \<noteq> Unlocked \<or> \<not> rt_vmk_present r \<or> \<not> rt_has_vault r then (StLocked, c, r)
      else case consumer of
        None \<Rightarrow> (InvalidArgument, c, r)
      | Some consume \<Rightarrow>
          case open_resident_vault g r of
            Inl status \<Rightarrow> (status, c, snd (fatal_security_error r))
          | Inr plaintext \<Rightarrow>
              case vp_wifi plaintext of
                None \<Rightarrow> (NotFound, c, r)
              | Some wifi \<Rightarrow> let (status, c) = consume wifi c in (status, c, r))"

definition set_last_used ::
  "'w persistence \<Rightarrow> gcm \<Rightarrow> bytes \<Rightarrow> runtime \<times> 'w \<Rightarrow> status \<times> runtime \<times> 'w" where
  "set_last_used p g credential_id st = (case st of (r, w) \<Rightarrow>
     if \<not> rt_initialized r then (NotReady, r, w)
     else if rt_state r \<noteq> Unlocked \<or> \<not> rt_vmk_present r \<or> \<not> rt_has_vault r then (StLocked, r, w)
     else case open_resident_vault g r of
       Inl status \<Rightarrow> (status, snd (fatal_security_error r), w)
     | Inr plaintext \<Rightarrow>
         if \<not> list_ex (\<lambda>credential. cr_credential_id credential = credential_id)
                (vp_credentials plaintext) then (NotFound, r, w)
         else
           let (status, w) = pe_set_last_used p (Some credential_id) w
           in (status, if status = Ok then r\<lparr>rt_last_used := Some credential_id\<rparr> else r, w))"

record credential_metadata =
  cm_credential_id :: bytes
  cm_issuer :: bytes
  cm_account :: bytes
  cm_display_name :: bytes
  cm_manual_order :: u16

definition metadata_of :: "credential \<Rightarrow> credential_metadata" where
  "metadata_of credential = \<lparr>cm_credential_id = cr_credential_id credential,
     cm_issuer = cr_issuer credential, cm_account = cr_account credential,
     cm_display_name = cr_display_name credential, cm_manual_order = cr_manual_order credential\<rparr>"

text \<open>\<open>std::stable_sort\<close> by the manual order is the library's stable insertion sort.\<close>

definition list_credentials :: "gcm \<Rightarrow> runtime \<Rightarrow> status \<times> credential_metadata list \<times> runtime" where
  "list_credentials g r =
     (if \<not> rt_initialized r then (NotReady, [], r)
      else if rt_state r \<noteq> Unlocked \<or> \<not> rt_vmk_present r \<or> \<not> rt_has_vault r then (StLocked, [], r)
      else case open_resident_vault g r of
        Inl status \<Rightarrow> (status, [], snd (fatal_security_error r))
      | Inr plaintext \<Rightarrow>
          (Ok, sort_key cm_manual_order (map metadata_of (vp_credentials plaintext)), r))"

record vault_metadata =
  md_state :: vault_state
  md_schema_ready :: bool
  md_has_vault :: bool
  md_recovery_reset_allowed :: bool
  md_storage_schema_version :: u32
  md_vault_format_version :: u16
  md_vault_id :: bytes
  md_generation :: u64
  md_last_used :: "bytes option"

definition metadata :: "runtime \<Rightarrow> status + vault_metadata" where
  "metadata r =
     (if \<not> rt_initialized r then Inl NotReady
      else Inr \<lparr>md_state = rt_state r, md_schema_ready = rt_schema_ready r,
        md_has_vault = rt_has_vault r, md_recovery_reset_allowed = rt_recovery_reset_allowed r,
        md_storage_schema_version = (if rt_schema_ready r then kStorageSchemaVersion else 0),
        md_vault_format_version = (if rt_has_vault r then ve_vault_format_version (rt_envelope r) else 0),
        md_vault_id = (if rt_has_vault r then ve_vault_id (rt_envelope r) else zeros kVaultIdBytes),
        md_generation = (if rt_has_vault r then ve_generation (rt_envelope r) else 0),
        md_last_used = rt_last_used r\<rparr>)"

end
