(* ===== verification/Vault_Runtime_Correct.thy ===== *)
theory Vault_Runtime_Correct
  imports Vault_Runtime
begin

text \<open>
  The properties of the Vault state machine. They hold for every storage medium: each method of
  \<open>Persistence\<close> may return any status, any snapshot and any next medium.
\<close>

section \<open>Runs\<close>

datatype runtime_call =
    RInitialize
  | RFormat
  | RInstall vault_envelope bytes
  | RUnlock bytes u64
  | RLock
  | RRecoveryBoundary
  | RReplacementBoundary
  | RRekeyBoundary
  | RFatal
  | RUpdate u64 vault_envelope u64
  | RRekey u64 vault_envelope bytes u64
  | RWithCredential bytes "(credential \<Rightarrow> status) option"
  | RWithWifi "(wifi_record \<Rightarrow> status) option"
  | RSetLastUsed bytes
  | RList
  | RFactoryReset

definition silent :: "('a \<Rightarrow> status) option \<Rightarrow> ('a \<Rightarrow> unit \<Rightarrow> status \<times> unit) option" where
  "silent consumer = map_option (\<lambda>f x u. (f x, u)) consumer"

fun runtime_step :: "'w persistence \<Rightarrow> gcm \<Rightarrow> runtime_call \<Rightarrow> runtime \<times> 'w \<Rightarrow> runtime \<times> 'w" where
  "runtime_step p g RInitialize st = snd (initialize p st)"
| "runtime_step p g RFormat st = snd (format_for_schema2 p st)"
| "runtime_step p g (RInstall env vmk) st = snd (install_encrypted_vault p g env vmk st)"
| "runtime_step p g (RUnlock vmk now) st = (snd (unlock g vmk now (fst st)), snd st)"
| "runtime_step p g RLock st = (snd (lock (fst st)), snd st)"
| "runtime_step p g RRecoveryBoundary st = (snd (enter_recovery_boundary (fst st)), snd st)"
| "runtime_step p g RReplacementBoundary st =
     (snd (enter_registration_replacement_boundary (fst st)), snd st)"
| "runtime_step p g RRekeyBoundary st = (snd (enter_vmk_rekey_boundary (fst st)), snd st)"
| "runtime_step p g RFatal st = (snd (fatal_security_error (fst st)), snd st)"
| "runtime_step p g (RUpdate e env now) st = snd (snd (update_encrypted_vault p g e env now st))"
| "runtime_step p g (RRekey e env vmk now) st = snd (rekey_encrypted_vault p g e env vmk now st)"
| "runtime_step p g (RWithCredential a f) st = snd (snd (with_credential p g a (silent f) () st))"
| "runtime_step p g (RWithWifi f) st = (snd (snd (with_wifi g (silent f) () (fst st))), snd st)"
| "runtime_step p g (RSetLastUsed a) st = snd (set_last_used p g a st)"
| "runtime_step p g RList st = (snd (snd (list_credentials g (fst st))), snd st)"
| "runtime_step p g RFactoryReset st = snd (factory_reset p st)"

inductive runtime_reachable :: "'w persistence \<Rightarrow> gcm \<Rightarrow> 'w \<Rightarrow> runtime \<times> 'w \<Rightarrow> bool" for p g w0 where
  new: "runtime_reachable p g w0 (new_runtime, w0)"
| step: "runtime_reachable p g w0 st \<Longrightarrow> runtime_reachable p g w0 (runtime_step p g c st)"

section \<open>The invariant\<close>

definition runtime_inv :: "gcm \<Rightarrow> runtime \<Rightarrow> bool" where
  "runtime_inv g r \<longleftrightarrow>
     (rt_vmk_present r \<longleftrightarrow> rt_state r = Unlocked) \<and>
     (\<not> rt_vmk_present r \<longrightarrow> all_zero (rt_vmk r)) \<and>
     (rt_state r = Unlocked \<longrightarrow> rt_initialized r \<and> rt_unlock_session_active r \<and>
        validate_envelope_with_key g (rt_envelope r) (rt_vmk r) = Inr (rt_auto_lock_days r)) \<and>
     (rt_state r \<in> {Locked, Unlocked} \<longrightarrow> rt_has_vault r \<and> rt_schema_ready r \<and>
        valid_envelope_framing (rt_envelope r)) \<and>
     (rt_state r \<in> {Unprovisioned, ReprovisionRequired} \<longrightarrow> \<not> rt_has_vault r) \<and>
     (rt_unlock_session_active r \<longrightarrow> rt_state r \<in> {Locked, Unlocked}) \<and>
     (\<not> rt_unlock_session_active r \<longrightarrow> rt_auto_lock_days r = None \<and> rt_unlocked_since_ms r = 0)"

lemma same_envelope_iff [simp]: "same_envelope a b \<longleftrightarrow> a = b"
  by (cases a; cases b) (auto simp: same_envelope_def)

lemma commit_verified_iff:
  "commit_verified status snapshot env \<longleftrightarrow>
   status = Ok \<and> ps_schema_ready snapshot \<and> ps_has_vault snapshot \<and> ps_envelope snapshot = env"
  by (auto simp: commit_verified_def)

lemma validate_not_Ok [simp]: "validate_envelope_with_key g env vmk \<noteq> Inl Ok"
  by (auto simp: validate_envelope_with_key_def split: option.split)

lemma validated_framing:
  "validate_envelope_with_key g env vmk = Inr policy \<Longrightarrow> valid_envelope_framing env"
  by (auto simp: validate_envelope_with_key_def split: if_splits)

lemmas session_defs = clear_unlock_session_state_def wipe_vmk_def begin_unlock_session_def

text \<open>One preservation lemma per operation.\<close>

lemma clear_session_inv:
  "rt_state r \<noteq> Unlocked \<Longrightarrow>
   (rt_state r = Locked \<longrightarrow> rt_has_vault r \<and> rt_schema_ready r \<and> valid_envelope_framing (rt_envelope r)) \<Longrightarrow>
   (rt_state r \<in> {Unprovisioned, ReprovisionRequired} \<longrightarrow> \<not> rt_has_vault r) \<Longrightarrow>
   runtime_inv g (clear_unlock_session_state r)"
  by (simp add: runtime_inv_def session_defs)

lemma new_runtime_inv: "runtime_inv g new_runtime"
  by (simp add: runtime_inv_def new_runtime_def)

lemma initialize_inv: "runtime_inv g (fst (snd (initialize p st)))"
  by (simp add: initialize_def runtime_inv_def session_defs Let_def split: prod.split)

lemma reload_inv: "runtime_inv g (fst (snd (reload_after_persistence p st)))"
  by (simp add: reload_after_persistence_def Let_def split: prod.split)
    (auto intro!: clear_session_inv)

lemma unlock_inv: "runtime_inv g r \<Longrightarrow> runtime_inv g (snd (unlock g vmk now r))"
  by (auto simp: unlock_def runtime_inv_def session_defs Let_def split: sum.split)

lemma lock_inv: "runtime_inv g r \<Longrightarrow> runtime_inv g (snd (lock r))"
  by (cases "rt_state r") (auto simp: lock_def runtime_inv_def session_defs Let_def)

lemma recovery_boundary_inv: "runtime_inv g r \<Longrightarrow> runtime_inv g (snd (enter_recovery_boundary r))"
  by (cases "rt_state r") (auto simp: enter_recovery_boundary_def runtime_inv_def session_defs Let_def)

lemma rekey_boundary_inv: "runtime_inv g r \<Longrightarrow> runtime_inv g (snd (enter_vmk_rekey_boundary r))"
  by (auto simp: enter_vmk_rekey_boundary_def runtime_inv_def session_defs)

lemma fatal_inv: "runtime_inv g r \<Longrightarrow> runtime_inv g (snd (fatal_security_error r))"
  by (auto simp: fatal_security_error_def runtime_inv_def session_defs)

lemma last_used_inv: "runtime_inv g r \<Longrightarrow> runtime_inv g (r\<lparr>rt_last_used := a\<rparr>)"
  by (simp add: runtime_inv_def)

lemma format_inv: "runtime_inv g r \<Longrightarrow> runtime_inv g (fst (snd (format_for_schema2 p (r, w))))"
proof -
  assume inv: "runtime_inv g r"
  have err: "runtime_inv g ((clear_unlock_session_state r)\<lparr>rt_state := VaultError,
      rt_recovery_reset_allowed := b\<rparr>)" for b
    by (simp add: runtime_inv_def session_defs)
  obtain s w' where f: "pe_format_schema2 p w = (s, w')" by fastforce
  show ?thesis
    using inv err reload_inv [of g p "(clear_unlock_session_state r, w')"]
    by (simp add: format_for_schema2_def Let_def f)
qed

lemma install_inv:
  assumes "runtime_inv g r"
  shows "runtime_inv g (fst (snd (install_encrypted_vault p g env vmk (r, w))))"
proof (cases "rt_initialized r \<and> rt_schema_ready r \<and> rt_state r = Unprovisioned \<and> \<not> rt_has_vault r \<and>
    (\<exists>x. validate_envelope_with_key g env vmk = Inr x)")
  case False
  then show ?thesis using assms
    by (auto simp: install_encrypted_vault_def split: sum.split)
next
  case True
  then obtain x where x: "validate_envelope_with_key g env vmk = Inr x" by blast
  obtain s w1 where rep: "pe_replace_envelope p 0 env w = (s, w1)" by fastforce
  obtain s2 r2 w2 where rel: "reload_after_persistence p (r, w1) = (s2, r2, w2)"
    using prod_cases3 by blast
  have i: "runtime_inv g r2" using reload_inv [of g p "(r, w1)"] rel by simp
  have e: "runtime_inv g (clear_unlock_session_state (r2\<lparr>rt_state := VaultError,
      rt_recovery_reset_allowed := b\<rparr>))" for b by (rule clear_session_inv) simp_all
  show ?thesis
    using True x rep rel i e assms by (simp add: install_encrypted_vault_def Let_def)
qed

lemma update_inv:
  assumes "runtime_inv g r"
  shows "runtime_inv g (fst (snd (snd (update_encrypted_vault p g e env now (r, w)))))"
proof -
  obtain s w1 where rep: "pe_replace_envelope p e env w = (s, w1)" by fastforce
  obtain s2 snap w2 where ld: "pe_load p w1 = ((s2, snap), w2)" using prod_cases3 by (metis prod.collapse)
  show ?thesis
  proof (cases "rt_initialized r \<and> rt_state r = Unlocked \<and> rt_vmk_present r \<and> rt_has_vault r \<and>
      successor_check e (rt_envelope r) env = Ok \<and> s = Ok \<and> commit_verified s2 snap env \<and>
      (\<exists>x. validate_envelope_with_key g env (rt_vmk r) = Inr x)")
    case True
    then obtain x where x: "validate_envelope_with_key g env (rt_vmk r) = Inr x" by blast
    have "runtime_inv g (r\<lparr>rt_envelope := ps_envelope snap, rt_last_used := ps_last_used snap,
        rt_schema_ready := True, rt_has_vault := True, rt_recovery_reset_allowed := False,
        rt_state := Unlocked, rt_auto_lock_days := x\<rparr>)"
      using True assms x validated_framing [OF x] by (auto simp: runtime_inv_def commit_verified_iff)
    then show ?thesis using True x rep ld by (simp add: update_encrypted_vault_def Let_def)
  next
    case False
    then show ?thesis
      using assms fatal_inv [OF assms] rep ld
      by (auto simp: update_encrypted_vault_def Let_def split: sum.split)
  qed
qed

lemma rekey_inv:
  assumes "runtime_inv g r"
  shows "runtime_inv g (fst (snd (rekey_encrypted_vault p g e env vmk now (r, w))))"
proof -
  obtain s w1 where rep: "pe_replace_envelope p e env w = (s, w1)" by fastforce
  obtain s2 snap w2 where ld: "pe_load p w1 = ((s2, snap), w2)" using prod_cases3 by (metis prod.collapse)
  show ?thesis
  proof (cases "rt_initialized r \<and> rt_state r = Locked \<and> \<not> rt_vmk_present r \<and> rt_has_vault r \<and>
      rt_unlock_session_active r \<and>
      successor_check e (rt_envelope r) env = Ok \<and> s = Ok \<and> commit_verified s2 snap env \<and>
      (\<exists>x. validate_envelope_with_key g env vmk = Inr x)")
    case True
    then obtain x where x: "validate_envelope_with_key g env vmk = Inr x" by blast
    then show ?thesis using True x rep ld assms validated_framing [OF x]
      by (simp add: rekey_encrypted_vault_def Let_def runtime_inv_def commit_verified_iff wipe_vmk_def)
  next
    case False
    have "runtime_inv g (clear_unlock_session_state (r\<lparr>rt_state := VaultError\<rparr>))"
      by (rule clear_session_inv) simp_all
    with False show ?thesis
      using assms rep ld by (auto simp: rekey_encrypted_vault_def Let_def split: sum.split)
  qed
qed

lemma with_credential_result:
  "fst (snd (snd (with_credential p g a f c (r, w)))) \<in>
     {r, snd (fatal_security_error r), r\<lparr>rt_last_used := Some a\<rparr>}"
  by (auto simp: with_credential_def Let_def split: sum.splits option.splits prod.splits)

lemma with_wifi_result: "snd (snd (with_wifi g f c r)) \<in> {r, snd (fatal_security_error r)}"
  by (auto simp: with_wifi_def Let_def split: sum.splits option.splits prod.splits)

lemma set_last_used_result:
  "fst (snd (set_last_used p g a (r, w))) \<in> {r, snd (fatal_security_error r), r\<lparr>rt_last_used := Some a\<rparr>}"
  by (auto simp: set_last_used_def Let_def split: sum.splits prod.splits)

lemma list_result: "snd (snd (list_credentials g r)) \<in> {r, snd (fatal_security_error r)}"
  by (auto simp: list_credentials_def split: sum.splits)

lemma factory_reset_inv: "runtime_inv g r \<Longrightarrow> runtime_inv g (fst (snd (factory_reset p (r, w))))"
  by (auto simp: factory_reset_def runtime_inv_def session_defs Let_def split: prod.split)

lemma read_inv:
  "runtime_inv g r \<Longrightarrow> r' \<in> {r, snd (fatal_security_error r), r\<lparr>rt_last_used := Some a\<rparr>} \<Longrightarrow>
   runtime_inv g r'"
  using fatal_inv last_used_inv by auto

lemma runtime_step_inv:
  assumes "runtime_inv g (fst st)"
  shows "runtime_inv g (fst (runtime_step p g c st))"
proof -
  obtain r w where st: "st = (r, w)" by fastforce
  note inv = assms [unfolded st, simplified]
  show ?thesis
  proof (cases c)
    case (RWithCredential a f)
    then show ?thesis using read_inv [OF inv with_credential_result] by (simp add: st)
  next
    case (RSetLastUsed a)
    then show ?thesis using read_inv [OF inv set_last_used_result] by (simp add: st)
  next
    case (RWithWifi f)
    then show ?thesis using with_wifi_result [of g "silent f" "()" r] read_inv [OF inv] by (auto simp: st)
  next
    case RList
    then show ?thesis using list_result [of g r] read_inv [OF inv] by (auto simp: st)
  qed (use inv in \<open>simp_all add: st initialize_inv format_inv install_inv unlock_inv lock_inv
      recovery_boundary_inv enter_registration_replacement_boundary_def rekey_boundary_inv fatal_inv
      update_inv rekey_inv factory_reset_inv\<close>)
qed

lemma reachable_inv: "runtime_reachable p g w0 st \<Longrightarrow> runtime_inv g (fst st)"
proof (induction rule: runtime_reachable.induct)
  case new
  show ?case by (simp add: new_runtime_inv)
next
  case (step st c)
  then show ?case by (intro runtime_step_inv)
qed

section \<open>Opening\<close>

lemma decode_plaintext_iff_wf:
  "decode_plaintext encoded = Some (v, fmt) \<longleftrightarrow> plaintext_wf v \<and> encode_plaintext v fmt = Some encoded"
  using encode_plaintext_iff plaintext_ok_wf by (auto simp: decode_plaintext_iff)

definition sealed_vault :: "gcm \<Rightarrow> bytes \<Rightarrow> vault_plaintext \<Rightarrow> vault_envelope \<Rightarrow> bool" where
  "sealed_vault g vmk v env \<longleftrightarrow> plaintext_wf v \<and>
     (\<exists>encoded. encode_plaintext v (ve_vault_format_version env) = Some encoded \<and>
        encrypt_vault_with_nonce g encoded vmk (ve_vault_id env) (ve_generation env) (ve_nonce env)
          (ve_vault_format_version env) = Some env)"

lemma sealed_vault_iff:
  "gcm_laws g \<Longrightarrow> sealed_vault g vmk v env \<longleftrightarrow> (\<exists>encoded. decrypt_vault g env vmk = Some encoded \<and>
     decode_plaintext encoded = Some (v, ve_vault_format_version env))"
  by (auto simp: sealed_vault_def decrypt_vault_iff decode_plaintext_iff_wf)

lemma open_resident_iff:
  "gcm_laws g \<Longrightarrow> open_resident_vault g r = Inr v \<longleftrightarrow> sealed_vault g (rt_vmk r) v (rt_envelope r)"
  by (auto simp: open_resident_vault_def sealed_vault_iff split: option.splits if_splits)

lemma validate_iff:
  "gcm_laws g \<Longrightarrow> validate_envelope_with_key g env vmk = Inr policy \<longleftrightarrow>
   valid_envelope_framing env \<and> (\<exists>v. sealed_vault g vmk v env \<and> vp_auto_lock_days v = policy)"
  by (auto simp: validate_envelope_with_key_def sealed_vault_iff split: option.splits if_splits)

end
