(* ===== verification/Vault_Runtime_Samples.thy ===== *)
theory Vault_Runtime_Samples
  imports Vault_Runtime_Correct
begin

text \<open>
  A concrete Vault with one account, sealed with the toy cipher of \<open>Vault_Crypto\<close>, a runtime that
  holds it and a medium in memory: the instances at which the claims about the runtime are applied.
\<close>

definition demo_credential :: credential where
  "demo_credential = \<lparr>cr_credential_id = zeros 16, cr_secret = [1, 2, 3], cr_issuer = ascii ''a'',
     cr_account = [], cr_display_name = [], cr_algorithm = 1, cr_digits = 6,
     cr_period_seconds = 30, cr_manual_order = 0\<rparr>"

definition demo_plaintext :: vault_plaintext where
  "demo_plaintext = \<lparr>vp_credentials = [demo_credential], vp_wifi = None, vp_auto_lock_days = None\<rparr>"

definition demo_key :: bytes where "demo_key = replicate 32 5"

definition demo_vault :: "u64 \<Rightarrow> vault_envelope" where
  "demo_vault gen = the (encrypt_vault_with_nonce toy_gcm (the (encode_plaintext demo_plaintext 1))
     demo_key (replicate 16 1) gen (zeros 12) 1)"

lemma demo_encodes: "\<exists>bs. encode_plaintext demo_plaintext 1 = Some bs \<and> bs \<noteq> [] \<and> length bs \<le> 1000"
  by (simp add: encode_plaintext_def demo_plaintext_def demo_credential_def valid_auto_lock_days_def
      is_supported_vault_format_def vault_constants plaintext_magic_def valid_credential_def
      append_sized_bytes_def append_sized_text_def encode_wifi_def kPlaintextMagicV1_def c_string_def ascii_def append_u16_def)

lemma demo_sealed: "sealed_vault toy_gcm demo_key demo_plaintext (demo_vault gen)"
  and demo_vault_fields [simp]: "ve_vault_format_version (demo_vault gen) = 1"
    "ve_storage_schema_version (demo_vault gen) = 2" "ve_vault_id (demo_vault gen) = replicate 16 1"
    "ve_generation (demo_vault gen) = gen"
  and demo_framing: "gen \<noteq> 0 \<Longrightarrow> valid_envelope_framing (demo_vault gen)"
proof -
  obtain bs where bs: "encode_plaintext demo_plaintext 1 = Some bs" "bs \<noteq> []" "length bs \<le> 1000"
    using demo_encodes by blast
  define aad where "aad = the (build_vault_aad (replicate 16 1) gen 1 2)"
  have "build_vault_aad (replicate 16 1) gen 1 2 = Some aad"
    by (simp add: aad_def build_vault_aad_def aad_magic_def vault_constants is_supported_vault_format_def)
  then have e: "encrypt_vault_with_nonce toy_gcm bs demo_key (replicate 16 1) gen (zeros 12) 1 =
      Some \<lparr>ve_vault_format_version = 1, ve_storage_schema_version = 2, ve_vault_id = replicate 16 1,
        ve_generation = gen, ve_nonce = zeros 12, ve_ciphertext = map (\<lambda>b. b + 5) bs,
        ve_tag = toy_tag demo_key (zeros 12) aad\<rparr>"
    by (simp add: encrypt_vault_with_nonce_def toy_gcm_def vault_constants demo_key_def
        is_supported_vault_format_def numeral_eq_Suc)
  then show "ve_vault_format_version (demo_vault gen) = 1" "ve_storage_schema_version (demo_vault gen) = 2"
    "ve_vault_id (demo_vault gen) = replicate 16 1" "ve_generation (demo_vault gen) = gen"
    by (simp_all add: demo_vault_def bs)
  show "gen \<noteq> 0 \<Longrightarrow> valid_envelope_framing (demo_vault gen)" using bs(2,3)
    by (simp add: demo_vault_def bs(1) e valid_envelope_framing_def is_supported_vault_format_def
        vault_constants kMaxPersistedCiphertextBytes_def)
  show "sealed_vault toy_gcm demo_key demo_plaintext (demo_vault gen)"
    unfolding sealed_vault_def
    by (simp add: demo_vault_def bs(1) e) (simp add: plaintext_wf_def demo_plaintext_def
        demo_credential_def vault_constants ids_wf_def)
qed

section \<open>A medium in memory\<close>

definition memory_store :: "persisted_snapshot persistence" where
  "memory_store = \<lparr>
     pe_load = \<lambda>s. ((if ps_schema_ready s then Ok else StUnprovisioned, s), s),
     pe_format_schema2 = \<lambda>s. (Ok, empty_snapshot\<lparr>ps_schema_ready := True\<rparr>),
     pe_replace_envelope = \<lambda>expected env s. (
       if \<not> ps_schema_ready s then (NotReady, s)
       else if (if expected = 0 then ps_has_vault s
                else \<not> ps_has_vault s \<or> ve_generation (ps_envelope s) \<noteq> expected
                  \<or> ve_generation env \<noteq> expected + 1 \<or> ve_vault_id env \<noteq> ve_vault_id (ps_envelope s))
       then (GenerationMismatch, s)
       else (Ok, s\<lparr>ps_has_vault := True, ps_envelope := env\<rparr>)),
     pe_set_last_used = \<lambda>a s. (Ok, s\<lparr>ps_last_used := a\<rparr>),
     pe_erase_all = \<lambda>s. (Ok, empty_snapshot)\<rparr>"

definition demo_store :: persisted_snapshot where
  "demo_store = \<lparr>ps_schema_ready = True, ps_has_vault = True, ps_envelope = demo_vault 4,
     ps_last_used = None\<rparr>"

definition demo_locked :: runtime where
  "demo_locked = new_runtime\<lparr>rt_initialized := True, rt_schema_ready := True, rt_has_vault := True,
     rt_envelope := demo_vault 4, rt_state := Locked\<rparr>"

definition demo_unlocked :: runtime where
  "demo_unlocked = demo_locked\<lparr>rt_vmk := demo_key, rt_vmk_present := True, rt_state := Unlocked,
     rt_unlocked_since_ms := 7, rt_unlock_session_active := True\<rparr>"

lemma demo_initialize: "initialize memory_store (new_runtime, demo_store) = (Ok, demo_locked, demo_store)"
  by (simp add: initialize_def memory_store_def demo_store_def demo_locked_def new_runtime_def
      demo_framing clear_unlock_session_state_def wipe_vmk_def vault_constants)

lemma demo_opens:
  "validate_envelope_with_key toy_gcm (demo_vault 4) demo_key = Inr None"
  "decrypt_vault toy_gcm (demo_vault 4) demo_key \<noteq> None"
  "open_resident_vault toy_gcm demo_unlocked = Inr demo_plaintext"
proof -
  obtain bs where "decrypt_vault toy_gcm (demo_vault 4) demo_key = Some bs"
    "decode_plaintext bs = Some (demo_plaintext, 1)"
    using demo_sealed [of 4] by (auto simp: sealed_vault_iff [OF toy_gcm_laws])
  then show "validate_envelope_with_key toy_gcm (demo_vault 4) demo_key = Inr None"
    "decrypt_vault toy_gcm (demo_vault 4) demo_key \<noteq> None"
    "open_resident_vault toy_gcm demo_unlocked = Inr demo_plaintext"
    by (simp_all add: validate_envelope_with_key_def demo_framing demo_plaintext_def
        open_resident_vault_def demo_unlocked_def demo_locked_def)
qed

lemma demo_unlock: "unlock toy_gcm demo_key 7 demo_locked = (Ok, demo_unlocked)"
  by (simp add: unlock_def demo_locked_def demo_unlocked_def new_runtime_def demo_opens
      clear_unlock_session_state_def wipe_vmk_def begin_unlock_session_def vault_constants)

lemma demo_reachable:
  "runtime_reachable memory_store toy_gcm demo_store (demo_locked, demo_store)"
  "runtime_reachable memory_store toy_gcm demo_store (demo_unlocked, demo_store)"
proof -
  show locked: "runtime_reachable memory_store toy_gcm demo_store (demo_locked, demo_store)"
    using runtime_reachable.step [OF runtime_reachable.new, of memory_store toy_gcm demo_store RInitialize]
    by (simp add: demo_initialize)
  show "runtime_reachable memory_store toy_gcm demo_store (demo_unlocked, demo_store)"
    using runtime_reachable.step [OF locked, of "RUnlock demo_key 7"] by (simp add: demo_unlock)
qed

lemma demo_unlocked_flags:
  "rt_initialized demo_unlocked" "rt_state demo_unlocked = Unlocked" "rt_vmk_present demo_unlocked"
  "rt_has_vault demo_unlocked"
  by (simp_all add: demo_unlocked_def demo_locked_def)

end
