(* ===== verification/Vault_Runtime_Props.thy ===== *)
theory Vault_Runtime_Props
  imports Vault_Runtime_Samples "HOL-Library.Multiset"
begin

text \<open>
  What the Vault state machine guarantees along whole runs: where the key is, which Vault can
  follow which, when a session began and when it must end, and what the reading operations show.
\<close>

section \<open>Succession\<close>

definition succeeds :: "vault_envelope \<Rightarrow> vault_envelope \<Rightarrow> bool" where
  "succeeds a b \<longleftrightarrow> ve_vault_id b = ve_vault_id a \<and> unat (ve_generation b) = unat (ve_generation a) + 1 \<and>
     is_supported_vault_format (ve_vault_format_version b) \<and>
     (ve_vault_format_version a = 2 \<longrightarrow> ve_vault_format_version b = 2)"

fun provisions :: "runtime_call \<Rightarrow> bool" where
  "provisions RInitialize = True"
| "provisions RFormat = True"
| "provisions (RInstall _ _) = True"
| "provisions RFactoryReset = True"
| "provisions _ = False"

lemma successor_check_Ok: "successor_check e a b = Ok \<Longrightarrow> succeeds a b \<and> e = ve_generation a"
  by (auto simp: successor_check_def succeeds_def unat_plus_1 kVaultFormatVersion1_def
      kVaultFormatVersion2_def is_supported_vault_format_def split: if_splits)

lemma update_succession:
  "rt_has_vault r \<Longrightarrow> rt_has_vault (fst (snd (snd (update_encrypted_vault p g e env now (r, w))))) \<and>
   (rt_envelope (fst (snd (snd (update_encrypted_vault p g e env now (r, w))))) = rt_envelope r \<or>
    succeeds (rt_envelope r) (rt_envelope (fst (snd (snd (update_encrypted_vault p g e env now (r, w)))))))"
  by (auto simp: update_encrypted_vault_def Let_def fatal_security_error_def session_defs
      commit_verified_iff dest: successor_check_Ok split: sum.splits prod.splits)

lemma rekey_succession:
  "rt_has_vault r \<Longrightarrow> rt_has_vault (fst (snd (rekey_encrypted_vault p g e env vmk now (r, w)))) \<and>
   (rt_envelope (fst (snd (rekey_encrypted_vault p g e env vmk now (r, w)))) = rt_envelope r \<or>
    succeeds (rt_envelope r) (rt_envelope (fst (snd (rekey_encrypted_vault p g e env vmk now (r, w))))))"
  by (auto simp: rekey_encrypted_vault_def Let_def session_defs
      commit_verified_iff dest: successor_check_Ok split: sum.splits prod.splits)

lemma fatal_envelope:
  "rt_has_vault (snd (fatal_security_error r)) = rt_has_vault r"
  "rt_envelope (snd (fatal_security_error r)) = rt_envelope r"
  by (simp_all add: fatal_security_error_def session_defs)

lemma step_succession:
  assumes "\<not> provisions c" "rt_has_vault (fst st)"
  shows "rt_has_vault (fst (runtime_step p g c st)) \<and>
    (rt_envelope (fst (runtime_step p g c st)) = rt_envelope (fst st) \<or>
     succeeds (rt_envelope (fst st)) (rt_envelope (fst (runtime_step p g c st))))"
proof -
  obtain r w where st: "st = (r, w)" by fastforce
  then have v: "rt_has_vault r" using assms by simp
  show ?thesis
  proof (cases c)
    case (RWithCredential a f)
    then show ?thesis using v with_credential_result [of p g a "silent f" "()" r w] fatal_envelope
      by (auto simp: st)
  next
    case (RSetLastUsed a)
    then show ?thesis using v set_last_used_result [of p g a r w] fatal_envelope by (auto simp: st)
  next
    case (RWithWifi f)
    then show ?thesis using v with_wifi_result [of g "silent f" "()" r] fatal_envelope by (auto simp: st)
  next
    case RList
    then show ?thesis using v list_result [of g r] fatal_envelope by (auto simp: st)
  next
    case (RUpdate e env now)
    then show ?thesis using v update_succession by (simp add: st)
  next
    case (RRekey e env vmk now)
    then show ?thesis using v rekey_succession by (simp add: st)
  next
    case (RUnlock vmk now)
    then show ?thesis using v by (auto simp: st unlock_def session_defs Let_def split: sum.split)
  qed (use assms(1) v in \<open>auto simp: st lock_def enter_recovery_boundary_def fatal_envelope
      enter_registration_replacement_boundary_def enter_vmk_rekey_boundary_def session_defs Let_def\<close>)
qed

text \<open>A call that may put a candidate in the place of the resident Vault: an update of the open Vault, sealed
  under its key, or a re-key in the locked state that the re-key boundary leaves, sealed under the new
  key. Either names the generation that it replaces.\<close>

definition replaces :: "gcm \<Rightarrow> runtime_call \<Rightarrow> runtime \<Rightarrow> vault_envelope \<Rightarrow> bool" where
  "replaces g c r candidate \<longleftrightarrow> (\<exists>now policy.
     c = RUpdate (ve_generation (rt_envelope r)) candidate now \<and> rt_state r = Unlocked \<and>
       validate_envelope_with_key g candidate (rt_vmk r) = Inr policy \<or>
     (\<exists>vmk. c = RRekey (ve_generation (rt_envelope r)) candidate vmk now \<and> rt_state r = Locked \<and>
       rt_unlock_session_active r \<and> validate_envelope_with_key g candidate vmk = Inr policy))"

lemma update_replaces:
  "rt_envelope (fst (snd (snd (update_encrypted_vault p g e env now (r, w))))) = rt_envelope r \<or>
   rt_envelope (fst (snd (snd (update_encrypted_vault p g e env now (r, w))))) = env \<and>
     replaces g (RUpdate e env now) r env"
  by (auto simp: update_encrypted_vault_def Let_def fatal_security_error_def session_defs replaces_def
      commit_verified_iff dest: successor_check_Ok split: sum.splits prod.splits)

lemma rekey_replaces:
  "rt_envelope (fst (snd (rekey_encrypted_vault p g e env vmk now (r, w)))) = rt_envelope r \<or>
   rt_envelope (fst (snd (rekey_encrypted_vault p g e env vmk now (r, w)))) = env \<and>
     replaces g (RRekey e env vmk now) r env"
  by (auto simp: rekey_encrypted_vault_def Let_def session_defs replaces_def
      commit_verified_iff dest: successor_check_Ok split: sum.splits prod.splits)

lemma step_replaces:
  assumes "\<not> provisions c" "rt_has_vault (fst st)"
    and "rt_envelope (fst (runtime_step p g c st)) \<noteq> rt_envelope (fst st)"
  shows "replaces g c (fst st) (rt_envelope (fst (runtime_step p g c st)))"
proof -
  obtain r w where st: "st = (r, w)" by fastforce
  show ?thesis
  proof (cases c)
    case (RWithCredential a f)
    then show ?thesis using assms with_credential_result [of p g a "silent f" "()" r w] fatal_envelope
      by (auto simp: st)
  next
    case (RSetLastUsed a)
    then show ?thesis using assms set_last_used_result [of p g a r w] fatal_envelope by (auto simp: st)
  next
    case (RWithWifi f)
    then show ?thesis using assms with_wifi_result [of g "silent f" "()" r] fatal_envelope by (auto simp: st)
  next
    case RList
    then show ?thesis using assms list_result [of g r] fatal_envelope by (auto simp: st)
  next
    case (RUpdate e env now)
    then show ?thesis using assms(3) update_replaces [of p g e env now r w] by (auto simp: st)
  next
    case (RRekey e env vmk now)
    then show ?thesis using assms(3) rekey_replaces [of p g e env vmk now r w] by (auto simp: st)
  next
    case (RUnlock vmk now)
    then show ?thesis using assms by (auto simp: st unlock_def session_defs Let_def split: sum.splits if_splits)
  qed (use assms in \<open>auto simp: st lock_def enter_recovery_boundary_def fatal_envelope
      enter_registration_replacement_boundary_def enter_vmk_rekey_boundary_def session_defs Let_def split: if_splits\<close>)
qed

lemma run_succession:
  assumes "rt_has_vault (fst st)" "list_all (\<lambda>c. \<not> provisions c) cs"
  shows "let env = rt_envelope (fst st); env' = rt_envelope (fst (fold (runtime_step p g) cs st)) in
    rt_has_vault (fst (fold (runtime_step p g) cs st)) \<and> ve_vault_id env' = ve_vault_id env \<and>
    ve_generation env \<le> ve_generation env' \<and>
    (ve_vault_format_version env = 2 \<longrightarrow> ve_vault_format_version env' = 2)"
  using assms
proof (induction cs rule: rev_induct)
  case Nil
  then show ?case by (simp add: Let_def)
next
  case (snoc c cs)
  let ?s = "fold (runtime_step p g) cs st"
  have ih: "rt_has_vault (fst ?s)" "ve_vault_id (rt_envelope (fst ?s)) = ve_vault_id (rt_envelope (fst st))"
    "unat (ve_generation (rt_envelope (fst st))) \<le> unat (ve_generation (rt_envelope (fst ?s)))"
    using snoc by (simp_all add: Let_def word_le_nat_alt)
  note step = step_succession [of c ?s p g]
  show ?case
    using ih step snoc unfolding succeeds_def by (auto simp: Let_def word_le_nat_alt)
qed

text \<open>C9. No rollback. Start with a Vault and make any calls but those that provision: \<open>initialize\<close>, which
  loads the medium again, \<open>format_for_schema2\<close>, \<open>install_encrypted_vault\<close> and \<open>factory_reset\<close>. Then there is still a
  Vault, of the same id, of no smaller generation and never of format 1 after format 2. And every single
  call leaves the resident Vault as it is, or puts in its place a candidate of exactly the next generation, without
  wrap-around: an update or a re-key that names the generation it replaces, whose candidate opens under the
  key that goes with it.\<close>

theorem vault_never_rolls_back:
  assumes "rt_has_vault (fst st)" "list_all (\<lambda>c. \<not> provisions c) (cs @ [c])"
  shows "let before = fst (fold (runtime_step p g) cs st); after = fst (runtime_step p g c (fold (runtime_step p g) cs st));
      first = rt_envelope (fst st); env = rt_envelope before; env' = rt_envelope after in
    rt_has_vault after \<and> ve_vault_id env' = ve_vault_id first \<and> ve_generation first \<le> ve_generation env' \<and>
    (ve_vault_format_version first = 2 \<longrightarrow> ve_vault_format_version env' = 2) \<and>
    (env' = env \<or> unat (ve_generation env') = unat (ve_generation env) + 1 \<and> replaces g c before env')"
proof -
  let ?s = "fold (runtime_step p g) cs st"
  have s: "rt_has_vault (fst ?s)" using run_succession [OF assms(1), of cs p g] assms(2) by (simp add: Let_def)
  have c: "\<not> provisions c" using assms(2) by simp
  have "rt_envelope (fst (runtime_step p g c ?s)) = rt_envelope (fst ?s) \<or>
      unat (ve_generation (rt_envelope (fst (runtime_step p g c ?s)))) = unat (ve_generation (rt_envelope (fst ?s))) + 1 \<and>
      replaces g c (fst ?s) (rt_envelope (fst (runtime_step p g c ?s)))"
    using step_succession [OF c s, of p g] step_replaces [OF c s, of p g] unfolding succeeds_def by blast
  then show ?thesis using run_succession [OF assms, of p g] by (simp add: Let_def)
qed

lemma demo_validates: "gen \<noteq> 0 \<Longrightarrow> validate_envelope_with_key toy_gcm (demo_vault gen) demo_key = Inr None"
  using demo_sealed [of gen]
  by (auto simp: sealed_vault_iff [OF toy_gcm_laws] validate_envelope_with_key_def demo_framing demo_plaintext_def)

lemma demo_update:
  "rt_envelope (fst (runtime_step memory_store toy_gcm (RUpdate 4 (demo_vault 5) 9) (demo_unlocked, demo_store))) = demo_vault 5"
  by (simp add: update_encrypted_vault_def demo_unlocked_def demo_locked_def new_runtime_def successor_check_def
      is_supported_vault_format_def vault_constants demo_validates memory_store_def demo_store_def
      commit_verified_iff Let_def)

theorem vault_never_rolls_back_witness:
  "let after = fst (runtime_step memory_store toy_gcm (RUpdate 4 (demo_vault 5) 9)
      (fold (runtime_step memory_store toy_gcm) [RList] (demo_unlocked, demo_store))) in
   rt_envelope after = demo_vault 5 \<and> replaces toy_gcm (RUpdate 4 (demo_vault 5) 9) demo_unlocked (rt_envelope after)"
proof -
  have list: "fold (runtime_step memory_store toy_gcm) [RList] (demo_unlocked, demo_store) = (demo_unlocked, demo_store)"
    by (simp add: list_credentials_def demo_unlocked_flags demo_opens)
  have "ve_generation (rt_envelope demo_unlocked) \<noteq> ve_generation (demo_vault 5)"
    by (simp add: demo_unlocked_def demo_locked_def)
  then have "rt_envelope demo_unlocked \<noteq> demo_vault 5" by metis
  then show ?thesis
    using vault_never_rolls_back [of "(demo_unlocked, demo_store)" "[RList]" "RUpdate 4 (demo_vault 5) 9" memory_store toy_gcm]
      demo_update unfolding list by (simp add: demo_unlocked_flags Let_def del: runtime_step.simps)
qed

section \<open>The unlock session\<close>

definition unlocks :: "gcm \<Rightarrow> runtime_call \<Rightarrow> runtime \<Rightarrow> bool" where
  "unlocks g c r \<longleftrightarrow> (case c of RUnlock vmk now \<Rightarrow> fst (unlock g vmk now r) = Ok | _ \<Rightarrow> False)"

lemma reload_session:
  "\<not> rt_unlock_session_active (fst (snd (reload_after_persistence p st)))"
  by (simp add: reload_after_persistence_def session_defs Let_def split: prod.split)

lemma install_session:
  "rt_unlock_session_active (fst (snd (install_encrypted_vault p g env vmk (r, w)))) \<Longrightarrow>
   fst (snd (install_encrypted_vault p g env vmk (r, w))) = r"
  using reload_session [of p]
  by (auto simp: install_encrypted_vault_def Let_def session_defs split: if_splits sum.splits prod.splits)
    (metis fst_conv snd_conv)+

lemma session_step:
  assumes "rt_unlock_session_active (fst (runtime_step p g c st))" "\<not> unlocks g c (fst st)"
  shows "rt_unlock_session_active (fst st) \<and>
    rt_unlocked_since_ms (fst (runtime_step p g c st)) = rt_unlocked_since_ms (fst st)"
proof -
  obtain r w where st: "st = (r, w)" by fastforce
  have fatal: "\<not> rt_unlock_session_active (snd (fatal_security_error r))"
    if "rt_unlock_session_active r \<longrightarrow> rt_initialized r"
    using that by (auto simp: fatal_security_error_def session_defs)
  show ?thesis
  proof (cases c)
    case (RUnlock vmk now)
    then show ?thesis using assms
      by (auto simp: st unlocks_def unlock_def Let_def split: if_splits sum.splits)
  next
    case (RInstall env vmk)
    then show ?thesis using assms(1) install_session [of p g env vmk r w] by (auto simp: st)
  next
    case RFormat
    then show ?thesis using assms(1) reload_session [of p]
      by (auto simp: st format_for_schema2_def Let_def session_defs split: if_splits prod.splits)
  next
    case (RWithCredential a f)
    then show ?thesis using assms(1) with_credential_result [of p g a "silent f" "()" r w]
      by (auto simp: st fatal_security_error_def session_defs split: if_splits)
  next
    case (RSetLastUsed a)
    then show ?thesis using assms(1) set_last_used_result [of p g a r w]
      by (auto simp: st fatal_security_error_def session_defs split: if_splits)
  next
    case (RWithWifi f)
    then show ?thesis using assms(1) with_wifi_result [of g "silent f" "()" r]
      by (auto simp: st fatal_security_error_def session_defs split: if_splits)
  next
    case RList
    then show ?thesis using assms(1) list_result [of g r]
      by (auto simp: st fatal_security_error_def session_defs split: if_splits)
  next
    case (RUpdate e env now)
    then show ?thesis using assms(1)
      by (auto simp: st update_encrypted_vault_def Let_def fatal_security_error_def session_defs
          split: if_splits sum.splits prod.splits)
  next
    case (RRekey e env vmk now)
    then show ?thesis using assms(1)
      by (auto simp: st rekey_encrypted_vault_def Let_def session_defs
          split: if_splits sum.splits prod.splits)
  qed (use assms(1) in \<open>auto simp: st initialize_def lock_def enter_recovery_boundary_def
      fatal_security_error_def factory_reset_def
      enter_registration_replacement_boundary_def enter_vmk_rekey_boundary_def session_defs Let_def
      split: if_splits prod.splits\<close>)
qed

lemma unlocks_since:
  "unlocks g c (fst st) \<Longrightarrow> \<exists>vmk t0. c = RUnlock vmk t0 \<and>
     rt_unlocked_since_ms (fst (runtime_step p g c st)) = t0"
  by (cases c) (auto simp: unlocks_def unlock_def session_defs Let_def split: if_splits sum.splits)

text \<open>The calls after which no unlock has succeeded.\<close>

fun no_unlock :: "'w persistence \<Rightarrow> gcm \<Rightarrow> runtime_call list \<Rightarrow> runtime \<times> 'w \<Rightarrow> bool" where
  "no_unlock p g [] st = True"
| "no_unlock p g (c # cs) st = (\<not> unlocks g c (fst st) \<and> no_unlock p g cs (runtime_step p g c st))"

lemma no_unlock_snoc:
  "no_unlock p g (cs @ [c]) st \<longleftrightarrow>
   no_unlock p g cs st \<and> \<not> unlocks g c (fst (fold (runtime_step p g) cs st))"
  by (induction cs arbitrary: st) auto

lemma session_origin:
  "rt_unlock_session_active (fst (fold (runtime_step p g) cs (new_runtime, w0))) \<Longrightarrow>
   \<exists>pre vmk t0 post. cs = pre @ RUnlock vmk t0 # post \<and>
     unlocks g (RUnlock vmk t0) (fst (fold (runtime_step p g) pre (new_runtime, w0))) \<and>
     no_unlock p g post (fold (runtime_step p g) (pre @ [RUnlock vmk t0]) (new_runtime, w0)) \<and>
     rt_unlocked_since_ms (fst (fold (runtime_step p g) cs (new_runtime, w0))) = t0"
proof (induction cs rule: rev_induct)
  case Nil
  then show ?case by (simp add: new_runtime_def)
next
  case (snoc c cs)
  let ?s = "fold (runtime_step p g) cs (new_runtime, w0)"
  show ?case
  proof (cases "unlocks g c (fst ?s)")
    case True
    then obtain vmk t0 where c: "c = RUnlock vmk t0"
      "rt_unlocked_since_ms (fst (runtime_step p g c ?s)) = t0" using unlocks_since by blast
    then show ?thesis using True
      by (intro exI [of _ cs] exI [of _ vmk] exI [of _ t0] exI [of _ "[]"]) simp
  next
    case False
    with session_step [of p g c ?s] snoc.prems have
      a: "rt_unlock_session_active (fst ?s)"
        "rt_unlocked_since_ms (fst (runtime_step p g c ?s)) = rt_unlocked_since_ms (fst ?s)" by simp_all
    with snoc.IH obtain pre vmk t0 post where h: "cs = pre @ RUnlock vmk t0 # post"
      "unlocks g (RUnlock vmk t0) (fst (fold (runtime_step p g) pre (new_runtime, w0)))"
      "no_unlock p g post (fold (runtime_step p g) (pre @ [RUnlock vmk t0]) (new_runtime, w0))"
      "rt_unlocked_since_ms (fst ?s) = t0" by blast
    then have "no_unlock p g (post @ [c]) (fold (runtime_step p g) (pre @ [RUnlock vmk t0]) (new_runtime, w0))"
      using False by (simp add: no_unlock_snoc)
    then show ?thesis using h a
      by (intro exI [of _ pre] exI [of _ vmk] exI [of _ t0] exI [of _ "post @ [c]"]) simp
  qed
qed

lemma session_kept:
  "no_unlock p g post st \<Longrightarrow> rt_unlock_session_active (fst (fold (runtime_step p g) post st)) \<Longrightarrow>
   rt_unlocked_since_ms (fst (fold (runtime_step p g) post st)) = rt_unlocked_since_ms (fst st)"
proof (induction post rule: rev_induct)
  case Nil
  then show ?case by simp
next
  case (snoc c cs)
  then show ?case
    using session_step [of p g c "fold (runtime_step p g) cs st"] by (simp add: no_unlock_snoc)
qed

lemma runtime_reachable_fold:
  "runtime_reachable p g w0 (fold (runtime_step p g) cs (new_runtime, w0))"
  by (induction cs rule: rev_induct) (auto intro: runtime_reachable.intros)

lemma unat_days: "unat (ucast (d :: u8) * kMillisecondsPerDay :: u64) = unat d * 86400000"
proof -
  have "unat (ucast d :: u64) = unat d"
    using take_bit_nat_eq_self [of "unat d" 64] unat_u8_less [of d] by (simp add: unsigned_ucast_eq)
  moreover have "unat d * 86400000 < 2 ^ 64" using unat_u8_less [of d] by simp
  ultimately show ?thesis by (simp add: kMillisecondsPerDay_def unat_word_ariths)
qed

lemma automatic_lock_due_iff:
  "automatic_lock_due now r \<longleftrightarrow> unlocked r \<and> rt_unlock_session_active r \<and>
     (\<exists>days. rt_auto_lock_days r = Some days \<and>
        unat (rt_unlocked_since_ms r) + unat days * 86400000 \<le> unat now)"
proof -
  have d: "ucast days * kMillisecondsPerDay \<le> now - s \<longleftrightarrow> unat s + unat days * 86400000 \<le> unat now"
    if "\<not> now < s" for days :: u8 and s
    using that by (auto simp: word_le_nat_alt word_less_nat_alt unat_sub unat_days)
  have l: "unat s + unat days * 86400000 \<le> unat now \<Longrightarrow> \<not> now < s" for days :: u8 and s
    by (simp add: word_less_nat_alt)
  show ?thesis using d l by (auto simp: automatic_lock_due_def split: option.split)
qed

text \<open>The last successful unlock of a run from power-up was given the time \<open>t0\<close>.\<close>

definition unlocked_at :: "'w persistence \<Rightarrow> gcm \<Rightarrow> 'w \<Rightarrow> runtime_call list \<Rightarrow> u64 \<Rightarrow> bool" where
  "unlocked_at p g w0 cs t0 \<longleftrightarrow> (\<exists>pre vmk post. cs = pre @ RUnlock vmk t0 # post \<and>
     unlocks g (RUnlock vmk t0) (fst (fold (runtime_step p g) pre (new_runtime, w0))) \<and>
     no_unlock p g post (fold (runtime_step p g) (pre @ [RUnlock vmk t0]) (new_runtime, w0)))"

lemma unlocked_at_since:
  assumes "rt_unlock_session_active (fst (fold (runtime_step p g) cs (new_runtime, w0)))"
  shows "unlocked_at p g w0 cs t0 \<longleftrightarrow>
    t0 = rt_unlocked_since_ms (fst (fold (runtime_step p g) cs (new_runtime, w0)))"
proof
  let ?r = "fst (fold (runtime_step p g) cs (new_runtime, w0))"
  assume "unlocked_at p g w0 cs t0"
  then obtain pre vmk post where h: "cs = pre @ RUnlock vmk t0 # post"
      "unlocks g (RUnlock vmk t0) (fst (fold (runtime_step p g) pre (new_runtime, w0)))"
      "no_unlock p g post (fold (runtime_step p g) (pre @ [RUnlock vmk t0]) (new_runtime, w0))"
    unfolding unlocked_at_def by blast
  let ?m = "fold (runtime_step p g) (pre @ [RUnlock vmk t0]) (new_runtime, w0)"
  have "?r = fst (fold (runtime_step p g) post ?m)" using h(1) by simp
  then have "rt_unlocked_since_ms ?r = rt_unlocked_since_ms (fst ?m)"
    using session_kept [OF h(3)] assms by simp
  then show "t0 = rt_unlocked_since_ms ?r" using unlocks_since [OF h(2), of p] by auto
next
  assume "t0 = rt_unlocked_since_ms (fst (fold (runtime_step p g) cs (new_runtime, w0)))"
  with session_origin [OF assms] show "unlocked_at p g w0 cs t0"
    unfolding unlocked_at_def by (elim exE conjE) (intro exI conjI, simp_all)
qed

text \<open>C21. The automatic lock cannot be postponed. In every run from power-up, the lock is due at
  time \<open>now\<close> exactly if the runtime is unlocked, the Vault it holds opens under the resident key to
  a plaintext with a policy of \<open>days\<close>, and \<open>now\<close> is at least that many days after the last
  successful unlock: no update, key change or other call in between restarts the clock.\<close>

theorem automatic_lock_counts_from_last_unlock:
  "let r = fst (fold (runtime_step p g) cs (new_runtime, w0)) in
   automatic_lock_due now r \<longleftrightarrow> rt_state r = Unlocked \<and>
     (\<exists>days t0. validate_envelope_with_key g (rt_envelope r) (rt_vmk r) = Inr (Some days) \<and>
        unlocked_at p g w0 cs t0 \<and> unat t0 + unat days * 86400000 \<le> unat now)"
proof -
  define r where "r = fst (fold (runtime_step p g) cs (new_runtime, w0))"
  have inv: "runtime_inv g r"
    unfolding r_def by (rule reachable_inv [OF runtime_reachable_fold])
  have since: "unlocked_at p g w0 cs t0 \<longleftrightarrow> t0 = rt_unlocked_since_ms r" if "rt_unlock_session_active r" for t0
    using unlocked_at_since that unfolding r_def .
  have "automatic_lock_due now r \<longleftrightarrow> rt_state r = Unlocked \<and>
     (\<exists>days t0. validate_envelope_with_key g (rt_envelope r) (rt_vmk r) = Inr (Some days) \<and>
        unlocked_at p g w0 cs t0 \<and> unat t0 + unat days * 86400000 \<le> unat now)"
  proof (cases "rt_state r = Unlocked")
    case False
    then show ?thesis by (simp add: automatic_lock_due_iff unlocked_def)
  next
    case True
    then have "rt_unlock_session_active r" "rt_initialized r" "rt_vmk_present r"
      "validate_envelope_with_key g (rt_envelope r) (rt_vmk r) = Inr (rt_auto_lock_days r)"
      using inv by (simp_all add: runtime_inv_def)
    with True since show ?thesis by (simp add: automatic_lock_due_iff unlocked_def)
  qed
  then show ?thesis by (simp add: r_def Let_def)
qed

section \<open>Where the key is\<close>

text \<open>C6. In every reachable state, over every storage medium, the Vault key is resident exactly
  in the state Unlocked; there it opens the resident Vault, to a plaintext with the policy that
  governs the automatic lock. In every other state the key bytes are zero. A Vault is held in
  Locked and Unlocked and in no unprovisioned state.\<close>

theorem resident_key_invariant:
  assumes "runtime_reachable p g w0 (r, w)"
  shows "(rt_vmk_present r \<longleftrightarrow> rt_state r = Unlocked) \<and>
    (if rt_state r = Unlocked
     then validate_envelope_with_key g (rt_envelope r) (rt_vmk r) = Inr (rt_auto_lock_days r)
     else all_zero (rt_vmk r)) \<and>
    (rt_state r \<in> {Locked, Unlocked} \<longrightarrow> rt_has_vault r \<and> valid_envelope_framing (rt_envelope r)) \<and>
    (rt_state r \<in> {Unprovisioned, ReprovisionRequired} \<longrightarrow> \<not> rt_has_vault r)"
  using reachable_inv [OF assms] by (auto simp: runtime_inv_def)

theorem resident_key_invariant_witness:
  "rt_vmk_present demo_unlocked \<and> \<not> rt_vmk_present demo_locked \<and> all_zero (rt_vmk demo_locked) \<and>
   validate_envelope_with_key toy_gcm (demo_vault 4) (rt_vmk demo_unlocked) = Inr None"
  using resident_key_invariant [OF demo_reachable(1)] resident_key_invariant [OF demo_reachable(2)]
  by (simp add: demo_unlocked_def demo_locked_def new_runtime_def)

text \<open>C30. \<open>unlock\<close> succeeds exactly in the state Locked and with a key under which the resident
  envelope is the sealing of the encoding of a well-formed plaintext; it then makes that key
  resident and starts a session with the plaintext's policy. A failed unlock changes nothing.\<close>

theorem unlock_correct:
  assumes "gcm_laws g" "runtime_inv g r" "rt_initialized r"
  shows "(fst (unlock g vmk now r) = Ok \<longleftrightarrow>
      rt_state r = Locked \<and> (\<exists>v. sealed_vault g vmk v (rt_envelope r))) \<and>
    (if fst (unlock g vmk now r) = Ok
     then \<exists>v. sealed_vault g vmk v (rt_envelope r) \<and>
       snd (unlock g vmk now r) = r\<lparr>rt_vmk := vmk, rt_vmk_present := True, rt_state := Unlocked,
         rt_auto_lock_days := vp_auto_lock_days v, rt_unlocked_since_ms := now,
         rt_unlock_session_active := True, rt_recovery_reset_allowed := False\<rparr>
     else snd (unlock g vmk now r) = r)"
proof (cases "rt_state r = Locked")
  case False
  then show ?thesis using assms(3) by (simp add: unlock_def)
next
  case True
  then have v: "rt_has_vault r" "valid_envelope_framing (rt_envelope r)"
    using assms(2) by (simp_all add: runtime_inv_def)
  show ?thesis
  proof (cases "validate_envelope_with_key g (rt_envelope r) vmk")
    case (Inl e)
    have "e \<noteq> Ok" using Inl by auto
    moreover have "\<not> sealed_vault g vmk v (rt_envelope r)" for v
      using Inl validate_iff [OF assms(1), of "rt_envelope r" vmk "vp_auto_lock_days v"] v by auto
    ultimately show ?thesis using Inl True v assms(3) by (simp add: unlock_def)
  next
    case (Inr policy)
    then obtain pt where "sealed_vault g vmk pt (rt_envelope r)" "vp_auto_lock_days pt = policy"
      using validate_iff [OF assms(1)] by auto
    then show ?thesis using Inr True v assms(3)
      by (auto simp: unlock_def session_defs Let_def intro!: exI [of _ pt])
  qed
qed

theorem unlock_correct_witness:
  "fst (unlock toy_gcm demo_key 7 demo_locked) = Ok \<and>
   rt_state (snd (unlock toy_gcm demo_key 7 demo_locked)) = Unlocked"
  using unlock_correct [OF toy_gcm_laws reachable_inv [OF demo_reachable(1)], of demo_key 7] demo_sealed
  by (auto simp: demo_locked_def)

section \<open>Reading\<close>

text \<open>\<open>list_credentials\<close> shows the metadata of exactly the credentials of the resident Vault,
  once each, in ascending manual order and, among equal orders, in the order of the Vault; it
  changes nothing.\<close>

theorem list_credentials_correct:
  assumes "list_credentials g r = (Ok, ms, r')"
  shows "r' = r \<and> rt_state r = Unlocked \<and> (\<exists>v. open_resident_vault g r = Inr v \<and>
    sorted (map cm_manual_order ms) \<and> mset ms = mset (map metadata_of (vp_credentials v)) \<and>
    (\<forall>k. filter (\<lambda>m. cm_manual_order m = k) ms =
         filter (\<lambda>m. cm_manual_order m = k) (map metadata_of (vp_credentials v))))"
proof (cases "open_resident_vault g r")
  case (Inl e)
  then have "e \<noteq> Ok" by (auto simp: open_resident_vault_def split: option.splits if_splits)
  then show ?thesis using assms Inl by (auto simp: list_credentials_def split: if_splits)
next
  case (Inr v)
  then show ?thesis using assms
    by (auto simp: list_credentials_def sort_key_stable mset_sort split: if_splits)
qed

theorem list_credentials_correct_witness:
  "rt_state demo_unlocked = Unlocked \<and> open_resident_vault toy_gcm demo_unlocked = Inr demo_plaintext \<and>
   mset [metadata_of demo_credential] = mset (map metadata_of (vp_credentials demo_plaintext))"
  using list_credentials_correct [of toy_gcm demo_unlocked "[metadata_of demo_credential]" demo_unlocked]
    demo_opens(3)
  by (simp add: list_credentials_def demo_unlocked_flags demo_plaintext_def)

text \<open>C33. A credential's secret reaches the caller's function only while the Vault is unlocked, and
  only the credential of the resident Vault that was asked for; on every other path the function
  is not called.\<close>

theorem with_credential_discloses:
  assumes "with_credential p g a (Some consume) c (r, w) = (s, c', r', w')" and "c' \<noteq> c"
  shows "rt_state r = Unlocked \<and> rt_vmk_present r \<and>
    (\<exists>v cred. open_resident_vault g r = Inr v \<and> cred \<in> set (vp_credentials v) \<and>
       cr_credential_id cred = a \<and> c' = snd (consume cred c))"
proof -
  have found: "cred \<in> set xs \<and> cr_credential_id cred = a" if "find_credential a xs = Some cred" for xs cred
    using that by (auto simp: find_credential_def find_Some_iff)
  show ?thesis using assms
    by (auto simp: with_credential_def Let_def dest!: found
        split: if_splits sum.splits option.splits prod.splits)
qed

theorem with_credential_discloses_witness:
  "\<exists>cred. cred \<in> set (vp_credentials demo_plaintext) \<and> cr_credential_id cred = zeros 16 \<and>
     [1, 2, 3] = cr_secret cred"
  using with_credential_discloses [of memory_store toy_gcm "zeros 16"
      "\<lambda>cred c. (Ok, cr_secret cred)" "[]" demo_unlocked demo_store Ok "[1, 2, 3]"
      "demo_unlocked\<lparr>rt_last_used := Some (zeros 16)\<rparr>" "demo_store\<lparr>ps_last_used := Some (zeros 16)\<rparr>"]
    demo_opens(3)
  by (auto simp: with_credential_def demo_unlocked_flags find_credential_def memory_store_def
      demo_plaintext_def demo_credential_def)

end
