(* ===== verification/Envelope_Codec.thy ===== *)
theory Envelope_Codec
  imports Vault_Runtime
begin

text \<open>
  The stored form of an encrypted Vault: the little-endian writers and the reader of
  \<open>m5auth_vault_runtime/nvs_persistence.cpp\<close>, \<open>encode_envelope\<close> and \<open>decode_envelope\<close>. The class
  \<open>Reader\<close> there has the same input, offset and bounds check as the reader of the vault format
  (theory \<open>Codec\<close>), so its \<open>read_exact\<close> is \<open>read_bytes\<close>.
\<close>

section \<open>Little-endian integers\<close>

definition append_le16 :: "bytes \<Rightarrow> u16 \<Rightarrow> bytes" where
  "append_le16 output value =
     (output @ [ucast (value AND 0xff)]) @ [ucast (drop_bit 8 value AND 0xff)]"

definition append_le32 :: "bytes \<Rightarrow> u32 \<Rightarrow> bytes" where
  "append_le32 output value =
     foldl (\<lambda>out shift. out @ [ucast (drop_bit shift value AND 0xff)]) output [0, 8, 16, 24]"

definition append_le64 :: "bytes \<Rightarrow> u64 \<Rightarrow> bytes" where
  "append_le64 output value =
     foldl (\<lambda>out shift. out @ [ucast (drop_bit shift value AND 0xff)]) output
       [0, 8, 16, 24, 32, 40, 48, 56]"

definition read_le16 :: "reader \<Rightarrow> (u16 \<times> reader) option" where
  "read_le16 r = do {
     (bs, r) \<leftarrow> read_bytes 2 r;
     Some (ucast (bs ! 0) OR push_bit 8 (ucast (bs ! 1)), r) }"

definition read_le32 :: "reader \<Rightarrow> (u32 \<times> reader) option" where
  "read_le32 r = do {
     (bs, r) \<leftarrow> read_bytes 4 r;
     Some (ucast (bs ! 0) OR push_bit 8 (ucast (bs ! 1)) OR push_bit 16 (ucast (bs ! 2))
             OR push_bit 24 (ucast (bs ! 3)), r) }"

definition read_le64 :: "reader \<Rightarrow> (u64 \<times> reader) option" where
  "read_le64 r = do {
     (bs, r) \<leftarrow> read_bytes 8 r;
     Some (foldl (\<lambda>result index. result OR push_bit (index * 8) (ucast (bs ! index))) 0
             [0, 1, 2, 3, 4, 5, 6, 7], r) }"

section \<open>The envelope\<close>

definition kEnvelopeMagic :: bytes where
  "kEnvelopeMagic = ascii ''M5AVLT2'' @ [0]"

definition nvs_valid_envelope :: "vault_envelope \<Rightarrow> bool" where
  "nvs_valid_envelope envelope \<longleftrightarrow>
     ve_storage_schema_version envelope = kTargetStorageSchemaVersion \<and>
     is_supported_vault_format (ve_vault_format_version envelope) \<and>
     ve_generation envelope \<noteq> 0 \<and> ve_ciphertext envelope \<noteq> [] \<and>
     length (ve_ciphertext envelope) \<le> kMaxPersistedCiphertextBytes \<and>
     length (ve_ciphertext envelope) \<le> unat max_u32"

definition nvs_same_envelope :: "vault_envelope \<Rightarrow> vault_envelope \<Rightarrow> bool" where
  "nvs_same_envelope left right \<longleftrightarrow>
     ve_storage_schema_version left = ve_storage_schema_version right \<and>
     ve_vault_format_version left = ve_vault_format_version right \<and>
     ve_vault_id left = ve_vault_id right \<and> ve_generation left = ve_generation right \<and>
     ve_nonce left = ve_nonce right \<and> ve_ciphertext left = ve_ciphertext right \<and>
     ve_tag left = ve_tag right"

definition encode_envelope :: "vault_envelope \<Rightarrow> status + bytes" where
  "encode_envelope envelope =
     (if \<not> nvs_valid_envelope envelope then Inl InvalidArgument
      else
        let output = [] @ kEnvelopeMagic;
            output = append_le16 output (ve_storage_schema_version envelope);
            output = append_le16 output (ve_vault_format_version envelope);
            output = output @ ve_vault_id envelope;
            output = append_le64 output (ve_generation envelope);
            output = output @ ve_nonce envelope;
            output = output @ ve_tag envelope;
            output = append_le32 output (of_nat (length (ve_ciphertext envelope)))
        in Inr (output @ ve_ciphertext envelope))"

text \<open>The fields before the ciphertext; any failure here is \<open>Corrupt\<close>.\<close>

definition decode_header :: "reader \<Rightarrow> (vault_envelope \<times> u32 \<times> reader) option" where
  "decode_header r = do {
     (magic, r) \<leftarrow> read_bytes (length kEnvelopeMagic) r;
     if magic \<noteq> kEnvelopeMagic then None else do {
     (schema, r) \<leftarrow> read_le16 r;
     (fmt, r) \<leftarrow> read_le16 r;
     (vault_id, r) \<leftarrow> read_bytes kVaultIdBytes r;
     (generation, r) \<leftarrow> read_le64 r;
     (nonce, r) \<leftarrow> read_bytes kVaultNonceBytes r;
     (tag, r) \<leftarrow> read_bytes kVaultTagBytes r;
     (ciphertext_size, r) \<leftarrow> read_le32 r;
     if ciphertext_size = 0 \<or> unat ciphertext_size > kMaxPersistedCiphertextBytes then None
     else Some (\<lparr>ve_vault_format_version = fmt, ve_storage_schema_version = schema,
                 ve_vault_id = vault_id, ve_generation = generation, ve_nonce = nonce,
                 ve_ciphertext = [], ve_tag = tag\<rparr>, ciphertext_size, r) } }"

definition decode_envelope :: "bytes \<Rightarrow> status + vault_envelope" where
  "decode_envelope encoded =
     (if encoded = [] then Inl Corrupt
      else case decode_header (mk_reader encoded) of
        None \<Rightarrow> Inl Corrupt
      | Some (candidate, ciphertext_size, r) \<Rightarrow>
          if ve_storage_schema_version candidate \<noteq> kTargetStorageSchemaVersion then Inl Corrupt
          else if \<not> is_supported_vault_format (ve_vault_format_version candidate)
            then Inl UnsupportedVaultFormat
          else case read_bytes (unat ciphertext_size) r of
            None \<Rightarrow> Inl Corrupt
          | Some (ciphertext, r) \<Rightarrow>
              let candidate = candidate\<lparr>ve_ciphertext := ciphertext\<rparr>
              in if \<not> at_end r \<or> \<not> nvs_valid_envelope candidate then Inl Corrupt
                 else Inr candidate)"

section \<open>The integers invert\<close>

definition le_bytes :: "nat \<Rightarrow> 'a :: len word \<Rightarrow> bytes" where
  "le_bytes n v = map (\<lambda>i. ucast (drop_bit (8 * i) v AND 0xff)) [0..<n]"

fun of_le :: "bytes \<Rightarrow> 'a :: len word" where
  "of_le [] = 0"
| "of_le (b # bs) = ucast b OR push_bit 8 (of_le bs)"

lemma length_le_bytes [simp]: "length (le_bytes n v) = n"
  by (simp add: le_bytes_def)

lemma bit_of_le:
  "bit (of_le bs :: 'a :: len word) n \<longleftrightarrow>
   n < LENGTH('a) \<and> n div 8 < length bs \<and> bit (bs ! (n div 8)) (n mod 8)"
proof (induction bs arbitrary: n)
  case Nil
  then show ?case by simp
next
  case (Cons b bs)
  show ?case
  proof (cases "n < 8")
    case True
    then show ?thesis by (auto simp: bit_simps)
  next
    case False
    then have "n div 8 = Suc ((n - 8) div 8)" "n mod 8 = (n - 8) mod 8"
      by (simp_all add: le_div_geq le_mod_geq)
    moreover have "\<not> bit b n" using False by (auto dest: bit_imp_le_length)
    ultimately show ?thesis using False Cons.IH [of "n - 8"] by (auto simp: bit_simps)
  qed
qed

lemma bit_le_bytes:
  "i < n \<Longrightarrow> bit (le_bytes n (v :: 'a :: len word) ! i) j \<longleftrightarrow> j < 8 \<and> bit v (8 * i + j)"
  unfolding le_bytes_def and_255 by (auto simp: bit_simps dest: bit_imp_le_length)

lemma of_le_le_bytes: "LENGTH('a) \<le> 8 * n \<Longrightarrow> of_le (le_bytes n v) = (v :: 'a :: len word)"
proof (rule bit_word_eqI)
  fix k assume n: "LENGTH('a) \<le> 8 * n" and k: "k < LENGTH('a)"
  then have "k div 8 < n" by (simp add: div_less_iff_less_mult mult.commute)
  then show "bit (of_le (le_bytes n v) :: 'a word) k \<longleftrightarrow> bit v k"
    using k by (simp add: bit_of_le bit_le_bytes)
qed

lemma le_bytes_of_le:
  assumes "8 * length bs \<le> LENGTH('a)"
  shows "le_bytes (length bs) (of_le bs :: 'a :: len word) = bs"
proof (rule nth_equalityI)
  fix i assume i: "i < length (le_bytes (length bs) (of_le bs :: 'a word))"
  show "le_bytes (length bs) (of_le bs :: 'a word) ! i = bs ! i"
  proof (rule bit_word_eqI)
    fix j assume "j < LENGTH(8)"
    then have "8 * i + j < LENGTH('a)" "(8 * i + j) div 8 = i" "(8 * i + j) mod 8 = j" "j < 8"
      using i assms by auto
    then show "bit (le_bytes (length bs) (of_le bs :: 'a word) ! i) j \<longleftrightarrow> bit (bs ! i) j"
      using i by (simp add: bit_le_bytes bit_of_le)
  qed
qed simp

definition le_word :: "'a :: len word \<Rightarrow> bytes" where
  "le_word v = le_bytes (LENGTH('a) div 8) v"

lemma le_word_iff:
  "8 * length bs = LENGTH('a) \<Longrightarrow> bs = le_word (v :: 'a :: len word) \<longleftrightarrow> v = of_le bs"
  using of_le_le_bytes [of "length bs" v] le_bytes_of_le [of bs, where 'a = 'a]
  by (auto simp: le_word_def dest: sym [of "8 * length bs"])

lemma append_le_le_word [codec_simps]:
  "append_le16 out v16 = out @ le_word v16"
  "append_le32 out v32 = out @ le_word v32"
  "append_le64 out v64 = out @ le_word v64"
  by (simp_all add: append_le16_def append_le32_def append_le64_def le_word_def le_bytes_def upt_rec)

lemma length_le_word [simp]: "length (le_word (v :: 'a :: len word)) = LENGTH('a) div 8"
  by (simp add: le_word_def)

lemma bytes_of_length:
  "length bs = 2 \<Longrightarrow> bs = [bs ! 0, bs ! 1]"
  "length bs = 4 \<Longrightarrow> bs = [bs ! 0, bs ! 1, bs ! 2, bs ! 3]"
  "length bs = 8 \<Longrightarrow> bs = [bs ! 0, bs ! 1, bs ! 2, bs ! 3, bs ! 4, bs ! 5, bs ! 6, bs ! 7]"
  by (auto simp: list_eq_iff_nth_eq less_Suc_eq nth_Cons' numeral_eq_Suc)

lemma of_le_code:
  "(of_le [a, b] :: u16) = ucast a OR push_bit 8 (ucast b)"
  "(of_le [a, b, c, d] :: u32) = ucast a OR push_bit 8 (ucast b) OR push_bit 16 (ucast c) OR
     push_bit 24 (ucast d)"
  by (simp_all add: push_bit_or or.assoc del: push_bit_of_Suc_0)

lemma of_le_code64:
  assumes "length bs = 8"
  shows "foldl (\<lambda>result index. result OR push_bit (index * 8) (ucast (bs ! index))) 0
    [0, 1, 2, 3, 4, 5, 6, 7] = (of_le bs :: u64)"
proof -
  obtain a b c d e f g h where bs: "bs = [a, b, c, d, e, f, g, h]"
    using bytes_of_length(3) [OF assms] by metis
  show ?thesis by (simp add: bs push_bit_or or.assoc)
qed

lemma leaf_le_iff:
  fixes v :: "'a :: len word"
  assumes "8 * n = LENGTH('a)"
    and "\<And>bs. length bs = n \<Longrightarrow> f bs = (of_le bs :: 'a word)"
  shows "do { (bs, r) \<leftarrow> read_bytes n r; Some (f bs, r) } = Some (v, r') \<longleftrightarrow> reads r (le_word v) r'"
proof -
  have "do { (bs, r) \<leftarrow> read_bytes n r; Some (f bs, r) } = Some (v, r') \<longleftrightarrow>
      (\<exists>bs. length bs = n \<and> reads r bs r' \<and> v = of_le bs)"
    using assms(2) by (auto simp: bind_eq_Some_conv raw.dec_iff)
  also have "\<dots> \<longleftrightarrow> (\<exists>bs. length bs = n \<and> reads r bs r' \<and> bs = le_word v)"
    using le_word_iff [where v = v] assms(1) by metis
  also have "\<dots> \<longleftrightarrow> reads r (le_word v) r'"
    using assms(1) by auto
  finally show ?thesis .
qed

lemma le16_iff: "read_le16 r = Some (x, r') \<longleftrightarrow> reads r (le_word x) r'"
proof -
  have f: "ucast (bs ! 0) OR push_bit 8 (ucast (bs ! 1)) = (of_le bs :: u16)" if "length bs = 2" for bs
    using bytes_of_length(1) [OF that] of_le_code(1) by metis
  show ?thesis unfolding read_le16_def by (rule leaf_le_iff) (simp, rule f)
qed

lemma le32_iff: "read_le32 r = Some (x, r') \<longleftrightarrow> reads r (le_word x) r'"
proof -
  have f: "ucast (bs ! 0) OR push_bit 8 (ucast (bs ! 1)) OR push_bit 16 (ucast (bs ! 2))
      OR push_bit 24 (ucast (bs ! 3)) = (of_le bs :: u32)" if "length bs = 4" for bs
    using bytes_of_length(2) [OF that] of_le_code(2) by metis
  show ?thesis unfolding read_le32_def by (rule leaf_le_iff) (simp, rule f)
qed

lemma le64_iff: "read_le64 r = Some (x, r') \<longleftrightarrow> reads r (le_word x) r'"
  unfolding read_le64_def by (rule leaf_le_iff) (simp, rule of_le_code64)

interpretation le16: codec le_word read_le16 "\<lambda>_. True"
  by unfold_locales (simp add: le16_iff)

interpretation le32: codec le_word read_le32 "\<lambda>_. True"
  by unfold_locales (simp add: le32_iff)

interpretation le64: codec le_word read_le64 "\<lambda>_. True"
  by unfold_locales (simp add: le64_iff)

section \<open>The envelope's codec\<close>

lemma length_kEnvelopeMagic [simp]: "length kEnvelopeMagic = 8"
  by (simp add: kEnvelopeMagic_def ascii_def)

text \<open>The lengths of the array fields.\<close>

definition envelope_wf :: "vault_envelope \<Rightarrow> bool" where
  "envelope_wf e \<longleftrightarrow> length (ve_vault_id e) = kVaultIdBytes \<and> length (ve_nonce e) = kVaultNonceBytes \<and>
     length (ve_tag e) = kVaultTagBytes"

definition header_bytes :: "vault_envelope \<Rightarrow> u32 \<Rightarrow> bytes" where
  "header_bytes e n = kEnvelopeMagic @ le_word (ve_storage_schema_version e) @
     le_word (ve_vault_format_version e) @ ve_vault_id e @ le_word (ve_generation e) @ ve_nonce e @
     ve_tag e @ le_word n"

lemma encode_envelope_eq:
  "encode_envelope e = (if nvs_valid_envelope e
     then Inr (header_bytes e (of_nat (length (ve_ciphertext e))) @ ve_ciphertext e)
     else Inl InvalidArgument)"
  by (simp add: encode_envelope_def header_bytes_def Let_def append_le_le_word)

lemma decode_header_iff:
  "decode_header r = Some (e, n, r') \<longleftrightarrow>
   envelope_wf e \<and> ve_ciphertext e = [] \<and> n \<noteq> 0 \<and> unat n \<le> kMaxPersistedCiphertextBytes \<and>
   reads r (header_bytes e n) r'"
proof -
  obtain fmt schema vid gen nonce ct tag where e: "e = \<lparr>ve_vault_format_version = fmt,
      ve_storage_schema_version = schema, ve_vault_id = vid, ve_generation = gen, ve_nonce = nonce,
      ve_ciphertext = ct, ve_tag = tag\<rparr>" by (cases e)
  show ?thesis
    by (auto simp: e decode_header_def header_bytes_def envelope_wf_def bind_eq_Some_conv
        if_None_eq_Some raw.dec_iff le16_iff le32_iff le64_iff reads_simps add.assoc not_le not_less)
qed

lemma nvs_valid_length: "nvs_valid_envelope e \<Longrightarrow> unat (of_nat (length (ve_ciphertext e)) :: u32) = length (ve_ciphertext e)"
  by (simp add: nvs_valid_envelope_def unat_of_nat)

lemma nvs_valid_framing: "nvs_valid_envelope e \<longleftrightarrow> valid_envelope_framing e"
  by (auto simp: nvs_valid_envelope_def valid_envelope_framing_def kMaxPersistedCiphertextBytes_def)

lemma header_bytes_ciphertext: "header_bytes (e\<lparr>ve_ciphertext := ct\<rparr>) n = header_bytes e n"
  by (simp add: header_bytes_def)

lemma decode_envelope_iff:
  "decode_envelope bs = Inr e \<longleftrightarrow> envelope_wf e \<and> encode_envelope e = Inr bs"
proof
  assume l: "decode_envelope bs = Inr e"
  then obtain c n r ct r2 where h: "decode_header (mk_reader bs) = Some (c, n, r)"
    "read_bytes (unat n) r = Some (ct, r2)" "at_end r2" "nvs_valid_envelope e" "e = c\<lparr>ve_ciphertext := ct\<rparr>"
    by (auto simp: decode_envelope_def Let_def split: if_splits option.splits)
  have w: "envelope_wf e" using h(1,5) by (simp add: decode_header_iff envelope_wf_def)
  have "reads (mk_reader bs) (header_bytes e n @ ct) r2"
    using h by (auto simp: decode_header_iff raw.dec_iff reads_append header_bytes_ciphertext)
  then have "bs = header_bytes e n @ ct" using h(3) reads_whole by blast
  moreover have "length ct = unat n" using h(2) by (simp add: raw.dec_iff)
  then have "n = of_nat (length (ve_ciphertext e))" using h(5) by simp
  ultimately show "envelope_wf e \<and> encode_envelope e = Inr bs"
    using w h(4,5) by (simp add: encode_envelope_eq)
next
  assume r: "envelope_wf e \<and> encode_envelope e = Inr bs"
  let ?n = "of_nat (length (ve_ciphertext e)) :: u32"
  have v: "nvs_valid_envelope e" and bs: "bs = header_bytes e ?n @ ve_ciphertext e"
    using r by (auto simp: encode_envelope_eq split: if_splits)
  have n: "unat ?n = length (ve_ciphertext e)" using nvs_valid_length [OF v] .
  obtain r2 where "reads (mk_reader bs) (header_bytes e ?n @ ve_ciphertext e) r2" "at_end r2"
    using reads_whole [of bs "header_bytes e ?n @ ve_ciphertext e"] bs by blast
  then obtain r1 where r1: "reads (mk_reader bs) (header_bytes e ?n) r1" "reads r1 (ve_ciphertext e) r2"
    by (auto simp: reads_append)
  have "?n \<noteq> 0" using v n by (auto simp: nvs_valid_envelope_def)
  then have "decode_header (mk_reader bs) = Some (e\<lparr>ve_ciphertext := []\<rparr>, ?n, r1)"
    using r r1 v n by (simp add: decode_header_iff envelope_wf_def header_bytes_ciphertext nvs_valid_envelope_def)
  moreover have "read_bytes (unat ?n) r1 = Some (ve_ciphertext e, r2)"
    using r1 n by (simp add: raw.dec_iff)
  moreover have "bs \<noteq> []" using v bs by (auto simp: nvs_valid_envelope_def)
  ultimately show "decode_envelope bs = Inr e"
    using v \<open>at_end r2\<close> by (simp add: decode_envelope_def nvs_valid_envelope_def)
qed

text \<open>C32. The stored form of the Vault is canonical: \<open>decode_envelope\<close> accepts a byte string exactly
  when it is the encoding of an envelope with well-formed arrays that \<open>encode_envelope\<close> accepts,
  and gives that envelope back. So what the first write phase stages is what the verification
  read sees, and a torn, truncated, extended or foreign record is refused.\<close>

theorem decode_envelope_iff_encode:
  "decode_envelope bs = Inr e \<longleftrightarrow> envelope_wf e \<and> encode_envelope e = Inr bs"
  by (rule decode_envelope_iff)

end
