(* ===== verification/Nvs_Persistence.thy ===== *)
theory Nvs_Persistence
  imports Envelope_Codec
begin

text \<open>
  The storage of the encrypted Vault in ESP-IDF's non-volatile storage
  (\<open>m5auth_vault_runtime/nvs_persistence.cpp\<close> and \<open>compatible_nvs_persistence.cpp\<close>). NVS itself is
  third-party: the record \<open>nvs\<close> has one field per API function that the code calls, over an
  unspecified medium. Every call in this component names the same partition (\<open>auth_nvs\<close>), so the
  partition label is not an argument; \<open>nv_erase_all\<close> is called by \<open>Registration\<close> only. A function with an output argument returns it paired with
  its error code; \<open>nvs_get_blob\<close> appears twice, as the size query with a null buffer and as the
  read into a buffer of a given size. A handle is a number.

  A failing \<open>load\<close> may have written part of its output argument; no caller reads it then, and the
  model gives the empty snapshot.
\<close>

datatype esp_err =
    EspOk | EspNvsNotFound | EspNotFound | EspInvalidArg | EspNvsNoFreePages
  | EspNvsNewVersionFound | EspOther int

record 'n nvs =
  nv_init_partition :: "'n \<Rightarrow> esp_err \<times> 'n"
  nv_secure_init_partition :: "bytes \<Rightarrow> bytes \<Rightarrow> 'n \<Rightarrow> esp_err \<times> 'n"
  nv_deinit_partition :: "'n \<Rightarrow> 'n"
  nv_erase_partition :: "'n \<Rightarrow> esp_err \<times> 'n"
  nv_open :: "string \<Rightarrow> bool \<Rightarrow> 'n \<Rightarrow> (esp_err \<times> nat) \<times> 'n"
  nv_close :: "nat \<Rightarrow> 'n \<Rightarrow> 'n"
  nv_get_u8 :: "nat \<Rightarrow> string \<Rightarrow> 'n \<Rightarrow> (esp_err \<times> u8) \<times> 'n"
  nv_get_u32 :: "nat \<Rightarrow> string \<Rightarrow> 'n \<Rightarrow> (esp_err \<times> u32) \<times> 'n"
  nv_blob_size :: "nat \<Rightarrow> string \<Rightarrow> 'n \<Rightarrow> (esp_err \<times> nat) \<times> 'n"
  nv_get_blob :: "nat \<Rightarrow> string \<Rightarrow> nat \<Rightarrow> 'n \<Rightarrow> (esp_err \<times> bytes) \<times> 'n"
  nv_set_u8 :: "nat \<Rightarrow> string \<Rightarrow> u8 \<Rightarrow> 'n \<Rightarrow> esp_err \<times> 'n"
  nv_set_u32 :: "nat \<Rightarrow> string \<Rightarrow> u32 \<Rightarrow> 'n \<Rightarrow> esp_err \<times> 'n"
  nv_set_blob :: "nat \<Rightarrow> string \<Rightarrow> bytes \<Rightarrow> 'n \<Rightarrow> esp_err \<times> 'n"
  nv_erase_key :: "nat \<Rightarrow> string \<Rightarrow> 'n \<Rightarrow> esp_err \<times> 'n"
  nv_erase_all :: "nat \<Rightarrow> 'n \<Rightarrow> esp_err \<times> 'n"
  nv_commit :: "nat \<Rightarrow> 'n \<Rightarrow> esp_err \<times> 'n"

definition kNamespace :: string where "kNamespace = ''vault2''"
definition kLegacyNamespace :: string where "kLegacyNamespace = ''state''"
definition kSchemaKey :: string where "kSchemaKey = ''schema''"
definition kActiveSlotKey :: string where "kActiveSlotKey = ''active''"
definition kSlot0Key :: string where "kSlot0Key = ''slot0''"
definition kSlot1Key :: string where "kSlot1Key = ''slot1''"
definition kLastUsedKey :: string where "kLastUsedKey = ''last_used''"

lemmas nvs_keys [m5_simps] = kNamespace_def kLegacyNamespace_def kSchemaKey_def kActiveSlotKey_def
  kSlot0Key_def kSlot1Key_def kLastUsedKey_def

definition map_error :: "esp_err \<Rightarrow> status" where
  "map_error error = (case error of
     EspOk \<Rightarrow> Ok
   | EspNvsNotFound \<Rightarrow> NotFound
   | EspNotFound \<Rightarrow> NotFound
   | EspInvalidArg \<Rightarrow> InvalidArgument
   | EspNvsNoFreePages \<Rightarrow> Corrupt
   | EspNvsNewVersionFound \<Rightarrow> UnsupportedSchema
   | EspOther _ \<Rightarrow> Io)"

definition ensure_partition_initialized :: "'n nvs \<Rightarrow> 'n \<Rightarrow> status \<times> 'n" where
  "ensure_partition_initialized n w = (let (error, w) = nv_init_partition n w in (map_error error, w))"

definition open_namespace :: "'n nvs \<Rightarrow> bool \<Rightarrow> 'n \<Rightarrow> (status \<times> nat) \<times> 'n" where
  "open_namespace n writable w =
     (let ((error, handle), w) = nv_open n kNamespace writable w in ((map_error error, handle), w))"

definition read_blob :: "'n nvs \<Rightarrow> nat \<Rightarrow> string \<Rightarrow> 'n \<Rightarrow> (status + bytes) \<times> 'n" where
  "read_blob n handle key w =
     (let ((result, size), w) = nv_blob_size n handle key w
      in if result \<noteq> EspOk then (Inl (map_error result), w)
         else if size = 0 \<or> size > kMaxPersistedCiphertextBytes + 128 then (Inl Corrupt, w)
         else
           let ((result, output), w) = nv_get_blob n handle key size w
           in if result \<noteq> EspOk then (Inl (map_error result), w) else (Inr output, w))"

text \<open>\<open>Inr None\<close>: there is no active slot; otherwise the slot and its envelope.\<close>

definition read_active :: "'n nvs \<Rightarrow> nat \<Rightarrow> 'n \<Rightarrow> (status + (u8 \<times> vault_envelope) option) \<times> 'n" where
  "read_active n handle w =
     (let ((active_result, slot), w) = nv_get_u8 n handle kActiveSlotKey w
      in if active_result = EspNvsNotFound then (Inr None, w)
         else if active_result \<noteq> EspOk then (Inl (map_error active_result), w)
         else if slot > 1 then (Inl Corrupt, w)
         else case read_blob n handle (if slot = 0 then kSlot0Key else kSlot1Key) w of
           (Inl read_status, w) \<Rightarrow> (Inl read_status, w)
         | (Inr encoded, w) \<Rightarrow>
             (case decode_envelope encoded of
                Inl decode_status \<Rightarrow> Inl decode_status
              | Inr envelope \<Rightarrow> Inr (Some (slot, envelope)), w))"

definition detect_legacy_schema :: "'n nvs \<Rightarrow> 'n \<Rightarrow> status \<times> 'n" where
  "detect_legacy_schema n w =
     (let ((open_result, handle), w) = nv_open n kLegacyNamespace False w
      in if open_result = EspNvsNotFound then (StUnprovisioned, w)
         else if open_result \<noteq> EspOk then (map_error open_result, w)
         else
           let ((schema_result, schema), w) = nv_get_u32 n handle kSchemaKey w;
               w = nv_close n handle w
           in if schema_result = EspNvsNotFound then (StUnprovisioned, w)
              else if schema_result \<noteq> EspOk then (map_error schema_result, w)
              else if schema = 1 then (StReprovisionRequired, w)
              else if schema > kStorageSchemaVersion then (UnsupportedSchema, w)
              else (Corrupt, w))"

text \<open>The optional last-used id of \<open>load\<close>.\<close>

definition read_last_used :: "'n nvs \<Rightarrow> nat \<Rightarrow> 'n \<Rightarrow> (status + bytes option) \<times> 'n" where
  "read_last_used n handle w =
     (let ((probe, last_used_size), w) = nv_blob_size n handle kLastUsedKey w
      in if probe = EspOk then
           (if last_used_size \<noteq> kCredentialIdBytes then (Inl Corrupt, w)
            else
              let ((result, credential_id), w) = nv_get_blob n handle kLastUsedKey last_used_size w
              in if result \<noteq> EspOk then (Inl (map_error result), w)
                 else (Inr (Some credential_id), w))
         else if probe \<noteq> EspNvsNotFound then (Inl (map_error probe), w)
         else (Inr None, w))"

text \<open>\<open>load\<close> once the namespace is open; the handle is closed on every path by the caller.\<close>

definition load_namespace :: "'n nvs \<Rightarrow> nat \<Rightarrow> 'n \<Rightarrow> (status + persisted_snapshot) \<times> 'n" where
  "load_namespace n handle w =
     (let ((schema_result, schema), w) = nv_get_u32 n handle kSchemaKey w
      in if schema_result \<noteq> EspOk then
           (Inl (if schema_result = EspNvsNotFound then Corrupt else map_error schema_result), w)
         else if schema = 1 then (Inl StReprovisionRequired, w)
         else if schema > kStorageSchemaVersion then (Inl UnsupportedSchema, w)
         else if schema \<noteq> kStorageSchemaVersion then (Inl Corrupt, w)
         else case read_active n handle w of
           (Inl status, w) \<Rightarrow> (Inl status, w)
         | (Inr active, w) \<Rightarrow>
             case read_last_used n handle w of
               (Inl status, w) \<Rightarrow> (Inl status, w)
             | (Inr last_used, w) \<Rightarrow>
                 (Inr \<lparr>ps_schema_ready = True, ps_has_vault = (active \<noteq> None),
                       ps_envelope = (case active of None \<Rightarrow> empty_envelope | Some (_, e) \<Rightarrow> e),
                       ps_last_used = last_used\<rparr>, w))"

definition nvs_load :: "'n nvs \<Rightarrow> 'n \<Rightarrow> (status \<times> persisted_snapshot) \<times> 'n" where
  "nvs_load n w =
     (let (status, w) = ensure_partition_initialized n w
      in if status \<noteq> Ok then ((status, empty_snapshot), w)
         else
           let ((status, handle), w) = open_namespace n False w
           in if status = NotFound then
                (let (status, w) = detect_legacy_schema n w in ((status, empty_snapshot), w))
              else if status \<noteq> Ok then ((status, empty_snapshot), w)
              else
                let (result, w) = load_namespace n handle w; w = nv_close n handle w
                in case result of
                     Inl status \<Rightarrow> ((status, empty_snapshot), w)
                   | Inr snapshot \<Rightarrow> ((Ok, snapshot), w))"

definition nvs_format_schema2 :: "'n nvs \<Rightarrow> 'n \<Rightarrow> status \<times> 'n" where
  "nvs_format_schema2 n w =
     (let w = nv_deinit_partition n w; (result, w) = nv_erase_partition n w
      in if result \<noteq> EspOk then (map_error result, w)
         else
           let (result, w) = nv_init_partition n w
           in if result \<noteq> EspOk then (map_error result, w)
              else
                let ((status, handle), w) = open_namespace n True w
                in if status \<noteq> Ok then (status, w)
                   else
                     let (result, w) = nv_set_u32 n handle kSchemaKey kStorageSchemaVersion w;
                         (result, w) = (if result = EspOk then nv_commit n handle w else (result, w));
                         w = nv_close n handle w
                     in (map_error result, w))"

section \<open>Replacing the envelope\<close>

definition replace_allowed :: "u64 \<Rightarrow> vault_envelope \<Rightarrow> (u8 \<times> vault_envelope) option \<Rightarrow> bool" where
  "replace_allowed expected_generation envelope active =
     (if expected_generation = 0 then active = None
      else case active of
        None \<Rightarrow> False
      | Some (_, current) \<Rightarrow>
          \<not> (ve_generation current \<noteq> expected_generation \<or> expected_generation = max_u64
             \<or> ve_generation envelope \<noteq> expected_generation + 1
             \<or> ve_vault_id envelope \<noteq> ve_vault_id current))"

definition inactive_slot :: "(u8 \<times> vault_envelope) option \<Rightarrow> u8" where
  "inactive_slot active = (case active of None \<Rightarrow> 0 | Some (active_slot, _) \<Rightarrow> 1 - active_slot)"

definition slot_key :: "u8 \<Rightarrow> string" where
  "slot_key slot = (if slot = 0 then kSlot0Key else kSlot1Key)"

text \<open>Set and commit: the two-call idiom of every write.\<close>

definition committed :: "'n nvs \<Rightarrow> nat \<Rightarrow> esp_err \<times> 'n \<Rightarrow> esp_err \<times> 'n" where
  "committed n handle rw = (case rw of (result, w) \<Rightarrow>
     if result = EspOk then nv_commit n handle w else (result, w))"

text \<open>Phase 1 stages and commits the candidate in the inactive slot and reads it back.\<close>

definition stage_candidate ::
  "'n nvs \<Rightarrow> nat \<Rightarrow> string \<Rightarrow> bytes \<Rightarrow> vault_envelope \<Rightarrow> 'n \<Rightarrow> status \<times> 'n" where
  "stage_candidate n handle inactive_key encoded envelope w =
     (let (result, w) = committed n handle (nv_set_blob n handle inactive_key encoded w)
      in if result \<noteq> EspOk then (map_error result, w)
         else
           let (staged_bytes, w) = read_blob n handle inactive_key w
           in (case staged_bytes of
                 Inl status \<Rightarrow> status
               | Inr bytes \<Rightarrow>
                   case decode_envelope bytes of
                     Inl status \<Rightarrow> status
                   | Inr staged \<Rightarrow> if \<not> nvs_same_envelope staged envelope then Corrupt else Ok, w))"

text \<open>\<open>replace_envelope\<close> once the namespace is open.\<close>

definition replace_namespace ::
  "'n nvs \<Rightarrow> nat \<Rightarrow> u64 \<Rightarrow> vault_envelope \<Rightarrow> 'n \<Rightarrow> status \<times> 'n" where
  "replace_namespace n handle expected_generation envelope w =
     (let ((result, schema), w) = nv_get_u32 n handle kSchemaKey w
      in if result \<noteq> EspOk \<or> schema \<noteq> kStorageSchemaVersion then
           (if result = EspOk then UnsupportedSchema else map_error result, w)
         else case read_active n handle w of
           (Inl status, w) \<Rightarrow> (status, w)
         | (Inr active, w) \<Rightarrow>
             if \<not> replace_allowed expected_generation envelope active then (GenerationMismatch, w)
             else case encode_envelope envelope of
               Inl status \<Rightarrow> (status, w)
             | Inr encoded \<Rightarrow>
                 let (status, w) =
                       stage_candidate n handle (slot_key (inactive_slot active)) encoded envelope w
                 in if status \<noteq> Ok then (status, w)
                    else
                      let (result, w) = committed n handle
                            (nv_set_u8 n handle kActiveSlotKey (inactive_slot active) w)
                      in (map_error result, w))"

definition nvs_replace_envelope :: "'n nvs \<Rightarrow> u64 \<Rightarrow> vault_envelope \<Rightarrow> 'n \<Rightarrow> status \<times> 'n" where
  "nvs_replace_envelope n expected_generation envelope w =
     (if \<not> nvs_valid_envelope envelope then (InvalidArgument, w)
      else
        let (status, w) = ensure_partition_initialized n w
        in if status \<noteq> Ok then (status, w)
           else
             let ((status, handle), w) = open_namespace n True w
             in if status \<noteq> Ok then (status, w)
                else
                  let (status, w) = replace_namespace n handle expected_generation envelope w
                  in (status, nv_close n handle w))"

section \<open>The other methods\<close>

definition nvs_set_last_used :: "'n nvs \<Rightarrow> bytes option \<Rightarrow> 'n \<Rightarrow> status \<times> 'n" where
  "nvs_set_last_used n credential_id w =
     (let (status, w) = ensure_partition_initialized n w
      in if status \<noteq> Ok then (status, w)
         else
           let ((status, handle), w) = open_namespace n True w
           in if status \<noteq> Ok then (status, w)
              else
                let ((result, schema), w) = nv_get_u32 n handle kSchemaKey w
                in if result \<noteq> EspOk \<or> schema \<noteq> kStorageSchemaVersion then
                     (if result = EspOk then UnsupportedSchema else map_error result,
                      nv_close n handle w)
                   else
                     let (result, w) = (case credential_id of
                           Some a \<Rightarrow> nv_set_blob n handle kLastUsedKey a w
                         | None \<Rightarrow>
                             let (result, w) = nv_erase_key n handle kLastUsedKey w
                             in (if result = EspNvsNotFound then EspOk else result, w));
                         (result, w) = committed n handle (result, w)
                     in (map_error result, nv_close n handle w))"

definition nvs_erase_all :: "'n nvs \<Rightarrow> 'n \<Rightarrow> status \<times> 'n" where
  "nvs_erase_all n w =
     (let w = nv_deinit_partition n w; (result, w) = nv_erase_partition n w in (map_error result, w))"

definition nvs_persistence :: "'n nvs \<Rightarrow> 'n persistence" where
  "nvs_persistence n = \<lparr>pe_load = nvs_load n, pe_format_schema2 = nvs_format_schema2 n,
     pe_replace_envelope = nvs_replace_envelope n, pe_set_last_used = nvs_set_last_used n,
     pe_erase_all = nvs_erase_all n\<rparr>"

section \<open>The adapter that recognises Schema 1\<close>

definition kLegacyDevEncryptionKey :: bytes where
  "kLegacyDevEncryptionKey = map word_of_nat [0x00..<0x20]"

definition kLegacyDevTweakKey :: bytes where
  "kLegacyDevTweakKey = map word_of_nat [0xa0..<0xc0]"

definition legacy_schema1_present :: "'n nvs \<Rightarrow> 'n \<Rightarrow> bool \<times> 'n" where
  "legacy_schema1_present n w =
     (let w = nv_deinit_partition n w;
          (init_result, w) = nv_secure_init_partition n kLegacyDevEncryptionKey kLegacyDevTweakKey w
      in if init_result \<noteq> EspOk then (False, nv_deinit_partition n w)
         else
           let ((open_result, handle), w) = nv_open n kLegacyNamespace False w
           in if open_result \<noteq> EspOk then (False, nv_deinit_partition n w)
              else
                let ((schema_result, schema), w) = nv_get_u32 n handle kSchemaKey w;
                    w = nv_close n handle w;
                    w = nv_deinit_partition n w
                in (schema_result = EspOk \<and> schema = 1, w))"

definition compatible_load :: "'n nvs \<Rightarrow> 'n \<Rightarrow> (status \<times> persisted_snapshot) \<times> 'n" where
  "compatible_load n w =
     (let ((primary, snapshot), w) = nvs_load n w
      in if primary = Ok \<or> primary = StReprovisionRequired then ((primary, snapshot), w)
         else
           let (present, w) = legacy_schema1_present n w
           in if present then ((StReprovisionRequired, empty_snapshot), w)
              else ((primary, snapshot), w))"

definition compatible_persistence :: "'n nvs \<Rightarrow> 'n persistence" where
  "compatible_persistence n = (nvs_persistence n)\<lparr>pe_load := compatible_load n\<rparr>"

section \<open>What any storage of this kind promises\<close>

text \<open>
  The contract that the code keeps whatever the medium does: a successful \<open>load\<close> is of Schema 2
  and what it calls a Vault is one that passes the runtime's own framing check; only such a
  Vault can have been stored. The client is the runtime.
\<close>

locale vault_storage =
  fixes p :: "'w persistence"
  assumes load_schema: "pe_load p w = ((Ok, snapshot), w') \<Longrightarrow> ps_schema_ready snapshot"
    and load_framing: "pe_load p w = ((Ok, snapshot), w') \<Longrightarrow> ps_has_vault snapshot \<Longrightarrow>
      valid_envelope_framing (ps_envelope snapshot)"
    and replace_framing: "pe_replace_envelope p e env w = (Ok, w') \<Longrightarrow> valid_envelope_framing env"
begin

lemma load_cases:
  obtains s snap w' where "pe_load p w = ((s, snap), w')"
    "s = Ok \<longrightarrow> ps_schema_ready snap \<and> (ps_has_vault snap \<longrightarrow> valid_envelope_framing (ps_envelope snap))"
  using load_schema load_framing by (metis prod_cases3 prod.collapse)

text \<open>Power-up has only the outcomes of the load itself: no loaded Vault is refused afterwards.\<close>

lemma initialize_outcome:
  "initialize p (r, w) = (status, r', w') \<Longrightarrow>
   status = fst (fst (pe_load p w)) \<or> status = StUnprovisioned \<and> \<not> ps_has_vault (snd (fst (pe_load p w)))"
  by (rule load_cases [of w]) (auto simp: initialize_def Let_def split: if_splits)

lemma initialize_error:
  assumes "initialize p (r, w) = (status, r', w')" and "rt_state r' = VaultError"
  shows "status \<notin> {Ok, StUnprovisioned, StReprovisionRequired} \<and> status = fst (fst (pe_load p w))"
  by (rule load_cases [of w]) (use assms in \<open>auto simp: initialize_def Let_def split: if_splits\<close>)

end

lemma load_namespace_valid:
  "load_namespace n h w = (Inr snap, w') \<Longrightarrow> ps_schema_ready snap \<and>
   (ps_has_vault snap \<longrightarrow> envelope_wf (ps_envelope snap) \<and> nvs_valid_envelope (ps_envelope snap))"
  by (auto simp: load_namespace_def read_active_def decode_envelope_iff encode_envelope_def Let_def
      split: if_splits sum.splits prod.splits option.splits)

lemma map_error_Ok [simp]: "map_error e = Ok \<longleftrightarrow> e = EspOk"
  by (cases e) (simp_all add: map_error_def)

lemma decode_envelope_not_Ok [simp]: "decode_envelope bs \<noteq> Inl Ok"
  by (auto simp: decode_envelope_def Let_def split: option.split)

lemma read_blob_not_Ok: "read_blob n h key w \<noteq> (Inl Ok, w')"
  by (auto simp: read_blob_def Let_def split: prod.split)

lemma read_active_not_Ok: "read_active n h w \<noteq> (Inl Ok, w')"
  by (auto simp: read_blob_not_Ok read_active_def Let_def split: prod.split sum.split if_splits)

lemma read_last_used_not_Ok: "read_last_used n h w \<noteq> (Inl Ok, w')"
  by (auto simp: read_last_used_def Let_def split: prod.split)

lemma load_namespace_not_Ok: "load_namespace n h w \<noteq> (Inl Ok, w')"
  by (auto simp: read_active_not_Ok read_last_used_not_Ok load_namespace_def Let_def split: prod.split sum.split)

lemma detect_legacy_not_Ok: "detect_legacy_schema n w \<noteq> (Ok, w')"
  by (auto simp: detect_legacy_schema_def Let_def split: prod.split)

lemma nvs_load_Ok:
  "nvs_load n w = ((Ok, snap), w') \<Longrightarrow> ps_schema_ready snap \<and>
   (ps_has_vault snap \<longrightarrow> envelope_wf (ps_envelope snap) \<and> nvs_valid_envelope (ps_envelope snap))"
  by (auto simp: load_namespace_not_Ok detect_legacy_not_Ok nvs_load_def Let_def split: if_splits sum.splits prod.splits dest!: load_namespace_valid)

lemma nvs_replace_Ok: "nvs_replace_envelope n e env w = (Ok, w') \<Longrightarrow> nvs_valid_envelope env"
  by (auto simp: nvs_replace_envelope_def split: if_splits)

interpretation nvs_store: vault_storage "nvs_persistence n" for n
  by unfold_locales
    (auto simp: nvs_persistence_def nvs_valid_framing [symmetric] dest: nvs_load_Ok nvs_replace_Ok)

lemma compatible_load_Ok: "compatible_load n w = ((Ok, snap), w') \<Longrightarrow> \<exists>w''. nvs_load n w = ((Ok, snap), w'')"
  by (auto simp: compatible_load_def Let_def split: if_splits prod.splits)

interpretation compatible_store: vault_storage "compatible_persistence n" for n
  by unfold_locales
    (auto simp: compatible_persistence_def nvs_persistence_def nvs_valid_framing [symmetric]
      dest!: compatible_load_Ok dest: nvs_load_Ok nvs_replace_Ok)

end
