(* ===== verification/Nvs_Atomicity.thy ===== *)
theory Nvs_Atomicity
  imports Nvs_Persistence
begin

text \<open>
  Power-loss safety of the two-slot replacement, relative to what the ESP-IDF documentation says
  of NVS: reads do not change the contents and report them truthfully when they succeed, a write
  changes at most its own key, and an interrupted write of an integer leaves the old or the new
  value. A failed write of a blob may leave anything under its key. Nothing is assumed of when
  calls fail, so every point at which power can be lost is the point of a failing call.
\<close>

datatype nvs_value = NvU8 u8 | NvU32 u32 | NvBlob bytes

type_synonym nvs_contents = "string \<Rightarrow> string \<Rightarrow> nvs_value option"

definition put :: "string \<Rightarrow> string \<Rightarrow> nvs_value option \<Rightarrow> nvs_contents \<Rightarrow> nvs_contents" where
  "put ns key v c = c(ns := (c ns)(key := v))"

text \<open>\<open>view\<close>: what is in the flash; \<open>ns_of\<close>: the namespace an open handle was opened for.\<close>

definition reads_truly ::
  "('n \<Rightarrow> nvs_contents) \<Rightarrow> ('n \<Rightarrow> nat \<Rightarrow> string) \<Rightarrow> ('a \<Rightarrow> nvs_value \<Rightarrow> bool) \<Rightarrow>
   (nat \<Rightarrow> string \<Rightarrow> 'n \<Rightarrow> (esp_err \<times> 'a) \<times> 'n) \<Rightarrow> bool" where
  "reads_truly view ns_of is_value get \<longleftrightarrow> (\<forall>h key w e v w'. get h key w = ((e, v), w') \<longrightarrow>
     view w' = view w \<and> ns_of w' = ns_of w \<and>
     (e = EspOk \<longrightarrow> (\<exists>x. view w (ns_of w h) key = Some x \<and> is_value v x)) \<and>
     (e = EspNvsNotFound \<longrightarrow> (\<forall>x v'. view w (ns_of w h) key = Some x \<longrightarrow> \<not> is_value v' x)))"

definition keeps_contents ::
  "('n \<Rightarrow> nvs_contents) \<Rightarrow> ('n \<Rightarrow> nat \<Rightarrow> string) \<Rightarrow> ('n \<Rightarrow> esp_err \<times> 'n) \<Rightarrow> bool" where
  "keeps_contents view ns_of f \<longleftrightarrow>
     (\<forall>w e w'. f w = (e, w') \<longrightarrow> view w' = view w \<and> ns_of w' = ns_of w)"

definition writes_u8 ::
  "('n \<Rightarrow> nvs_contents) \<Rightarrow> ('n \<Rightarrow> nat \<Rightarrow> string) \<Rightarrow>
   (nat \<Rightarrow> string \<Rightarrow> u8 \<Rightarrow> 'n \<Rightarrow> esp_err \<times> 'n) \<Rightarrow> bool" where
  "writes_u8 view ns_of set_at \<longleftrightarrow> (\<forall>h key v w e w'. set_at h key v w = (e, w') \<longrightarrow> ns_of w' = ns_of w \<and>
     (view w' = put (ns_of w h) key (Some (NvU8 v)) (view w) \<or> e \<noteq> EspOk \<and> view w' = view w))"

definition writes_blob ::
  "('n \<Rightarrow> nvs_contents) \<Rightarrow> ('n \<Rightarrow> nat \<Rightarrow> string) \<Rightarrow>
   (nat \<Rightarrow> string \<Rightarrow> bytes \<Rightarrow> 'n \<Rightarrow> esp_err \<times> 'n) \<Rightarrow> bool" where
  "writes_blob view ns_of set_at \<longleftrightarrow> (\<forall>h key v w e w'. set_at h key v w = (e, w') \<longrightarrow> ns_of w' = ns_of w \<and>
     (\<exists>x. view w' = put (ns_of w h) key x (view w) \<and> (e = EspOk \<longrightarrow> x = Some (NvBlob v))))"

definition opens_truly ::
  "('n \<Rightarrow> nvs_contents) \<Rightarrow> ('n \<Rightarrow> nat \<Rightarrow> string) \<Rightarrow>
   (string \<Rightarrow> bool \<Rightarrow> 'n \<Rightarrow> (esp_err \<times> nat) \<times> 'n) \<Rightarrow> bool" where
  "opens_truly view ns_of open_ns \<longleftrightarrow> (\<forall>ns m w e h w'. open_ns ns m w = ((e, h), w') \<longrightarrow>
     view w' = view w \<and> (e = EspOk \<longrightarrow> ns_of w' h = ns))"

definition nvs_laws :: "'n nvs \<Rightarrow> ('n \<Rightarrow> nvs_contents) \<Rightarrow> ('n \<Rightarrow> nat \<Rightarrow> string) \<Rightarrow> bool" where
  "nvs_laws n view ns_of \<longleftrightarrow>
     (\<forall>w. view (snd (nv_init_partition n w)) = view w) \<and>
     opens_truly view ns_of (nv_open n) \<and>
     (\<forall>h w. view (nv_close n h w) = view w) \<and>
     reads_truly view ns_of (\<lambda>v x. x = NvU8 v) (nv_get_u8 n) \<and>
     reads_truly view ns_of (\<lambda>v x. x = NvU32 v) (nv_get_u32 n) \<and>
     reads_truly view ns_of (\<lambda>v x. \<exists>b. x = NvBlob b \<and> v = length b) (nv_blob_size n) \<and>
     (\<forall>sz. reads_truly view ns_of (\<lambda>v x. x = NvBlob v) (\<lambda>h key. nv_get_blob n h key sz)) \<and>
     writes_u8 view ns_of (nv_set_u8 n) \<and> writes_blob view ns_of (nv_set_blob n) \<and>
     (\<forall>h. keeps_contents view ns_of (nv_commit n h))"

section \<open>The abstract store\<close>

text \<open>The specification: the Vault that the flash contents hold.\<close>

definition stored_vault :: "nvs_contents \<Rightarrow> vault_envelope option" where
  "stored_vault c = (case c kNamespace kActiveSlotKey of
     Some (NvU8 slot) \<Rightarrow>
       (if slot > 1 then None
        else case c kNamespace (slot_key slot) of
          Some (NvBlob b) \<Rightarrow> (case decode_envelope b of Inr e \<Rightarrow> Some e | Inl _ \<Rightarrow> None)
        | _ \<Rightarrow> None)
   | _ \<Rightarrow> None)"

lemma keys_distinct:
  "kActiveSlotKey \<noteq> slot_key s" "kSchemaKey \<noteq> slot_key s" "kLastUsedKey \<noteq> slot_key s"
  "kActiveSlotKey \<noteq> kSchemaKey" "kActiveSlotKey \<noteq> kLastUsedKey"
  by (simp_all add: slot_key_def nvs_keys)

lemma slot_key_inj: "s \<le> 1 \<Longrightarrow> t \<le> 1 \<Longrightarrow> slot_key s = slot_key t \<longleftrightarrow> s = t"
  by (auto simp: slot_key_def nvs_keys elim!: u8_slot_cases)

text \<open>Writing the slot that is not active does not change the stored Vault.\<close>

lemma stored_vault_other_slot:
  assumes "s \<le> 1" "\<And>a. c kNamespace kActiveSlotKey = Some (NvU8 a) \<Longrightarrow> a \<le> 1 \<Longrightarrow> a \<noteq> s"
  shows "stored_vault (put kNamespace (slot_key s) x c) = stored_vault c"
  using assms slot_key_inj keys_distinct(1)
  by (auto simp: stored_vault_def put_def not_less split: option.split nvs_value.split)

lemma stored_vault_flip:
  assumes "s \<le> 1" "c kNamespace (slot_key s) = Some (NvBlob b)" "decode_envelope b = Inr e"
  shows "stored_vault (put kNamespace kActiveSlotKey (Some (NvU8 s)) c) = Some e"
  using assms keys_distinct(1) [of s] by (auto simp: stored_vault_def put_def)

section \<open>What each step does to the contents\<close>

lemma reads_trulyD:
  "reads_truly view ns_of P get \<Longrightarrow> get h key w = ((e, v), w') \<Longrightarrow> view w' = view w \<and>
   ns_of w' = ns_of w \<and> (e = EspOk \<longrightarrow> (\<exists>x. view w (ns_of w h) key = Some x \<and> P v x)) \<and>
   (e = EspNvsNotFound \<longrightarrow> (\<forall>x v'. view w (ns_of w h) key = Some x \<longrightarrow> \<not> P v' x))"
  unfolding reads_truly_def by blast

lemma writes_u8D:
  "writes_u8 view ns_of set_at \<Longrightarrow> set_at h key v w = (e, w') \<Longrightarrow> ns_of w' = ns_of w \<and>
   (view w' = put (ns_of w h) key (Some (NvU8 v)) (view w) \<or> e \<noteq> EspOk \<and> view w' = view w)"
  unfolding writes_u8_def by blast

lemma writes_blobD:
  "writes_blob view ns_of set_at \<Longrightarrow> set_at h key v w = (e, w') \<Longrightarrow> ns_of w' = ns_of w \<and>
   (\<exists>x. view w' = put (ns_of w h) key x (view w) \<and> (e = EspOk \<longrightarrow> x = Some (NvBlob v)))"
  unfolding writes_blob_def by blast

lemma keeps_contentsD:
  "keeps_contents view ns_of f \<Longrightarrow> f w = (e, w') \<Longrightarrow> view w' = view w \<and> ns_of w' = ns_of w"
  unfolding keeps_contents_def by blast

lemma opens_trulyD:
  "opens_truly view ns_of open_ns \<Longrightarrow> open_ns ns m w = ((e, h), w') \<Longrightarrow>
   view w' = view w \<and> (e = EspOk \<longrightarrow> ns_of w' h = ns)"
  unfolding opens_truly_def by blast

lemma nvs_lawsD:
  assumes "nvs_laws n view ns_of"
  shows "view (snd (nv_init_partition n w)) = view w" "opens_truly view ns_of (nv_open n)"
    "view (nv_close n h w) = view w"
    "reads_truly view ns_of (\<lambda>v x. x = NvU8 v) (nv_get_u8 n)"
    "reads_truly view ns_of (\<lambda>v x. x = NvU32 v) (nv_get_u32 n)"
    "reads_truly view ns_of (\<lambda>v x. \<exists>b. x = NvBlob b \<and> v = length b) (nv_blob_size n)"
    "reads_truly view ns_of (\<lambda>v x. x = NvBlob v) (\<lambda>h key. nv_get_blob n h key sz)"
    "writes_u8 view ns_of (nv_set_u8 n)" "writes_blob view ns_of (nv_set_blob n)"
    "keeps_contents view ns_of (nv_commit n h)"
  using assms by (simp_all add: nvs_laws_def)

lemmas law_open = opens_trulyD [OF nvs_lawsD(2)]
lemmas law_get_u8 = reads_trulyD [OF nvs_lawsD(4)]
lemmas law_get_u32 = reads_trulyD [OF nvs_lawsD(5)]
lemmas law_blob_size = reads_trulyD [OF nvs_lawsD(6)]
lemmas law_get_blob = reads_trulyD [OF nvs_lawsD(7)]
lemmas law_set_u8 = writes_u8D [OF nvs_lawsD(8)]
lemmas law_set_blob = writes_blobD [OF nvs_lawsD(9)]
lemmas law_commit = keeps_contentsD [OF nvs_lawsD(10)]

lemma read_blob_truly:
  assumes "nvs_laws n view ns_of" "read_blob n h key w = (r, w')"
  shows "view w' = view w \<and> ns_of w' = ns_of w \<and>
    (\<forall>b. r = Inr b \<longrightarrow> view w (ns_of w h) key = Some (NvBlob b))"
  using assms(2) law_blob_size [OF assms(1)] law_get_blob [OF assms(1)]
  by (auto simp: read_blob_def Let_def split: prod.splits if_splits) metis+

lemma read_active_truly:
  assumes "nvs_laws n view ns_of" "read_active n h w = (r, w')"
  shows "view w' = view w \<and> ns_of w' = ns_of w \<and>
    (r = Inr None \<longrightarrow> (\<forall>v. view w (ns_of w h) kActiveSlotKey \<noteq> Some (NvU8 v))) \<and>
    (\<forall>slot e. r = Inr (Some (slot, e)) \<longrightarrow> slot \<le> 1 \<and>
      view w (ns_of w h) kActiveSlotKey = Some (NvU8 slot) \<and>
      (\<exists>b. view w (ns_of w h) (slot_key slot) = Some (NvBlob b) \<and> decode_envelope b = Inr e))"
proof -
  obtain e slot w1 where u8: "nv_get_u8 n h kActiveSlotKey w = ((e, slot), w1)"
    by (metis prod.collapse)
  obtain rb w2 where rb: "read_blob n h (slot_key slot) w1 = (rb, w2)" by (metis prod.collapse)
  show ?thesis
    using assms(2) law_get_u8 [OF assms(1) u8] read_blob_truly [OF assms(1) rb] rb
    by (auto simp: read_active_def u8 Let_def slot_key_def not_less split: if_splits sum.splits)
qed

lemma committed_set_blob:
  assumes "nvs_laws n view ns_of" "committed n h (nv_set_blob n h key v w) = (e, w')"
  shows "ns_of w' = ns_of w \<and>
    (\<exists>x. view w' = put (ns_of w h) key x (view w) \<and> (e = EspOk \<longrightarrow> x = Some (NvBlob v)))"
proof -
  obtain e1 w1 where set: "nv_set_blob n h key v w = (e1, w1)" by (metis prod.collapse)
  show ?thesis
    using assms(2) law_set_blob [OF assms(1) set] law_commit [OF assms(1), of h w1]
    by (auto simp: committed_def set split: if_splits)
qed

lemma committed_set_u8:
  assumes "nvs_laws n view ns_of" "committed n h (nv_set_u8 n h key v w) = (e, w')"
  shows "view w' = put (ns_of w h) key (Some (NvU8 v)) (view w) \<or> e \<noteq> EspOk \<and> view w' = view w"
proof -
  obtain e1 w1 where set: "nv_set_u8 n h key v w = (e1, w1)" by (metis prod.collapse)
  show ?thesis
    using assms(2) law_set_u8 [OF assms(1) set] law_commit [OF assms(1), of h w1]
    by (auto simp: committed_def set split: if_splits)
qed

lemma nvs_same_envelope_iff: "nvs_same_envelope l r \<longleftrightarrow> l = r"
  by (cases l; cases r) (auto simp: nvs_same_envelope_def)

text \<open>After phase 1 only the inactive slot differs, and on success it holds the envelope.\<close>

lemma stage_candidate_effect:
  assumes laws: "nvs_laws n view ns_of" and run: "stage_candidate n h key b env w = (s, w')"
  shows "ns_of w' = ns_of w \<and> (\<exists>x. view w' = put (ns_of w h) key x (view w) \<and>
    (s = Ok \<longrightarrow> (\<exists>b'. x = Some (NvBlob b') \<and> decode_envelope b' = Inr env)))"
proof -
  obtain e1 w1 where set: "committed n h (nv_set_blob n h key b w) = (e1, w1)" by (metis prod.collapse)
  obtain rb w2 where rb: "read_blob n h key w1 = (rb, w2)" by (metis prod.collapse)
  obtain x where x: "view w1 = put (ns_of w h) key x (view w)" "ns_of w1 = ns_of w"
    using committed_set_blob [OF laws set] by blast
  then have "view w' = put (ns_of w h) key x (view w) \<and> ns_of w' = ns_of w \<and>
    (s = Ok \<longrightarrow> (\<exists>b'. x = Some (NvBlob b') \<and> decode_envelope b' = Inr env))"
    using run read_blob_truly [OF laws rb] read_blob_not_Ok [of n h key w1 w2]
    by (auto simp: stage_candidate_def set rb Let_def put_def nvs_same_envelope_iff
        split: if_splits sum.splits)
  then show ?thesis by blast
qed

section \<open>The replacement is atomic\<close>

text \<open>What a replacement may do to the contents: touch nothing but the three Vault keys, and leave
  the old Vault or, if it succeeds it must be so, the new one, which follows the old.\<close>

definition follows :: "vault_envelope \<Rightarrow> vault_envelope option \<Rightarrow> bool" where
  "follows env old = (case old of None \<Rightarrow> True | Some current \<Rightarrow>
     ve_generation env = ve_generation current + 1 \<and> ve_generation current < ve_generation env \<and>
     ve_vault_id env = ve_vault_id current)"

definition atomic_replacement ::
  "vault_envelope \<Rightarrow> status \<Rightarrow> nvs_contents \<Rightarrow> nvs_contents \<Rightarrow> bool" where
  "atomic_replacement env s c c' \<longleftrightarrow>
     (stored_vault c' = stored_vault c \<or> stored_vault c' = Some env \<and> follows env (stored_vault c)) \<and>
     (s = Ok \<longrightarrow> stored_vault c' = Some env \<and> follows env (stored_vault c)) \<and>
     (\<forall>ns key. ns \<noteq> kNamespace \<or> key \<notin> {kSlot0Key, kSlot1Key, kActiveSlotKey} \<longrightarrow>
        c' ns key = c ns key)"

lemma atomic_replacement_refl: "s \<noteq> Ok \<Longrightarrow> atomic_replacement env s c c"
  by (simp add: atomic_replacement_def)

lemma inactive_slot_le:
  "(\<And>slot e. active = Some (slot, e) \<Longrightarrow> slot \<le> 1) \<Longrightarrow> inactive_slot active \<le> 1"
  by (cases active) (fastforce simp: inactive_slot_def elim!: u8_slot_cases)+

lemma inactive_slot_differs: "slot \<le> 1 \<Longrightarrow> inactive_slot (Some (slot, e)) \<noteq> slot"
  by (auto simp: inactive_slot_def elim!: u8_slot_cases)

lemma replace_allowed_follows:
  assumes "replace_allowed e env active" "stored = map_option snd active"
  shows "follows env stored"
proof (cases active)
  case (Some a)
  then have "e \<noteq> max_u64" "ve_generation env = e + 1" "ve_generation (snd a) = e"
    "ve_vault_id env = ve_vault_id (snd a)"
    using assms(1) by (auto simp: replace_allowed_def split: if_splits prod.splits)
  moreover have "e < e + 1" using \<open>e \<noteq> max_u64\<close>
    by (simp add: word_less_nat_alt unat_plus_1)
  ultimately show ?thesis using Some assms(2) by (simp add: follows_def)
qed (use assms(2) in \<open>simp add: follows_def\<close>)

lemma read_active_stored:
  assumes "nvs_laws n view ns_of" "read_active n h w = (Inr active, w')" "ns_of w h = kNamespace"
  shows "stored_vault (view w) = map_option snd active"
  using read_active_truly [OF assms(1,2)] assms(3)
  by (cases active) (auto simp: stored_vault_def not_less split: option.split nvs_value.split)

lemma slot_key_choice: "slot_key slot \<in> {kSlot0Key, kSlot1Key}"
  by (simp add: slot_key_def)

text \<open>Staging the unused slot and then flipping the active slot, each of which may fail.\<close>

lemma two_phase:
  assumes laws: "nvs_laws n view ns_of" and ns: "ns_of w h = kNamespace" and slot: "slot \<le> 1"
    and unused: "\<And>a. view w kNamespace kActiveSlotKey = Some (NvU8 a) \<Longrightarrow> a \<le> 1 \<Longrightarrow> a \<noteq> slot"
    and follows: "follows env (stored_vault (view w))"
    and stage: "stage_candidate n h (slot_key slot) encoded env w = (s1, w1)"
    and flip: "committed n h (nv_set_u8 n h kActiveSlotKey slot w1) = (e, w2)"
    and result: "s1 \<noteq> Ok \<and> s = s1 \<and> w' = w1 \<or> s1 = Ok \<and> s = map_error e \<and> w' = w2"
  shows "atomic_replacement env s (view w) (view w')"
proof -
  obtain x where x: "view w1 = put kNamespace (slot_key slot) x (view w)" "ns_of w1 h = kNamespace"
    "s1 = Ok \<longrightarrow> (\<exists>b'. x = Some (NvBlob b') \<and> decode_envelope b' = Inr env)"
    using stage_candidate_effect [OF laws stage] ns by metis
  have old: "stored_vault (view w1) = stored_vault (view w)"
    unfolding x(1) by (rule stored_vault_other_slot [OF slot unused])
  have same: "view w1 ns' key = view w ns' key"
    if "ns' \<noteq> kNamespace \<or> key \<notin> {kSlot0Key, kSlot1Key, kActiveSlotKey}" for ns' key
    using that slot_key_choice [of slot] by (auto simp: x(1) put_def)
  from result show ?thesis
  proof
    assume "s1 \<noteq> Ok \<and> s = s1 \<and> w' = w1"
    then show ?thesis using old same by (simp add: atomic_replacement_def)
  next
    assume fin: "s1 = Ok \<and> s = map_error e \<and> w' = w2"
    then obtain b' where b': "x = Some (NvBlob b')" "decode_envelope b' = Inr env" using x(3) by blast
    have new: "stored_vault (put kNamespace kActiveSlotKey (Some (NvU8 slot)) (view w1)) = Some env"
      by (rule stored_vault_flip [OF slot _ b'(2)]) (simp add: x(1) put_def b'(1))
    have same2: "put kNamespace kActiveSlotKey (Some (NvU8 slot)) (view w1) ns' key = view w ns' key"
      if "ns' \<noteq> kNamespace \<or> key \<notin> {kSlot0Key, kSlot1Key, kActiveSlotKey}" for ns' key
      using that same [OF that] by (auto simp: put_def)
    show ?thesis
      using committed_set_u8 [OF laws flip] x(2) fin new old follows same same2
      by (auto simp: atomic_replacement_def)
  qed
qed

lemma replace_namespace_atomic:
  assumes laws: "nvs_laws n view ns_of" and ns: "ns_of w h = kNamespace"
    and run: "replace_namespace n h e env w = (s, w')"
  shows "atomic_replacement env s (view w) (view w')"
proof -
  obtain r1 schema w1 where schema: "nv_get_u32 n h kSchemaKey w = ((r1, schema), w1)"
    by (metis prod.collapse)
  obtain act w2 where act: "read_active n h w1 = (act, w2)" by (metis prod.collapse)
  have w1: "view w1 = view w" "ns_of w1 h = kNamespace"
    using law_get_u32 [OF laws schema] ns by simp_all
  have w2: "view w2 = view w" "ns_of w2 h = kNamespace"
    using read_active_truly [OF laws act] w1 by simp_all
  show ?thesis
  proof (cases "\<exists>active encoded. r1 = EspOk \<and> schema = kStorageSchemaVersion \<and> act = Inr active \<and>
      replace_allowed e env active \<and> encode_envelope env = Inr encoded")
    case False
    then have "s \<noteq> Ok \<and> view w' = view w"
      using run w1 w2 read_active_not_Ok [of n h w1 w2] act
      by (auto simp: replace_namespace_def schema act Let_def encode_envelope_def split: if_splits sum.splits)
    then show ?thesis using atomic_replacement_refl by metis
  next
    case True
    then obtain active encoded where ok: "r1 = EspOk" "schema = kStorageSchemaVersion" "act = Inr active"
      "replace_allowed e env active" "encode_envelope env = Inr encoded" by blast
    define slot where "slot = inactive_slot active"
    obtain s1 w3 where stage: "stage_candidate n h (slot_key slot) encoded env w2 = (s1, w3)"
      by (metis prod.collapse)
    obtain e4 w4 where flip: "committed n h (nv_set_u8 n h kActiveSlotKey slot w3) = (e4, w4)"
      by (metis prod.collapse)
    have result: "s1 \<noteq> Ok \<and> s = s1 \<and> w' = w3 \<or> s1 = Ok \<and> s = map_error e4 \<and> w' = w4"
      using run ok stage flip
      by (auto simp: replace_namespace_def schema act Let_def slot_def split: if_splits)
    have active: "stored_vault (view w2) = map_option snd active" "slot \<le> 1"
      "\<And>a. view w2 kNamespace kActiveSlotKey = Some (NvU8 a) \<Longrightarrow> a \<le> 1 \<Longrightarrow> a \<noteq> slot"
      using read_active_stored [OF laws, of h w1 active w2] read_active_truly [OF laws act] act ok(3) w1 w2
        inactive_slot_le [of active] inactive_slot_differs
      by (cases active; fastforce simp: slot_def)+
    show ?thesis
      using two_phase [OF laws w2(2) active(2,3) replace_allowed_follows [OF ok(4) active(1)]
          stage flip result] w2(1) by simp
  qed
qed

lemma replace_envelope_atomic:
  assumes laws: "nvs_laws n view ns_of" and run: "nvs_replace_envelope n e env w = (s, w')"
  shows "atomic_replacement env s (view w) (view w')"
proof -
  obtain e1 w1 where init: "nv_init_partition n w = (e1, w1)" by (metis prod.collapse)
  obtain e2 h w2 where opn: "nv_open n kNamespace True w1 = ((e2, h), w2)" by (metis prod.collapse)
  obtain s3 w3 where rep: "replace_namespace n h e env w2 = (s3, w3)" by (metis prod.collapse)
  have "view w1 = view w" using nvs_lawsD(1) [OF laws, of w] init by simp
  moreover have "view w2 = view w1" "e2 = EspOk \<Longrightarrow> ns_of w2 h = kNamespace"
    using law_open [OF laws opn] by simp_all
  ultimately show ?thesis
    using run replace_namespace_atomic [OF laws _ rep] nvs_lawsD(3) [OF laws] atomic_replacement_refl
    by (auto simp: nvs_replace_envelope_def ensure_partition_initialized_def open_namespace_def
        init opn rep split: if_splits)
qed

lemma load_namespace_truly:
  assumes laws: "nvs_laws n view ns_of" and ns: "ns_of w h = kNamespace"
    and run: "load_namespace n h w = (Inr snap, w')"
  shows "stored_vault (view w) = (if ps_has_vault snap then Some (ps_envelope snap) else None)"
proof -
  obtain r1 schema w1 where schema: "nv_get_u32 n h kSchemaKey w = ((r1, schema), w1)"
    by (metis prod.collapse)
  obtain act w2 where act: "read_active n h w1 = (act, w2)" by (metis prod.collapse)
  have w1: "view w1 = view w" "ns_of w1 h = kNamespace"
    using law_get_u32 [OF laws schema] ns by simp_all
  show ?thesis
    using run read_active_stored [OF laws, of h w1 _ w2] act w1
    by (auto simp: load_namespace_def schema act Let_def split: if_splits sum.splits prod.splits option.splits)
qed

lemma load_truly:
  assumes laws: "nvs_laws n view ns_of" and run: "nvs_load n w = ((Ok, snap), w')"
  shows "stored_vault (view w) = (if ps_has_vault snap then Some (ps_envelope snap) else None)"
proof -
  obtain e1 w1 where init: "nv_init_partition n w = (e1, w1)" by (metis prod.collapse)
  obtain e2 h w2 where opn: "nv_open n kNamespace False w1 = ((e2, h), w2)" by (metis prod.collapse)
  have "view w1 = view w" using nvs_lawsD(1) [OF laws, of w] init by simp
  moreover have "view w2 = view w1" "e2 = EspOk \<Longrightarrow> ns_of w2 h = kNamespace"
    using law_open [OF laws opn] by simp_all
  ultimately show ?thesis
    using run load_namespace_truly [OF laws, of w2 h snap]
    by (auto simp: nvs_load_def ensure_partition_initialized_def open_namespace_def init opn
        load_namespace_not_Ok detect_legacy_not_Ok Let_def split: if_splits prod.splits sum.splits)
qed

section \<open>A medium with a write budget\<close>

text \<open>NVS in memory, which loses power after a number of writes: it meets the laws, so that they
  can be met, and serves as the flash of the witnesses.\<close>

type_synonym ram = "nat \<times> nvs_contents"

definition ram_ns :: "nat \<Rightarrow> string" where
  "ram_ns h = (if h = 0 then kLegacyNamespace else if h = 1 then kNamespace else ''m5auth_reg2'')"

definition ram_read ::
  "(nvs_value \<Rightarrow> 'a option) \<Rightarrow> 'a \<Rightarrow> nat \<Rightarrow> string \<Rightarrow> ram \<Rightarrow> (esp_err \<times> 'a) \<times> ram" where
  "ram_read f none h key w = (case snd w (ram_ns h) key of
     None \<Rightarrow> ((EspNvsNotFound, none), w)
   | Some x \<Rightarrow> case f x of None \<Rightarrow> ((EspOther 0, none), w) | Some v \<Rightarrow> ((EspOk, v), w))"

definition ram_write :: "nat \<Rightarrow> string \<Rightarrow> nvs_value option \<Rightarrow> ram \<Rightarrow> esp_err \<times> ram" where
  "ram_write h key x w = (case w of (budget, c) \<Rightarrow>
     if budget = 0 then (EspOther 1, w) else (EspOk, (budget - 1, put (ram_ns h) key x c)))"

definition ram_open :: "string \<Rightarrow> bool \<Rightarrow> ram \<Rightarrow> (esp_err \<times> nat) \<times> ram" where
  "ram_open ns writable w =
     (if ns = kNamespace then ((EspOk, 1), w) else if ns = kLegacyNamespace then ((EspOk, 0), w)
      else if ns = ''m5auth_reg2'' then ((EspOk, 2), w) else ((EspNvsNotFound, 3), w))"

definition ram_nvs :: "ram nvs" where
  "ram_nvs = \<lparr>nv_init_partition = \<lambda>w. (EspOk, w), nv_secure_init_partition = \<lambda>_ _ w. (EspOther 2, w),
     nv_deinit_partition = \<lambda>w. w, nv_erase_partition = \<lambda>w. (EspOk, (fst w, \<lambda>_ _. None)),
     nv_open = ram_open, nv_close = \<lambda>_ w. w,
     nv_get_u8 = ram_read (\<lambda>x. case x of NvU8 v \<Rightarrow> Some v | _ \<Rightarrow> None) 0,
     nv_get_u32 = ram_read (\<lambda>x. case x of NvU32 v \<Rightarrow> Some v | _ \<Rightarrow> None) 0,
     nv_blob_size = ram_read (\<lambda>x. case x of NvBlob b \<Rightarrow> Some (length b) | _ \<Rightarrow> None) 0,
     nv_get_blob = \<lambda>h key sz.
       ram_read (\<lambda>x. case x of NvBlob b \<Rightarrow> if length b \<le> sz then Some b else None | _ \<Rightarrow> None) [] h key,
     nv_set_u8 = \<lambda>h key v. ram_write h key (Some (NvU8 v)),
     nv_set_u32 = \<lambda>h key v. ram_write h key (Some (NvU32 v)),
     nv_set_blob = \<lambda>h key v. ram_write h key (Some (NvBlob v)),
     nv_erase_key = \<lambda>h key. ram_write h key None,
     nv_erase_all = \<lambda>h w. (EspOk, (fst w, (snd w)(ram_ns h := \<lambda>_. None))),
     nv_commit = \<lambda>_ w. (EspOk, w)\<rparr>"

lemma ram_reads_truly:
  "(\<And>x v. f x = Some v \<Longrightarrow> P v x) \<Longrightarrow> reads_truly snd (\<lambda>_. ram_ns) P (ram_read f none)"
  by (auto simp: reads_truly_def ram_read_def split: option.splits)

lemma put_same: "put ns key (c ns key) c = c"
  by (simp add: put_def)

lemma ram_nvs_laws: "nvs_laws ram_nvs snd (\<lambda>_. ram_ns)"
  unfolding nvs_laws_def
proof (intro conjI allI)
  show "reads_truly snd (\<lambda>_. ram_ns) (\<lambda>v x. x = NvBlob v) (\<lambda>h key. nv_get_blob ram_nvs h key sz)" for sz
    unfolding ram_nvs_def nvs.simps by (rule ram_reads_truly) (simp split: nvs_value.splits if_splits)
qed (auto 0 3 simp: ram_nvs_def opens_truly_def writes_u8_def writes_blob_def keeps_contents_def ram_open_def
    ram_ns_def ram_write_def intro!: ram_reads_truly intro: put_same [symmetric] split: nvs_value.splits if_splits)

definition nvs_sample :: "u64 \<Rightarrow> vault_envelope" where
  "nvs_sample g = empty_envelope\<lparr>ve_generation := g, ve_ciphertext := [7, 8]\<rparr>"

lemma sample_valid: "g \<noteq> 0 \<Longrightarrow> nvs_valid_envelope (nvs_sample g)"
  by (simp add: nvs_valid_envelope_def nvs_sample_def empty_envelope_def m5_simps
      is_supported_vault_format_def kMaxPersistedCiphertextBytes_def)

definition sample_bytes :: "u64 \<Rightarrow> bytes" where
  "sample_bytes g = projr (encode_envelope (nvs_sample g))"

lemma encode_sample: "g \<noteq> 0 \<Longrightarrow> encode_envelope (nvs_sample g) = Inr (sample_bytes g)"
  by (simp add: sample_bytes_def encode_envelope_eq sample_valid)

lemma decode_sample: "g \<noteq> 0 \<Longrightarrow> decode_envelope (sample_bytes g) = Inr (nvs_sample g)"
  using encode_sample [of g]
  by (simp add: decode_envelope_iff) (simp add: envelope_wf_def nvs_sample_def empty_envelope_def m5_simps)

lemma sample_bytes_length: "g \<noteq> 0 \<Longrightarrow> length (sample_bytes g) = 70"
  by (simp add: sample_bytes_def encode_envelope_eq sample_valid header_bytes_def le_word_def)
     (simp add: nvs_sample_def empty_envelope_def m5_simps)

definition sample_store :: nvs_contents where
  "sample_store = put kNamespace kSchemaKey (Some (NvU32 kStorageSchemaVersion))
     (put kNamespace kActiveSlotKey (Some (NvU8 1))
       (put kNamespace kSlot1Key (Some (NvBlob (sample_bytes 4))) (\<lambda>_ _. None)))"

lemmas ram_medium = read_active_def read_blob_def ensure_partition_initialized_def open_namespace_def
  ram_nvs_def ram_open_def ram_read_def ram_ns_def sample_store_def put_def nvs_keys decode_sample
  sample_bytes_length map_error_def kStorageSchemaVersion_def kMaxPersistedCiphertextBytes_def m5_simps

text \<open>Power is lost after one write, between staging and the flip: the old Vault is loaded.\<close>

lemma load_sample: "nvs_load ram_nvs (b, put kNamespace kSlot0Key x sample_store) =
   ((Ok, \<lparr>ps_schema_ready = True, ps_has_vault = True, ps_envelope = nvs_sample 4,
      ps_last_used = None\<rparr>), (b, put kNamespace kSlot0Key x sample_store))"
  by (simp add: nvs_load_def load_namespace_def read_last_used_def ram_medium)


lemma interrupted_replacement:
  "nvs_replace_envelope ram_nvs 4 (nvs_sample 5) (1, sample_store) =
   (Io, (0, put kNamespace kSlot0Key (Some (NvBlob (sample_bytes 5))) sample_store))"
  by (simp add: nvs_replace_envelope_def replace_namespace_def stage_candidate_def committed_def
      replace_allowed_def inactive_slot_def slot_key_def ram_write_def encode_sample sample_valid ram_medium)
     (simp add: nvs_sample_def nvs_same_envelope_def)

section \<open>The claim\<close>

text \<open>C4. A power loss during a Vault replacement never loses the Vault. Whatever call of NVS fails
  (or is interrupted) while an envelope is being stored, the next boot that loads successfully finds
  either exactly the Vault that was stored before or exactly the new one, which is the successor of
  the old one (same Vault, next generation); if the replacement was reported as successful it finds
  the new one. The schema, the last-used id and every other namespace are untouched.\<close>

theorem vault_replacement_is_power_loss_safe:
  assumes "nvs_laws n view ns_of"
    and "nvs_replace_envelope n e env w = (s, w')"
    and "view boot = view w'" and "nvs_load n boot = ((Ok, snap), boot')"
  shows "(if ps_has_vault snap
      then Some (ps_envelope snap) = stored_vault (view w) \<or>
        ps_envelope snap = env \<and> follows env (stored_vault (view w))
      else stored_vault (view w) = None) \<and>
    (s = Ok \<longrightarrow> ps_has_vault snap \<and> ps_envelope snap = env \<and> follows env (stored_vault (view w))) \<and>
    (\<forall>ns key. ns \<noteq> kNamespace \<or> key \<notin> {kSlot0Key, kSlot1Key, kActiveSlotKey} \<longrightarrow>
       view w' ns key = view w ns key)"
  using replace_envelope_atomic [OF assms(1,2)] load_truly [OF assms(1,4)] assms(3)
  by (auto simp: atomic_replacement_def split: if_splits)

theorem vault_replacement_is_power_loss_safe_witness:
  "\<exists>w' snap boot'. nvs_replace_envelope ram_nvs 4 (nvs_sample 5) (1, sample_store) = (Io, w') \<and>
     nvs_load ram_nvs w' = ((Ok, snap), boot') \<and> ps_has_vault snap \<and>
     (Some (ps_envelope snap) = stored_vault sample_store \<or>
      ps_envelope snap = nvs_sample 5 \<and> follows (nvs_sample 5) (stored_vault sample_store))"
  using vault_replacement_is_power_loss_safe [OF ram_nvs_laws interrupted_replacement refl load_sample]
    interrupted_replacement load_sample
  by simp

text \<open>Power-up with the device's storage never calls a Vault corrupt on its own account:
  whatever the flash holds and whatever NVS returns, initialising either reports exactly what
  \<open>load\<close> reported or finds Schema 2 without a Vault; a security error therefore always stems from
  the storage, and is reported as such.\<close>

theorem initialize_reports_load:
  assumes "initialize (compatible_persistence n) (r, w) = (status, r', w')"
  shows "(status = fst (fst (compatible_load n w)) \<or>
     status = StUnprovisioned \<and> \<not> ps_has_vault (snd (fst (compatible_load n w)))) \<and>
    (rt_state r' = VaultError \<longrightarrow> status \<notin> {Ok, StUnprovisioned, StReprovisionRequired} \<and>
       status = fst (fst (compatible_load n w)))"
  using compatible_store.initialize_outcome [OF assms] compatible_store.initialize_error [OF assms]
  by (auto simp: compatible_persistence_def)

theorem initialize_reports_load_witness:
  "\<exists>r' w'. initialize (compatible_persistence ram_nvs) (new_runtime, (3, sample_store)) = (Ok, r', w') \<and>
     (Ok = fst (fst (compatible_load ram_nvs (3, sample_store))) \<or>
      Ok = StUnprovisioned \<and> \<not> ps_has_vault (snd (fst (compatible_load ram_nvs (3, sample_store))))) \<and>
     rt_state r' \<noteq> VaultError"
proof -
  have store: "sample_store = put kNamespace kSlot0Key None sample_store"
    by (auto simp: sample_store_def put_def nvs_keys fun_eq_iff)
  have framing: "valid_envelope_framing (nvs_sample 4)"
    using sample_valid by (simp flip: nvs_valid_framing)
  obtain r' w' where run:
    "initialize (compatible_persistence ram_nvs) (new_runtime, (3, sample_store)) = (Ok, r', w')"
    using load_sample [of 3 None] framing
    by (simp add: initialize_def compatible_persistence_def compatible_load_def flip: store)
  then show ?thesis using initialize_reports_load [OF run] by blast
qed

end
