(* ===== verification/Registration.thy ===== *)
theory Registration
  imports Session_Types Nvs_Persistence
begin

text \<open>
  The registration store (\<open>m5auth_registration/registration.cpp\<close>): the stable Device ID and the
  active browser registration, in a namespace of the ordinary NVS partition. NVS is the record
  \<open>nvs\<close> of \<open>Nvs_Persistence\<close>, over another medium; \<open>rng len\<close> is \<open>esp_fill_random\<close> on a buffer of
  \<open>len\<close> bytes, whose draws may depend on and change the medium. A loop that draws until a value
  is nonzero may never end: the operations that contain one return an option, \<open>None\<close> when they do
  not return.
\<close>

section \<open>Data\<close>

datatype reg_status = RegOk | RegNotFound | RegInvalidArgument | RegConflict | RegCorrupt | RegIo

definition kDeviceIdBytes :: nat where "kDeviceIdBytes = 16"

record reg_snapshot =
  sn_device_id :: bytes
  sn_registration_present :: bool
  sn_vault_id :: bytes
  sn_registration_id :: bytes
  sn_epoch :: u32
  sn_brk_public_key :: bytes

definition empty_reg_snapshot :: reg_snapshot where
  "empty_reg_snapshot = \<lparr>sn_device_id = zeros kDeviceIdBytes, sn_registration_present = False,
     sn_vault_id = zeros kVaultIdBytes, sn_registration_id = zeros kRegistrationIdBytes,
     sn_epoch = 0, sn_brk_public_key = zeros kP256PublicKeyBytes\<rparr>"

record reg_store =
  rs_ready :: bool
  rs_recovery_reset_available :: bool
  rs_device_id_recovery_required :: bool
  rs_snapshot :: reg_snapshot

definition new_store :: reg_store where
  "new_store = \<lparr>rs_ready = False, rs_recovery_reset_available = False,
     rs_device_id_recovery_required = False, rs_snapshot = empty_reg_snapshot\<rparr>"

definition kRegNamespace :: string where "kRegNamespace = ''m5auth_reg2''"
definition kDeviceIdKey :: string where "kDeviceIdKey = ''device_id''"
definition kRegistrationKey :: string where "kRegistrationKey = ''active''"

definition kRegistrationMagic :: bytes where
  "kRegistrationMagic = ascii ''M5AREG1'' @ [0]"

definition kEncodedRegistrationBytes :: nat where
  "kEncodedRegistrationBytes =
     length kRegistrationMagic + kVaultIdBytes + kRegistrationIdBytes + 4 + kP256PublicKeyBytes"

definition reg_map_error :: "esp_err \<Rightarrow> reg_status" where
  "reg_map_error error = (case error of
     EspOk \<Rightarrow> RegOk
   | EspNvsNotFound \<Rightarrow> RegNotFound
   | EspNotFound \<Rightarrow> RegNotFound
   | EspInvalidArg \<Rightarrow> RegInvalidArgument
   | _ \<Rightarrow> RegIo)"

definition write_u32 :: "u32 \<Rightarrow> bytes" where
  "write_u32 v = [ucast (drop_bit 24 v), ucast (drop_bit 16 v), ucast (drop_bit 8 v), ucast v]"

definition read_u32_at :: "bytes \<Rightarrow> nat \<Rightarrow> u32" where
  "read_u32_at input offset =
     push_bit 24 (ucast (input ! offset)) OR push_bit 16 (ucast (input ! (offset + 1)))
     OR push_bit 8 (ucast (input ! (offset + 2))) OR ucast (input ! (offset + 3))"

definition reg_status_code :: "reg_status \<Rightarrow> string" where
  "reg_status_code status = (case status of
     RegOk \<Rightarrow> ''ok'' | RegNotFound \<Rightarrow> ''not_found'' | RegInvalidArgument \<Rightarrow> ''invalid_argument''
   | RegConflict \<Rightarrow> ''registration_conflict'' | RegCorrupt \<Rightarrow> ''registration_corrupt''
   | RegIo \<Rightarrow> ''registration_io_error'')"

text \<open>\<open>snprintf("%02x")\<close> of every byte.\<close>

definition hex_digit :: "nat \<Rightarrow> char" where
  "hex_digit n = ''0123456789abcdef'' ! n"

definition device_id_text :: "bytes \<Rightarrow> bytes" where
  "device_id_text device_id =
     ascii (concat (map (\<lambda>b. [hex_digit (unat b div 16), hex_digit (unat b mod 16)]) device_id))"

section \<open>Loading\<close>

partial_function (option) draw_nonzero ::
  "(nat \<Rightarrow> 'n \<Rightarrow> bytes \<times> 'n) \<Rightarrow> nat \<Rightarrow> 'n \<Rightarrow> (bytes \<times> 'n) option" where
  "draw_nonzero rng len w = (case rng len w of (value, w) \<Rightarrow>
     if all_zero value then draw_nonzero rng len w else Some (value, w))"

definition set_device_id :: "bytes \<Rightarrow> reg_store \<Rightarrow> reg_store" where
  "set_device_id device_id s = s\<lparr>rs_snapshot := (rs_snapshot s)\<lparr>sn_device_id := device_id\<rparr>\<rparr>"

definition generate_device_id_candidate ::
  "(nat \<Rightarrow> 'n \<Rightarrow> bytes \<times> 'n) \<Rightarrow> reg_store \<times> 'n \<Rightarrow> (reg_store \<times> 'n) option" where
  "generate_device_id_candidate rng st = (case st of (s, w) \<Rightarrow>
     (case draw_nonzero rng kDeviceIdBytes w of
        None \<Rightarrow> None
      | Some (device_id, w) \<Rightarrow> Some (set_device_id device_id s, w)))"

definition reg_open_namespace :: "'n nvs \<Rightarrow> bool \<Rightarrow> 'n \<Rightarrow> (reg_status \<times> nat) \<times> 'n" where
  "reg_open_namespace n writable w =
     (let ((error, handle), w) = nv_open n kRegNamespace writable w in ((reg_map_error error, handle), w))"

definition load_or_create_device_id ::
  "'n nvs \<Rightarrow> (nat \<Rightarrow> 'n \<Rightarrow> bytes \<times> 'n) \<Rightarrow> reg_store \<times> 'n \<Rightarrow> (reg_status \<times> reg_store \<times> 'n) option" where
  "load_or_create_device_id n rng st = (case st of (s, w) \<Rightarrow>
     let ((status, handle), w) = reg_open_namespace n True w
     in if status \<noteq> RegOk then Some (status, s, w)
        else
          let ((result, size), w) = nv_blob_size n handle kDeviceIdKey w
          in if result = EspOk then
               (if size \<noteq> kDeviceIdBytes then
                  Some (RegCorrupt, set_device_id (zeros kDeviceIdBytes) s, nv_close n handle w)
                else
                  let ((result, device_id), w) = nv_get_blob n handle kDeviceIdKey size w;
                      w = nv_close n handle w
                  in if result \<noteq> EspOk then
                       Some (reg_map_error result, set_device_id (zeros kDeviceIdBytes) s, w)
                     else if length device_id \<noteq> kDeviceIdBytes \<or> all_zero device_id then
                       Some (RegCorrupt, set_device_id (zeros kDeviceIdBytes) s, w)
                     else Some (RegOk, set_device_id device_id s, w))
             else if result \<noteq> EspNvsNotFound then Some (reg_map_error result, s, nv_close n handle w)
             else case generate_device_id_candidate rng (s, w) of
               None \<Rightarrow> None
             | Some (s, w) \<Rightarrow>
                 let (result, w) = committed n handle
                       (nv_set_blob n handle kDeviceIdKey (sn_device_id (rs_snapshot s)) w);
                     w = nv_close n handle w
                 in Some (reg_map_error result,
                      if result \<noteq> EspOk then set_device_id (zeros kDeviceIdBytes) s else s, w))"

text \<open>The registration blob: \<open>None\<close> when it is structurally corrupt. The fields are at fixed
  offsets.\<close>

definition decode_registration :: "(bytes \<Rightarrow> bool) \<Rightarrow> bytes \<Rightarrow> reg_snapshot \<Rightarrow> reg_snapshot option" where
  "decode_registration p256_point encoded snapshot =
     (if take (length kRegistrationMagic) encoded \<noteq> kRegistrationMagic then None
      else
        let offset = length kRegistrationMagic;
            vault_id = take kVaultIdBytes (drop offset encoded);
            offset = offset + kVaultIdBytes;
            registration_id = take kRegistrationIdBytes (drop offset encoded);
            offset = offset + kRegistrationIdBytes;
            epoch = read_u32_at encoded offset;
            offset = offset + 4;
            brk_public_key = take kP256PublicKeyBytes (drop offset encoded)
        in if all_zero vault_id \<or> all_zero registration_id \<or> epoch = 0
              \<or> \<not> valid_p256_public_key p256_point brk_public_key then None
           else Some (snapshot\<lparr>sn_registration_present := True, sn_vault_id := vault_id,
                  sn_registration_id := registration_id, sn_epoch := epoch,
                  sn_brk_public_key := brk_public_key\<rparr>))"

definition load_registration ::
  "'n nvs \<Rightarrow> (bytes \<Rightarrow> bool) \<Rightarrow> reg_store \<times> 'n \<Rightarrow> reg_status \<times> reg_store \<times> 'n" where
  "load_registration n p256_point st = (case st of (s, w) \<Rightarrow>
     let s = s\<lparr>rs_snapshot := empty_reg_snapshot\<lparr>sn_device_id := sn_device_id (rs_snapshot s)\<rparr>\<rparr>;
         ((status, handle), w) = reg_open_namespace n False w
     in if status \<noteq> RegOk then (status, s, w)
        else
          let ((result, size), w) = nv_blob_size n handle kRegistrationKey w
          in if result = EspNvsNotFound then (RegNotFound, s, nv_close n handle w)
             else if result \<noteq> EspOk then (reg_map_error result, s, nv_close n handle w)
             else if size \<noteq> kEncodedRegistrationBytes then (RegCorrupt, s, nv_close n handle w)
             else
               let ((result, encoded), w) = nv_get_blob n handle kRegistrationKey size w;
                   w = nv_close n handle w
               in if result \<noteq> EspOk then (reg_map_error result, s, w)
                  else if length encoded \<noteq> kEncodedRegistrationBytes then (RegCorrupt, s, w)
                  else case decode_registration p256_point encoded (rs_snapshot s) of
                    None \<Rightarrow> (RegCorrupt, s, w)
                  | Some snapshot \<Rightarrow> (RegOk, s\<lparr>rs_snapshot := snapshot\<rparr>, w))"

definition reg_initialize ::
  "'n nvs \<Rightarrow> (bytes \<Rightarrow> bool) \<Rightarrow> (nat \<Rightarrow> 'n \<Rightarrow> bytes \<times> 'n) \<Rightarrow> reg_store \<times> 'n \<Rightarrow>
   (reg_status \<times> reg_store \<times> 'n) option" where
  "reg_initialize n p256_point rng st = (case st of (s, w) \<Rightarrow>
     let s = s\<lparr>rs_ready := False, rs_recovery_reset_available := False,
           rs_device_id_recovery_required := False, rs_snapshot := empty_reg_snapshot\<rparr>;
         (nvs_status, w) = nv_init_partition n w
     in if nvs_status \<noteq> EspOk then Some (reg_map_error nvs_status, s, w)
        else case load_or_create_device_id n rng (s, w) of
          None \<Rightarrow> None
        | Some (status, s, w) \<Rightarrow>
            if status = RegCorrupt then
              (case generate_device_id_candidate rng (s\<lparr>rs_snapshot := empty_reg_snapshot\<rparr>, w) of
                 None \<Rightarrow> None
               | Some (s, w) \<Rightarrow> Some (status, s\<lparr>rs_recovery_reset_available := True,
                                    rs_device_id_recovery_required := True\<rparr>, w))
            else if status \<noteq> RegOk then Some (status, s, w)
            else
              let stable_device_id = sn_device_id (rs_snapshot s);
                  (status, s, w) = load_registration n p256_point (s, w)
              in if status = RegCorrupt then
                   Some (status, s\<lparr>rs_snapshot := empty_reg_snapshot\<lparr>sn_device_id := stable_device_id\<rparr>,
                                   rs_recovery_reset_available := True\<rparr>, w)
                 else if status \<noteq> RegOk \<and> status \<noteq> RegNotFound then
                   Some (status, s\<lparr>rs_snapshot := empty_reg_snapshot\<rparr>, w)
                 else Some (RegOk, s\<lparr>rs_ready := True\<rparr>, w))"

section \<open>Writing\<close>

definition encode_registration :: "bytes \<Rightarrow> bytes \<Rightarrow> u32 \<Rightarrow> bytes \<Rightarrow> bytes" where
  "encode_registration vault_id registration_id epoch brk_public_key =
     kRegistrationMagic @ vault_id @ registration_id @ write_u32 epoch @ brk_public_key"

definition persist_registration ::
  "'n nvs \<Rightarrow> (bytes \<Rightarrow> bool) \<Rightarrow> bytes \<Rightarrow> bytes \<Rightarrow> u32 \<Rightarrow> bytes \<Rightarrow> reg_store \<times> 'n \<Rightarrow>
   reg_status \<times> reg_store \<times> 'n" where
  "persist_registration n p256_point vault_id registration_id epoch brk_public_key st =
     (case st of (s, w) \<Rightarrow>
     if all_zero vault_id \<or> all_zero registration_id \<or> epoch = 0
        \<or> \<not> valid_p256_public_key p256_point brk_public_key then (RegInvalidArgument, s, w)
     else
       let encoded = encode_registration vault_id registration_id epoch brk_public_key;
           ((status, handle), w) = reg_open_namespace n True w
       in if status \<noteq> RegOk then (status, s, w)
          else
            let (result, w) = committed n handle (nv_set_blob n handle kRegistrationKey encoded w);
                w = nv_close n handle w
            in if result \<noteq> EspOk then (reg_map_error result, s, w)
               else (RegOk, s\<lparr>rs_snapshot := (rs_snapshot s)\<lparr>sn_registration_present := True,
                       sn_vault_id := vault_id, sn_registration_id := registration_id,
                       sn_epoch := epoch, sn_brk_public_key := brk_public_key\<rparr>\<rparr>, w))"

definition reg_snapshot_of :: "reg_store \<Rightarrow> reg_status \<times> reg_snapshot option" where
  "reg_snapshot_of s =
     (if \<not> rs_ready s then
        (if rs_recovery_reset_available s then (RegCorrupt, Some (rs_snapshot s)) else (RegIo, None))
      else (RegOk, Some (rs_snapshot s)))"

definition install_initial ::
  "'n nvs \<Rightarrow> (bytes \<Rightarrow> bool) \<Rightarrow> bytes \<Rightarrow> bytes \<Rightarrow> u32 \<Rightarrow> bytes \<Rightarrow> reg_store \<times> 'n \<Rightarrow>
   reg_status \<times> reg_store \<times> 'n" where
  "install_initial n p256_point vault_id registration_id epoch brk_public_key st =
     (case st of (s, w) \<Rightarrow>
     if \<not> rs_ready s then (RegIo, s, w)
     else
       let (refresh, s, w) = load_registration n p256_point (s, w)
       in if refresh \<noteq> RegNotFound then (if refresh = RegOk then RegConflict else refresh, s, w)
          else if epoch \<noteq> 1 then (RegInvalidArgument, s, w)
          else persist_registration n p256_point vault_id registration_id epoch brk_public_key (s, w))"

definition reg_replace ::
  "'n nvs \<Rightarrow> (bytes \<Rightarrow> bool) \<Rightarrow> bytes \<Rightarrow> u32 \<Rightarrow> bytes \<Rightarrow> u32 \<Rightarrow> bytes \<Rightarrow> reg_store \<times> 'n \<Rightarrow>
   reg_status \<times> reg_store \<times> 'n" where
  "reg_replace n p256_point vault_id expected_epoch registration_id new_epoch brk_public_key st =
     (case st of (s, w) \<Rightarrow>
     if \<not> rs_ready s \<or> expected_epoch = 0 \<or> expected_epoch = 0xFFFFFFFF
        \<or> new_epoch \<noteq> expected_epoch + 1 then (RegInvalidArgument, s, w)
     else
       let (refresh, s, w) = load_registration n p256_point (s, w)
       in if refresh \<noteq> RegOk then (refresh, s, w)
          else if \<not> sn_registration_present (rs_snapshot s) \<or> sn_vault_id (rs_snapshot s) \<noteq> vault_id
                \<or> sn_epoch (rs_snapshot s) \<noteq> expected_epoch then (RegConflict, s, w)
          else persist_registration n p256_point vault_id registration_id new_epoch brk_public_key (s, w))"

text \<open>A key that is absent is erased already.\<close>

definition erased_key :: "esp_err \<times> 'n \<Rightarrow> esp_err \<times> 'n" where
  "erased_key rw = (case rw of (result, w) \<Rightarrow>
     (if result = EspNvsNotFound then EspOk else result, w))"

definition clear_registration :: "'n nvs \<Rightarrow> reg_store \<times> 'n \<Rightarrow> reg_status \<times> reg_store \<times> 'n" where
  "clear_registration n st = (case st of (s, w) \<Rightarrow>
     if \<not> rs_ready s then (RegIo, s, w)
     else
       let ((status, handle), w) = reg_open_namespace n True w
       in if status \<noteq> RegOk then (status, s, w)
          else
            let (result, w) = committed n handle
                  (erased_key (nv_erase_key n handle kRegistrationKey w));
                w = nv_close n handle w
            in if result \<noteq> EspOk then (reg_map_error result, s, w)
               else (RegOk, s\<lparr>rs_snapshot := empty_reg_snapshot\<lparr>sn_device_id := sn_device_id (rs_snapshot s)\<rparr>,
                       rs_recovery_reset_available := False, rs_device_id_recovery_required := False\<rparr>, w))"

definition clear_corrupt_registration_for_recovery ::
  "'n nvs \<Rightarrow> reg_store \<times> 'n \<Rightarrow> reg_status \<times> reg_store \<times> 'n" where
  "clear_corrupt_registration_for_recovery n st = (case st of (s, w) \<Rightarrow>
     if rs_ready s then clear_registration n (s, w)
     else if \<not> rs_recovery_reset_available s \<or> all_zero (sn_device_id (rs_snapshot s)) then (RegIo, s, w)
     else
       let recovery_device_id = sn_device_id (rs_snapshot s);
           ((status, handle), w) = reg_open_namespace n True w
       in if status \<noteq> RegOk then (status, s, w)
          else
            let (result, w) =
                  (if rs_device_id_recovery_required s then
                     let (result, w) = nv_erase_all n handle w
                     in if result = EspOk then nv_set_blob n handle kDeviceIdKey recovery_device_id w
                        else (result, w)
                   else erased_key (nv_erase_key n handle kRegistrationKey w));
                (result, w) = committed n handle (result, w);
                w = nv_close n handle w
            in if result \<noteq> EspOk then (reg_map_error result, s, w)
               else (RegOk, s\<lparr>rs_snapshot := empty_reg_snapshot\<lparr>sn_device_id := recovery_device_id\<rparr>,
                       rs_recovery_reset_available := False, rs_device_id_recovery_required := False,
                       rs_ready := True\<rparr>, w))"

definition reinitialize_after_partition_reset ::
  "'n nvs \<Rightarrow> (bytes \<Rightarrow> bool) \<Rightarrow> (nat \<Rightarrow> 'n \<Rightarrow> bytes \<times> 'n) \<Rightarrow> reg_store \<times> 'n \<Rightarrow>
   (reg_status \<times> reg_store \<times> 'n) option" where
  "reinitialize_after_partition_reset n p256_point rng st = (case st of (s, w) \<Rightarrow>
     reg_initialize n p256_point rng (s\<lparr>rs_ready := False, rs_recovery_reset_available := False,
       rs_device_id_recovery_required := False, rs_snapshot := empty_reg_snapshot\<rparr>, w))"

end
