(* ===== verification/Registration_Correct.thy ===== *)
theory Registration_Correct
  imports Registration Nvs_Atomicity
begin

text \<open>
  The registration store is safe: in every reachable state its snapshot is either empty or a
  complete registration, what it persists is what a later boot loads, epochs only advance one by
  one on the same Vault, and the Device ID survives a recovery.
\<close>

section \<open>The encoding of a registration\<close>

lemma length_kRegistrationMagic [simp]: "length kRegistrationMagic = 8"
  by (simp add: kRegistrationMagic_def ascii_def)

lemma length_write_u32 [simp]: "length (write_u32 v) = 4"
  by (simp add: write_u32_def)

lemma read_write_u32: "i = length pre \<Longrightarrow> read_u32_at (pre @ write_u32 v @ rest) i = v"
proof -
  have "push_bit 24 (ucast (ucast (drop_bit 24 v) :: byte)) OR push_bit 16 (ucast (ucast (drop_bit 16 v) :: byte))
      OR push_bit 8 (ucast (ucast (drop_bit 8 v) :: byte)) OR ucast (ucast v :: byte) = (v :: u32)"
  proof (rule bit_word_eqI)
    fix n :: nat assume "n < LENGTH(32)"
    then consider "n < 8" | "8 \<le> n" "n < 16" | "16 \<le> n" "n < 24" | "24 \<le> n" "n < 32"
      by (simp, linarith)
    then show "bit ((push_bit 24 (ucast (ucast (drop_bit 24 v) :: byte)) :: u32) OR
        push_bit 16 (ucast (ucast (drop_bit 16 v) :: byte)) OR
        push_bit 8 (ucast (ucast (drop_bit 8 v) :: byte)) OR ucast (ucast v :: byte)) n = bit v n"
      by cases (auto simp: bit_simps)
  qed
  then show "i = length pre \<Longrightarrow> ?thesis"
    by (simp add: read_u32_at_def write_u32_def nth_append)
qed

definition reg_fields_ok :: "(bytes \<Rightarrow> bool) \<Rightarrow> bytes \<Rightarrow> bytes \<Rightarrow> u32 \<Rightarrow> bytes \<Rightarrow> bool" where
  "reg_fields_ok p256_point vault_id registration_id epoch key \<longleftrightarrow>
     \<not> all_zero vault_id \<and> \<not> all_zero registration_id \<and> epoch \<noteq> 0 \<and> valid_p256_public_key p256_point key"

definition reg_sizes_ok :: "bytes \<Rightarrow> bytes \<Rightarrow> bytes \<Rightarrow> bool" where
  "reg_sizes_ok vault_id registration_id key \<longleftrightarrow> length vault_id = kVaultIdBytes \<and>
     length registration_id = kRegistrationIdBytes \<and> length key = kP256PublicKeyBytes"

lemma length_encode_registration:
  "reg_sizes_ok v r k \<Longrightarrow> length (encode_registration v r e k) = kEncodedRegistrationBytes"
  by (simp add: encode_registration_def reg_sizes_ok_def kEncodedRegistrationBytes_def)

lemma decode_encode_registration:
  assumes "reg_sizes_ok v r k" "reg_fields_ok p v r e k"
  shows "decode_registration p (encode_registration v r e k) sn =
    Some (sn\<lparr>sn_registration_present := True, sn_vault_id := v, sn_registration_id := r,
             sn_epoch := e, sn_brk_public_key := k\<rparr>)"
proof -
  have "read_u32_at (encode_registration v r e k) (8 + kVaultIdBytes + kRegistrationIdBytes) = e"
    unfolding encode_registration_def
    using read_write_u32 [of _ "kRegistrationMagic @ v @ r" e k] assms(1)
    by (simp add: reg_sizes_ok_def add.assoc)
  then show ?thesis
    using assms by (simp add: decode_registration_def reg_fields_ok_def reg_sizes_ok_def Let_def)
      (simp add: encode_registration_def)
qed

section \<open>Invariant\<close>

text \<open>The snapshot is empty, up to the Device ID, or a complete registration.\<close>

definition snapshot_ok :: "(bytes \<Rightarrow> bool) \<Rightarrow> reg_snapshot \<Rightarrow> bool" where
  "snapshot_ok p sn \<longleftrightarrow>
     (if sn_registration_present sn
      then reg_fields_ok p (sn_vault_id sn) (sn_registration_id sn) (sn_epoch sn) (sn_brk_public_key sn)
      else sn = empty_reg_snapshot\<lparr>sn_device_id := sn_device_id sn\<rparr>)"

definition store_inv :: "(bytes \<Rightarrow> bool) \<Rightarrow> reg_store \<Rightarrow> bool" where
  "store_inv p s \<longleftrightarrow> snapshot_ok p (rs_snapshot s) \<and>
     (rs_ready s \<longrightarrow> \<not> rs_recovery_reset_available s) \<and>
     (rs_device_id_recovery_required s \<longrightarrow> rs_recovery_reset_available s) \<and>
     (rs_ready s \<or> rs_recovery_reset_available s \<longrightarrow> \<not> all_zero (sn_device_id (rs_snapshot s)))"

lemma snapshot_ok_empty [simp]: "snapshot_ok p (empty_reg_snapshot\<lparr>sn_device_id := d\<rparr>)"
  "snapshot_ok p empty_reg_snapshot"
  by (simp_all add: snapshot_ok_def empty_reg_snapshot_def)

lemma snapshot_ok_device_id [simp]: "snapshot_ok p (sn\<lparr>sn_device_id := d\<rparr>) = snapshot_ok p sn"
  by (cases sn) (auto simp: snapshot_ok_def empty_reg_snapshot_def)

lemma decode_registration_ok:
  "decode_registration p enc sn = Some sn' \<Longrightarrow> snapshot_ok p sn' \<and> sn_device_id sn' = sn_device_id sn"
  by (auto simp: decode_registration_def Let_def snapshot_ok_def reg_fields_ok_def split: if_splits)

lemma load_registration_keeps:
  assumes "load_registration n p (s, w) = (st, s', w')"
  shows "snapshot_ok p (rs_snapshot s') \<and> sn_device_id (rs_snapshot s') = sn_device_id (rs_snapshot s) \<and>
    rs_ready s' = rs_ready s \<and> rs_recovery_reset_available s' = rs_recovery_reset_available s \<and>
    rs_device_id_recovery_required s' = rs_device_id_recovery_required s"
  using assms
  by (auto simp: load_registration_def Let_def split: prod.splits if_splits option.splits
      dest: decode_registration_ok)

lemma persist_registration_keeps:
  assumes "persist_registration n p v r e k (s, w) = (st, s', w')" "snapshot_ok p (rs_snapshot s)"
  shows "snapshot_ok p (rs_snapshot s') \<and> sn_device_id (rs_snapshot s') = sn_device_id (rs_snapshot s) \<and>
    rs_ready s' = rs_ready s \<and> rs_recovery_reset_available s' = rs_recovery_reset_available s \<and>
    rs_device_id_recovery_required s' = rs_device_id_recovery_required s"
  using assms
  by (auto simp: persist_registration_def Let_def snapshot_ok_def reg_fields_ok_def
      split: prod.splits if_splits)

lemma draw_nonzero_nonzero: "draw_nonzero rng len w = Some (v, w') \<Longrightarrow> \<not> all_zero v"
  by (rule draw_nonzero.raw_induct [where P = "\<lambda>_ _ _ y. \<not> all_zero (fst y)", of _ _ _ "(v, w')", simplified])
    (auto split: prod.splits if_splits)

lemma set_device_id_simps [simp]:
  "set_device_id d (set_device_id d' s) = set_device_id d s"
  "rs_ready (set_device_id d s) = rs_ready s"
  "rs_recovery_reset_available (set_device_id d s) = rs_recovery_reset_available s"
  "rs_device_id_recovery_required (set_device_id d s) = rs_device_id_recovery_required s"
  "rs_snapshot (set_device_id d s) = (rs_snapshot s)\<lparr>sn_device_id := d\<rparr>"
  by (simp_all add: set_device_id_def)

lemma reg_map_error_simps [simp]:
  "reg_map_error e = RegOk \<longleftrightarrow> e = EspOk" "reg_map_error e \<noteq> RegCorrupt" "reg_map_error e \<noteq> RegConflict"
  by (cases e; simp add: reg_map_error_def)+

lemma generate_keeps:
  "generate_device_id_candidate rng (s, w) = Some (s', w') \<Longrightarrow>
   \<exists>d. \<not> all_zero d \<and> s' = set_device_id d s"
  by (auto simp: generate_device_id_candidate_def dest: draw_nonzero_nonzero split: option.splits)

lemma load_or_create_keeps:
  assumes "load_or_create_device_id n rng (s, w) = Some (st, s', w')"
  shows "s' = s \<and> st \<noteq> RegOk \<or> (\<exists>d. s' = set_device_id d s \<and> (st = RegOk \<longrightarrow> \<not> all_zero d))"
  using assms
  by (simp add: load_or_create_device_id_def Let_def split: prod.splits if_splits option.splits)
    (auto dest!: generate_keeps)

lemma reg_initialize_inv:
  assumes "reg_initialize n p rng (s, w) = Some (st, s', w')"
  shows "store_inv p s' \<and> (st = RegOk \<longleftrightarrow> rs_ready s') \<and>
    (st = RegCorrupt \<longleftrightarrow> rs_recovery_reset_available s')"
proof -
  let ?s = "s\<lparr>rs_ready := False, rs_recovery_reset_available := False,
    rs_device_id_recovery_required := False, rs_snapshot := empty_reg_snapshot\<rparr>"
  obtain e w1 where init: "nv_init_partition n w = (e, w1)" by (metis prod.collapse)
  show ?thesis
  proof (cases "e = EspOk")
    case False
    then show ?thesis using assms by (auto simp: reg_initialize_def init store_inv_def Let_def)
  next
    case True
    obtain st1 s1 w2 where dev: "load_or_create_device_id n rng (?s, w1) = Some (st1, s1, w2)"
      using assms True by (auto simp: reg_initialize_def init Let_def split: option.splits)
    obtain st2 s2 w3 where reg: "load_registration n p (s1, w2) = (st2, s2, w3)" by (metis prod_cases3)
    from load_or_create_keeps [OF dev] show ?thesis
      using assms load_registration_keeps [OF reg]
      by (auto simp: reg_initialize_def init True dev reg store_inv_def Let_def
          split: if_splits option.splits dest!: generate_keeps)
  qed
qed

lemma install_initial_inv:
  "store_inv p s \<Longrightarrow> install_initial n p v r e k (s, w) = (st, s', w') \<Longrightarrow> store_inv p s'"
  by (auto simp: install_initial_def Let_def store_inv_def split: prod.splits if_splits
      dest!: load_registration_keeps persist_registration_keeps)

lemma reg_replace_inv:
  "store_inv p s \<Longrightarrow> reg_replace n p v e r e' k (s, w) = (st, s', w') \<Longrightarrow> store_inv p s'"
  by (auto simp: reg_replace_def Let_def store_inv_def split: prod.splits if_splits
      dest!: load_registration_keeps persist_registration_keeps)

lemma clear_registration_inv:
  "store_inv p s \<Longrightarrow> clear_registration n (s, w) = (st, s', w') \<Longrightarrow> store_inv p s'"
  by (auto simp: clear_registration_def Let_def store_inv_def split: prod.splits if_splits)

lemma clear_corrupt_inv:
  "store_inv p s \<Longrightarrow> clear_corrupt_registration_for_recovery n (s, w) = (st, s', w') \<Longrightarrow> store_inv p s'"
  using clear_registration_inv [of p s n w st s' w']
  by (cases "rs_ready s") (auto simp: clear_corrupt_registration_for_recovery_def Let_def store_inv_def
      split: prod.splits if_splits)

datatype reg_call =
    RegInitialize
  | RegInstall bytes bytes u32 bytes
  | RegReplace bytes u32 bytes u32 bytes
  | RegClear
  | RegClearCorrupt
  | RegReinitialize

fun reg_exec ::
  "'n nvs \<Rightarrow> (bytes \<Rightarrow> bool) \<Rightarrow> (nat \<Rightarrow> 'n \<Rightarrow> bytes \<times> 'n) \<Rightarrow> reg_call \<Rightarrow> reg_store \<times> 'n \<Rightarrow>
   (reg_status \<times> reg_store \<times> 'n) option" where
  "reg_exec n p rng RegInitialize st = reg_initialize n p rng st"
| "reg_exec n p rng (RegInstall v r e k) st = Some (install_initial n p v r e k st)"
| "reg_exec n p rng (RegReplace v e r e' k) st = Some (reg_replace n p v e r e' k st)"
| "reg_exec n p rng RegClear st = Some (clear_registration n st)"
| "reg_exec n p rng RegClearCorrupt st = Some (clear_corrupt_registration_for_recovery n st)"
| "reg_exec n p rng RegReinitialize st = reinitialize_after_partition_reset n p rng st"

text \<open>The states that a sequence of returning calls can reach.\<close>

inductive reg_reachable for n :: "'n nvs" and p rng w0 where
  new: "reg_reachable n p rng w0 (new_store, w0)"
| call: "reg_reachable n p rng w0 st \<Longrightarrow> reg_exec n p rng c st = Some (status, st') \<Longrightarrow>
    reg_reachable n p rng w0 st'"

lemma reg_exec_inv:
  assumes "store_inv p s" "reg_exec n p rng c (s, w) = Some (st, s', w')"
  shows "store_inv p s'"
  using assms by (cases c)
    (auto simp: reinitialize_after_partition_reset_def dest: reg_initialize_inv install_initial_inv
      reg_replace_inv clear_registration_inv clear_corrupt_inv)

lemma reg_reachable_inv: "reg_reachable n p rng w0 st \<Longrightarrow> store_inv p (fst st)"
proof (induction rule: reg_reachable.induct)
  case new
  then show ?case by (simp add: store_inv_def new_store_def)
next
  case (call st c status st')
  then show ?case using reg_exec_inv by (cases st; cases st') fastforce
qed

section \<open>Termination of the draws\<close>

text \<open>The state after \<open>k\<close> draws.\<close>

definition after_draws :: "(nat \<Rightarrow> 'n \<Rightarrow> bytes \<times> 'n) \<Rightarrow> nat \<Rightarrow> nat \<Rightarrow> 'n \<Rightarrow> 'n" where
  "after_draws rng len k w = ((\<lambda>w. snd (rng len w)) ^^ k) w"

definition draws_nonzero :: "(nat \<Rightarrow> 'n \<Rightarrow> bytes \<times> 'n) \<Rightarrow> nat \<Rightarrow> 'n \<Rightarrow> bool" where
  "draws_nonzero rng len w \<longleftrightarrow> (\<exists>k. \<not> all_zero (fst (rng len (after_draws rng len k w))))"

lemma draw_nonzero_returns_after:
  "\<not> all_zero (fst (rng len (after_draws rng len k w))) \<Longrightarrow> draw_nonzero rng len w \<noteq> None"
proof (induction k arbitrary: w)
  case 0
  then show ?case by (subst draw_nonzero.simps) (auto simp: after_draws_def split: prod.split)
next
  case (Suc k)
  then show ?case
    by (subst draw_nonzero.simps) (auto simp: after_draws_def funpow_Suc_right simp del: funpow.simps split: prod.split)
qed

lemma draw_nonzero_returns: "draws_nonzero rng len w \<Longrightarrow> draw_nonzero rng len w \<noteq> None"
  by (auto simp: draws_nonzero_def dest: draw_nonzero_returns_after)

lemma generate_returns:
  "(\<And>w. draws_nonzero rng kDeviceIdBytes w) \<Longrightarrow> generate_device_id_candidate rng st \<noteq> None"
  using draw_nonzero_returns [of rng kDeviceIdBytes "snd st"]
  by (auto simp: generate_device_id_candidate_def split: prod.split option.split)

lemma load_or_create_returns:
  assumes "\<And>w. draws_nonzero rng kDeviceIdBytes w"
  shows "load_or_create_device_id n rng st \<noteq> None"
proof -
  have g: "generate_device_id_candidate rng st \<noteq> None" for st
    using generate_returns [of rng] assms by blast
  show ?thesis
    by (auto simp: load_or_create_device_id_def Let_def g split: prod.split option.split)
qed

lemma reg_initialize_returns:
  assumes "\<And>w. draws_nonzero rng kDeviceIdBytes w"
  shows "reg_initialize n p rng st \<noteq> None"
proof -
  have g: "generate_device_id_candidate rng st \<noteq> None" "load_or_create_device_id n rng st \<noteq> None" for st
    using generate_returns [of rng] load_or_create_returns [of rng n] assms by blast+
  show ?thesis
    by (auto simp: reg_initialize_def Let_def g split: prod.split option.split)
qed

section \<open>What the flash holds\<close>

text \<open>The specification of the active registration: what a truthful read of the flash shows.\<close>

definition stored_registration :: "(bytes \<Rightarrow> bool) \<Rightarrow> nvs_contents \<Rightarrow> reg_snapshot option" where
  "stored_registration p c = (case c kRegNamespace kRegistrationKey of
     Some (NvBlob b) \<Rightarrow>
       if length b = kEncodedRegistrationBytes then decode_registration p b empty_reg_snapshot else None
   | _ \<Rightarrow> None)"

lemma decode_registration_device_id:
  "decode_registration p b (sn\<lparr>sn_device_id := d\<rparr>) =
   map_option (\<lambda>sn. sn\<lparr>sn_device_id := d\<rparr>) (decode_registration p b sn)"
  by (simp add: decode_registration_def Let_def)

lemma reg_open_truly:
  assumes "nvs_laws n view ns_of" "reg_open_namespace n m w = ((st, h), w')"
  shows "view w' = view w \<and> (st = RegOk \<longrightarrow> ns_of w' h = kRegNamespace) \<and> st \<noteq> RegCorrupt"
  using assms(2) law_open [OF assms(1)]
  by (auto simp: reg_open_namespace_def Let_def split: prod.splits)

lemma load_registration_truly:
  assumes laws: "nvs_laws n view ns_of" and run: "load_registration n p (s, w) = (st, s', w')"
  shows "view w' = view w \<and>
    (st = RegOk \<longrightarrow> (\<exists>sn. stored_registration p (view w) = Some sn \<and>
       rs_snapshot s' = sn\<lparr>sn_device_id := sn_device_id (rs_snapshot s)\<rparr>)) \<and>
    (st = RegCorrupt \<longrightarrow> stored_registration p (view w) = None)"
proof -
  obtain st1 h w1 where opn: "reg_open_namespace n False w = ((st1, h), w1)" by (metis prod.collapse)
  obtain e2 sz w2 where szq: "nv_blob_size n h kRegistrationKey w1 = ((e2, sz), w2)" by (metis prod.collapse)
  obtain e3 b w3 where get: "nv_get_blob n h kRegistrationKey kEncodedRegistrationBytes w2 = ((e3, b), w3)" by (metis prod.collapse)
  note truly = reg_open_truly [OF laws opn] law_blob_size [OF laws szq] law_get_blob [OF laws get]
  have view: "view w1 = view w" "view w2 = view w" "view w3 = view w" "\<And>h w. view (nv_close n h w) = view w"
    using truly nvs_lawsD(3) [OF laws] by simp_all
  show ?thesis
  proof (cases "st1 = RegOk \<and> e2 = EspOk \<and> sz = kEncodedRegistrationBytes \<and> e3 = EspOk")
    case True
    then have "view w kRegNamespace kRegistrationKey = Some (NvBlob b)" using truly by auto
    then show ?thesis
      using run True view
      by (auto simp: load_registration_def opn szq get Let_def stored_registration_def
          decode_registration_device_id split: if_splits option.splits)
  next
    case False
    have "stored_registration p (view w) = None" if "st1 = RegOk" "e2 = EspOk" "sz \<noteq> kEncodedRegistrationBytes"
      using that truly by (auto simp: stored_registration_def)
    then show ?thesis
      using run False view truly
      by (auto simp: load_registration_def opn szq get Let_def split: if_splits)
  qed
qed

lemma persist_registration_truly:
  assumes laws: "nvs_laws n view ns_of" and run: "persist_registration n p v r e k (s, w) = (RegOk, s', w')"
    and sizes: "reg_sizes_ok v r k"
  shows "stored_registration p (view w') = Some (empty_reg_snapshot\<lparr>sn_registration_present := True,
      sn_vault_id := v, sn_registration_id := r, sn_epoch := e, sn_brk_public_key := k\<rparr>) \<and>
    rs_snapshot s' = (rs_snapshot s)\<lparr>sn_registration_present := True,
      sn_vault_id := v, sn_registration_id := r, sn_epoch := e, sn_brk_public_key := k\<rparr> \<and>
    (\<forall>ns key. ns \<noteq> kRegNamespace \<or> key \<noteq> kRegistrationKey \<longrightarrow> view w' ns key = view w ns key)"
proof -
  have ok: "reg_fields_ok p v r e k"
    using run by (auto simp: persist_registration_def reg_fields_ok_def split: if_splits)
  obtain st1 h w1 where opn: "reg_open_namespace n True w = ((st1, h), w1)" by (metis prod.collapse)
  obtain e2 w2 where set: "committed n h (nv_set_blob n h kRegistrationKey (encode_registration v r e k) w1) = (e2, w2)"
    by (metis prod.collapse)
  have eqs: "st1 = RegOk" "e2 = EspOk" "w' = nv_close n h w2"
    "rs_snapshot s' = (rs_snapshot s)\<lparr>sn_registration_present := True,
      sn_vault_id := v, sn_registration_id := r, sn_epoch := e, sn_brk_public_key := k\<rparr>"
    using run ok by (auto simp: persist_registration_def opn set Let_def reg_fields_ok_def split: if_splits)
  have "view w' = put kRegNamespace kRegistrationKey (Some (NvBlob (encode_registration v r e k))) (view w)"
    using committed_set_blob [OF laws set] reg_open_truly [OF laws opn] nvs_lawsD(3) [OF laws] eqs by auto
  then show ?thesis
    using decode_encode_registration [OF sizes ok] length_encode_registration [OF sizes] eqs
    by (auto simp: stored_registration_def put_def)
qed

section \<open>The Device ID\<close>

text \<open>Erasing touches its own key or namespace only, and leaves the handles alone.\<close>

definition erase_laws :: "'n nvs \<Rightarrow> ('n \<Rightarrow> nvs_contents) \<Rightarrow> ('n \<Rightarrow> nat \<Rightarrow> string) \<Rightarrow> bool" where
  "erase_laws n view ns_of \<longleftrightarrow>
     (\<forall>h key w e w'. nv_erase_key n h key w = (e, w') \<longrightarrow> ns_of w' = ns_of w \<and>
        (\<exists>x. view w' = put (ns_of w h) key x (view w))) \<and>
     (\<forall>h w e w'. nv_erase_all n h w = (e, w') \<longrightarrow> ns_of w' = ns_of w)"

definition random_laws ::
  "(nat \<Rightarrow> 'n \<Rightarrow> bytes \<times> 'n) \<Rightarrow> ('n \<Rightarrow> nvs_contents) \<Rightarrow> ('n \<Rightarrow> nat \<Rightarrow> string) \<Rightarrow> bool" where
  "random_laws rng view ns_of \<longleftrightarrow>
     (\<forall>len w v w'. rng len w = (v, w') \<longrightarrow> view w' = view w \<and> ns_of w' = ns_of w)"

definition stored_device_id :: "nvs_contents \<Rightarrow> bytes \<Rightarrow> bool" where
  "stored_device_id c d \<longleftrightarrow> c kRegNamespace kDeviceIdKey = Some (NvBlob d)"

lemma draw_nonzero_view:
  assumes "random_laws rng view ns_of" "draw_nonzero rng len w = Some (v, w')"
  shows "view w' = view w \<and> ns_of w' = ns_of w"
proof -
  have "random_laws rng view ns_of \<longrightarrow> view (snd (v, w')) = view w \<and> ns_of (snd (v, w')) = ns_of w"
    by (rule draw_nonzero.raw_induct [where P = "\<lambda>r l w y. random_laws r view ns_of \<longrightarrow>
          view (snd y) = view w \<and> ns_of (snd y) = ns_of w", OF _ assms(2)])
      (auto simp: random_laws_def split: prod.splits if_splits)
  then show ?thesis using assms(1) by simp
qed

lemma generate_view:
  assumes "random_laws rng view ns_of" "generate_device_id_candidate rng (s, w) = Some (s', w')"
  shows "view w' = view w \<and> ns_of w' = ns_of w"
  using assms(2) draw_nonzero_view [OF assms(1)]
  by (auto simp: generate_device_id_candidate_def split: option.splits)

text \<open>A successful load shows the stored Device ID; it is created only where there was none.\<close>

lemma load_or_create_truly:
  assumes laws: "nvs_laws n view ns_of" "random_laws rng view ns_of"
    and run: "load_or_create_device_id n rng (s, w) = Some (RegOk, s', w')"
  shows "stored_device_id (view w') (sn_device_id (rs_snapshot s')) \<and>
    (\<forall>d. stored_device_id (view w) d \<longrightarrow> sn_device_id (rs_snapshot s') = d \<and> view w' = view w)"
proof -
  obtain st1 h w1 where opn: "reg_open_namespace n True w = ((st1, h), w1)" by (metis prod.collapse)
  obtain e2 sz w2 where szq: "nv_blob_size n h kDeviceIdKey w1 = ((e2, sz), w2)" by (metis prod.collapse)
  note truly = reg_open_truly [OF laws(1) opn] law_blob_size [OF laws(1) szq]
  have ok: "st1 = RegOk" using run by (auto simp: load_or_create_device_id_def opn Let_def split: if_splits)
  have view: "view w2 = view w" "ns_of w2 h = kRegNamespace" "view w1 = view w"
    "\<And>h w. view (nv_close n h w) = view w"
    using truly ok nvs_lawsD(3) [OF laws(1)] by auto
  show ?thesis
  proof (cases "e2 = EspOk")
    case True
    obtain e3 d w3 where get: "nv_get_blob n h kDeviceIdKey kDeviceIdBytes w2 = ((e3, d), w3)" by (metis prod.collapse)
    have "e3 = EspOk \<and> s' = set_device_id d s \<and> w' = nv_close n h w3"
      using run by (simp add: load_or_create_device_id_def opn szq ok True get Let_def split: if_splits)
    then show ?thesis
      using law_get_blob [OF laws(1) get] view by (auto simp: stored_device_id_def)
  next
    case False
    then obtain s1 w3 where gen: "e2 = EspNvsNotFound" "generate_device_id_candidate rng (s, w2) = Some (s1, w3)"
      using run by (auto simp: load_or_create_device_id_def opn szq ok Let_def split: if_splits option.splits)
    obtain e4 w4 where set:
      "committed n h (nv_set_blob n h kDeviceIdKey (sn_device_id (rs_snapshot s1)) w3) = (e4, w4)"
      by (metis prod.collapse)
    have fin: "e4 = EspOk \<and> s' = s1 \<and> w' = nv_close n h w4"
      using run by (auto simp: load_or_create_device_id_def opn szq ok gen set Let_def split: if_splits)
    have "view w3 = view w" "ns_of w3 h = kRegNamespace" using generate_view [OF laws(2) gen(2)] view by simp_all
    then have "view w' = put kRegNamespace kDeviceIdKey (Some (NvBlob (sn_device_id (rs_snapshot s')))) (view w)"
      using committed_set_blob [OF laws(1) set] fin view by auto
    moreover have "\<not> stored_device_id (view w) d" for d
      using truly gen(1) ok view by (auto simp: stored_device_id_def)
    ultimately show ?thesis by (simp add: stored_device_id_def put_def)
  qed
qed

text \<open>The phases of an initialization that got as far as a Device ID.\<close>

lemma reg_initialize_phases:
  assumes run: "reg_initialize n p rng (s, w) = Some (st, s', w')" and st: "st = RegOk \<or> st = RegCorrupt"
  obtains (device) "st = RegCorrupt" "rs_device_id_recovery_required s'"
  | (registration) w1 s0 s1 w2 st2 s2 where "nv_init_partition n w = (EspOk, w1)"
      "load_or_create_device_id n rng (s0, w1) = Some (RegOk, s1, w2)"
      "load_registration n p (s1, w2) = (st2, s2, w')"
      "sn_device_id (rs_snapshot s') = sn_device_id (rs_snapshot s1)"
      "\<not> rs_device_id_recovery_required s'"
proof -
  let ?s = "s\<lparr>rs_ready := False, rs_recovery_reset_available := False,
    rs_device_id_recovery_required := False, rs_snapshot := empty_reg_snapshot\<rparr>"
  obtain e w1 where init: "nv_init_partition n w = (e, w1)" by (metis prod.collapse)
  have e: "e = EspOk" using assms by (auto simp: reg_initialize_def init Let_def split: if_splits)
  obtain st1 s1 w2 where dev: "load_or_create_device_id n rng (?s, w1) = Some (st1, s1, w2)"
    using assms e by (auto simp: reg_initialize_def init Let_def split: option.splits)
  show thesis
  proof (cases "st1 = RegOk")
    case False
    then have "st1 = RegCorrupt"
      using assms by (auto simp: reg_initialize_def init e dev Let_def split: if_splits)
    then have "st = RegCorrupt \<and> rs_device_id_recovery_required s'"
      using run by (auto simp: reg_initialize_def init e dev Let_def split: option.splits)
    then show thesis using device by blast
  next
    case True
    obtain st2 s2 w3 where reg: "load_registration n p (s1, w2) = (st2, s2, w3)" by (metis prod_cases3)
    have "\<not> rs_device_id_recovery_required s1" using load_or_create_keeps [OF dev] True by auto
    then have "w' = w3" "sn_device_id (rs_snapshot s') = sn_device_id (rs_snapshot s1)"
      "\<not> rs_device_id_recovery_required s'"
      using run st load_registration_keeps [OF reg]
      by (auto simp: reg_initialize_def init e dev True reg Let_def split: if_splits)
    then show thesis using registration init e dev reg True by metis
  qed
qed

lemma clear_corrupt_truly:
  assumes laws: "nvs_laws n view ns_of" "erase_laws n view ns_of"
    and run: "clear_corrupt_registration_for_recovery n (s, w) = (RegOk, s', w')" and "\<not> rs_ready s"
    and known: "\<not> rs_device_id_recovery_required s \<Longrightarrow>
      stored_device_id (view w) (sn_device_id (rs_snapshot s))"
  shows "sn_device_id (rs_snapshot s') = sn_device_id (rs_snapshot s) \<and> rs_ready s' \<and>
    stored_device_id (view w') (sn_device_id (rs_snapshot s))"
proof -
  let ?d = "sn_device_id (rs_snapshot s)"
  obtain st1 h w1 where opn: "reg_open_namespace n True w = ((st1, h), w1)" by (metis prod.collapse)
  have guard: "rs_recovery_reset_available s" "\<not> all_zero ?d" "st1 = RegOk"
    using run assms(4) by (auto simp: clear_corrupt_registration_for_recovery_def opn Let_def split: if_splits)
  have w1: "view w1 = view w" "ns_of w1 h = kRegNamespace" using reg_open_truly [OF laws(1) opn] guard by auto
  define act where "act = (if rs_device_id_recovery_required s then
      let (result, w) = nv_erase_all n h w1
      in if result = EspOk then nv_set_blob n h kDeviceIdKey ?d w else (result, w)
    else erased_key (nv_erase_key n h kRegistrationKey w1))"
  obtain e2 w2 where act: "act = (e2, w2)" by (metis prod.collapse)
  obtain e3 w3 where com: "committed n h (e2, w2) = (e3, w3)" by (metis prod.collapse)
  have fin: "e3 = EspOk" "w' = nv_close n h w3" "sn_device_id (rs_snapshot s') = ?d" "rs_ready s'"
    using run guard assms(4) com
    by (auto simp: clear_corrupt_registration_for_recovery_def opn act_def [symmetric] act Let_def
        split: if_splits)
  have "e2 = EspOk" using com fin by (auto simp: committed_def split: if_splits)
  then have "view w' = view w2"
    using com fin law_commit [OF laws(1), of h w2] nvs_lawsD(3) [OF laws(1)]
    by (auto simp: committed_def)
  moreover have "stored_device_id (view w2) ?d"
  proof (cases "rs_device_id_recovery_required s")
    case True
    obtain e4 w4 where er: "nv_erase_all n h w1 = (e4, w4)" by (metis prod.collapse)
    have "ns_of w4 h = kRegNamespace" using laws(2) er w1 by (simp add: erase_laws_def)
    moreover have "nv_set_blob n h kDeviceIdKey ?d w4 = (EspOk, w2)"
      using act \<open>e2 = EspOk\<close> True er by (auto simp: act_def split: if_splits)
    ultimately show ?thesis
      using law_set_blob [OF laws(1)] by (fastforce simp: stored_device_id_def put_def)
  next
    case False
    obtain e4 w4 where er: "nv_erase_key n h kRegistrationKey w1 = (e4, w4)" by (metis prod.collapse)
    then have "w2 = w4" using act False by (simp add: act_def erased_key_def)
    then show ?thesis
      using laws(2) er w1 known [OF False]
      by (fastforce simp: erase_laws_def stored_device_id_def put_def kDeviceIdKey_def kRegistrationKey_def)
  qed
  ultimately show ?thesis using fin by simp
qed

section \<open>A store in memory\<close>

definition demo_rng :: "nat \<Rightarrow> ram \<Rightarrow> bytes \<times> ram" where
  "demo_rng len w = (replicate len 7, w)"

definition demo_brk :: "byte \<Rightarrow> bytes" where "demo_brk b = 4 # replicate 64 b"

definition demo_curve :: "bytes \<Rightarrow> bool" where "demo_curve key \<longleftrightarrow> True"

definition demo_snapshot :: reg_snapshot where
  "demo_snapshot = empty_reg_snapshot\<lparr>sn_device_id := replicate 16 7\<rparr>"

definition demo_reg :: reg_store where
  "demo_reg = new_store\<lparr>rs_ready := True, rs_snapshot := demo_snapshot\<rparr>"

definition demo_flash :: nvs_contents where
  "demo_flash = put kRegNamespace kDeviceIdKey (Some (NvBlob (replicate 16 7))) (\<lambda>_ _. None)"

lemmas reg_keys = kRegNamespace_def kDeviceIdKey_def kRegistrationKey_def

lemma ram_open_reg: "reg_open_namespace ram_nvs m w = ((RegOk, 2), w)"
  by (simp add: reg_open_namespace_def ram_nvs_def ram_open_def reg_keys nvs_keys reg_map_error_def)

lemma ram_reg_ns: "ram_ns 2 = kRegNamespace"
  by (simp add: ram_ns_def reg_keys)

lemma draw_demo: "draw_nonzero demo_rng 16 w = Some (replicate 16 7, w)"
proof -
  have "\<not> all_zero (replicate 16 (7 :: byte))" by (simp add: all_zero_iff zeros_def)
  then show ?thesis by (subst draw_nonzero.simps) (simp add: demo_rng_def)
qed

lemma demo_reg_boot:
  "reg_initialize ram_nvs demo_curve demo_rng (new_store, (9, \<lambda>_ _. None)) =
   Some (RegOk, demo_reg, (8, demo_flash))"
proof -
  have gen: "generate_device_id_candidate demo_rng (s, w) = Some (set_device_id (replicate 16 7) s, w)" for s w
    by (simp add: generate_device_id_candidate_def kDeviceIdBytes_def draw_demo)
  have flash: "nv_blob_size ram_nvs 2 kDeviceIdKey (9, \<lambda>_ _. None) = ((EspNvsNotFound, 0), (9, \<lambda>_ _. None))"
    "nv_set_blob ram_nvs 2 kDeviceIdKey v (9, \<lambda>_ _. None) =
      (EspOk, (8, put kRegNamespace kDeviceIdKey (Some (NvBlob v)) (\<lambda>_ _. None)))"
    "nv_commit ram_nvs h w = (EspOk, w)" "nv_close ram_nvs h w = w" "nv_init_partition ram_nvs w = (EspOk, w)"
    "nv_blob_size ram_nvs 2 kRegistrationKey (8, demo_flash) = ((EspNvsNotFound, 0), (8, demo_flash))"
    for v h w
    by (simp_all add: ram_nvs_def ram_read_def ram_write_def ram_reg_ns)
      (simp add: demo_flash_def put_def reg_keys)
  have dev: "load_or_create_device_id ram_nvs demo_rng (s, (9, \<lambda>_ _. None)) =
      Some (RegOk, set_device_id (replicate 16 7) s, (8, demo_flash))" for s
    by (simp add: load_or_create_device_id_def ram_open_reg flash gen demo_flash_def committed_def Let_def)
  show ?thesis
    by (simp add: reg_initialize_def dev load_registration_def ram_open_reg flash Let_def)
      (simp add: demo_reg_def new_store_def demo_snapshot_def set_device_id_def)
qed

section \<open>The claims\<close>

text \<open>C34. In every state that a sequence of calls reaches, on any NVS and any random source, the
  store's registration is absent with all fields cleared or complete and valid (nonzero Vault and
  registration ids, nonzero epoch, a key on the curve), recovery is offered only while the store
  is not ready, and a store that is ready or recoverable has a nonzero Device ID.\<close>

theorem registration_store_invariant:
  assumes "reg_reachable n p rng w0 (s, w)"
  shows "(if sn_registration_present (rs_snapshot s)
      then \<not> all_zero (sn_vault_id (rs_snapshot s)) \<and> \<not> all_zero (sn_registration_id (rs_snapshot s)) \<and>
        sn_epoch (rs_snapshot s) \<noteq> 0 \<and> valid_p256_public_key p (sn_brk_public_key (rs_snapshot s))
      else rs_snapshot s = empty_reg_snapshot\<lparr>sn_device_id := sn_device_id (rs_snapshot s)\<rparr>) \<and>
    \<not> (rs_ready s \<and> rs_recovery_reset_available s) \<and>
    (rs_device_id_recovery_required s \<longrightarrow> rs_recovery_reset_available s) \<and>
    (rs_ready s \<or> rs_recovery_reset_available s \<longrightarrow> \<not> all_zero (sn_device_id (rs_snapshot s)))"
  using reg_reachable_inv [OF assms] by (auto simp: store_inv_def snapshot_ok_def reg_fields_ok_def)

theorem registration_store_invariant_witness:
  "rs_ready demo_reg \<and> \<not> rs_recovery_reset_available demo_reg \<and>
   \<not> all_zero (sn_device_id (rs_snapshot demo_reg))"
proof -
  have "reg_reachable ram_nvs demo_curve demo_rng (9, \<lambda>_ _. None) (demo_reg, (8, demo_flash))"
    by (rule reg_reachable.call [OF reg_reachable.new, where c = RegInitialize]) (simp add: demo_reg_boot)
  from registration_store_invariant [OF this] show ?thesis by (auto simp: demo_reg_def)
qed

text \<open>Initialization returns, whatever NVS does, if the random source cannot draw zeros for
  ever; it then reports success exactly when the store is ready and corruption exactly when
  recovery is on offer.\<close>

theorem registration_boot_terminates:
  assumes "\<And>w. draws_nonzero rng kDeviceIdBytes w"
  shows "\<exists>status s' w'. reg_initialize n p rng (s, w) = Some (status, s', w') \<and>
    (status = RegOk \<longleftrightarrow> rs_ready s') \<and> (status = RegCorrupt \<longleftrightarrow> rs_recovery_reset_available s')"
proof -
  obtain status s' w' where "reg_initialize n p rng (s, w) = Some (status, s', w')"
    using reg_initialize_returns [OF assms, where n = n and p = p and st = "(s, w)"] by auto
  with reg_initialize_inv [OF this] show ?thesis by blast
qed

theorem registration_boot_terminates_witness:
  "\<exists>status s' w'. reg_initialize ram_nvs demo_curve demo_rng (new_store, (0, \<lambda>_ _. None)) =
     Some (status, s', w') \<and> (status = RegOk \<longleftrightarrow> rs_ready s') \<and>
     (status = RegCorrupt \<longleftrightarrow> rs_recovery_reset_available s')"
proof (rule registration_boot_terminates)
  show "draws_nonzero demo_rng kDeviceIdBytes w" for w
    by (auto simp: draws_nonzero_def demo_rng_def all_zero_iff zeros_def kDeviceIdBytes_def)
qed

lemma reg_replace_truly:
  assumes laws: "nvs_laws n view ns_of" and sizes: "reg_sizes_ok v r k"
    and run: "reg_replace n p v e r e' k (s, w) = (RegOk, s', w')"
  shows "\<exists>old. stored_registration p (view w) = Some old \<and> sn_vault_id old = v \<and> sn_epoch old = e \<and>
    unat e' = unat e + 1 \<and>
    stored_registration p (view w') = Some (empty_reg_snapshot\<lparr>sn_registration_present := True,
      sn_vault_id := v, sn_registration_id := r, sn_epoch := e', sn_brk_public_key := k\<rparr>)"
proof -
  obtain st1 s1 w1 where load: "load_registration n p (s, w) = (st1, s1, w1)" by (metis prod_cases3)
  have ok: "st1 = RegOk" "sn_vault_id (rs_snapshot s1) = v" "sn_epoch (rs_snapshot s1) = e" "e' = e + 1"
    "e \<noteq> 0xFFFFFFFF" "persist_registration n p v r e' k (s1, w1) = (RegOk, s', w')"
    using run by (auto simp: reg_replace_def load split: if_splits)
  have "unat e < 2 ^ 32 - 1"
    using ok(5) unat_u32_less [of e] by (auto simp: word_unat_eq_iff)
  then have "unat e' = unat e + 1" using ok(4) by (simp add: unat_word_ariths)
  then show ?thesis
    using load_registration_truly [OF laws load] persist_registration_truly [OF laws ok(6) sizes] ok(1-3)
    by auto
qed

text \<open>C10. A browser registration is replaced only by its successor. When \<open>replace\<close> succeeds, the
  flash held a valid registration of the same Vault with exactly the expected epoch, the new one
  has the next epoch (which has not wrapped), and any later boot that reads the registration
  successfully reads the new one: never the old one, never a corrupt one.\<close>

theorem registration_replacement_advances:
  assumes "nvs_laws n view ns_of" "reg_sizes_ok v r k"
    and "reg_replace n p v e r e' k (s, w) = (RegOk, s', w')"
    and "view boot = view w'" "load_registration n p (s0, boot) = (status, s1, boot')"
  shows "(\<exists>old. stored_registration p (view w) = Some old \<and> sn_vault_id old = v \<and> sn_epoch old = e) \<and>
    unat e' = unat e + 1 \<and> status \<noteq> RegCorrupt \<and>
    (status = RegOk \<longrightarrow> sn_registration_present (rs_snapshot s1) \<and> sn_vault_id (rs_snapshot s1) = v \<and>
       sn_registration_id (rs_snapshot s1) = r \<and> sn_epoch (rs_snapshot s1) = e' \<and>
       sn_brk_public_key (rs_snapshot s1) = k)"
  using reg_replace_truly [OF assms(1-3)] load_registration_truly [OF assms(1,5)] assms(4)
  by auto

definition demo_flash_reg :: "u32 \<Rightarrow> byte \<Rightarrow> nvs_contents" where
  "demo_flash_reg e b = put kRegNamespace kRegistrationKey
     (Some (NvBlob (encode_registration (replicate 16 1) (replicate 16 b) e (demo_brk b)))) demo_flash"

lemma demo_reg_blob:
  assumes "b \<noteq> 0" "e \<noteq> 0"
  shows "decode_registration demo_curve (encode_registration (replicate 16 1) (replicate 16 b) e (demo_brk b)) sn =
      Some (sn\<lparr>sn_registration_present := True, sn_vault_id := replicate 16 1,
        sn_registration_id := replicate 16 b, sn_epoch := e, sn_brk_public_key := demo_brk b\<rparr>)"
    "length (encode_registration (replicate 16 1) (replicate 16 b) e (demo_brk b)) = kEncodedRegistrationBytes"
    "reg_fields_ok demo_curve (replicate 16 1) (replicate 16 b) e (demo_brk b)"
    "reg_sizes_ok (replicate 16 1) (replicate 16 b) (demo_brk b)"
proof -
  show sizes: "reg_sizes_ok (replicate 16 1) (replicate 16 b) (demo_brk b)"
    by (simp add: reg_sizes_ok_def demo_brk_def m5_simps)
  show ok: "reg_fields_ok demo_curve (replicate 16 1) (replicate 16 b) e (demo_brk b)"
    using assms by (simp add: reg_fields_ok_def all_zero_iff zeros_def demo_brk_def demo_curve_def
        valid_p256_public_key_def m5_simps)
  show "decode_registration demo_curve (encode_registration (replicate 16 1) (replicate 16 b) e (demo_brk b)) sn =
      Some (sn\<lparr>sn_registration_present := True, sn_vault_id := replicate 16 1,
        sn_registration_id := replicate 16 b, sn_epoch := e, sn_brk_public_key := demo_brk b\<rparr>)"
    by (rule decode_encode_registration [OF sizes ok])
  show "length (encode_registration (replicate 16 1) (replicate 16 b) e (demo_brk b)) = kEncodedRegistrationBytes"
    by (rule length_encode_registration [OF sizes])
qed

lemma ram_load_registration:
  assumes "b \<noteq> 0" "e \<noteq> 0"
  shows "load_registration ram_nvs demo_curve (s, (m, demo_flash_reg e b)) =
    (RegOk, s\<lparr>rs_snapshot := empty_reg_snapshot\<lparr>sn_device_id := sn_device_id (rs_snapshot s),
       sn_registration_present := True, sn_vault_id := replicate 16 1,
       sn_registration_id := replicate 16 b, sn_epoch := e, sn_brk_public_key := demo_brk b\<rparr>\<rparr>,
     (m, demo_flash_reg e b))"
proof -
  have read: "nv_blob_size ram_nvs 2 kRegistrationKey (m, demo_flash_reg e b) =
      ((EspOk, kEncodedRegistrationBytes), (m, demo_flash_reg e b))"
    "nv_get_blob ram_nvs 2 kRegistrationKey kEncodedRegistrationBytes (m, demo_flash_reg e b) =
      ((EspOk, encode_registration (replicate 16 1) (replicate 16 b) e (demo_brk b)), (m, demo_flash_reg e b))"
    "nv_close ram_nvs h w = w" for h w
    using demo_reg_blob(2) [OF assms]
    by (simp_all add: ram_nvs_def ram_read_def ram_reg_ns demo_flash_reg_def put_def)
  show ?thesis
    by (simp add: load_registration_def ram_open_reg read Let_def demo_reg_blob [OF assms])
qed

lemma ram_replace:
  "reg_replace ram_nvs demo_curve (replicate 16 1) 1 (replicate 16 9) 2 (demo_brk 9)
     (demo_reg, (3, demo_flash_reg 1 8)) =
   (RegOk, demo_reg\<lparr>rs_snapshot := demo_snapshot\<lparr>sn_registration_present := True,
       sn_vault_id := replicate 16 1, sn_registration_id := replicate 16 9, sn_epoch := 2,
       sn_brk_public_key := demo_brk 9\<rparr>\<rparr>, (2, demo_flash_reg 2 9))"
proof -
  have wr: "nv_set_blob ram_nvs 2 kRegistrationKey
        (encode_registration (replicate 16 1) (replicate 16 9) 2 (demo_brk 9)) (3, demo_flash_reg 1 8) =
      (EspOk, (2, demo_flash_reg 2 9))"
    "nv_commit ram_nvs h w = (EspOk, w)" "nv_close ram_nvs h w = w" for h w
    by (simp_all add: ram_nvs_def ram_write_def ram_reg_ns demo_flash_reg_def put_def fun_eq_iff)
  show ?thesis
    using demo_reg_blob(3) [of 9 2]
    by (simp add: reg_replace_def ram_load_registration persist_registration_def ram_open_reg wr
        committed_def Let_def reg_fields_ok_def)
      (simp add: demo_reg_def new_store_def demo_snapshot_def)
qed

theorem registration_replacement_advances_witness:
  "sn_epoch (rs_snapshot (fst (snd (load_registration ram_nvs demo_curve (new_store, (0, demo_flash_reg 2 9)))))) = 2 \<and>
   (\<exists>old. stored_registration demo_curve (demo_flash_reg 1 8) = Some old \<and> sn_epoch old = 1)"
  using registration_replacement_advances [where view = snd and p = demo_curve and n = ram_nvs,
      OF ram_nvs_laws demo_reg_blob(4) [of 9 2] ram_replace _ ram_load_registration [of 9 2 new_store 0]]
    ram_load_registration [of 9 2 new_store 0]
  by auto

text \<open>C23. The Device ID survives a recovery. When a boot finds the registration corrupt, it shows a
  Device ID; if recovery is then confirmed and succeeds, the store is ready under that same ID, and
  every later boot that succeeds, after a power loss at any time afterwards, has it too.\<close>

theorem device_id_survives_recovery:
  assumes "nvs_laws n view ns_of" "erase_laws n view ns_of" "random_laws rng view ns_of"
    and "reg_initialize n p rng (s0, w0) = Some (RegCorrupt, s1, w1)"
    and "clear_corrupt_registration_for_recovery n (s1, w1) = (RegOk, s2, w2)"
    and "view boot = view w2" "reg_initialize n p rng (s3, boot) = Some (RegOk, s4, w4)"
  shows "rs_ready s2 \<and> \<not> all_zero (sn_device_id (rs_snapshot s1)) \<and>
    sn_device_id (rs_snapshot s2) = sn_device_id (rs_snapshot s1) \<and>
    sn_device_id (rs_snapshot s4) = sn_device_id (rs_snapshot s1)"
proof -
  have inv1: "store_inv p s1" "rs_recovery_reset_available s1"
    using reg_initialize_inv [OF assms(4)] by simp_all
  then have nz: "\<not> rs_ready s1" "\<not> all_zero (sn_device_id (rs_snapshot s1))"
    by (auto simp: store_inv_def)
  have known: "stored_device_id (view w1) (sn_device_id (rs_snapshot s1))"
    if "\<not> rs_device_id_recovery_required s1"
    using assms(4)
  proof (cases rule: reg_initialize_phases [consumes 1, case_names st device registration])
    case (registration wa sa sb wb st2 s2)
    then show ?thesis
      using load_or_create_truly [OF assms(1,3) registration(2)] load_registration_truly [OF assms(1) registration(3)]
      by simp
  qed (use that in auto)
  have s2: "sn_device_id (rs_snapshot s2) = sn_device_id (rs_snapshot s1)" "rs_ready s2"
    "stored_device_id (view w2) (sn_device_id (rs_snapshot s1))"
    using clear_corrupt_truly [OF assms(1,2,5) nz(1) known] by simp_all
  from assms(7) have "sn_device_id (rs_snapshot s4) = sn_device_id (rs_snapshot s1)"
  proof (cases rule: reg_initialize_phases [consumes 1, case_names st device registration])
    case (registration wa sa sb wb st2 sc)
    have "view wa = view boot" using nvs_lawsD(1) [OF assms(1), of boot] registration(1) by simp
    then have "stored_device_id (view wa) (sn_device_id (rs_snapshot s1))" using s2(3) assms(6) by simp
    then show ?thesis
      using load_or_create_truly [OF assms(1,3) registration(2)] registration(4) by simp
  qed auto
  with s2 nz show ?thesis by simp
qed

text \<open>A corrupt registration blob is found, cleared, and the device boots under its old ID.\<close>

definition demo_corrupt :: nvs_contents where
  "demo_corrupt = put kRegNamespace kRegistrationKey (Some (NvBlob [1])) demo_flash"

lemma demo_laws: "erase_laws ram_nvs snd (\<lambda>_. ram_ns)" "random_laws demo_rng snd (\<lambda>_. ram_ns)"
  by (auto simp: erase_laws_def random_laws_def demo_rng_def ram_nvs_def ram_write_def intro: put_same [symmetric])

lemma ram_load_device:
  assumes "c kRegNamespace kDeviceIdKey = Some (NvBlob (replicate 16 7))"
  shows "load_or_create_device_id ram_nvs demo_rng (s, (m, c)) =
    Some (RegOk, set_device_id (replicate 16 7) s, (m, c))"
proof -
  have rd: "nv_blob_size ram_nvs 2 kDeviceIdKey (m, c) = ((EspOk, 16), (m, c))"
    "nv_get_blob ram_nvs 2 kDeviceIdKey 16 (m, c) = ((EspOk, replicate 16 7), (m, c))"
    "nv_close ram_nvs h w = w" for h w
    using assms by (simp_all add: ram_nvs_def ram_read_def ram_reg_ns)
  have "\<not> all_zero (replicate 16 (7 :: byte))" by (simp add: all_zero_iff zeros_def)
  then show ?thesis
    by (simp add: load_or_create_device_id_def ram_open_reg rd kDeviceIdBytes_def Let_def)
qed

theorem device_id_survives_recovery_witness:
  "\<exists>s1 w1 s2 w2. reg_initialize ram_nvs demo_curve demo_rng (new_store, (9, demo_corrupt)) =
       Some (RegCorrupt, s1, w1) \<and>
     clear_corrupt_registration_for_recovery ram_nvs (s1, w1) = (RegOk, s2, w2) \<and>
     rs_ready s2 \<and> sn_device_id (rs_snapshot s2) = sn_device_id (rs_snapshot s1)"
proof -
  define s1 where "s1 = new_store\<lparr>rs_snapshot := demo_snapshot, rs_recovery_reset_available := True\<rparr>"
  have prim: "nv_init_partition ram_nvs w = (EspOk, w)" "nv_close ram_nvs h w = w" "nv_commit ram_nvs h w = (EspOk, w)"
    "nv_blob_size ram_nvs 2 kRegistrationKey (9, demo_corrupt) = ((EspOk, 1), (9, demo_corrupt))"
    "nv_blob_size ram_nvs 2 kRegistrationKey (8, demo_flash) = ((EspNvsNotFound, 0), (8, demo_flash))"
    "nv_erase_key ram_nvs 2 kRegistrationKey (9, demo_corrupt) = (EspOk, (8, demo_flash))" for w h
    by (simp_all add: ram_nvs_def ram_read_def ram_write_def ram_reg_ns demo_corrupt_def)
      (simp_all add: put_def demo_flash_def reg_keys fun_eq_iff)
  have dev: "demo_corrupt kRegNamespace kDeviceIdKey = Some (NvBlob (replicate 16 7))"
    "demo_flash kRegNamespace kDeviceIdKey = Some (NvBlob (replicate 16 7))"
    by (simp_all add: demo_corrupt_def demo_flash_def put_def reg_keys)
  have boot: "reg_initialize ram_nvs demo_curve demo_rng (new_store, (9, demo_corrupt)) =
      Some (RegCorrupt, s1, (9, demo_corrupt))"
    by (simp add: reg_initialize_def ram_load_device [where c = demo_corrupt, OF dev(1)] load_registration_def ram_open_reg prim Let_def
        kEncodedRegistrationBytes_def)
      (simp add: s1_def new_store_def demo_snapshot_def set_device_id_def)
  have "\<not> all_zero (replicate 16 (7 :: byte))" by (simp add: all_zero_iff zeros_def)
  then have clear: "clear_corrupt_registration_for_recovery ram_nvs (s1, (9, demo_corrupt)) =
      (RegOk, demo_reg, (8, demo_flash))"
    by (simp add: clear_corrupt_registration_for_recovery_def ram_open_reg prim erased_key_def committed_def
        Let_def s1_def new_store_def demo_snapshot_def demo_reg_def)
  have reboot: "reg_initialize ram_nvs demo_curve demo_rng (new_store, (8, demo_flash)) =
      Some (RegOk, demo_reg, (8, demo_flash))"
    by (simp add: reg_initialize_def ram_load_device [where c = demo_flash, OF dev(2)] load_registration_def ram_open_reg prim Let_def)
      (simp add: demo_reg_def new_store_def demo_snapshot_def set_device_id_def)
  show ?thesis
    using device_id_survives_recovery [OF ram_nvs_laws demo_laws boot clear refl reboot] boot clear by blast
qed

end
