(* ===== verification/Session_Binding.thy ===== *)
theory Session_Binding
  imports Attempt_Coordinator Vault_Runtime_Correct Registration_Correct
begin

text \<open>
  What a session may be about: the snapshot of the device that a \<open>session.begin\<close> is compared with
  (\<open>m5auth_provisioning/session_binding_v2.cpp\<close> and \<open>CanonicalBindingSource\<close> of
  \<open>canonical_v2_state.cpp\<close>), the classification of a device that may need a recovery reset
  (\<open>recovery_reset.hpp\<close>) and the one-shot authorization of a factory reset
  (\<open>factory_reset_authorization.hpp\<close>).

  The arrays that \<open>same_bytes\<close> and \<open>same_attempt\<close> compare have the same static size, so the length
  test of \<open>constant_time_equal\<close> never fails on them.
\<close>

section \<open>The snapshot and the binding\<close>

record device_snapshot =
  ds_device_id :: bytes
  ds_vault_present :: bool
  ds_vault_id :: bytes
  ds_generation :: u64
  ds_registration_present :: bool
  ds_registration_id :: bytes
  ds_registration_epoch :: u32
  ds_brk_public_key :: bytes

definition empty_device_snapshot :: device_snapshot where
  "empty_device_snapshot = \<lparr>ds_device_id = [], ds_vault_present = False,
     ds_vault_id = zeros kTranscriptVaultIdBytes, ds_generation = 0, ds_registration_present = False,
     ds_registration_id = zeros kRegistrationIdBytes, ds_registration_epoch = 0,
     ds_brk_public_key = zeros kP256PublicKeyBytes\<rparr>"

definition same_bytes :: "bytes \<Rightarrow> bytes \<Rightarrow> bool" where
  "same_bytes left right = constant_time_equal left right"

definition existing_vault_matches :: "begin_context \<Rightarrow> device_snapshot \<Rightarrow> bool" where
  "existing_vault_matches context snapshot \<longleftrightarrow> ds_vault_present snapshot \<and>
     same_bytes (bc_vault_id context) (ds_vault_id snapshot) \<and>
     bc_expected_generation context = ds_generation snapshot"

definition existing_registration_matches :: "begin_context \<Rightarrow> device_snapshot \<Rightarrow> bool" where
  "existing_registration_matches context snapshot \<longleftrightarrow> ds_registration_present snapshot \<and>
     same_bytes (bc_registration_id context) (ds_registration_id snapshot) \<and>
     bc_registration_epoch context = ds_registration_epoch snapshot"

definition replacement_registration_is_next :: "begin_context \<Rightarrow> device_snapshot \<Rightarrow> bool" where
  "replacement_registration_is_next context snapshot =
     (if \<not> ds_registration_present snapshot \<or> ds_registration_epoch snapshot = 0xFFFFFFFF then False
      else \<not> all_zero (bc_registration_id context) \<and>
        \<not> same_bytes (bc_registration_id context) (ds_registration_id snapshot) \<and>
        bc_registration_epoch context = ds_registration_epoch snapshot + 1)"

definition current_brk_is_device_owned :: "begin_context \<Rightarrow> device_snapshot \<Rightarrow> bool \<Rightarrow> bool" where
  "current_brk_is_device_owned context snapshot optional =
     (if \<not> ds_registration_present snapshot \<or> all_zero (ds_brk_public_key snapshot) then False
      else if all_zero (bc_current_brk_public_key context) then optional
      else same_bytes (bc_current_brk_public_key context) (ds_brk_public_key snapshot))"

definition clean_unprovisioned_snapshot :: "device_snapshot \<Rightarrow> bool" where
  "clean_unprovisioned_snapshot snapshot \<longleftrightarrow> \<not> ds_vault_present snapshot \<and>
     ds_generation snapshot = 0 \<and> all_zero (ds_vault_id snapshot) \<and>
     \<not> ds_registration_present snapshot \<and> ds_registration_epoch snapshot = 0 \<and>
     all_zero (ds_registration_id snapshot) \<and> all_zero (ds_brk_public_key snapshot)"

definition clean_device_recovery_matches :: "begin_context \<Rightarrow> device_snapshot \<Rightarrow> bool" where
  "clean_device_recovery_matches context snapshot \<longleftrightarrow> clean_unprovisioned_snapshot snapshot \<and>
     \<not> all_zero (bc_vault_id context) \<and> bc_expected_generation context > 0 \<and>
     bc_registration_epoch context = 1 \<and> \<not> all_zero (bc_registration_id context) \<and>
     all_zero (bc_current_brk_public_key context) \<and> \<not> all_zero (bc_proposed_brk_public_key context)"

definition session_v2_begin_matches_snapshot :: "begin_context \<Rightarrow> device_snapshot \<Rightarrow> bool" where
  "session_v2_begin_matches_snapshot context snapshot =
     (if ds_device_id snapshot = [] \<or> bc_device_id context \<noteq> ds_device_id snapshot then False
      else let unlocks =
             existing_vault_matches context snapshot \<and>
             existing_registration_matches context snapshot \<and>
             current_brk_is_device_owned context snapshot False \<and>
             all_zero (bc_proposed_brk_public_key context);
           replaces =
             existing_vault_matches context snapshot \<and>
             replacement_registration_is_next context snapshot \<and>
             current_brk_is_device_owned context snapshot True \<and>
             \<not> all_zero (bc_proposed_brk_public_key context) \<and>
             \<not> same_bytes (bc_proposed_brk_public_key context) (ds_brk_public_key snapshot)
      in case bc_operation context of
        InitialProvisioning \<Rightarrow> clean_unprovisioned_snapshot snapshot \<and>
          bc_expected_generation context = 0 \<and> bc_registration_epoch context = 0 \<and>
          \<not> all_zero (bc_registration_id context) \<and> all_zero (bc_current_brk_public_key context) \<and>
          \<not> all_zero (bc_proposed_brk_public_key context)
      | TrustedBrowserUnlock \<Rightarrow> unlocks
      | VmkRekey \<Rightarrow> unlocks
      | Recovery \<Rightarrow> if clean_device_recovery_matches context snapshot then True else replaces
      | BrowserReplacement \<Rightarrow> replaces)"

text \<open>\<open>CanonicalBindingSource::snapshot\<close>.\<close>

definition canonical_snapshot :: "runtime \<Rightarrow> reg_store \<Rightarrow> device_snapshot option" where
  "canonical_snapshot r s =
     (case metadata r of
        Inl _ \<Rightarrow> None
      | Inr runtime_metadata \<Rightarrow>
          (case reg_snapshot_of s of (status, output) \<Rightarrow>
             if status \<noteq> RegOk then None
             else case output of None \<Rightarrow> None
             | Some registration \<Rightarrow>
                 if md_has_vault runtime_metadata \<noteq> sn_registration_present registration then None
                 else if md_has_vault runtime_metadata \<and>
                   md_vault_id runtime_metadata \<noteq> sn_vault_id registration then None
                 else
                   let result = empty_device_snapshot\<lparr>ds_device_id := device_id_text (sn_device_id registration)\<rparr>
                   in if ds_device_id result = [] then None
                      else
                        let result = result\<lparr>ds_vault_present := md_has_vault runtime_metadata\<rparr>;
                            result = (if md_has_vault runtime_metadata
                              then result\<lparr>ds_vault_id := md_vault_id runtime_metadata,
                                          ds_generation := md_generation runtime_metadata\<rparr> else result);
                            result = result\<lparr>ds_registration_present := sn_registration_present registration\<rparr>;
                            result = (if sn_registration_present registration
                              then result\<lparr>ds_registration_id := sn_registration_id registration,
                                          ds_registration_epoch := sn_epoch registration,
                                          ds_brk_public_key := sn_brk_public_key registration\<rparr> else result)
                        in Some result))"

section \<open>Recovery reset\<close>

datatype recovery_reset_decision = NotRequired | Required | Unavailable

definition classify_recovery_reset ::
  "vault_metadata \<Rightarrow> reg_status \<Rightarrow> reg_snapshot \<Rightarrow> bool \<Rightarrow> recovery_reset_decision" where
  "classify_recovery_reset m registration_status registration corrupt_registration_recovery_available =
     (if md_state m = VaultError \<or> md_state m = ReprovisionRequired then
        (if \<not> md_recovery_reset_allowed m then Unavailable
         else if registration_status = RegIo then Unavailable
         else if registration_status = RegCorrupt \<and> \<not> corrupt_registration_recovery_available
           then Unavailable
         else Required)
      else if registration_status = RegCorrupt then
        (if corrupt_registration_recovery_available then Required else Unavailable)
      else if registration_status \<noteq> RegOk then Unavailable
      else if md_has_vault m \<noteq> sn_registration_present registration then Required
      else if md_has_vault m \<and> md_vault_id m \<noteq> sn_vault_id registration then Required
      else NotRequired)"

section \<open>The authorization of a factory reset\<close>

datatype reset_check = CheckOk | CheckInactive | CheckMismatch | CheckExpired

record reset_authorization =
  fa_attempt_id :: bytes
  fa_deadline_ms :: u64
  fa_active :: bool

definition reset_idle :: reset_authorization where
  "reset_idle = \<lparr>fa_attempt_id = zeros kAttemptIdBytes, fa_deadline_ms = 0, fa_active = False\<rparr>"

definition reset_begin :: "bytes \<Rightarrow> u64 \<Rightarrow> reset_authorization \<Rightarrow> reset_authorization" where
  "reset_begin attempt_id now_ms a =
     a\<lparr>fa_attempt_id := attempt_id,
       fa_deadline_ms := (if now_ms > max_u64 - kAttemptTtlMs then max_u64 else now_ms + kAttemptTtlMs),
       fa_active := True\<rparr>"

definition reset_check_of :: "bytes \<Rightarrow> u64 \<Rightarrow> reset_authorization \<Rightarrow> reset_check" where
  "reset_check_of attempt_id now_ms a =
     (if \<not> fa_active a then CheckInactive
      else if \<not> constant_time_equal attempt_id (fa_attempt_id a) then CheckMismatch
      else if now_ms \<ge> fa_deadline_ms a then CheckExpired else CheckOk)"

definition reset_expired :: "u64 \<Rightarrow> reset_authorization \<Rightarrow> bool" where
  "reset_expired now_ms a \<longleftrightarrow> fa_active a \<and> now_ms \<ge> fa_deadline_ms a"

definition reset_cancel :: "reset_authorization \<Rightarrow> reset_authorization" where
  "reset_cancel a = a\<lparr>fa_attempt_id := zeros kAttemptIdBytes, fa_deadline_ms := 0, fa_active := False\<rparr>"

definition reset_consume :: "reset_authorization \<Rightarrow> reset_authorization" where
  "reset_consume a = reset_cancel a"

text \<open>The polling idiom around \<open>expired\<close> makes it one more thing with a deadline.\<close>

interpretation reset_ttl: expiring fa_active fa_deadline_ms reset_cancel
  "\<lambda>now a. if reset_expired now a then (True, reset_cancel a) else (False, a)"
  by unfold_locales (auto simp: reset_expired_def reset_cancel_def)

lemma reset_check_Ok:
  "reset_check_of attempt now a = CheckOk \<longleftrightarrow>
     fa_active a \<and> attempt = fa_attempt_id a \<and> now < fa_deadline_ms a"
  by (auto simp: reset_check_of_def)

lemma reset_check_begin:
  "reset_check_of attempt now (reset_begin b t a) = CheckOk \<longleftrightarrow>
     attempt = b \<and> unat now < min (2 ^ 64 - 1) (unat t + 30000)"
  using unat_saturating_deadline [of kAttemptTtlMs t]
  by (auto simp: reset_check_Ok reset_begin_def saturating_deadline_def word_less_nat_alt kAttemptTtlMs_def
      split: if_splits)

text \<open>\<open>CanonicalProtocolV2Handler::recovery_reset_decision\<close>: the snapshot argument keeps its default
  value when the store has none to give.\<close>

definition recovery_decision :: "runtime \<Rightarrow> reg_store \<Rightarrow> recovery_reset_decision" where
  "recovery_decision r s =
     (case metadata r of
        Inl _ \<Rightarrow> Unavailable
      | Inr m \<Rightarrow> (case reg_snapshot_of s of (status, output) \<Rightarrow>
          classify_recovery_reset m status
            (case output of None \<Rightarrow> empty_reg_snapshot | Some sn \<Rightarrow> sn) (rs_recovery_reset_available s)))"

section \<open>What the classification and the binding guarantee\<close>

lemma device_id_text_Nil [simp]: "device_id_text d = [] \<longleftrightarrow> d = []"
  by (cases d) (auto simp: device_id_text_def ascii_def)

lemma canonical_snapshot_eq:
  assumes "store_inv p s"
  shows "canonical_snapshot r s = (if rt_initialized r \<and> rs_ready s \<and>
      rt_has_vault r = sn_registration_present (rs_snapshot s) \<and>
      (rt_has_vault r \<longrightarrow> ve_vault_id (rt_envelope r) = sn_vault_id (rs_snapshot s))
    then Some \<lparr>ds_device_id = device_id_text (sn_device_id (rs_snapshot s)),
      ds_vault_present = rt_has_vault r,
      ds_vault_id = (if rt_has_vault r then ve_vault_id (rt_envelope r) else zeros kTranscriptVaultIdBytes),
      ds_generation = (if rt_has_vault r then ve_generation (rt_envelope r) else 0),
      ds_registration_present = rt_has_vault r,
      ds_registration_id = (if rt_has_vault r then sn_registration_id (rs_snapshot s)
        else zeros kRegistrationIdBytes),
      ds_registration_epoch = (if rt_has_vault r then sn_epoch (rs_snapshot s) else 0),
      ds_brk_public_key = (if rt_has_vault r then sn_brk_public_key (rs_snapshot s)
        else zeros kP256PublicKeyBytes)\<rparr>
    else None)"
proof -
  have "rs_ready s \<Longrightarrow> sn_device_id (rs_snapshot s) \<noteq> []"
    using assms by (auto simp: store_inv_def)
  then show ?thesis
    by (simp add: canonical_snapshot_def metadata_def reg_snapshot_of_def empty_device_snapshot_def Let_def)
qed

lemma recovery_decision_cases:
  assumes "store_inv p s"
  shows "recovery_decision r s = NotRequired \<longleftrightarrow>
      canonical_snapshot r s \<noteq> None \<and> rt_state r \<notin> {VaultError, ReprovisionRequired}"
    and "recovery_decision r s = Required \<Longrightarrow> rt_initialized r \<and>
      (rs_ready s \<or> rs_recovery_reset_available s) \<and>
      (rt_state r \<in> {VaultError, ReprovisionRequired} \<longrightarrow> rt_recovery_reset_allowed r)"
  using assms
  by (auto simp: recovery_decision_def classify_recovery_reset_def metadata_def reg_snapshot_of_def
      canonical_snapshot_eq [OF assms] store_inv_def split: if_splits)

text \<open>What each operation may be asked for, in terms of the runtime and the store.\<close>

definition binds_existing :: "runtime \<Rightarrow> begin_context \<Rightarrow> bool" where
  "binds_existing r c \<longleftrightarrow> rt_has_vault r \<and> bc_vault_id c = ve_vault_id (rt_envelope r) \<and>
     bc_expected_generation c = ve_generation (rt_envelope r)"

definition binds_successor :: "runtime \<Rightarrow> reg_snapshot \<Rightarrow> begin_context \<Rightarrow> bool" where
  "binds_successor r sn c \<longleftrightarrow> binds_existing r c \<and>
     unat (bc_registration_epoch c) = unat (sn_epoch sn) + 1 \<and>
     bc_registration_id c \<noteq> sn_registration_id sn \<and>
     (all_zero (bc_current_brk_public_key c) \<or> bc_current_brk_public_key c = sn_brk_public_key sn) \<and>
     \<not> all_zero (bc_proposed_brk_public_key c) \<and> bc_proposed_brk_public_key c \<noteq> sn_brk_public_key sn"

definition binds_same :: "runtime \<Rightarrow> reg_snapshot \<Rightarrow> begin_context \<Rightarrow> bool" where
  "binds_same r sn c \<longleftrightarrow> binds_existing r c \<and> bc_registration_id c = sn_registration_id sn \<and>
     bc_registration_epoch c = sn_epoch sn \<and> bc_current_brk_public_key c = sn_brk_public_key sn \<and>
     all_zero (bc_proposed_brk_public_key c)"

fun binds :: "runtime \<Rightarrow> reg_snapshot \<Rightarrow> begin_context \<Rightarrow> operation \<Rightarrow> bool" where
  "binds r sn c TrustedBrowserUnlock = binds_same r sn c"
| "binds r sn c VmkRekey = binds_same r sn c"
| "binds r sn c BrowserReplacement = binds_successor r sn c"
| "binds r sn c Recovery = (binds_successor r sn c \<or> \<not> rt_has_vault r \<and> bc_registration_epoch c = 1 \<and>
     bc_expected_generation c \<noteq> 0 \<and> all_zero (bc_current_brk_public_key c))"
| "binds r sn c InitialProvisioning = (\<not> rt_has_vault r \<and> bc_registration_epoch c = 0 \<and>
     bc_expected_generation c = 0 \<and> all_zero (bc_current_brk_public_key c))"

lemma unat_u32_Suc: "(x :: u32) \<noteq> 0xFFFFFFFF \<Longrightarrow> unat (x + 1) = unat x + 1"
proof -
  assume "x \<noteq> 0xFFFFFFFF"
  then have "unat x < 2 ^ 32 - 1" using unat_u32_less [of x] by (auto simp: word_unat_eq_iff)
  then show ?thesis by (simp add: unat_word_ariths)
qed

lemma begin_matches_binds:
  assumes inv: "store_inv p s" and snap: "canonical_snapshot r s = Some d"
    and match: "session_v2_begin_matches_snapshot c d"
  shows "bc_device_id c = device_id_text (sn_device_id (rs_snapshot s)) \<and>
    binds r (rs_snapshot s) c (bc_operation c)"
proof -
  define sn where "sn = rs_snapshot s"
  have key: "rt_has_vault r \<Longrightarrow> sn_registration_present sn"
    using snap by (auto simp: canonical_snapshot_eq [OF inv] sn_def split: if_splits)
  show ?thesis
    using snap match
    by (cases "bc_operation c"; cases "rt_has_vault r")
      (auto simp: canonical_snapshot_eq [OF inv] session_v2_begin_matches_snapshot_def Let_def same_bytes_def
        existing_vault_matches_def existing_registration_matches_def replacement_registration_is_next_def
        current_brk_is_device_owned_def clean_unprovisioned_snapshot_def clean_device_recovery_matches_def
        binds_same_def binds_successor_def binds_existing_def unat_u32_Suc split: if_splits)
qed

text \<open>C12. A session is about this device as it is. When \<open>session.begin\<close> accepts a context, it names
  this device; an unlock or re-key names exactly the resident Vault and generation and exactly the
  active registration and its key; a replacement names the resident Vault and generation and the
  registration's successor (epoch plus one without wrapping, another id, another key); initial
  provisioning and recovery onto a clean device are accepted only where there is no Vault.\<close>

theorem session_binding_exact:
  assumes "reg_reachable n p rng w0 (s, w)" "canonical_snapshot r s = Some d"
    and "session_v2_begin_matches_snapshot c d"
  shows "bc_device_id c = device_id_text (sn_device_id (rs_snapshot s)) \<and>
    binds r (rs_snapshot s) c (bc_operation c)"
  using begin_matches_binds [OF _ assms(2,3)] reg_reachable_inv [OF assms(1)] by simp

definition demo_context :: begin_context where
  "demo_context = \<lparr>bc_operation = InitialProvisioning, bc_device_id = device_id_text (replicate 16 7),
     bc_vault_id = replicate 16 1, bc_expected_generation = 0, bc_registration_id = replicate 16 8,
     bc_registration_epoch = 0, bc_current_brk_public_key = zeros 65,
     bc_proposed_brk_public_key = demo_brk 8\<rparr>"

lemma demo_reg_reachable: "reg_reachable ram_nvs demo_curve demo_rng (9, \<lambda>_ _. None) (demo_reg, (8, demo_flash))"
  by (rule reg_reachable.call [OF reg_reachable.new, where c = RegInitialize]) (simp add: demo_reg_boot)

lemma demo_canonical_snapshot:
  "canonical_snapshot (new_runtime\<lparr>rt_initialized := True\<rparr>) demo_reg =
   Some (empty_device_snapshot\<lparr>ds_device_id := device_id_text (replicate 16 7)\<rparr>)"
proof -
  have inv: "store_inv demo_curve demo_reg" using reg_reachable_inv [OF demo_reg_reachable] by simp
  show ?thesis
    by (subst canonical_snapshot_eq [OF inv])
      (simp add: new_runtime_def demo_reg_def demo_snapshot_def empty_reg_snapshot_def empty_device_snapshot_def)
qed

lemma demo_brk_nonzero [simp]: "\<not> all_zero (demo_brk b)"
  by (simp add: demo_brk_def all_zero_def)

theorem session_binding_exact_witness:
  "bc_device_id demo_context = device_id_text (sn_device_id (rs_snapshot demo_reg)) \<and>
   binds (new_runtime\<lparr>rt_initialized := True\<rparr>) (rs_snapshot demo_reg) demo_context InitialProvisioning"
proof -
  have "session_v2_begin_matches_snapshot demo_context
      (empty_device_snapshot\<lparr>ds_device_id := device_id_text (replicate 16 7)\<rparr>)"
    by (simp add: demo_context_def session_v2_begin_matches_snapshot_def empty_device_snapshot_def Let_def
        clean_unprovisioned_snapshot_def all_zero_iff [of "replicate 16 8"])
      (simp add: zeros_def)
  from session_binding_exact [OF demo_reg_reachable demo_canonical_snapshot this]
  show ?thesis by (simp add: demo_context_def)
qed

text \<open>The destructive recovery reset is offered only for what it can repair. The device is
  healthy exactly when the runtime is not in an error or reprovisioning state and a session can be
  bound; a reset is required only when the runtime was initialized, the registration store is
  readable or its own corruption is recoverable (an I/O failure of either offers nothing), and an
  error state of the runtime is one that it classified as structural.\<close>

theorem recovery_reset_classification:
  assumes "reg_reachable n p rng w0 (s, w)"
  shows "(recovery_decision r s = NotRequired \<longleftrightarrow>
      canonical_snapshot r s \<noteq> None \<and> rt_state r \<notin> {VaultError, ReprovisionRequired}) \<and>
    (recovery_decision r s = Required \<longrightarrow> rt_initialized r \<and>
      (rs_ready s \<or> rs_recovery_reset_available s) \<and>
      (rt_state r \<in> {VaultError, ReprovisionRequired} \<longrightarrow> rt_recovery_reset_allowed r))"
  using recovery_decision_cases [of p s r] reg_reachable_inv [OF assms] by auto

theorem recovery_reset_classification_witness:
  "recovery_decision (new_runtime\<lparr>rt_initialized := True\<rparr>) demo_reg = NotRequired"
proof -
  have "canonical_snapshot (new_runtime\<lparr>rt_initialized := True\<rparr>) demo_reg \<noteq> None \<and>
      rt_state (new_runtime\<lparr>rt_initialized := True\<rparr>) \<notin> {VaultError, ReprovisionRequired}"
    unfolding demo_canonical_snapshot by (simp add: new_runtime_def)
  with recovery_reset_classification [OF demo_reg_reachable] show ?thesis by blast
qed

end
