(* ===== verification/Vmk_Sink.thy ===== *)
theory Vmk_Sink
  imports Session_Binding
begin

text \<open>
  What happens to a delivered Vault key (class \<open>CanonicalVmkSink\<close> of
  \<open>m5auth_provisioning/canonical_v2_state.cpp\<close>): it unlocks the Vault, or unlocks it and replaces
  the browser registration, or waits at most thirty seconds for the Vault that it belongs to. The
  class holds references to the runtime and the registration store; the record \<open>device\<close> is the
  state of all three with their two media. Its mutex makes every method atomic.

  \<open>timer_us\<close> is the reading of \<open>esp_timer_get_time\<close>.
\<close>

record vmk_sink =
  sk_pending_vmk :: bytes
  sk_pending_context :: begin_context
  sk_pending :: bool
  sk_deadline_armed :: bool
  sk_pending_expires_at_ms :: u64

record ('w, 'n) device =
  dv_runtime :: runtime
  dv_medium :: 'w
  dv_store :: reg_store
  dv_reg_medium :: 'n
  dv_sink :: vmk_sink

record ('w, 'n) device_env =
  en_persistence :: "'w persistence"
  en_gcm :: gcm
  en_nvs :: "'n nvs"
  en_p256_point :: "bytes \<Rightarrow> bool"

definition kPendingVaultVmkTtlMs :: u64 where "kPendingVaultVmkTtlMs = 30000"

definition runtime_monotonic_ms :: "int \<Rightarrow> u64" where
  "runtime_monotonic_ms timer_us = (if timer_us \<le> 0 then 0 else word_of_int (timer_us div 1000))"

definition wipe_context :: "begin_context \<Rightarrow> begin_context" where
  "wipe_context c = c\<lparr>bc_device_id := [], bc_vault_id := wipe (bc_vault_id c),
     bc_expected_generation := 0, bc_registration_id := wipe (bc_registration_id c),
     bc_registration_epoch := 0, bc_current_brk_public_key := wipe (bc_current_brk_public_key c),
     bc_proposed_brk_public_key := wipe (bc_proposed_brk_public_key c),
     bc_operation := TrustedBrowserUnlock\<rparr>"

definition envelope_matches_pending :: "vault_envelope \<Rightarrow> begin_context \<Rightarrow> u64 \<Rightarrow> bool" where
  "envelope_matches_pending envelope context generation \<longleftrightarrow>
     is_supported_vault_format (ve_vault_format_version envelope) \<and>
     ve_storage_schema_version envelope = kTargetStorageSchemaVersion \<and>
     ve_vault_id envelope = bc_vault_id context \<and> ve_generation envelope = generation \<and>
     ve_ciphertext envelope \<noteq> []"

section \<open>Calls on the parts\<close>

text \<open>A call on the runtime or the store, lifted to the device.\<close>

definition on_runtime ::
  "(runtime \<times> 'w \<Rightarrow> status \<times> runtime \<times> 'w) \<Rightarrow> ('w, 'n) device \<Rightarrow> status \<times> ('w, 'n) device" where
  "on_runtime f d = (case f (dv_runtime d, dv_medium d) of (status, r, w) \<Rightarrow>
     (status, d\<lparr>dv_runtime := r, dv_medium := w\<rparr>))"

definition on_memory ::
  "(runtime \<Rightarrow> status \<times> runtime) \<Rightarrow> ('w, 'n) device \<Rightarrow> status \<times> ('w, 'n) device" where
  "on_memory f d = (case f (dv_runtime d) of (status, r) \<Rightarrow> (status, d\<lparr>dv_runtime := r\<rparr>))"

definition on_store ::
  "(reg_store \<times> 'n \<Rightarrow> reg_status \<times> reg_store \<times> 'n) \<Rightarrow> ('w, 'n) device \<Rightarrow>
   reg_status \<times> ('w, 'n) device" where
  "on_store f d = (case f (dv_store d, dv_reg_medium d) of (status, s, w) \<Rightarrow>
     (status, d\<lparr>dv_store := s, dv_reg_medium := w\<rparr>))"

section \<open>The pending key\<close>

definition sink_cancel :: "vmk_sink \<Rightarrow> vmk_sink" where
  "sink_cancel k = k\<lparr>sk_pending_vmk := wipe (sk_pending_vmk k),
     sk_pending_context := wipe_context (sk_pending_context k), sk_pending := False,
     sk_deadline_armed := False, sk_pending_expires_at_ms := 0\<rparr>"

definition cancel_pending :: "('w, 'n) device \<Rightarrow> ('w, 'n) device" where
  "cancel_pending d = d\<lparr>dv_sink := sink_cancel (dv_sink d)\<rparr>"

definition sink_hold :: "begin_context \<Rightarrow> bytes \<Rightarrow> vmk_sink \<Rightarrow> vmk_sink" where
  "sink_hold context vmk k = k\<lparr>sk_pending_vmk := vmk, sk_pending_context := context,
     sk_pending := True, sk_deadline_armed := False, sk_pending_expires_at_ms := 0\<rparr>"

definition arm_pending_deadline :: "u64 \<Rightarrow> vmk_sink \<Rightarrow> vmk_sink" where
  "arm_pending_deadline now_ms k =
     (if \<not> sk_pending k then k
      else k\<lparr>sk_deadline_armed := True,
             sk_pending_expires_at_ms := (if now_ms > max_u64 - kPendingVaultVmkTtlMs then max_u64
                                          else now_ms + kPendingVaultVmkTtlMs)\<rparr>)"

definition expire_pending :: "u64 \<Rightarrow> vmk_sink \<Rightarrow> bool \<times> vmk_sink" where
  "expire_pending now_ms k =
     (if \<not> sk_pending k \<or> \<not> sk_deadline_armed k \<or> now_ms < sk_pending_expires_at_ms k
      then (False, k) else (True, sink_cancel k))"

definition pending_valid :: "operation \<Rightarrow> u64 \<Rightarrow> vmk_sink \<Rightarrow> bool \<times> vmk_sink" where
  "pending_valid operation now_ms k =
     (let (_, k) = expire_pending now_ms k
      in (sk_pending k \<and> sk_deadline_armed k \<and> bc_operation (sk_pending_context k) = operation, k))"

section \<open>Preparing an attempt\<close>

definition prepare_attempt :: "operation \<Rightarrow> ('w, 'n) device \<Rightarrow> bool \<times> ('w, 'n) device" where
  "prepare_attempt operation d =
     (let d = cancel_pending d
      in case metadata (dv_runtime d) of
        Inl _ \<Rightarrow> (False, d)
      | Inr m \<Rightarrow>
          (let unprovisioned = (md_state m = Unprovisioned \<or> md_state m = ReprovisionRequired);
               boundary = (let (status, d) = on_memory enter_registration_replacement_boundary d
                           in (status = Ok, d))
           in case operation of
             InitialProvisioning \<Rightarrow> (\<not> md_has_vault m \<and> unprovisioned, d)
           | TrustedBrowserUnlock \<Rightarrow> (md_has_vault m \<and> md_state m = Locked, d)
           | Recovery \<Rightarrow> if \<not> md_has_vault m then (unprovisioned, d) else boundary
           | BrowserReplacement \<Rightarrow> if md_has_vault m then boundary else (False, d)
           | VmkRekey \<Rightarrow>
               if \<not> md_has_vault m \<or> \<not> unlocked (dv_runtime d) then (False, d)
               else let (status, d) = on_memory enter_vmk_rekey_boundary d in (status = Ok, d)))"

section \<open>Installing a delivered key\<close>

text \<open>Unlock, then replace the registration; when the latter fails, lock again. The code has this
  twice, for a recovery of this device and for the replacement of its browser.\<close>

definition unlock_and_replace ::
  "('w, 'n) device_env \<Rightarrow> begin_context \<Rightarrow> bytes \<Rightarrow> u64 \<Rightarrow> ('w, 'n) device \<Rightarrow> bool \<times> ('w, 'n) device" where
  "unlock_and_replace env context vmk now_ms d =
     (if bc_registration_epoch context = 0 then (False, d)
      else
        let (status, d) = on_memory (unlock (en_gcm env) vmk now_ms) d
        in if status \<noteq> Ok then (False, d)
           else
             let (registration_status, d) = on_store (reg_replace (en_nvs env) (en_p256_point env)
                   (bc_vault_id context) (bc_registration_epoch context - 1)
                   (bc_registration_id context) (bc_registration_epoch context)
                   (bc_proposed_brk_public_key context)) d
             in if registration_status \<noteq> RegOk then (False, snd (on_memory lock d)) else (True, d))"

definition install_vmk ::
  "('w, 'n) device_env \<Rightarrow> begin_context \<Rightarrow> bytes \<Rightarrow> int \<Rightarrow> ('w, 'n) device \<Rightarrow> bool \<times> ('w, 'n) device" where
  "install_vmk env context vmk timer_us d =
     (let d = cancel_pending d; now_ms = runtime_monotonic_ms timer_us;
          hold = (True, d\<lparr>dv_sink := sink_hold context vmk (dv_sink d)\<rparr>)
      in case bc_operation context of
        TrustedBrowserUnlock \<Rightarrow>
          (let (status, d) = on_memory (unlock (en_gcm env) vmk now_ms) d in (status = Ok, d))
      | Recovery \<Rightarrow>
          (case metadata (dv_runtime d) of
             Inl _ \<Rightarrow> (False, d)
           | Inr m \<Rightarrow>
               if \<not> md_has_vault m then
                 (if (md_state m \<noteq> Unprovisioned \<and> md_state m \<noteq> ReprovisionRequired)
                     \<or> bc_expected_generation context = 0 \<or> bc_registration_epoch context \<noteq> 1
                     \<or> \<not> all_zero (bc_current_brk_public_key context) then (False, d)
                  else hold)
               else unlock_and_replace env context vmk now_ms d)
      | BrowserReplacement \<Rightarrow> unlock_and_replace env context vmk now_ms d
      | InitialProvisioning \<Rightarrow> hold
      | VmkRekey \<Rightarrow> hold)"

section \<open>Installing the Vault that belongs to a pending key\<close>

text \<open>From formatting to registration: what the initial and the recovered installation share. Any
  failure erases the Vault partition again.\<close>

definition provision_vault ::
  "('w, 'n) device_env \<Rightarrow> vault_envelope \<Rightarrow> u64 \<Rightarrow> ('w, 'n) device \<Rightarrow> bool \<times> ('w, 'n) device" where
  "provision_vault env envelope now_ms d =
     (let context = sk_pending_context (dv_sink d); vmk = sk_pending_vmk (dv_sink d);
          p = en_persistence env;
          (status, d) = on_runtime (format_for_schema2 p) d;
          (status, d) = (if status = Ok
            then on_runtime (install_encrypted_vault p (en_gcm env) envelope vmk) d else (status, d));
          (status, d) = (if status = Ok then on_memory (unlock (en_gcm env) vmk now_ms) d else (status, d))
      in if status \<noteq> Ok then
           (False, cancel_pending (snd (on_runtime (factory_reset p) d)))
         else
           let (registration_status, d) = on_store (install_initial (en_nvs env) (en_p256_point env)
                 (bc_vault_id context) (bc_registration_id context) 1 (bc_proposed_brk_public_key context)) d
           in if registration_status \<noteq> RegOk then
                (False, cancel_pending (snd (on_runtime (factory_reset p) d)))
              else (True, cancel_pending d))"

definition install_initial_vault ::
  "('w, 'n) device_env \<Rightarrow> vault_envelope \<Rightarrow> u64 \<Rightarrow> ('w, 'n) device \<Rightarrow> bool \<times> ('w, 'n) device" where
  "install_initial_vault env envelope now_ms d =
     (let (valid, k) = pending_valid InitialProvisioning now_ms (dv_sink d); d = d\<lparr>dv_sink := k\<rparr>;
          context = sk_pending_context k
      in if \<not> valid \<or> bc_expected_generation context \<noteq> 0 \<or> bc_registration_epoch context \<noteq> 0
            \<or> all_zero (bc_registration_id context) \<or> \<not> envelope_matches_pending envelope context 1
         then (False, cancel_pending d)
         else provision_vault env envelope now_ms d)"

definition install_recovered_vault ::
  "('w, 'n) device_env \<Rightarrow> vault_envelope \<Rightarrow> u64 \<Rightarrow> ('w, 'n) device \<Rightarrow> bool \<times> ('w, 'n) device" where
  "install_recovered_vault env envelope now_ms d =
     (let (valid, k) = pending_valid Recovery now_ms (dv_sink d); d = d\<lparr>dv_sink := k\<rparr>;
          context = sk_pending_context k
      in if \<not> valid \<or> bc_expected_generation context = 0 \<or> bc_registration_epoch context \<noteq> 1
            \<or> \<not> all_zero (bc_current_brk_public_key context) \<or> all_zero (bc_registration_id context)
            \<or> \<not> envelope_matches_pending envelope context (bc_expected_generation context)
         then (False, cancel_pending d)
         else provision_vault env envelope now_ms d)"

definition install_rekeyed_vault ::
  "('w, 'n) device_env \<Rightarrow> u64 \<Rightarrow> vault_envelope \<Rightarrow> u64 \<Rightarrow> ('w, 'n) device \<Rightarrow> bool \<times> ('w, 'n) device" where
  "install_rekeyed_vault env expected_generation envelope now_ms d =
     (let (valid, k) = pending_valid VmkRekey now_ms (dv_sink d); d = d\<lparr>dv_sink := k\<rparr>;
          context = sk_pending_context k
      in if \<not> valid \<or> expected_generation \<noteq> bc_expected_generation context
            \<or> expected_generation = max_u64
            \<or> \<not> envelope_matches_pending envelope context (expected_generation + 1)
         then (False, cancel_pending d)
         else
           let (status, d) = on_runtime (rekey_encrypted_vault (en_persistence env) (en_gcm env)
                 expected_generation envelope (sk_pending_vmk k) now_ms) d
           in (status = Ok, cancel_pending d))"

end
