(* ===== verification/Vmk_Sink_Correct.thy ===== *)
theory Vmk_Sink_Correct
  imports Vmk_Sink Vault_Runtime_Samples
begin

text \<open>
  The sink keeps a delivered key only as long as it may: a key that is not pending is wiped, a
  pending key dies at its deadline, and every installation either completes, with the Vault open
  and the registration of the browser that delivered the key, or leaves nothing behind.
\<close>

section \<open>Invariant\<close>

definition sink_inv :: "vmk_sink \<Rightarrow> bool" where
  "sink_inv k \<longleftrightarrow> (\<not> sk_pending k \<longrightarrow> all_zero (sk_pending_vmk k)) \<and>
     (sk_deadline_armed k \<longrightarrow> sk_pending k) \<and>
     (sk_pending k \<longrightarrow> bc_operation (sk_pending_context k) \<in> {InitialProvisioning, Recovery, VmkRekey})"

definition device_ok :: "('w, 'n) device_env \<Rightarrow> ('w, 'n) device \<Rightarrow> bool" where
  "device_ok env d \<longleftrightarrow> runtime_inv (en_gcm env) (dv_runtime d) \<and>
     store_inv (en_p256_point env) (dv_store d) \<and> sink_inv (dv_sink d)"

lemma sink_cancel_simps [simp]:
  "sk_pending (sink_cancel k) = False" "sk_deadline_armed (sink_cancel k) = False"
  "all_zero (sk_pending_vmk (sink_cancel k))" "sink_inv (sink_cancel k)"
  "bc_operation (sk_pending_context (sink_cancel k)) = TrustedBrowserUnlock"
  by (simp_all add: sink_cancel_def sink_inv_def wipe_context_def)

lemma cancel_pending_simps [simp]:
  "dv_runtime (cancel_pending d) = dv_runtime d" "dv_medium (cancel_pending d) = dv_medium d"
  "dv_store (cancel_pending d) = dv_store d" "dv_reg_medium (cancel_pending d) = dv_reg_medium d"
  "dv_sink (cancel_pending d) = sink_cancel (dv_sink d)"
  by (simp_all add: cancel_pending_def)

interpretation sink_ttl: expiring "\<lambda>k. sk_pending k \<and> sk_deadline_armed k" sk_pending_expires_at_ms
  sink_cancel expire_pending
  by unfold_locales (auto simp: expire_pending_def not_le)

lemma expire_pending_inv: "sink_inv k \<Longrightarrow> sink_inv (snd (expire_pending now k))"
  by (simp add: expire_pending_def)

lemma pending_valid_eq:
  "pending_valid op now k = (sk_pending k \<and> sk_deadline_armed k \<and> now < sk_pending_expires_at_ms k \<and>
     bc_operation (sk_pending_context k) = op, snd (expire_pending now k))"
  by (auto simp: pending_valid_def expire_pending_def not_less)

lemma pending_valid_keeps:
  "now < sk_pending_expires_at_ms k \<Longrightarrow> snd (expire_pending now k) = k"
  by (simp add: expire_pending_def)

lemma arm_inv: "sink_inv k \<Longrightarrow> sink_inv (arm_pending_deadline now k)"
  by (auto simp: arm_pending_deadline_def sink_inv_def)

section \<open>The runtime operations, as the sink uses them\<close>

lemma unlock_result:
  "unlock g vmk now r = (st, r') \<Longrightarrow>
   if st = Ok then rt_state r = Locked \<and> rt_state r' = Unlocked \<and> rt_vmk r' = vmk \<and>
     rt_has_vault r' = rt_has_vault r \<and> rt_has_vault r \<and> rt_envelope r' = rt_envelope r
   else r' = r"
  by (auto simp: unlock_def Let_def clear_unlock_session_state_def wipe_vmk_def begin_unlock_session_def
      validate_envelope_with_key_def split: if_splits sum.splits option.splits)

lemma lock_result:
  "lock r = (st, r') \<Longrightarrow> rt_initialized r \<Longrightarrow> rt_state r' \<noteq> Unlocked \<and> \<not> rt_vmk_present r'"
  by (auto simp: lock_def Let_def clear_unlock_session_state_def wipe_vmk_def split: if_splits)

text \<open>What \<open>factory_reset\<close> leaves: the Vault partition is what \<open>erase_all\<close> made of it, and no key is resident.
  Where the erasure reports success there is no Vault any more; where it does not, nothing is known of the
  partition, and the runtime is in its error state.\<close>

definition erased :: "'w persistence \<Rightarrow> runtime \<Rightarrow> 'w \<Rightarrow> bool" where
  "erased p r' w' \<longleftrightarrow> \<not> rt_vmk_present r' \<and> (\<exists>w status. pe_erase_all p w = (status, w') \<and>
     (if status = Ok then \<not> rt_has_vault r' \<and> rt_envelope r' = empty_envelope \<and> rt_state r' = Unprovisioned
      else rt_state r' = VaultError))"

lemma factory_reset_result:
  "factory_reset p (r, w) = (st, r', w') \<Longrightarrow> rt_initialized r \<Longrightarrow> erased p r' w'"
  unfolding erased_def
  by (auto simp: factory_reset_def Let_def clear_unlock_session_state_def wipe_vmk_def split: if_splits prod.splits) blast

lemma install_vault_result:
  "install_encrypted_vault p g env vmk (r, w) = (Ok, r', w') \<Longrightarrow>
   rt_has_vault r' \<and> rt_envelope r' = env \<and> rt_initialized r' = rt_initialized r"
  by (auto simp: install_encrypted_vault_def reload_after_persistence_def clear_unlock_session_state_def
      wipe_vmk_def validate_not_Ok Let_def split: if_splits sum.splits prod.splits)

lemma initialized_keeps:
  "format_for_schema2 p (r, w) = (st, r', w') \<Longrightarrow> rt_initialized r' = rt_initialized r"
  "install_encrypted_vault p g env vmk (r, w) = (st, r', w') \<Longrightarrow> rt_initialized r' = rt_initialized r"
  "unlock g vmk now r = (st, r') \<Longrightarrow> rt_initialized r' = rt_initialized r"
  "factory_reset p (r, w) = (st, r', w') \<Longrightarrow> rt_initialized r' = rt_initialized r"
  by (auto simp: format_for_schema2_def install_encrypted_vault_def reload_after_persistence_def
      clear_unlock_session_state_def wipe_vmk_def begin_unlock_session_def unlock_def factory_reset_def Let_def
      split: if_splits sum.splits prod.splits)

lemma format_Ok_initialized: "format_for_schema2 p (r, w) = (Ok, r', w') \<Longrightarrow> rt_initialized r"
  by (auto simp: format_for_schema2_def split: if_splits)

section \<open>Provisioning\<close>

lemma factory_reset_erases:
  "on_runtime (factory_reset p) d = (st, d') \<Longrightarrow> rt_initialized (dv_runtime d) \<Longrightarrow>
   erased p (dv_runtime d') (dv_medium d') \<and> dv_sink d' = dv_sink d \<and> dv_store d' = dv_store d \<and>
   dv_reg_medium d' = dv_reg_medium d"
  by (auto simp: on_runtime_def dest: factory_reset_result split: prod.splits)

text \<open>The Vault half of provisioning: formatted, installed and opened, or given up.\<close>

definition vault_half ::
  "('w, 'n) device_env \<Rightarrow> vault_envelope \<Rightarrow> u64 \<Rightarrow> ('w, 'n) device \<Rightarrow> status \<times> ('w, 'n) device" where
  "vault_half env envelope now_ms d =
     (let p = en_persistence env; vmk = sk_pending_vmk (dv_sink d);
          (status, d) = on_runtime (format_for_schema2 p) d;
          (status, d) = (if status = Ok
            then on_runtime (install_encrypted_vault p (en_gcm env) envelope vmk) d else (status, d))
      in if status = Ok then on_memory (unlock (en_gcm env) vmk now_ms) d else (status, d))"

lemma vault_half_result:
  assumes "vault_half env envelope now d = (st, d')"
  shows "dv_store d' = dv_store d \<and> dv_reg_medium d' = dv_reg_medium d \<and> dv_sink d' = dv_sink d \<and>
    rt_initialized (dv_runtime d') = rt_initialized (dv_runtime d) \<and>
    (st = Ok \<longrightarrow> rt_state (dv_runtime d') = Unlocked \<and> rt_vmk (dv_runtime d') = sk_pending_vmk (dv_sink d) \<and>
      rt_has_vault (dv_runtime d') \<and> rt_envelope (dv_runtime d') = envelope \<and> rt_initialized (dv_runtime d'))"
proof -
  let ?p = "en_persistence env" and ?g = "en_gcm env" and ?k = "sk_pending_vmk (dv_sink d)"
  obtain s1 r1 w1 where f: "format_for_schema2 ?p (dv_runtime d, dv_medium d) = (s1, r1, w1)"
    by (metis prod_cases3)
  obtain s2 r2 w2 where i: "install_encrypted_vault ?p ?g envelope ?k (r1, w1) = (s2, r2, w2)"
    by (metis prod_cases3)
  obtain s3 r3 where u: "unlock ?g ?k now r2 = (s3, r3)" by (metis prod.collapse)
  note keeps = initialized_keeps(1) [OF f] initialized_keeps(2) [OF i] initialized_keeps(3) [OF u]
  show ?thesis
    using assms keeps install_vault_result [of ?p ?g envelope ?k r1 w1 r2 w2] i unlock_result [OF u]
      format_Ok_initialized [of ?p "dv_runtime d" "dv_medium d" r1 w1] f
    by (auto simp: vault_half_def on_runtime_def on_memory_def f i u Let_def split: if_splits)
qed

lemma provision_vault_eq:
  "provision_vault env envelope now d =
     (let context = sk_pending_context (dv_sink d); p = en_persistence env;
          (status, d) = vault_half env envelope now d
      in if status \<noteq> Ok then (False, cancel_pending (snd (on_runtime (factory_reset p) d)))
         else
           let (registration_status, d) = on_store (install_initial (en_nvs env) (en_p256_point env)
                 (bc_vault_id context) (bc_registration_id context) 1 (bc_proposed_brk_public_key context)) d
           in if registration_status \<noteq> RegOk
              then (False, cancel_pending (snd (on_runtime (factory_reset p) d)))
              else (True, cancel_pending d))"
  by (simp add: provision_vault_def vault_half_def Let_def split: prod.split)

lemma install_initial_Ok:
  assumes "install_initial n p v r e k (s, w) = (RegOk, s', w')"
  shows "e = 1 \<and> rs_ready s' \<and> sn_registration_present (rs_snapshot s') \<and> sn_vault_id (rs_snapshot s') = v \<and>
    sn_registration_id (rs_snapshot s') = r \<and> sn_epoch (rs_snapshot s') = 1 \<and>
    sn_brk_public_key (rs_snapshot s') = k"
  using assms
  by (auto simp: install_initial_def persist_registration_def Let_def split: if_splits prod.splits
      dest!: load_registration_keeps)

text \<open>The device after a successful provisioning, and after a failed one.\<close>

definition provisioned :: "begin_context \<Rightarrow> bytes \<Rightarrow> vault_envelope \<Rightarrow> runtime \<Rightarrow> reg_store \<Rightarrow> bool" where
  "provisioned c vmk env r s \<longleftrightarrow> rt_initialized r \<and> rt_state r = Unlocked \<and> rt_vmk r = vmk \<and>
     rt_has_vault r \<and> rt_envelope r = env \<and> rs_ready s \<and> sn_registration_present (rs_snapshot s) \<and>
     sn_vault_id (rs_snapshot s) = bc_vault_id c \<and> sn_registration_id (rs_snapshot s) = bc_registration_id c \<and>
     sn_epoch (rs_snapshot s) = 1 \<and> sn_brk_public_key (rs_snapshot s) = bc_proposed_brk_public_key c"

text \<open>The registration after a failure: as it was, or as a refused or failed installation leaves it.\<close>

definition not_registered :: "('w, 'n) device_env \<Rightarrow> begin_context \<Rightarrow> ('w, 'n) device \<Rightarrow> ('w, 'n) device \<Rightarrow> bool" where
  "not_registered env c d d' \<longleftrightarrow> dv_store d' = dv_store d \<and> dv_reg_medium d' = dv_reg_medium d \<or>
     (\<exists>status. status \<noteq> RegOk \<and> install_initial (en_nvs env) (en_p256_point env) (bc_vault_id c) (bc_registration_id c) 1
        (bc_proposed_brk_public_key c) (dv_store d, dv_reg_medium d) = (status, dv_store d', dv_reg_medium d'))"

lemma provision_result:
  assumes run: "provision_vault env envelope now d = (ok, d')" and init: "rt_initialized (dv_runtime d)"
  shows "dv_sink d' = sink_cancel (dv_sink d) \<and>
    (if ok then provisioned (sk_pending_context (dv_sink d)) (sk_pending_vmk (dv_sink d)) envelope
       (dv_runtime d') (dv_store d')
     else erased (en_persistence env) (dv_runtime d') (dv_medium d') \<and>
       not_registered env (sk_pending_context (dv_sink d)) d d')"
proof -
  let ?c = "sk_pending_context (dv_sink d)"
  obtain s1 d1 where v: "vault_half env envelope now d = (s1, d1)" by (metis prod.collapse)
  obtain s2 d2 where i: "on_store (install_initial (en_nvs env) (en_p256_point env) (bc_vault_id ?c)
      (bc_registration_id ?c) 1 (bc_proposed_brk_public_key ?c)) d1 = (s2, d2)" by (metis prod.collapse)
  note half = vault_half_result [OF v]
  have i': "dv_runtime d2 = dv_runtime d1" "dv_sink d2 = dv_sink d1"
    "s2 = RegOk \<Longrightarrow> rs_ready (dv_store d2) \<and> sn_registration_present (rs_snapshot (dv_store d2)) \<and>
      sn_vault_id (rs_snapshot (dv_store d2)) = bc_vault_id ?c \<and>
      sn_registration_id (rs_snapshot (dv_store d2)) = bc_registration_id ?c \<and>
      sn_epoch (rs_snapshot (dv_store d2)) = 1 \<and>
      sn_brk_public_key (rs_snapshot (dv_store d2)) = bc_proposed_brk_public_key ?c"
    using i by (auto simp: on_store_def split: prod.splits dest!: install_initial_Ok)
  have reg: "install_initial (en_nvs env) (en_p256_point env) (bc_vault_id ?c) (bc_registration_id ?c) 1
      (bc_proposed_brk_public_key ?c) (dv_store d, dv_reg_medium d) = (s2, dv_store d2, dv_reg_medium d2)"
    using i half by (auto simp: on_store_def split: prod.splits)
  have er: "erased (en_persistence env) (dv_runtime e) (dv_medium e) \<and> dv_sink e = dv_sink x \<and> dv_store e = dv_store x \<and>
      dv_reg_medium e = dv_reg_medium x"
    if "rt_initialized (dv_runtime x)" "e = snd (on_runtime (factory_reset (en_persistence env)) x)" for x e :: "('a, 'b) device"
    using factory_reset_erases [OF prod.collapse [symmetric] that(1)] that(2) by blast
  show ?thesis
  proof (cases ok)
    case True
    then show ?thesis using run half i' init by (auto simp: provision_vault_eq v i Let_def provisioned_def split: if_splits)
  next
    case False
    then have "s1 \<noteq> Ok \<and> d' = cancel_pending (snd (on_runtime (factory_reset (en_persistence env)) d1)) \<or>
        s2 \<noteq> RegOk \<and> d' = cancel_pending (snd (on_runtime (factory_reset (en_persistence env)) d2))"
      using run by (auto simp: provision_vault_eq v i Let_def split: if_splits)
    then show ?thesis
      using False half i'(1,2) init reg er [of d1, OF _ refl] er [of d2, OF _ refl] by (auto simp: not_registered_def)
  qed
qed

lemma on_store_inv:
  assumes "\<And>s w st s' w'. f (s, w) = (st, s', w') \<Longrightarrow> store_inv p s \<Longrightarrow> store_inv p s'"
    and "on_store f d = (st, d')" "store_inv p (dv_store d)"
  shows "store_inv p (dv_store d')"
  using assms(2,3) by (auto simp: on_store_def split: prod.splits dest: assms(1))

lemma provision_store_inv:
  assumes "provision_vault env envelope now d = (True, d')" "store_inv p (dv_store d)"
    "p = en_p256_point env"
  shows "store_inv p (dv_store d')"
proof -
  let ?c = "sk_pending_context (dv_sink d)"
  obtain s1 d1 where v: "vault_half env envelope now d = (s1, d1)" by (metis prod.collapse)
  obtain s2 d2 where i: "on_store (install_initial (en_nvs env) (en_p256_point env) (bc_vault_id ?c)
      (bc_registration_id ?c) 1 (bc_proposed_brk_public_key ?c)) d1 = (s2, d2)" by (metis prod.collapse)
  have "store_inv p (dv_store d2)"
    by (rule on_store_inv [OF _ i]) (use assms vault_half_result [OF v] in \<open>auto intro: install_initial_inv\<close>)
  then show ?thesis
    using assms(1) by (auto simp: provision_vault_eq v i Let_def split: if_splits)
qed

text \<open>A pending key and the envelope it is for.\<close>

definition accepts :: "vmk_sink \<Rightarrow> operation \<Rightarrow> u64 \<Rightarrow> vault_envelope \<Rightarrow> u64 \<Rightarrow> bool" where
  "accepts k op now envelope generation \<longleftrightarrow> sk_pending k \<and> sk_deadline_armed k \<and>
     now < sk_pending_expires_at_ms k \<and> bc_operation (sk_pending_context k) = op \<and>
     ve_vault_id envelope = bc_vault_id (sk_pending_context k) \<and> ve_generation envelope = generation"

lemma initial_provisions:
  assumes "install_initial_vault env e now d = (ok, d')"
  shows "accepts (dv_sink d) InitialProvisioning now e 1 \<and> provision_vault env e now d = (ok, d') \<or>
    \<not> ok \<and> (\<exists>k. d' = cancel_pending (d\<lparr>dv_sink := k\<rparr>))"
proof (cases "fst (pending_valid InitialProvisioning now (dv_sink d))")
  case True
  then have valid: "pending_valid InitialProvisioning now (dv_sink d) = (True, dv_sink d)"
    by (simp add: pending_valid_eq pending_valid_keeps)
  have ready: "sk_pending (dv_sink d)" "sk_deadline_armed (dv_sink d)"
    "now < sk_pending_expires_at_ms (dv_sink d)" "bc_operation (sk_pending_context (dv_sink d)) = InitialProvisioning"
    using True by (simp_all add: pending_valid_eq)
  show ?thesis
  proof (cases "(False, cancel_pending d) = (ok, d')")
    case True
    then show ?thesis by (metis Pair_inject device.surjective device.update_convs(5))
  next
    case False
    then show ?thesis
      using assms ready by (simp add: install_initial_vault_def valid Let_def accepts_def
          envelope_matches_pending_def split: if_splits)
  qed
next
  case False
  then have "\<not> ok \<and> d' = cancel_pending (d\<lparr>dv_sink := snd (pending_valid InitialProvisioning now (dv_sink d))\<rparr>)"
    using assms by (simp add: install_initial_vault_def Let_def split: prod.splits)
  then show ?thesis by blast
qed

lemma recovered_provisions:
  assumes "install_recovered_vault env e now d = (ok, d')"
  shows "accepts (dv_sink d) Recovery now e (bc_expected_generation (sk_pending_context (dv_sink d))) \<and> provision_vault env e now d = (ok, d') \<or>
    \<not> ok \<and> (\<exists>k. d' = cancel_pending (d\<lparr>dv_sink := k\<rparr>))"
proof (cases "fst (pending_valid Recovery now (dv_sink d))")
  case True
  then have valid: "pending_valid Recovery now (dv_sink d) = (True, dv_sink d)"
    by (simp add: pending_valid_eq pending_valid_keeps)
  have ready: "sk_pending (dv_sink d)" "sk_deadline_armed (dv_sink d)"
    "now < sk_pending_expires_at_ms (dv_sink d)" "bc_operation (sk_pending_context (dv_sink d)) = Recovery"
    using True by (simp_all add: pending_valid_eq)
  show ?thesis
  proof (cases "(False, cancel_pending d) = (ok, d')")
    case True
    then show ?thesis by (metis Pair_inject device.surjective device.update_convs(5))
  next
    case False
    then show ?thesis
      using assms ready by (simp add: install_recovered_vault_def valid Let_def accepts_def
          envelope_matches_pending_def split: if_splits)
  qed
next
  case False
  then have "\<not> ok \<and> d' = cancel_pending (d\<lparr>dv_sink := snd (pending_valid Recovery now (dv_sink d))\<rparr>)"
    using assms by (simp add: install_recovered_vault_def Let_def split: prod.splits)
  then show ?thesis by blast
qed

lemma install_provisions:
  assumes "install_initial_vault env e now d = (ok, d') \<and> op = InitialProvisioning \<and> gen = 1 \<or>
      install_recovered_vault env e now d = (ok, d') \<and> op = Recovery \<and>
      gen = bc_expected_generation (sk_pending_context (dv_sink d))"
  shows "accepts (dv_sink d) op now e gen \<and> provision_vault env e now d = (ok, d') \<or>
    \<not> ok \<and> (\<exists>k. d' = cancel_pending (d\<lparr>dv_sink := k\<rparr>))"
  using assms initial_provisions [of env e now d ok d'] recovered_provisions [of env e now d ok d'] by blast

lemma armed_expiry:
  assumes "now < sk_pending_expires_at_ms (arm_pending_deadline t (sink_hold c vmk k))"
  shows "unat now < unat t + 30000"
proof (cases "t > max_u64 - kPendingVaultVmkTtlMs")
  case True
  then have "unat (max_u64 - kPendingVaultVmkTtlMs) < unat t" by (simp add: word_less_nat_alt)
  moreover have "unat now \<le> unat max_u64" using le_max_u64 [of now] word_le_nat_alt by blast
  ultimately show ?thesis by (simp add: kPendingVaultVmkTtlMs_def)
next
  case False
  then have "unat (t + kPendingVaultVmkTtlMs) = unat t + 30000"
    by (simp add: kPendingVaultVmkTtlMs_def not_less word_le_nat_alt unat_word_ariths)
  then show ?thesis using assms False by (simp add: arm_pending_deadline_def sink_hold_def word_less_nat_alt)
qed

lemma provisioning_all_or_nothing:
  assumes ok: "device_ok env d" "rt_initialized (dv_runtime d)"
    and run: "install_initial_vault env e now d = (ok, d') \<and> op = InitialProvisioning \<and> gen = 1 \<or>
      install_recovered_vault env e now d = (ok, d') \<and> op = Recovery \<and>
      gen = bc_expected_generation (sk_pending_context (dv_sink d))"
  shows "\<not> sk_pending (dv_sink d') \<and> all_zero (sk_pending_vmk (dv_sink d')) \<and>
    (if ok then accepts (dv_sink d) op now e gen \<and> canonical_snapshot (dv_runtime d') (dv_store d') \<noteq> None \<and>
       provisioned (sk_pending_context (dv_sink d)) (sk_pending_vmk (dv_sink d)) e (dv_runtime d') (dv_store d') \<and>
       (\<forall>t c vmk k. dv_sink d = arm_pending_deadline t (sink_hold c vmk k) \<longrightarrow> unat now < unat t + 30000)
     else erased (en_persistence env) (dv_runtime d') (dv_medium d') \<and>
         accepts (dv_sink d) op now e gen \<and> not_registered env (sk_pending_context (dv_sink d)) d d' \<or>
       dv_runtime d' = dv_runtime d \<and> dv_medium d' = dv_medium d \<and>
       dv_store d' = dv_store d \<and> dv_reg_medium d' = dv_reg_medium d)"
  using install_provisions [OF run]
proof (elim disjE conjE exE)
  fix k assume "\<not> ok" "d' = cancel_pending (d\<lparr>dv_sink := k\<rparr>)"
  then show ?thesis by simp
next
  assume acc: "accepts (dv_sink d) op now e gen" and prov: "provision_vault env e now d = (ok, d')"
  note result = provision_result [OF prov ok(2)]
  show ?thesis
  proof (cases ok)
    case True
    have inv: "store_inv (en_p256_point env) (dv_store d')"
      using provision_store_inv [OF prov [unfolded eqTrueI [OF True]]] ok(1) by (simp add: device_ok_def)
    have "unat now < unat t + 30000" if "dv_sink d = arm_pending_deadline t (sink_hold c vmk k)" for t c vmk k
      by (rule armed_expiry [of _ _ c vmk k]) (use acc that in \<open>simp add: accepts_def\<close>)
    then show ?thesis
      using result acc True by (auto simp: canonical_snapshot_eq [OF inv] provisioned_def accepts_def)
  qed (use result acc in auto)
qed

text \<open>C7. Provisioning a Vault is all or nothing. \<open>vault.install\<close> for a new or a recovered Vault
  succeeds only while an armed key of that operation is pending and not expired, and only for its envelope
  (same Vault id, expected generation); if its deadline was armed at time \<open>t\<close>, less than thirty seconds
  have passed since. Then the Vault is open with that key, the browser that delivered it is
  registered at epoch 1, and the device is one that a session can be bound to. Otherwise either the
  runtime, the registration and both media are untouched; or such a key was pending, the registration was not
  installed, and the Vault partition has been erased: if the erasure succeeded there is no Vault left, and if the
  erasure itself failed (nothing is known of the partition then) the runtime is in its error state; no key
  is resident in either case. The pending key is wiped whatever happens.\<close>

theorem provisioning_is_all_or_nothing:
  assumes "device_ok env d" "rt_initialized (dv_runtime d)"
    and "install_initial_vault env e now d = (ok, d') \<and> op = InitialProvisioning \<and> gen = 1 \<or>
      install_recovered_vault env e now d = (ok, d') \<and> op = Recovery \<and>
      gen = bc_expected_generation (sk_pending_context (dv_sink d))"
  shows "\<not> sk_pending (dv_sink d') \<and> all_zero (sk_pending_vmk (dv_sink d')) \<and>
    (if ok then accepts (dv_sink d) op now e gen \<and> canonical_snapshot (dv_runtime d') (dv_store d') \<noteq> None \<and>
       provisioned (sk_pending_context (dv_sink d)) (sk_pending_vmk (dv_sink d)) e (dv_runtime d') (dv_store d') \<and>
       (\<forall>t c vmk k. dv_sink d = arm_pending_deadline t (sink_hold c vmk k) \<longrightarrow> unat now < unat t + 30000)
     else erased (en_persistence env) (dv_runtime d') (dv_medium d') \<and>
         accepts (dv_sink d) op now e gen \<and> not_registered env (sk_pending_context (dv_sink d)) d d' \<or>
       dv_runtime d' = dv_runtime d \<and> dv_medium d' = dv_medium d \<and>
       dv_store d' = dv_store d \<and> dv_reg_medium d' = dv_reg_medium d)"
  using assms by (rule provisioning_all_or_nothing)

section \<open>A device in memory\<close>

definition demo_env :: "(persisted_snapshot, ram) device_env" where
  "demo_env = \<lparr>en_persistence = memory_store, en_gcm = toy_gcm, en_nvs = ram_nvs,
     en_p256_point = demo_curve\<rparr>"

definition demo_sink :: vmk_sink where
  "demo_sink = arm_pending_deadline 1000 (sink_hold demo_context demo_key
     \<lparr>sk_pending_vmk = zeros 32, sk_pending_context = demo_context, sk_pending = False,
      sk_deadline_armed = False, sk_pending_expires_at_ms = 0\<rparr>)"

definition demo_fresh :: runtime where "demo_fresh = new_runtime\<lparr>rt_initialized := True\<rparr>"

definition demo_device :: "(persisted_snapshot, ram) device" where
  "demo_device = \<lparr>dv_runtime = demo_fresh, dv_medium = empty_snapshot, dv_store = demo_reg,
     dv_reg_medium = (3, demo_flash), dv_sink = demo_sink\<rparr>"

lemma demo_sink_fields:
  "sk_pending demo_sink" "sk_pending_vmk demo_sink = demo_key" "sk_pending_context demo_sink = demo_context"
  "sk_deadline_armed demo_sink" "sk_pending_expires_at_ms demo_sink = 31000"
  by (simp_all add: demo_sink_def sink_hold_def arm_pending_deadline_def kPendingVaultVmkTtlMs_def)

lemma demo_context_fields:
  "bc_operation demo_context = InitialProvisioning" "bc_vault_id demo_context = replicate 16 1"
  "bc_expected_generation demo_context = 0" "bc_registration_id demo_context = replicate 16 8"
  "bc_registration_epoch demo_context = 0" "bc_proposed_brk_public_key demo_context = demo_brk 8"
  by (simp_all add: demo_context_def)

lemma demo_device_ok: "device_ok demo_env demo_device" "rt_initialized (dv_runtime demo_device)"
  using reg_reachable_inv [OF demo_reg_reachable]
  by (simp_all add: device_ok_def demo_device_def demo_env_def demo_fresh_def new_runtime_def runtime_inv_def
      sink_inv_def demo_sink_fields demo_context_fields)

lemma demo_install_runtime:
  defines "s \<equiv> empty_snapshot\<lparr>ps_schema_ready := True\<rparr>"
  shows "format_for_schema2 memory_store (demo_fresh, empty_snapshot) =
      (Ok, demo_fresh\<lparr>rt_schema_ready := True\<rparr>, s)"
    "install_encrypted_vault memory_store toy_gcm (demo_vault 1) demo_key
       (demo_fresh\<lparr>rt_schema_ready := True\<rparr>, s) =
      (Ok, demo_fresh\<lparr>rt_schema_ready := True, rt_has_vault := True, rt_envelope := demo_vault 1, rt_state := Locked\<rparr>,
       s\<lparr>ps_has_vault := True, ps_envelope := demo_vault 1\<rparr>)"
    "\<exists>r. unlock toy_gcm demo_key 2000 (demo_fresh\<lparr>rt_schema_ready := True, rt_has_vault := True,
        rt_envelope := demo_vault 1, rt_state := Locked\<rparr>) = (Ok, r)"
proof -
  have opens: "validate_envelope_with_key toy_gcm (demo_vault 1) demo_key = Inr None"
    using demo_sealed [of 1]
    by (auto simp: sealed_vault_iff [OF toy_gcm_laws] validate_envelope_with_key_def demo_framing demo_plaintext_def)
  show "format_for_schema2 memory_store (demo_fresh, empty_snapshot) =
      (Ok, demo_fresh\<lparr>rt_schema_ready := True\<rparr>, s)"
    by (simp add: format_for_schema2_def memory_store_def reload_after_persistence_def demo_fresh_def s_def
        empty_snapshot_def new_runtime_def clear_unlock_session_state_def wipe_vmk_def vault_constants)
  show "install_encrypted_vault memory_store toy_gcm (demo_vault 1) demo_key
       (demo_fresh\<lparr>rt_schema_ready := True\<rparr>, s) =
      (Ok, demo_fresh\<lparr>rt_schema_ready := True, rt_has_vault := True, rt_envelope := demo_vault 1, rt_state := Locked\<rparr>,
       s\<lparr>ps_has_vault := True, ps_envelope := demo_vault 1\<rparr>)"
    by (simp add: install_encrypted_vault_def opens memory_store_def reload_after_persistence_def demo_fresh_def
        s_def empty_snapshot_def new_runtime_def clear_unlock_session_state_def wipe_vmk_def vault_constants
        demo_framing same_envelope_def)
  show "\<exists>r. unlock toy_gcm demo_key 2000 (demo_fresh\<lparr>rt_schema_ready := True, rt_has_vault := True,
        rt_envelope := demo_vault 1, rt_state := Locked\<rparr>) = (Ok, r)"
    by (simp add: unlock_def opens demo_fresh_def)
qed

lemma demo_install_registration:
  "\<exists>s' w'. install_initial ram_nvs demo_curve (replicate 16 1) (replicate 16 8) 1 (demo_brk 8)
     (demo_reg, (3, demo_flash)) = (RegOk, s', w')"
proof -
  have prim: "nv_close ram_nvs h w = w" "nv_commit ram_nvs h w = (EspOk, w)"
    "nv_blob_size ram_nvs 2 kRegistrationKey (3, demo_flash) = ((EspNvsNotFound, 0), (3, demo_flash))"
    "nv_set_blob ram_nvs 2 kRegistrationKey v (3, demo_flash) =
      (EspOk, (2, put kRegNamespace kRegistrationKey (Some (NvBlob v)) demo_flash))" for h w v
    by (simp_all add: ram_nvs_def ram_read_def ram_write_def ram_reg_ns)
      (simp add: demo_flash_def put_def reg_keys)
  show ?thesis
    using demo_reg_blob(3) [of 8 1]
    by (simp add: install_initial_def load_registration_def persist_registration_def ram_open_reg prim
        committed_def Let_def reg_fields_ok_def demo_reg_def)
qed

lemma demo_install: "\<exists>d'. install_initial_vault demo_env (demo_vault 1) 2000 demo_device = (True, d')"
proof -
  obtain r where r: "unlock toy_gcm demo_key 2000 (demo_fresh\<lparr>rt_schema_ready := True, rt_has_vault := True,
      rt_envelope := demo_vault 1, rt_state := Locked\<rparr>) = (Ok, r)" using demo_install_runtime(3) by blast
  obtain s w where s: "install_initial ram_nvs demo_curve (replicate 16 1) (replicate 16 8) 1 (demo_brk 8)
     (demo_reg, (3, demo_flash)) = (RegOk, s, w)" using demo_install_registration by blast
  have valid: "pending_valid InitialProvisioning 2000 demo_sink = (True, demo_sink)"
    by (simp add: pending_valid_eq pending_valid_keeps demo_sink_fields demo_context_fields)
  have matches: "envelope_matches_pending (demo_vault 1) demo_context 1"
    using demo_framing [of 1] by (simp add: envelope_matches_pending_def demo_context_fields valid_envelope_framing_def)
  have "\<not> all_zero (replicate 16 (8 :: byte))" by (simp add: all_zero_iff zeros_def)
  then show ?thesis
    by (simp add: install_initial_vault_def demo_device_def valid matches provision_vault_def demo_sink_fields
        demo_context_fields on_runtime_def on_memory_def on_store_def demo_env_def demo_install_runtime(1,2) r s)
qed

theorem provisioning_is_all_or_nothing_witness:
  "\<exists>d'. install_initial_vault demo_env (demo_vault 1) 2000 demo_device = (True, d') \<and>
     rt_state (dv_runtime d') = Unlocked \<and> rt_vmk (dv_runtime d') = demo_key \<and>
     sn_epoch (rs_snapshot (dv_store d')) = 1 \<and> all_zero (sk_pending_vmk (dv_sink d'))"
proof -
  obtain d' where run: "install_initial_vault demo_env (demo_vault 1) 2000 demo_device = (True, d')"
    using demo_install by blast
  from provisioning_is_all_or_nothing [OF demo_device_ok, of "demo_vault 1" 2000 True d' InitialProvisioning 1] run
  show ?thesis by (auto simp: provisioned_def demo_device_def demo_sink_fields)
qed

section \<open>Delivered keys\<close>

lemma unlock_and_replace_result:
  assumes "unlock_and_replace env c vmk now d = (ok, d')" and init: "rt_initialized (dv_runtime d)"
  shows "dv_sink d' = dv_sink d \<and>
    (if ok then rt_state (dv_runtime d) = Locked \<and> rt_state (dv_runtime d') = Unlocked \<and>
       rt_vmk (dv_runtime d') = vmk \<and> rt_envelope (dv_runtime d') = rt_envelope (dv_runtime d) \<and>
       sn_vault_id (rs_snapshot (dv_store d')) = bc_vault_id c \<and>
       sn_registration_id (rs_snapshot (dv_store d')) = bc_registration_id c \<and>
       sn_epoch (rs_snapshot (dv_store d')) = bc_registration_epoch c \<and>
       sn_brk_public_key (rs_snapshot (dv_store d')) = bc_proposed_brk_public_key c
     else dv_runtime d' = dv_runtime d \<or> rt_state (dv_runtime d') \<noteq> Unlocked \<and> \<not> rt_vmk_present (dv_runtime d'))"
proof (cases "bc_registration_epoch c = 0")
  case True
  then show ?thesis using assms by (simp add: unlock_and_replace_def)
next
  case False
  obtain s1 r1 where u: "unlock (en_gcm env) vmk now (dv_runtime d) = (s1, r1)" by (metis prod.collapse)
  obtain s2 st2 w2 where rep: "reg_replace (en_nvs env) (en_p256_point env) (bc_vault_id c)
      (bc_registration_epoch c - 1) (bc_registration_id c) (bc_registration_epoch c)
      (bc_proposed_brk_public_key c) (dv_store d, dv_reg_medium d) = (s2, st2, w2)" by (metis prod_cases3)
  obtain s3 r3 where l: "lock r1 = (s3, r3)" by (metis prod.collapse)
  have reg: "sn_vault_id (rs_snapshot st2) = bc_vault_id c \<and> sn_epoch (rs_snapshot st2) = bc_registration_epoch c \<and>
      sn_registration_id (rs_snapshot st2) = bc_registration_id c \<and>
      sn_brk_public_key (rs_snapshot st2) = bc_proposed_brk_public_key c" if "s2 = RegOk"
    using rep that by (auto simp: reg_replace_def persist_registration_def Let_def split: if_splits prod.splits)
  show ?thesis
    using assms False unlock_result [OF u] initialized_keeps(3) [OF u] lock_result [OF l] reg
    by (auto simp: unlock_and_replace_def on_memory_def on_store_def u rep l Let_def split: if_splits)
qed


text \<open>What may become of a delivered key: it opened the Vault, or it is kept for the Vault to come.\<close>

definition key_opened :: "begin_context \<Rightarrow> bytes \<Rightarrow> ('w, 'n) device \<Rightarrow> ('w, 'n) device \<Rightarrow> bool" where
  "key_opened c vmk d d' \<longleftrightarrow> bc_operation c \<in> {TrustedBrowserUnlock, Recovery, BrowserReplacement} \<and>
     rt_state (dv_runtime d) = Locked \<and> rt_state (dv_runtime d') = Unlocked \<and>
     rt_vmk (dv_runtime d') = vmk \<and> rt_envelope (dv_runtime d') = rt_envelope (dv_runtime d) \<and>
     \<not> sk_pending (dv_sink d') \<and>
     (bc_operation c \<noteq> TrustedBrowserUnlock \<longrightarrow>
        sn_vault_id (rs_snapshot (dv_store d')) = bc_vault_id c \<and>
        sn_registration_id (rs_snapshot (dv_store d')) = bc_registration_id c \<and>
        sn_epoch (rs_snapshot (dv_store d')) = bc_registration_epoch c \<and>
        sn_brk_public_key (rs_snapshot (dv_store d')) = bc_proposed_brk_public_key c)"

definition key_held :: "begin_context \<Rightarrow> bytes \<Rightarrow> ('w, 'n) device \<Rightarrow> ('w, 'n) device \<Rightarrow> bool" where
  "key_held c vmk d d' \<longleftrightarrow> bc_operation c \<in> {InitialProvisioning, Recovery, VmkRekey} \<and>
     sk_pending (dv_sink d') \<and> \<not> sk_deadline_armed (dv_sink d') \<and> sk_pending_vmk (dv_sink d') = vmk \<and>
     sk_pending_context (dv_sink d') = c \<and> dv_runtime d' = dv_runtime d \<and> dv_medium d' = dv_medium d \<and>
     dv_store d' = dv_store d \<and> dv_reg_medium d' = dv_reg_medium d"

definition key_refused :: "('w, 'n) device \<Rightarrow> ('w, 'n) device \<Rightarrow> bool" where
  "key_refused d d' \<longleftrightarrow> \<not> sk_pending (dv_sink d') \<and> all_zero (sk_pending_vmk (dv_sink d')) \<and>
     (dv_runtime d' = dv_runtime d \<or>
      rt_state (dv_runtime d') \<noteq> Unlocked \<and> \<not> rt_vmk_present (dv_runtime d'))"

lemma held_device:
  "bc_operation c \<in> {InitialProvisioning, Recovery, VmkRekey} \<Longrightarrow>
   key_held c vmk d (cancel_pending d\<lparr>dv_sink := sink_hold c vmk (sink_cancel (dv_sink d))\<rparr>)"
  by (auto simp: key_held_def sink_hold_def)

lemma replaced_device:
  assumes "unlock_and_replace env c vmk now (cancel_pending d) = (ok, d')" "rt_initialized (dv_runtime d)"
    "bc_operation c \<in> {Recovery, BrowserReplacement}"
  shows "if ok then key_opened c vmk d d' else key_refused d d'"
  using unlock_and_replace_result [OF assms(1)] assms(2,3)
  by (cases ok) (auto simp: key_opened_def key_refused_def)

lemma refused_device: "key_refused d (cancel_pending d)"
  by (simp add: key_refused_def)

lemma install_vmk_eq:
  assumes "rt_initialized (dv_runtime d)"
  shows "install_vmk env c vmk t d \<in>
    (if bc_operation c = TrustedBrowserUnlock
     then {(let (st, d') = on_memory (unlock (en_gcm env) vmk (runtime_monotonic_ms t)) (cancel_pending d) in (st = Ok, d'))}
     else {(False, cancel_pending d)} \<union>
       (if bc_operation c \<in> {Recovery, BrowserReplacement}
        then {unlock_and_replace env c vmk (runtime_monotonic_ms t) (cancel_pending d)} else {}) \<union>
       (if bc_operation c \<in> {InitialProvisioning, Recovery, VmkRekey}
        then {(True, cancel_pending d\<lparr>dv_sink := sink_hold c vmk (sink_cancel (dv_sink d))\<rparr>)} else {}))"
  using assms by (cases "bc_operation c") (simp_all add: install_vmk_def metadata_def Let_def)

lemma install_vmk_cases:
  assumes run: "install_vmk env c vmk t d = (ok, d')" and init: "rt_initialized (dv_runtime d)"
  shows "if ok then key_opened c vmk d d' \<or> key_held c vmk d d' else key_refused d d'"
proof (cases "bc_operation c = TrustedBrowserUnlock")
  case True
  obtain st r where u: "unlock (en_gcm env) vmk (runtime_monotonic_ms t) (dv_runtime d) = (st, r)"
    by (metis prod.collapse)
  then have "ok = (st = Ok)" "d' = cancel_pending d\<lparr>dv_runtime := r\<rparr>"
    using run True by (simp_all add: install_vmk_def on_memory_def)
  then show ?thesis using unlock_result [OF u] True
    by (cases "st = Ok") (simp_all add: key_opened_def key_refused_def)
next
  case False
  then consider "(ok, d') = (False, cancel_pending d)"
    | "(ok, d') = unlock_and_replace env c vmk (runtime_monotonic_ms t) (cancel_pending d)"
      "bc_operation c \<in> {Recovery, BrowserReplacement}"
    | "(ok, d') = (True, cancel_pending d\<lparr>dv_sink := sink_hold c vmk (sink_cancel (dv_sink d))\<rparr>)"
      "bc_operation c \<in> {InitialProvisioning, Recovery, VmkRekey}"
    using install_vmk_eq [OF init, of env c vmk t] run by (simp split: if_split_asm) blast+
  then show ?thesis
  proof cases
    case 2
    from replaced_device [OF 2(1) [symmetric] init 2(2)] show ?thesis by (simp split: if_splits)
  qed (use held_device [of c vmk d] refused_device [of d] in auto)
qed

section \<open>The invariant is preserved\<close>

datatype sink_call =
    SPrepare operation | SInstallVmk begin_context bytes int | SArm u64 | SExpire u64 | SCancel
  | SInitialVault vault_envelope u64 | SRecoveredVault vault_envelope u64
  | SRekeyedVault u64 vault_envelope u64

definition on_sink :: "(vmk_sink \<Rightarrow> vmk_sink) \<Rightarrow> ('w, 'n) device \<Rightarrow> ('w, 'n) device" where
  "on_sink f d = d\<lparr>dv_sink := f (dv_sink d)\<rparr>"

fun sink_step :: "('w, 'n) device_env \<Rightarrow> sink_call \<Rightarrow> ('w, 'n) device \<Rightarrow> ('w, 'n) device" where
  "sink_step env (SPrepare op) d = snd (prepare_attempt op d)"
| "sink_step env (SInstallVmk c vmk t) d = snd (install_vmk env c vmk t d)"
| "sink_step env (SArm now) d = on_sink (arm_pending_deadline now) d"
| "sink_step env (SExpire now) d = on_sink (\<lambda>k. snd (expire_pending now k)) d"
| "sink_step env SCancel d = cancel_pending d"
| "sink_step env (SInitialVault e now) d = snd (install_initial_vault env e now d)"
| "sink_step env (SRecoveredVault e now) d = snd (install_recovered_vault env e now d)"
| "sink_step env (SRekeyedVault g e now) d = snd (install_rekeyed_vault env g e now d)"

lemma cancel_ok: "device_ok env d \<Longrightarrow> device_ok env (cancel_pending d)"
  by (simp add: device_ok_def)

lemma sink_ok: "device_ok env d \<Longrightarrow> sink_inv k \<Longrightarrow> device_ok env (d\<lparr>dv_sink := k\<rparr>)"
  by (simp add: device_ok_def)

lemma memory_ok:
  "device_ok env d \<Longrightarrow> runtime_inv (en_gcm env) (snd (f (dv_runtime d))) \<Longrightarrow> device_ok env (snd (on_memory f d))"
  by (auto simp: device_ok_def on_memory_def split: prod.split)

lemma runtime_ok:
  "device_ok env d \<Longrightarrow> runtime_inv (en_gcm env) (fst (snd (f (dv_runtime d, dv_medium d)))) \<Longrightarrow>
   device_ok env (snd (on_runtime f d))"
  by (auto simp: device_ok_def on_runtime_def split: prod.split)

lemma store_ok:
  "device_ok env d \<Longrightarrow> store_inv (en_p256_point env) (fst (snd (f (dv_store d, dv_reg_medium d)))) \<Longrightarrow>
   device_ok env (snd (on_store f d))"
  by (auto simp: device_ok_def on_store_def split: prod.split)

lemma store_calls_inv:
  assumes "store_inv p s"
  shows "store_inv p (fst (snd (install_initial n p v r e k (s, w))))"
    "store_inv p (fst (snd (reg_replace n p v e r e' k (s, w))))"
  using install_initial_inv [OF assms] reg_replace_inv [OF assms] by (metis prod.collapse)+

lemmas device_okD = device_ok_def [THEN iffD1]

lemma unlock_and_replace_ok:
  assumes "device_ok env d" shows "device_ok env (snd (unlock_and_replace env c vmk now d))"
proof -
  obtain s1 d1 where u: "on_memory (unlock (en_gcm env) vmk now) d = (s1, d1)" by (metis prod.collapse)
  obtain s2 d2 where r: "on_store (reg_replace (en_nvs env) (en_p256_point env) (bc_vault_id c)
      (bc_registration_epoch c - 1) (bc_registration_id c) (bc_registration_epoch c)
      (bc_proposed_brk_public_key c)) d1 = (s2, d2)" by (metis prod.collapse)
  have 1: "device_ok env d1"
    using memory_ok [OF assms, of "unlock (en_gcm env) vmk now"] u assms by (simp add: unlock_inv device_ok_def)
  have 2: "device_ok env d2"
    using store_ok [OF 1, of "reg_replace (en_nvs env) (en_p256_point env) (bc_vault_id c)
      (bc_registration_epoch c - 1) (bc_registration_id c) (bc_registration_epoch c)
      (bc_proposed_brk_public_key c)"] r 1 by (simp add: store_calls_inv device_ok_def)
  have 3: "device_ok env (snd (on_memory lock d2))"
    using memory_ok [OF 2, of lock] 2 by (simp add: lock_inv device_ok_def)
  show ?thesis using assms 1 2 3 by (simp add: unlock_and_replace_def u r Let_def)
qed

lemma reset_ok: "device_ok env d \<Longrightarrow> device_ok env (snd (on_runtime (factory_reset p) d))"
  by (rule runtime_ok) (simp_all add: factory_reset_inv device_ok_def)

lemma vault_half_ok:
  assumes "device_ok env d" shows "device_ok env (snd (vault_half env e now d))"
proof -
  let ?p = "en_persistence env" and ?g = "en_gcm env" and ?k = "sk_pending_vmk (dv_sink d)"
  obtain s1 d1 where f: "on_runtime (format_for_schema2 ?p) d = (s1, d1)" by (metis prod.collapse)
  obtain s2 d2 where i: "on_runtime (install_encrypted_vault ?p ?g e ?k) d1 = (s2, d2)" by (metis prod.collapse)
  have 1: "device_ok env d1"
    using runtime_ok [OF assms, of "format_for_schema2 ?p"] f assms by (simp add: format_inv device_ok_def)
  have 2: "device_ok env d2"
    using runtime_ok [OF 1, of "install_encrypted_vault ?p ?g e ?k"] i 1 by (simp add: install_inv device_ok_def)
  have 3: "device_ok env (snd (on_memory (unlock ?g ?k now) x))" if "device_ok env x" for x
    using memory_ok [OF that, of "unlock ?g ?k now"] that by (simp add: unlock_inv device_ok_def)
  show ?thesis using 1 2 3 [OF 1] 3 [OF 2] by (simp add: vault_half_def f i Let_def)
qed

lemma provision_ok:
  assumes "device_ok env d" shows "device_ok env (snd (provision_vault env e now d))"
proof -
  let ?c = "sk_pending_context (dv_sink d)"
  let ?f = "install_initial (en_nvs env) (en_p256_point env) (bc_vault_id ?c) (bc_registration_id ?c) 1
    (bc_proposed_brk_public_key ?c)"
  obtain s1 d1 where v: "vault_half env e now d = (s1, d1)" by (metis prod.collapse)
  obtain s2 d2 where i: "on_store ?f d1 = (s2, d2)" by (metis prod.collapse)
  have 1: "device_ok env d1" using vault_half_ok [OF assms, of e now] v by simp
  have 2: "device_ok env d2"
    using store_ok [OF 1, of ?f] i 1 by (simp add: store_calls_inv device_ok_def)
  show ?thesis using 1 2 by (simp add: provision_vault_eq v i Let_def cancel_ok reset_ok)
qed

lemma install_ok:
  assumes "device_ok env d"
  shows "device_ok env (snd (install_initial_vault env e now d))"
    "device_ok env (snd (install_recovered_vault env e now d))"
proof -
  have k: "device_ok env (cancel_pending (d\<lparr>dv_sink := x\<rparr>))" for x
    using assms by (simp add: device_ok_def)
  have p: "device_ok env (snd (provision_vault env e now d))" by (rule provision_ok [OF assms])
  show "device_ok env (snd (install_initial_vault env e now d))"
    using initial_provisions [where d = d and env = env, OF prod.collapse [symmetric]] k p by (metis snd_conv)
  show "device_ok env (snd (install_recovered_vault env e now d))"
    using recovered_provisions [where d = d and env = env, OF prod.collapse [symmetric]] k p by (metis snd_conv)
qed

lemma sink_step_ok:
  assumes ok: "device_ok env d" shows "device_ok env (sink_step env call d)"
proof (cases call)
  case (SPrepare op)
  have "device_ok env (snd (on_memory enter_registration_replacement_boundary (cancel_pending d)))"
    "device_ok env (snd (on_memory enter_vmk_rekey_boundary (cancel_pending d)))"
    using memory_ok [OF cancel_ok [OF ok], of enter_registration_replacement_boundary]
      memory_ok [OF cancel_ok [OF ok], of enter_vmk_rekey_boundary] ok [unfolded device_ok_def]
    by (simp_all add: recovery_boundary_inv rekey_boundary_inv enter_registration_replacement_boundary_def)
  then show ?thesis using SPrepare cancel_ok [OF ok]
    by (cases op) (auto simp: prepare_attempt_def Let_def split: sum.split prod.splits)
next
  case (SInstallVmk c vmk t)
  have hold: "device_ok env (cancel_pending d\<lparr>dv_sink := sink_hold c vmk (dv_sink (cancel_pending d))\<rparr>)"
    if "bc_operation c \<in> {InitialProvisioning, Recovery, VmkRekey}"
    using that ok by (auto simp: device_ok_def sink_inv_def sink_hold_def)
  have u: "device_ok env (snd (on_memory (unlock (en_gcm env) vmk (runtime_monotonic_ms t)) (cancel_pending d)))"
    using ok by (intro memory_ok cancel_ok) (simp_all add: unlock_inv device_ok_def)
  have r: "device_ok env (snd (unlock_and_replace env c vmk (runtime_monotonic_ms t) (cancel_pending d)))"
    by (rule unlock_and_replace_ok [OF cancel_ok [OF ok]])
  show ?thesis unfolding SInstallVmk using u r hold cancel_ok [OF ok]
    by (cases "bc_operation c") (auto simp: install_vmk_def Let_def split: sum.split prod.splits)
next
  case (SRekeyedVault g e now)
  obtain v k where pv: "pending_valid VmkRekey now (dv_sink d) = (v, k)" by (metis prod.collapse)
  have "sink_inv k"
    using ok pv by (auto simp: pending_valid_eq device_ok_def dest: expire_pending_inv)
  then have k: "device_ok env (d\<lparr>dv_sink := k\<rparr>)" by (rule sink_ok [OF ok])
  have "device_ok env (snd (on_runtime (rekey_encrypted_vault (en_persistence env) (en_gcm env) h e
      (sk_pending_vmk k) now) (d\<lparr>dv_sink := k\<rparr>)))" for h
    using k by (intro runtime_ok) (simp_all add: rekey_inv device_ok_def)
  then show ?thesis using k
    by (simp add: SRekeyedVault install_rekeyed_vault_def pv cancel_ok Let_def case_prod_beta)
qed (use ok install_ok [OF ok] cancel_ok [OF ok] arm_inv [of "dv_sink d"] expire_pending_inv [of "dv_sink d"]
    in \<open>simp_all add: on_sink_def device_ok_def\<close>)

text \<open>A device runs any sequence of these calls from one whose parts are in order.\<close>

inductive sink_reachable ::
  "('w, 'n) device_env \<Rightarrow> ('w, 'n) device \<Rightarrow> ('w, 'n) device \<Rightarrow> bool" for env d0 where
  start: "sink_reachable env d0 d0"
| call: "sink_reachable env d0 d \<Longrightarrow> sink_reachable env d0 (sink_step env c d)"

lemma sink_reachable_ok: "sink_reachable env d0 d \<Longrightarrow> device_ok env d0 \<Longrightarrow> device_ok env d"
  by (induction rule: sink_reachable.induct) (auto intro: sink_step_ok)

section \<open>The claims about delivered keys\<close>

lemma arm_eq: "sk_pending k \<Longrightarrow> arm_pending_deadline now k =
    k\<lparr>sk_deadline_armed := True, sk_pending_expires_at_ms := saturating_deadline kPendingVaultVmkTtlMs now\<rparr>"
  by (simp add: arm_pending_deadline_def saturating_deadline_def)

lemma late_installs_fail:
  assumes "sk_pending_expires_at_ms (dv_sink d) \<le> now" "sk_deadline_armed (dv_sink d)"
  shows "\<not> fst (install_initial_vault env e now d)" "\<not> fst (install_recovered_vault env e now d)"
    "\<not> fst (install_rekeyed_vault env g e now d)"
  using assms by (simp_all add: install_initial_vault_def install_recovered_vault_def
      install_rekeyed_vault_def pending_valid_eq Let_def not_less [symmetric])

text \<open>C22. What \<open>install_vmk\<close> does with a delivered key. On success the key has opened the locked
  Vault, for a recovery or a browser replacement under the registration that was agreed, or (for
  initial provisioning, recovery onto a clean device, and re-keying) it is held with its context
  and no deadline yet, with the device otherwise untouched. On failure nothing is held, the buffer is zero and
  the runtime is as before or has no key resident.\<close>

theorem delivered_key_disposition:
  assumes "install_vmk env c vmk t d = (ok, d')" "rt_initialized (dv_runtime d)"
  shows "if ok then key_opened c vmk d d' \<or> key_held c vmk d d' else key_refused d d'"
  using assms by (rule install_vmk_cases)

theorem delivered_key_disposition_witness:
  "\<exists>d'. install_vmk demo_env demo_context demo_key 1000000 demo_device = (True, d') \<and>
     key_held demo_context demo_key demo_device d'"
proof -
  obtain d' where r: "install_vmk demo_env demo_context demo_key 1000000 demo_device = (True, d')"
    by (simp add: install_vmk_def demo_context_fields)
  from delivered_key_disposition [OF r demo_device_ok(2)] r show ?thesis
    by (auto simp: key_opened_def demo_context_fields)
qed

text \<open>The lifetime of a held key. Once its deadline is armed at \<open>now\<close>, polling the clock any
  number of times wipes the key exactly when a poll reads thirty seconds later or more (computed
  without wrapping), and from then on every way to install its Vault fails.\<close>

theorem pending_key_lifetime:
  assumes "sk_pending k" "sink_inv k"
  shows "unat (sk_pending_expires_at_ms (arm_pending_deadline now k)) = min (unat now + 30000) (2 ^ 64 - 1) \<and>
    (let k' = fold (\<lambda>now k. snd (expire_pending now k)) polls (arm_pending_deadline now k) in
     (if \<exists>t\<in>set polls. sk_pending_expires_at_ms (arm_pending_deadline now k) \<le> t
      then \<not> sk_pending k' \<and> all_zero (sk_pending_vmk k')
      else k' = arm_pending_deadline now k) \<and>
     (\<forall>d t. dv_sink d = k' \<and> sk_pending_expires_at_ms (arm_pending_deadline now k) \<le> t \<longrightarrow>
        \<not> fst (install_initial_vault env e t d) \<and> \<not> fst (install_recovered_vault env e t d) \<and>
        \<not> fst (install_rekeyed_vault env g e t d)))"
proof -
  let ?k = "arm_pending_deadline now k"
  have armed: "sk_pending ?k" "sk_deadline_armed ?k" using assms(1) by (simp_all add: arm_eq)
  have t: "unat (sk_pending_expires_at_ms ?k) = min (unat now + 30000) (2 ^ 64 - 1)"
    using assms(1) by (simp add: arm_eq unat_saturating_deadline kPendingVaultVmkTtlMs_def)
  have gone: "\<not> fst (install_initial_vault env e t d) \<and> \<not> fst (install_recovered_vault env e t d) \<and>
      \<not> fst (install_rekeyed_vault env g e t d)" if "\<not> sk_pending (dv_sink d)" for d t
    using that by (simp add: install_initial_vault_def install_recovered_vault_def
      install_rekeyed_vault_def pending_valid_eq Let_def)
  have late: "\<not> fst (install_initial_vault env e t d) \<and> \<not> fst (install_recovered_vault env e t d) \<and>
      \<not> fst (install_rekeyed_vault env g e t d)"
    if "dv_sink d = ?k" "sk_pending_expires_at_ms ?k \<le> t" for d t
    using that armed(2) by (simp add: late_installs_fail)
  show ?thesis
  proof (cases "\<exists>t\<in>set polls. sk_pending_expires_at_ms ?k \<le> t")
    case True
    then show ?thesis unfolding Let_def sink_ttl.expire_polls using armed t gone by simp
  next
    case False
    then show ?thesis unfolding Let_def sink_ttl.expire_polls using t late by simp
  qed
qed

theorem pending_key_lifetime_witness:
  "let k' = fold (\<lambda>now k. snd (expire_pending now k)) [30999, 31000] (arm_pending_deadline 1000 demo_sink) in
   \<not> sk_pending k' \<and> all_zero (sk_pending_vmk k')"
proof -
  have inv: "sink_inv demo_sink" using demo_device_ok(1) by (simp add: device_ok_def demo_device_def)
  have "sk_pending_expires_at_ms (arm_pending_deadline 1000 demo_sink) = 31000"
    by (simp add: demo_sink_fields arm_eq saturating_deadline_def kPendingVaultVmkTtlMs_def)
  with pending_key_lifetime [OF demo_sink_fields(1) inv, where env = demo_env and g = 1 and
      e = "demo_vault 1" and polls = "[30999, 31000]" and now = 1000]
  show ?thesis by (simp only: Let_def) simp
qed

text \<open>Whatever sequence of these calls a device runs, on any storage and any random or hostile
  inputs, no key outlives its purpose: the Vault key is resident exactly in the unlocked state and
  opens the resident Vault, a key is held only for an operation whose Vault is still to come, and a
  buffer whose key is not held is zero.\<close>

theorem keys_are_accounted_for:
  assumes "device_ok env d0" "sink_reachable env d0 d"
  shows "(rt_vmk_present (dv_runtime d) \<longleftrightarrow> rt_state (dv_runtime d) = Unlocked) \<and>
    (\<not> rt_vmk_present (dv_runtime d) \<longrightarrow> all_zero (rt_vmk (dv_runtime d))) \<and>
    (rt_state (dv_runtime d) = Unlocked \<longrightarrow>
       validate_envelope_with_key (en_gcm env) (rt_envelope (dv_runtime d)) (rt_vmk (dv_runtime d)) =
         Inr (rt_auto_lock_days (dv_runtime d))) \<and>
    (if sk_pending (dv_sink d)
     then bc_operation (sk_pending_context (dv_sink d)) \<in> {InitialProvisioning, Recovery, VmkRekey}
     else all_zero (sk_pending_vmk (dv_sink d)) \<and> \<not> sk_deadline_armed (dv_sink d)) \<and>
    (sn_registration_present (rs_snapshot (dv_store d)) \<longrightarrow>
       valid_p256_public_key (en_p256_point env) (sn_brk_public_key (rs_snapshot (dv_store d))))"
proof -
  have inv: "runtime_inv (en_gcm env) (dv_runtime d)" "store_inv (en_p256_point env) (dv_store d)" "sink_inv (dv_sink d)"
    using sink_reachable_ok [OF assms(2,1)] by (simp_all add: device_ok_def)
  have "(if sk_pending (dv_sink d)
     then bc_operation (sk_pending_context (dv_sink d)) \<in> {InitialProvisioning, Recovery, VmkRekey}
     else all_zero (sk_pending_vmk (dv_sink d)) \<and> \<not> sk_deadline_armed (dv_sink d))"
    using inv(3) by (auto simp: sink_inv_def)
  moreover have "sn_registration_present (rs_snapshot (dv_store d)) \<longrightarrow>
       valid_p256_public_key (en_p256_point env) (sn_brk_public_key (rs_snapshot (dv_store d)))"
    using inv(2) by (auto simp: store_inv_def snapshot_ok_def reg_fields_ok_def)
  ultimately show ?thesis using inv(1) by (simp add: runtime_inv_def)
qed

theorem keys_are_accounted_for_witness:
  "all_zero (sk_pending_vmk (dv_sink (sink_step demo_env (SInitialVault (demo_vault 1) 2000) demo_device))) \<and>
   rt_vmk_present (dv_runtime (sink_step demo_env (SInitialVault (demo_vault 1) 2000) demo_device))"
proof -
  obtain d' where run: "install_initial_vault demo_env (demo_vault 1) 2000 demo_device = (True, d')"
    using demo_install by blast
  note res = provisioning_all_or_nothing [OF demo_device_ok, of "demo_vault 1" 2000 True d' InitialProvisioning 1]
  have "sink_reachable demo_env demo_device (sink_step demo_env (SInitialVault (demo_vault 1) 2000) demo_device)"
    by (rule sink_reachable.call [OF sink_reachable.start])
  from keys_are_accounted_for [OF demo_device_ok(1) this] run res show ?thesis
    by (auto simp: provisioned_def)
qed

end
