(* ===== verification/Protocol_Json.thy ===== *)
theory Protocol_Json
  imports Session_Binding Base64url Trusted_Time
begin

text \<open>
  What the two protocol handlers share: reading the fields of a request and the shape of every
  response (the anonymous namespaces of \<open>m5auth_provisioning/session_protocol_v2.cpp\<close> and
  \<open>canonical_protocol_v2.cpp\<close>, which repeat each other). The JSON library is cJSON, which is not
  part of this repository: \<open>json_api\<close> holds the calls that the handlers make, over an
  unspecified type of items. \<open>js_string\<close> is \<open>Some\<close> of the C string of an item that
  \<open>cJSON_IsString\<close> accepts and whose \<open>valuestring\<close> is not null, \<open>js_number\<close> is \<open>Some\<close> of the
  \<open>valuedouble\<close> of an item that \<open>cJSON_IsNumber\<close> accepts. Every finite double is a
  number \<open>m / 2 ^ k\<close>, which is how \<open>double\<close> has it; \<open>static_cast\<close> to an integer type is then \<open>m div 2 ^ k\<close>.
  \<open>js_print\<close> is the serialization of the tree that a response describes; it may be anything, also
  the text that \<open>serialize\<close> answers when an allocation fails.
\<close>

datatype double = NotFinite | Finite int nat

section \<open>Responses\<close>

text \<open>A tree as the handlers build it. Every number that they add is an integer; as a double it is
  exact below \<open>2 ^ 53\<close>, which only an age of the clock of 285 million years would exceed.\<close>

datatype json_tree =
    JNull
  | JBool bool
  | JNumber int
  | JString bytes
  | JArray "json_tree list"
  | JObject "(string \<times> json_tree) list"

record hello_data =
  he_device :: bytes
  he_device_id :: bytes
  he_firmware :: bytes
  he_persisted_format :: u16
  he_build_commit :: bytes
  he_state :: string
  he_storage_ready :: bool
  he_recovery_reset_required :: bool
  he_vault :: "(bytes \<times> u64) option"
  he_registration :: "(bytes \<times> u32 \<times> bytes) option"

datatype response =
    ErrorResponse int string
  | EmptySuccess int
  | BeginSuccess int bytes bytes bytes u64
  | StateSuccess int string
  | ResetBeginSuccess int bytes
  | HelloSuccess int hello_data
  | TimeStatusSuccess int time_snapshot

text \<open>\<open>std::to_string\<close> of an unsigned number.\<close>

fun decimal :: "nat \<Rightarrow> bytes" where
  "decimal n = (if n < 10 then [of_nat (48 + n)] else decimal (n div 10) @ [of_nat (48 + n mod 10)])"

declare decimal.simps [simp del]

definition response_root :: "int \<Rightarrow> bool \<Rightarrow> (string \<times> json_tree) list" where
  "response_root i ok =
     [(''v'', JNumber (uint kProtocolVersion)), (''id'', JNumber i), (''ok'', JBool ok)]"

definition error_response :: "int \<Rightarrow> string \<Rightarrow> json_tree" where
  "error_response i code =
     JObject (response_root i False @ [(''error'', JObject [(''code'', JString (ascii code))])])"

text \<open>What every success shares: the root with a \<open>data\<close> object.\<close>

definition empty_success :: "int \<Rightarrow> (string \<times> json_tree) list \<Rightarrow> json_tree" where
  "empty_success i data = JObject (response_root i True @ [(''data'', JObject data)])"

definition begin_success_fields :: "bytes \<Rightarrow> bytes \<Rightarrow> bytes \<Rightarrow> u64 \<Rightarrow> (string \<times> json_tree) list" where
  "begin_success_fields attempt challenge device_key remaining =
     [(''attempt_id'', JString (base64url_encode attempt)), (''challenge'', JString (base64url_encode challenge)),
      (''device_public_key'', JString (base64url_encode device_key)), (''expires_in_ms'', JNumber (uint remaining))]"

definition state_success_fields :: "string \<Rightarrow> (string \<times> json_tree) list" where
  "state_success_fields state = [(''state'', JString (ascii state))]"

definition reset_begin_fields :: "bytes \<Rightarrow> (string \<times> json_tree) list" where
  "reset_begin_fields attempt_id =
     [(''attempt_id'', JString (base64url_encode attempt_id)), (''expires_in_ms'', JNumber (uint kAttemptTtlMs))]"

definition hello_fields :: "hello_data \<Rightarrow> (string \<times> json_tree) list" where
  "hello_fields he =
     [(''device'', JString (he_device he)),
      (''device_id'', JString (he_device_id he)),
      (''firmware'', JString (he_firmware he)),
      (''protocol'', JNumber (uint kProtocolVersion)),
      (''storage_schema'', JNumber (uint kTargetStorageSchemaVersion)),
      (''vault_format'', JNumber (uint (he_persisted_format he))),
      (''vault_format_version'', JNumber (uint (he_persisted_format he))),
      (''supported_vault_formats'',
        JArray [JNumber (uint kVaultFormatVersion1), JNumber (uint kVaultFormatVersion2)]),
      (''build_commit'', JString (he_build_commit he)),
      (''state'', JString (ascii (he_state he))),
      (''storage_ready'', JBool (he_storage_ready he)),
      (''recovery_reset_required'', JBool (he_recovery_reset_required he)),
      (''factory_reset_presence_required'', JBool True),
      (''vault_present'', JBool (he_vault he \<noteq> None))] @
     (case he_vault he of
        Some (vault_id, generation) \<Rightarrow>
          [(''vault_id'', JString (base64url_encode vault_id)),
           (''generation'', JString (decimal (unat generation)))]
      | None \<Rightarrow> [(''vault_id'', JNull), (''generation'', JString (ascii ''0''))]) @
     [(''registration_present'', JBool (he_registration he \<noteq> None))] @
     (case he_registration he of
        Some (registration_id, epoch, brk_public_key) \<Rightarrow>
          [(''registration_id'', JString (base64url_encode registration_id)),
           (''registration_epoch'', JNumber (uint epoch)),
           (''brk_public_key'', JString (base64url_encode brk_public_key))]
      | None \<Rightarrow>
          [(''registration_id'', JNull), (''registration_epoch'', JNumber 0), (''brk_public_key'', JNull)])"

definition time_status_fields :: "time_snapshot \<Rightarrow> (string \<times> json_tree) list" where
  "time_status_fields s =
     [(''readiness'', JString (ascii (readiness_name (ts_readiness s)))),
      (''source'', JString (ascii (source_name (ts_source s)))),
      (''source_authenticity'', JString (ascii (source_authenticity_name (ts_source s)))),
      (''last_sync_unix_seconds'', JString (decimal (unat (ts_last_sync_unix_seconds s)))),
      (''age_seconds'', JNumber (ts_age_seconds s)),
      (''resync_due'', JBool (ts_resync_due s))]"

fun response_tree :: "response \<Rightarrow> json_tree" where
  "response_tree (ErrorResponse i code) = error_response i code"
| "response_tree (EmptySuccess i) = empty_success i []"
| "response_tree (BeginSuccess i attempt challenge device_key remaining) =
     empty_success i (begin_success_fields attempt challenge device_key remaining)"
| "response_tree (StateSuccess i state) = empty_success i (state_success_fields state)"
| "response_tree (ResetBeginSuccess i attempt_id) = empty_success i (reset_begin_fields attempt_id)"
| "response_tree (HelloSuccess i he) = empty_success i (hello_fields he)"
| "response_tree (TimeStatusSuccess i s) = empty_success i (time_status_fields s)"

record 'j json_api =
  js_parse :: "bytes \<Rightarrow> 'j option"
  js_is_object :: "'j \<Rightarrow> bool"
  js_item :: "'j \<Rightarrow> string \<Rightarrow> 'j option"
  js_string :: "'j \<Rightarrow> bytes option"
  js_number :: "'j \<Rightarrow> double option"
  js_is_true :: "'j \<Rightarrow> bool"
  js_print :: "json_tree \<Rightarrow> bytes"

text \<open>\<open>response_ok\<close> of the canonical handler parses the text again.\<close>

definition response_ok :: "'j json_api \<Rightarrow> response \<Rightarrow> bool" where
  "response_ok api response =
     (case js_parse api (js_print api (response_tree response)) of
        None \<Rightarrow> False
      | Some root \<Rightarrow> (case js_item api root ''ok'' of None \<Rightarrow> False | Some v \<Rightarrow> js_is_true api v))"

section \<open>Numbers\<close>

definition read_nonnegative_int :: "'j json_api \<Rightarrow> 'j option \<Rightarrow> int option" where
  "read_nonnegative_int api item =
     (case Option.bind item (js_number api) of
        Some (Finite m k) \<Rightarrow>
          if m < 0 \<or> m > 2147483647 * 2 ^ k then None
          else let parsed = m div 2 ^ k in if parsed * 2 ^ k \<noteq> m then None else Some parsed
      | _ \<Rightarrow> None)"

definition read_u32_allow_zero :: "'j json_api \<Rightarrow> 'j option \<Rightarrow> u32 option" where
  "read_u32_allow_zero api item =
     (case Option.bind item (js_number api) of
        Some (Finite m k) \<Rightarrow>
          if m < 0 \<or> m > 4294967295 * 2 ^ k then None
          else let parsed = m div 2 ^ k in if parsed * 2 ^ k \<noteq> m then None else Some (word_of_int parsed)
      | _ \<Rightarrow> None)"

fun parse_u64_loop :: "bytes \<Rightarrow> u64 \<Rightarrow> u64 option" where
  "parse_u64_loop [] parsed = Some parsed"
| "parse_u64_loop (c # cs) parsed =
     (if c < 48 \<or> c > 57 then None
      else let digit = ucast (c - 48)
           in if parsed > (max_u64 - digit) div 10 then None
              else parse_u64_loop cs (parsed * 10 + digit))"

definition parse_u64_decimal :: "bytes \<Rightarrow> u64 option" where
  "parse_u64_decimal v =
     (if v = [] then None
      else if hd v = 48 \<and> tl v \<noteq> [] then None
      else parse_u64_loop v 0)"

definition read_u64_decimal :: "'j json_api \<Rightarrow> 'j option \<Rightarrow> u64 option" where
  "read_u64_decimal api item = Option.bind (Option.bind item (js_string api)) parse_u64_decimal"

section \<open>Strings and binary fields\<close>

definition read_string :: "'j json_api \<Rightarrow> 'j \<Rightarrow> string \<Rightarrow> nat \<Rightarrow> bytes option" where
  "read_string api object key maximum =
     (case Option.bind (js_item api object key) (js_string api) of
        None \<Rightarrow> None
      | Some v \<Rightarrow> if v = [] \<or> length v > maximum then None else Some v)"

definition read_binary :: "'j json_api \<Rightarrow> 'j \<Rightarrow> string \<Rightarrow> nat \<Rightarrow> bytes option" where
  "read_binary api object key n =
     (case Option.bind (js_item api object key) (js_string api) of
        None \<Rightarrow> None
      | Some v \<Rightarrow> (case base64url_decode v of
            None \<Rightarrow> None
          | Some decoded \<Rightarrow> if length decoded \<noteq> n then None else Some decoded))"

text \<open>\<open>None\<close> when the field is malformed, \<open>Some []\<close> when it is absent.\<close>

definition read_optional_signature :: "'j json_api \<Rightarrow> 'j \<Rightarrow> bytes option" where
  "read_optional_signature api object =
     (case js_item api object ''brk_signature'' of
        None \<Rightarrow> Some []
      | Some item \<Rightarrow>
          (case Option.bind (js_string api item) base64url_decode of
             None \<Rightarrow> None
           | Some decoded \<Rightarrow> if length decoded \<noteq> kBrkSignatureBytes then None else Some decoded))"

section \<open>What the readers return\<close>

lemma read_binary_length: "read_binary api object key n = Some v \<Longrightarrow> length v = n"
  by (auto simp: read_binary_def split: option.splits if_splits)

lemma read_optional_signature_length:
  "read_optional_signature api object = Some v \<Longrightarrow> v = [] \<or> length v = kBrkSignatureBytes"
  by (auto simp: read_optional_signature_def split: option.splits if_splits)

lemma double_quotient:
  fixes m :: int
  shows "0 \<le> m \<and> m \<le> b * 2 ^ k \<and> m div 2 ^ k * 2 ^ k = m \<and> m div 2 ^ k = n \<longleftrightarrow>
    m = n * 2 ^ k \<and> 0 \<le> n \<and> n \<le> b"
  by (auto simp: pos_imp_zdiv_nonneg_iff) (metis mult_le_cancel_right_pos zero_less_numeral zero_less_power)+

lemma read_nonnegative_int_iff:
  "read_nonnegative_int api item = Some n \<longleftrightarrow>
     (\<exists>k. Option.bind item (js_number api) = Some (Finite (n * 2 ^ k) k)) \<and> 0 \<le> n \<and> n \<le> 2147483647"
proof -
  have "read_nonnegative_int api item = Some n \<longleftrightarrow>
      (\<exists>m k. Option.bind item (js_number api) = Some (Finite m k) \<and>
        (0 \<le> m \<and> m \<le> 2147483647 * 2 ^ k \<and> m div 2 ^ k * 2 ^ k = m \<and> m div 2 ^ k = n))"
    by (auto simp: read_nonnegative_int_def Let_def not_less split: option.splits double.splits if_splits)
  then show ?thesis unfolding double_quotient by auto
qed

definition digits_value :: "bytes \<Rightarrow> nat \<Rightarrow> nat" where
  "digits_value v n = fold (\<lambda>c n. n * 10 + (unat c - 48)) v n"

lemma digits_value_simps [simp]:
  "digits_value [] n = n" "digits_value (c # v) n = digits_value v (n * 10 + (unat c - 48))"
  "digits_value (v @ w) n = digits_value w (digits_value v n)"
  by (simp_all add: digits_value_def)

lemma digits_value_ge: "n \<le> digits_value v n"
proof (induction v arbitrary: n)
  case (Cons c v)
  have "n \<le> n * 10 + (unat c - 48)" by simp
  also have "\<dots> \<le> digits_value v (n * 10 + (unat c - 48))" by (rule Cons)
  finally show ?case by simp
qed simp

definition digit_char :: "byte \<Rightarrow> bool" where "digit_char c \<longleftrightarrow> 48 \<le> c \<and> c \<le> 57"

lemma digit_char_nat: "digit_char c \<longleftrightarrow> 48 \<le> unat c \<and> unat c \<le> 57"
  by (simp add: digit_char_def word_le_nat_alt)

text \<open>One step of the loop: the overflow test is exact.\<close>

lemma parse_digit:
  assumes "digit_char c"
  shows "parsed > (max_u64 - ucast (c - 48)) div 10 \<longleftrightarrow> 2 ^ 64 \<le> unat parsed * 10 + (unat c - 48)"
    and "unat parsed * 10 + (unat c - 48) < 2 ^ 64 \<Longrightarrow>
      unat (parsed * 10 + ucast (c - 48)) = unat parsed * 10 + (unat c - 48)"
proof -
  have c: "unat (c - 48) = unat c - 48" "unat c - 48 \<le> 9"
    using assms by (auto simp: digit_char_nat unat_sub word_le_nat_alt)
  have d: "unat (ucast (c - 48) :: u64) = unat c - 48"
    using c by (simp add: unsigned_ucast_eq take_bit_nat_eq_self)
  have "unat (max_u64 - ucast (c - 48)) = 2 ^ 64 - 1 - (unat c - 48)"
    using d by (simp add: unat_sub)
  then show "parsed > (max_u64 - ucast (c - 48)) div 10 \<longleftrightarrow> 2 ^ 64 \<le> unat parsed * 10 + (unat c - 48)"
    using c(2) by (auto simp: word_less_nat_alt unat_div)
  assume "unat parsed * 10 + (unat c - 48) < 2 ^ 64"
  then show "unat (parsed * 10 + ucast (c - 48)) = unat parsed * 10 + (unat c - 48)"
    using d by (simp add: unat_word_ariths)
qed

lemma parse_u64_loop_iff:
  "parse_u64_loop v parsed = Some n \<longleftrightarrow>
     list_all digit_char v \<and> digits_value v (unat parsed) = unat n"
proof (induction v arbitrary: parsed)
  case Nil
  then show ?case by (auto intro: word_unat_eq_iff [THEN iffD2])
next
  case (Cons c v)
  show ?case
  proof (cases "digit_char c")
    case False
    then show ?thesis by (auto simp: digit_char_def not_le)
  next
    case True
    note step = parse_digit [OF True, of parsed]
    show ?thesis
    proof (cases "2 ^ 64 \<le> unat parsed * 10 + (unat c - 48)")
      case over: True
      have "2 ^ 64 \<le> digits_value v (unat parsed * 10 + (unat c - 48))"
        using over digits_value_ge order_trans by blast
      then have "digits_value v (unat parsed * 10 + (unat c - 48)) \<noteq> unat n"
        using unat_u64_less [of n] by simp
      moreover have "parse_u64_loop (c # v) parsed = None"
        using over step(1) by (simp add: Let_def)
      ultimately show ?thesis by simp
    next
      case False
      then have "parse_u64_loop (c # v) parsed = parse_u64_loop v (parsed * 10 + ucast (c - 48))"
        using step(1) True by (simp add: digit_char_def Let_def) (simp add: not_less [symmetric])
      then show ?thesis using Cons step(2) False True by simp
    qed
  qed
qed

section \<open>Decimal numbers\<close>

lemma of_nat_digit: "n < 10 \<Longrightarrow> unat (of_nat (48 + n) :: byte) = 48 + n"
  by (simp add: unat_of_nat take_bit_nat_eq_self del: of_nat_add)

lemma digit_of_nat: "n < 10 \<Longrightarrow> digit_char (of_nat (48 + n))"
  using of_nat_digit [of n] by (simp add: digit_char_nat)

lemma decimal_digits: "list_all digit_char (decimal n) \<and> digits_value (decimal n) 0 = n \<and> decimal n \<noteq> []"
proof (induction n rule: decimal.induct)
  case (1 n)
  show ?case
  proof (cases "n < 10")
    case True
    then show ?thesis using digit_of_nat of_nat_digit by (subst (1 2 3) decimal.simps) (simp del: of_nat_add)
  next
    case False
    then show ?thesis using 1 digit_of_nat [of "n mod 10"] of_nat_digit [of "n mod 10"]
      by (subst (1 2 3) decimal.simps) (simp del: of_nat_add)
  qed
qed

lemma decimal_leading: "hd (decimal n) = 48 \<Longrightarrow> tl (decimal n) = []"
proof (induction n rule: decimal.induct)
  case (1 n)
  show ?case
  proof (cases "n < 10")
    case True
    then show ?thesis by (subst decimal.simps) simp
  next
    case False
    then have d: "decimal n = decimal (n div 10) @ [of_nat (48 + n mod 10)]"
      by (subst decimal.simps) simp
    have "hd (decimal (n div 10)) = 48"
      using 1(2) decimal_digits [of "n div 10"] by (simp add: d del: of_nat_add)
    with 1(1) False have "tl (decimal (n div 10)) = []" by simp
    then have "decimal (n div 10) = [48]"
      using \<open>hd (decimal (n div 10)) = 48\<close> decimal_digits [of "n div 10"] by (cases "decimal (n div 10)") auto
    then have "n div 10 = 0" using decimal_digits [of "n div 10"] by simp
    then show ?thesis using False by simp
  qed
qed

lemma digit_of_unat: "digit_char c \<Longrightarrow> of_nat (48 + (unat c - 48)) = c"
  by (simp add: digit_char_nat del: of_nat_add)

lemma decimal_unique:
  assumes "list_all digit_char v" "v \<noteq> []" "hd v = 48 \<Longrightarrow> tl v = []"
  shows "v = decimal (digits_value v 0)"
  using assms
proof (induction v rule: rev_induct)
  case Nil
  then show ?case by simp
next
  case (snoc c w)
  have c: "digit_char c" "unat c - 48 < 10" using snoc.prems by (auto simp: digit_char_nat)
  show ?case
  proof (cases "w = []")
    case True
    then show ?thesis using c digit_of_unat by (subst decimal.simps) (simp del: of_nat_add)
  next
    case False
    then have nz: "hd w \<noteq> 48" using snoc.prems by (cases w) auto
    have IH: "w = decimal (digits_value w 0)" using snoc False nz by simp
    have "1 \<le> digits_value w 0"
    proof (cases w)
      case (Cons d u)
      then have "1 \<le> unat d - 48"
        using snoc.prems nz by (auto simp: digit_char_nat word_unat_eq_iff)
      then show ?thesis using Cons digits_value_ge [of "unat d - 48" u] by simp
    qed (use False in simp)
    then have "\<not> digits_value w 0 * 10 + (unat c - 48) < 10" by simp
    moreover have "(digits_value w 0 * 10 + (unat c - 48)) div 10 = digits_value w 0"
      "(digits_value w 0 * 10 + (unat c - 48)) mod 10 = unat c - 48"
      using c(2) by simp_all
    ultimately have "decimal (digits_value w 0 * 10 + (unat c - 48)) = decimal (digits_value w 0) @ [c]"
      using digit_of_unat [OF c(1)] by (subst decimal.simps) (simp del: of_nat_add)
    then show ?thesis using IH by simp
  qed
qed

lemma parse_u64_decimal_unique: "parse_u64_decimal v = Some n \<longleftrightarrow> v = decimal (unat n)"
proof
  assume "parse_u64_decimal v = Some n"
  then show "v = decimal (unat n)"
    using decimal_unique [of v] by (auto simp: parse_u64_decimal_def parse_u64_loop_iff split: if_splits)
next
  assume v: "v = decimal (unat n)"
  then show "parse_u64_decimal v = Some n"
    using decimal_digits [of "unat n"] decimal_leading [of "unat n"]
    by (simp add: parse_u64_decimal_def parse_u64_loop_iff)
qed

text \<open>The decimal form of a 64-bit number is canonical: \<open>parse_u64_decimal\<close> accepts exactly the
  texts that \<open>std::to_string\<close> writes (no sign, no leading zero, nothing after the digits, at most
  18446744073709551615), and returns the number written.\<close>

theorem parse_u64_decimal_iff: "parse_u64_decimal v = Some n \<longleftrightarrow> v = decimal (unat n)"
  by (rule parse_u64_decimal_unique)

end
