(* ===== verification/Session_Handler.thy ===== *)
theory Session_Handler
  imports Protocol_Json Delivery
begin

text \<open>
  The handler of the \<open>session.*\<close> requests (class \<open>StagedSessionV2Handler\<close> of
  \<open>m5auth_provisioning/session_protocol_v2.cpp\<close>). It owns the context that a session was begun
  with and drives the attempt coordinator; the device is reached through the abstract classes
  \<open>SessionV2BindingSource\<close> and \<open>SessionV2VmkSink\<close>, here \<open>session_device\<close>, whose state is \<open>'d\<close>.

  The entropy of an attempt is an argument of each call. Wiping a request before it is freed, and
  wiping local buffers, has no observable effect and is not represented.
\<close>

definition kMaxSessionV2MessageBytes :: nat where "kMaxSessionV2MessageBytes = 2048"

record 'd session_device =
  sd_snapshot :: "'d \<Rightarrow> device_snapshot option"
  sd_install_vmk :: "begin_context \<Rightarrow> bytes \<Rightarrow> 'd \<Rightarrow> bool \<times> 'd"

text \<open>What never changes during the life of the handler.\<close>

record ('k, 'p, 'd, 'j) session_setup =
  se_json :: "'j json_api"
  se_p256_point :: "bytes \<Rightarrow> bool"
  se_primitives :: "'k session_primitives"
  se_presence :: "'p presence_ops"
  se_device :: "'d session_device"

record ('k, 'p) session_handler =
  sh_coordinator :: "'k coordinator"
  sh_presence :: 'p
  sh_context :: begin_context
  sh_context_active :: bool

definition new_session_handler :: "'p \<Rightarrow> ('k, 'p) session_handler" where
  "new_session_handler p = \<lparr>sh_coordinator = initial_coordinator, sh_presence = p,
     sh_context = initial_context, sh_context_active = False\<rparr>"

text \<open>\<open>session_v2_message_too_large_response\<close>.\<close>

definition message_too_large :: response where
  "message_too_large = ErrorResponse 0 ''message_too_large''"

section \<open>The context\<close>

definition clear_context :: "('k, 'p) session_handler \<Rightarrow> ('k, 'p) session_handler" where
  "clear_context h = h\<lparr>sh_context := (sh_context h)\<lparr>bc_device_id := [],
       bc_vault_id := wipe (bc_vault_id (sh_context h)), bc_expected_generation := 0,
       bc_registration_id := wipe (bc_registration_id (sh_context h)), bc_registration_epoch := 0,
       bc_current_brk_public_key := wipe (bc_current_brk_public_key (sh_context h)),
       bc_proposed_brk_public_key := wipe (bc_proposed_brk_public_key (sh_context h))\<rparr>,
     sh_context_active := False\<rparr>"

text \<open>A call on the coordinator and its presence provider.\<close>

definition on_coordinator ::
  "('k coordinator \<times> 'p \<Rightarrow> 'k coordinator \<times> 'p) \<Rightarrow> ('k, 'p) session_handler \<Rightarrow> ('k, 'p) session_handler" where
  "on_coordinator f h = (case f (sh_coordinator h, sh_presence h) of (c, p) \<Rightarrow>
     h\<lparr>sh_coordinator := c, sh_presence := p\<rparr>)"

definition session_disconnect ::
  "'p presence_ops \<Rightarrow> ('k, 'p) session_handler \<Rightarrow> ('k, 'p) session_handler" where
  "session_disconnect ops h = clear_context (on_coordinator (coordinator_cancel ops) h)"

definition fail_closed ::
  "'p presence_ops \<Rightarrow> int \<Rightarrow> string \<Rightarrow> ('k, 'p) session_handler \<Rightarrow> response \<times> ('k, 'p) session_handler" where
  "fail_closed ops i code h =
     (ErrorResponse i code, clear_context (on_coordinator (coordinator_cancel ops) h))"

definition session_handler_expire ::
  "'p presence_ops \<Rightarrow> u64 \<Rightarrow> ('k, 'p) session_handler \<Rightarrow> bool \<times> ('k, 'p) session_handler" where
  "session_handler_expire ops now_ms h =
     (case coordinator_expire ops now_ms (sh_coordinator h, sh_presence h) of (expired, c, p) \<Rightarrow>
        let h = h\<lparr>sh_coordinator := c, sh_presence := p\<rparr>
        in if \<not> expired then (False, h) else (True, clear_context h))"

definition current_binding_matches ::
  "'d session_device \<Rightarrow> 'd \<Rightarrow> ('k, 'p) session_handler \<Rightarrow> bool" where
  "current_binding_matches dev d h =
     (if \<not> sh_context_active h then False
      else case sd_snapshot dev d of
        None \<Rightarrow> False
      | Some snapshot \<Rightarrow> session_v2_begin_matches_snapshot (sh_context h) snapshot)"

text \<open>The test that \<open>authorize\<close>, \<open>status\<close> and \<open>complete\<close> share: the handler's attempt is this one.\<close>

definition current_attempt :: "bytes \<Rightarrow> ('k, 'p) session_handler \<Rightarrow> bool" where
  "current_attempt attempt h \<longleftrightarrow> sh_context_active h \<and> co_active (sh_coordinator h) \<and>
     constant_time_equal attempt (ad_attempt_id (co_descriptor (sh_coordinator h)))"

section \<open>Requests\<close>

definition parse_begin_context :: "'j json_api \<Rightarrow> 'j \<Rightarrow> begin_context option" where
  "parse_begin_context api params = do {
     name \<leftarrow> read_string api params ''operation'' 32;
     operation \<leftarrow> parse_operation name;
     device_id \<leftarrow> read_string api params ''device_id'' kMaxDeviceIdBytes;
     vault_id \<leftarrow> read_binary api params ''vault_id'' kTranscriptVaultIdBytes;
     registration_id \<leftarrow> read_binary api params ''registration_id'' kRegistrationIdBytes;
     epoch \<leftarrow> read_u32_allow_zero api (js_item api params ''registration_epoch'');
     current_key \<leftarrow> read_binary api params ''current_brk_public_key'' kP256PublicKeyBytes;
     proposed_key \<leftarrow> read_binary api params ''proposed_brk_public_key'' kP256PublicKeyBytes;
     generation \<leftarrow> read_u64_decimal api (js_item api params ''expected_generation'');
     Some \<lparr>bc_operation = operation, bc_device_id = device_id, bc_vault_id = vault_id,
       bc_expected_generation = generation, bc_registration_id = registration_id,
       bc_registration_epoch = epoch, bc_current_brk_public_key = current_key,
       bc_proposed_brk_public_key = proposed_key\<rparr> }"

definition begin_success :: "int \<Rightarrow> attempt_descriptor \<Rightarrow> u64 \<Rightarrow> response" where
  "begin_success i descriptor now_ms =
     BeginSuccess i (ad_attempt_id descriptor) (ad_challenge descriptor) (ad_device_public_key descriptor)
       (if ad_expires_at_ms descriptor > now_ms then ad_expires_at_ms descriptor - now_ms else 0)"

definition attempt_state_name :: "attempt_state \<Rightarrow> string" where
  "attempt_state_name state = (case state of
     AttemptIdle \<Rightarrow> ''cancelled'' | AwaitingAuthorization \<Rightarrow> ''awaiting_authorization''
   | AwaitingPresence \<Rightarrow> ''awaiting_presence'' | AttemptConfirmed \<Rightarrow> ''confirmed'')"

definition session_begin_request ::
  "('k, 'p, 'd, 'j) session_setup \<Rightarrow> 'k session_entropy \<Rightarrow> int \<Rightarrow> 'j \<Rightarrow> u64 \<Rightarrow> 'd \<Rightarrow>
   ('k, 'p) session_handler \<Rightarrow> response \<times> ('k, 'p) session_handler" where
  "session_begin_request se entropy i params now_ms d h =
     (let h = clear_context (on_coordinator (coordinator_cancel (se_presence se)) h)
      in case parse_begin_context (se_json se) params of
        None \<Rightarrow> (ErrorResponse i ''invalid_request'', h)
      | Some parsed \<Rightarrow>
          case sd_snapshot (se_device se) d of
            None \<Rightarrow> (ErrorResponse i ''invalid_state'', h)
          | Some snapshot \<Rightarrow>
              if \<not> session_v2_begin_matches_snapshot parsed snapshot
              then (ErrorResponse i ''binding_mismatch'', h)
              else case coordinator_begin (se_p256_point se) (se_presence se) entropy parsed now_ms
                          (sh_coordinator h, sh_presence h) of
                (None, c, p) \<Rightarrow>
                  (ErrorResponse i ''invalid_request'', h\<lparr>sh_coordinator := c, sh_presence := p\<rparr>)
              | (Some descriptor, c, p) \<Rightarrow>
                  (begin_success i descriptor now_ms,
                   h\<lparr>sh_coordinator := c, sh_presence := p, sh_context := parsed,
                     sh_context_active := True\<rparr>))"

definition session_authorize_request ::
  "('k, 'p, 'd, 'j) session_setup \<Rightarrow> int \<Rightarrow> 'j \<Rightarrow> u64 \<Rightarrow> 'd \<Rightarrow>
   ('k, 'p) session_handler \<Rightarrow> response \<times> ('k, 'p) session_handler" where
  "session_authorize_request se i params now_ms d h =
     (case (do { attempt \<leftarrow> read_binary (se_json se) params ''attempt_id'' kAttemptIdBytes;
                 web_public \<leftarrow> read_binary (se_json se) params ''web_public_key'' kP256PublicKeyBytes;
                 signature \<leftarrow> read_optional_signature (se_json se) params;
                 Some (attempt, web_public, signature) }) of
        None \<Rightarrow> fail_closed (se_presence se) i ''invalid_request'' h
      | Some (attempt, web_public, signature) \<Rightarrow>
          if \<not> current_attempt attempt h then fail_closed (se_presence se) i ''stale_attempt'' h
          else if \<not> current_binding_matches (se_device se) d h
          then fail_closed (se_presence se) i ''binding_mismatch'' h
          else case coordinator_authorize (se_p256_point se) (se_primitives se) (se_presence se)
                      web_public signature now_ms (sh_coordinator h, sh_presence h) of
            (authorized, c, p) \<Rightarrow>
              let h = h\<lparr>sh_coordinator := c, sh_presence := p\<rparr>
              in if \<not> authorized then (ErrorResponse i ''authentication_failed'', clear_context h)
                 else (EmptySuccess i, h))"

definition session_status_request ::
  "('k, 'p, 'd, 'j) session_setup \<Rightarrow> int \<Rightarrow> 'j \<Rightarrow> u64 \<Rightarrow> 'd \<Rightarrow>
   ('k, 'p) session_handler \<Rightarrow> response \<times> ('k, 'p) session_handler" where
  "session_status_request se i params now_ms d h =
     (case read_binary (se_json se) params ''attempt_id'' kAttemptIdBytes of
        None \<Rightarrow> fail_closed (se_presence se) i ''invalid_request'' h
      | Some attempt \<Rightarrow>
          if \<not> current_attempt attempt h then fail_closed (se_presence se) i ''stale_attempt'' h
          else if \<not> current_binding_matches (se_device se) d h
          then fail_closed (se_presence se) i ''binding_mismatch'' h
          else case coordinator_expire (se_presence se) now_ms (sh_coordinator h, sh_presence h) of
            (expired, c, p) \<Rightarrow>
              let h = h\<lparr>sh_coordinator := c, sh_presence := p\<rparr>
              in if expired then (StateSuccess i ''expired'', clear_context h)
                 else (StateSuccess i (attempt_state_name (coordinator_state (se_presence se) (c, p))), h))"

definition session_complete_request ::
  "('k, 'p, 'd, 'j) session_setup \<Rightarrow> int \<Rightarrow> 'j \<Rightarrow> u64 \<Rightarrow>
   ('k, 'p) session_handler \<times> 'd \<Rightarrow> response \<times> ('k, 'p) session_handler \<times> 'd" where
  "session_complete_request se i params now_ms st = (case st of (h, d) \<Rightarrow>
     case (do { attempt \<leftarrow> read_binary (se_json se) params ''attempt_id'' kAttemptIdBytes;
                nonce \<leftarrow> read_binary (se_json se) params ''nonce'' kSessionNonceBytes;
                ciphertext \<leftarrow> read_binary (se_json se) params ''ciphertext'' kSessionKeyBytes;
                tag \<leftarrow> read_binary (se_json se) params ''tag'' kSessionTagBytes;
                Some (attempt, nonce, ciphertext, tag) }) of
        None \<Rightarrow> (case fail_closed (se_presence se) i ''invalid_request'' h of (r, h) \<Rightarrow> (r, h, d))
      | Some (attempt, nonce, ciphertext, tag) \<Rightarrow>
          if \<not> current_attempt attempt h
          then (case fail_closed (se_presence se) i ''stale_attempt'' h of (r, h) \<Rightarrow> (r, h, d))
          else if \<not> current_binding_matches (se_device se) d h
          then (case fail_closed (se_presence se) i ''binding_mismatch'' h of (r, h) \<Rightarrow> (r, h, d))
          else case coordinator_complete (se_primitives se) (se_presence se) nonce ciphertext tag now_ms
                      (sh_coordinator h, sh_presence h) of
            (opened, vmk, c, p) \<Rightarrow>
              let h = h\<lparr>sh_coordinator := c, sh_presence := p\<rparr>
              in if \<not> opened then (ErrorResponse i ''session_rejected'', clear_context h, d)
                 else if \<not> current_binding_matches (se_device se) d h
                 then (ErrorResponse i ''binding_mismatch'', clear_context h, d)
                 else case sd_install_vmk (se_device se) (sh_context h) vmk d of
                   (installed, d) \<Rightarrow>
                     (if installed then EmptySuccess i else ErrorResponse i ''invalid_state'',
                      clear_context h, d))"

definition session_cancel_request ::
  "('k, 'p, 'd, 'j) session_setup \<Rightarrow> int \<Rightarrow> 'j \<Rightarrow>
   ('k, 'p) session_handler \<Rightarrow> response \<times> ('k, 'p) session_handler" where
  "session_cancel_request se i params h =
     (case read_binary (se_json se) params ''attempt_id'' kAttemptIdBytes of
        None \<Rightarrow> fail_closed (se_presence se) i ''invalid_request'' h
      | Some attempt \<Rightarrow>
          if \<not> sh_context_active h \<or> \<not> co_active (sh_coordinator h)
          then (EmptySuccess i, clear_context h)
          else if \<not> constant_time_equal attempt (ad_attempt_id (co_descriptor (sh_coordinator h)))
          then fail_closed (se_presence se) i ''stale_attempt'' h
          else (EmptySuccess i, clear_context (on_coordinator (coordinator_cancel (se_presence se)) h)))"

text \<open>The dispatch on \<open>op\<close>.\<close>

definition session_request ::
  "('k, 'p, 'd, 'j) session_setup \<Rightarrow> 'k session_entropy \<Rightarrow> int \<Rightarrow> bytes \<Rightarrow> 'j \<Rightarrow> u64 \<Rightarrow>
   ('k, 'p) session_handler \<times> 'd \<Rightarrow> response \<times> ('k, 'p) session_handler \<times> 'd" where
  "session_request se entropy i operation params now_ms st = (case st of (h, d) \<Rightarrow>
     if operation = ascii ''session.begin'' then
       (case session_begin_request se entropy i params now_ms d h of (r, h) \<Rightarrow> (r, h, d))
     else if operation = ascii ''session.authorize'' then
       (case session_authorize_request se i params now_ms d h of (r, h) \<Rightarrow> (r, h, d))
     else if operation = ascii ''session.status'' then
       (case session_status_request se i params now_ms d h of (r, h) \<Rightarrow> (r, h, d))
     else if operation = ascii ''session.complete'' then
       session_complete_request se i params now_ms (h, d)
     else if operation = ascii ''session.cancel'' then
       (case session_cancel_request se i params h of (r, h) \<Rightarrow> (r, h, d))
     else (case fail_closed (se_presence se) i ''unsupported_op'' h of (r, h) \<Rightarrow> (r, h, d)))"

text \<open>\<open>StagedSessionV2Handler::handle_line\<close>.\<close>

definition session_handle_line ::
  "('k, 'p, 'd, 'j) session_setup \<Rightarrow> 'k session_entropy \<Rightarrow> bytes \<Rightarrow> u64 \<Rightarrow>
   ('k, 'p) session_handler \<times> 'd \<Rightarrow> response \<times> ('k, 'p) session_handler \<times> 'd" where
  "session_handle_line se entropy line now_ms st = (case st of (h, d) \<Rightarrow>
     let api = se_json se;
         failed = (\<lambda>i code. case fail_closed (se_presence se) i code h of (r, h) \<Rightarrow> (r, h, d))
     in if line = [] then failed 0 ''invalid_request''
        else if length line > kMaxSessionV2MessageBytes then failed 0 ''message_too_large''
        else case js_parse api line of
          None \<Rightarrow> failed 0 ''invalid_json''
        | Some root \<Rightarrow>
            if \<not> js_is_object api root then failed 0 ''invalid_json''
            else case read_nonnegative_int api (js_item api root ''id'') of
              None \<Rightarrow> failed 0 ''invalid_id''
            | Some i \<Rightarrow>
                if read_nonnegative_int api (js_item api root ''v'') \<noteq> Some (uint kProtocolVersion)
                then failed i ''unsupported_version''
                else case (Option.bind (js_item api root ''op'') (js_string api), js_item api root ''params'') of
                  (Some operation, Some params) \<Rightarrow>
                    if \<not> js_is_object api params then failed i ''invalid_request''
                    else session_request se entropy i operation params now_ms (h, d)
                | _ \<Rightarrow> failed i ''invalid_request'')"

end
