(* ===== verification/Session_Handler_Correct.thy ===== *)
theory Session_Handler_Correct
  imports Session_Handler
begin

text \<open>
  The session handler and its coordinator stay in step: an active attempt is always the one of the
  context that the handler remembers, a request for presence is always the one of that attempt,
  and every answer that is an error leaves no session behind. Everything is proved for any
  presence provider that keeps the contract \<open>presence_binding\<close>.
\<close>

section \<open>Outcomes of the coordinator\<close>

definition coordinator_idle :: "'k coordinator \<Rightarrow> bool" where
  "coordinator_idle c \<longleftrightarrow> \<not> co_active c \<and> co_state c = AttemptIdle \<and> co_crypto c = session_reset"

lemma idle_cancel: "coordinator_idle (fst (coordinator_cancel ops st))"
  by (simp add: coordinator_idle_def cancel_idle)

lemma idle_initial: "coordinator_idle initial_coordinator"
  by (simp add: coordinator_idle_def initial_coordinator_def)

lemma session_begin_None: "session_begin e now s = (None, s') \<Longrightarrow> s' = session_reset"
  by (auto simp: session_begin_def Let_def split: option.splits if_splits)

lemma coordinator_begin_None:
  assumes "coordinator_begin p256 ops e ctx now st = (None, c, p)"
  shows "coordinator_idle c \<and> p = po_cancel ops (snd st)"
  using assms idle_cancel [of ops st] cancel_idle(4) [of ops st]
  by (auto simp: coordinator_begin_def coordinator_idle_def dest: session_begin_None
      split: prod.splits option.splits if_splits)

lemma coordinator_begin_Some:
  assumes "coordinator_begin p256 ops e ctx now st = (Some g, c, p)"
  shows "context_valid p256 ctx \<and> co_active c \<and> co_context c = ctx \<and> co_descriptor c = g \<and>
    co_state c = AwaitingAuthorization \<and> session_holds (co_crypto c) g \<and>
    ad_expires_at_ms g = deadline_from now \<and> p = po_cancel ops (snd st)"
  using assms cancel_idle(4) [of ops st]
  by (auto simp: coordinator_begin_def dest: session_begin_Some split: prod.splits option.splits if_splits)

lemma coordinator_authorize_idle:
  "coordinator_authorize p256 prim ops web sig now st = (False, c, p) \<Longrightarrow> coordinator_idle c"
  using coordinator_authorize_False [of p256 prim ops web sig now "fst st" "snd st" "(c, p)"] idle_cancel
  by (metis fst_conv prod.collapse)

lemma open_vmk_reset_eq: "open_vmk prim w salt info n c tag aad now s = (b, v, s') \<Longrightarrow> s' = session_reset"
  by (metis open_vmk_resets snd_conv)

lemma coordinator_complete_reset:
  "coordinator_idle (fst (snd (snd (coordinator_complete prim ops nonce ct tag now st))))"
  using coordinator_complete_idle [of prim ops nonce ct tag now st] idle_cancel [of ops]
  by (cases st) (auto simp: coordinator_complete_def coordinator_idle_def Let_def cancel_idle open_vmk_resets
      split: if_splits prod.splits bool.splits dest: open_vmk_reset_eq)

lemma coordinator_expire_cases:
  assumes "coordinator_expire ops now (c, p) = (b, c', p')"
  shows "if b then coordinator_idle c' \<and> p' = po_cancel ops p else c' = c \<and> p' = p"
proof (cases b)
  case True
  then have "\<exists>c''. coordinator_cancel ops (c'', p) = (c', p')"
    using assms by (auto simp: coordinator_expire_def Let_def split: if_splits prod.splits)
  then obtain c'' where "coordinator_cancel ops (c'', p) = (c', p')" by blast
  then show ?thesis
    using True idle_cancel [of ops "(c'', p)"] cancel_idle(4) [of ops "(c'', p)"] by (metis fst_conv snd_conv)
next
  case False
  then show ?thesis
    using assms by (auto simp: coordinator_expire_def device_ttl.expire_eq Let_def split: if_splits)
qed

section \<open>The invariant of the handler\<close>

definition handler_idle :: "('k, 'p) session_handler \<Rightarrow> bool" where
  "handler_idle h \<longleftrightarrow> \<not> sh_context_active h \<and> coordinator_idle (sh_coordinator h)"

definition attempt_shown ::
  "('p \<Rightarrow> (presence_operation_kind \<times> bytes) option) \<Rightarrow> 'k coordinator \<Rightarrow> 'p \<Rightarrow> bool" where
  "attempt_shown request c p \<longleftrightarrow> co_state c = AwaitingPresence \<longrightarrow>
     request p \<in> {Some (presence_operation (bc_operation (co_context c)), ad_attempt_id (co_descriptor c)), None}"

definition handler_inv ::
  "('p \<Rightarrow> (presence_operation_kind \<times> bytes) option) \<Rightarrow> ('k, 'p) session_handler \<Rightarrow> bool" where
  "handler_inv request h \<longleftrightarrow> (let c = sh_coordinator h in
     if co_active c
     then sh_context_active h \<and> co_context c = sh_context h \<and>
       co_state c \<in> {AwaitingAuthorization, AwaitingPresence} \<and> attempt_shown request c (sh_presence h)
     else coordinator_idle c)"

lemma handler_idle_inv: "handler_idle h \<Longrightarrow> handler_inv request h"
  by (simp add: handler_idle_def handler_inv_def coordinator_idle_def Let_def)

lemma clear_context_simps [simp]:
  "sh_coordinator (clear_context h) = sh_coordinator h" "sh_presence (clear_context h) = sh_presence h"
  "\<not> sh_context_active (clear_context h)"
  by (simp_all add: clear_context_def)

lemma clear_context_idle: "handler_idle (clear_context h) \<longleftrightarrow> coordinator_idle (sh_coordinator h)"
  by (simp add: handler_idle_def)

lemma on_cancel:
  "coordinator_idle (sh_coordinator (on_coordinator (coordinator_cancel ops) h))"
  "sh_presence (on_coordinator (coordinator_cancel ops) h) = po_cancel ops (sh_presence h)"
  using idle_cancel [of ops "(sh_coordinator h, sh_presence h)"]
    cancel_idle(4) [of ops "(sh_coordinator h, sh_presence h)"]
  by (auto simp: on_coordinator_def split: prod.split)

lemma disconnect_idle: "handler_idle (session_disconnect ops h)"
  "sh_presence (session_disconnect ops h) = po_cancel ops (sh_presence h)"
  by (simp_all add: session_disconnect_def clear_context_idle on_cancel)

lemma fail_closed_idle: "fail_closed ops i code h = (r, h') \<Longrightarrow>
    r = ErrorResponse i code \<and> handler_idle h' \<and> sh_presence h' = po_cancel ops (sh_presence h)"
  by (auto simp: fail_closed_def clear_context_idle on_cancel)

fun is_error :: "response \<Rightarrow> bool" where
  "is_error (ErrorResponse _ _) = True"
| "is_error _ = False"

text \<open>What a request may do to the handler: leave it idle, open an attempt, move it, or keep it.\<close>

lemma begin_request_cases:
  assumes "session_begin_request se e i params now d h = (r, h')"
  shows "is_error r \<and> handler_idle h' \<or>
    (\<exists>ctx g. r = begin_success i g now \<and> sh_context h' = ctx \<and> sh_context_active h' \<and>
       parse_begin_context (se_json se) params = Some ctx \<and> current_binding_matches (se_device se) d h' \<and>
       coordinator_begin (se_p256_point se) (se_presence se) e ctx now
         (fst (coordinator_cancel (se_presence se) (sh_coordinator h, sh_presence h)), po_cancel (se_presence se) (sh_presence h))
         = (Some g, sh_coordinator h', sh_presence h'))"
proof -
  let ?ops = "se_presence se"
  define h0 where "h0 = clear_context (on_coordinator (coordinator_cancel ?ops) h)"
  have h0: "handler_idle h0" "sh_presence h0 = po_cancel ?ops (sh_presence h)"
    "sh_coordinator h0 = fst (coordinator_cancel ?ops (sh_coordinator h, sh_presence h))"
    by (simp_all add: h0_def clear_context_idle on_cancel) (simp add: on_coordinator_def split: prod.split)
  show ?thesis
  proof (cases "coordinator_begin (se_p256_point se) ?ops e (the (parse_begin_context (se_json se) params)) now
      (sh_coordinator h0, sh_presence h0)")
    case (fields g c p)
    show ?thesis
    proof (cases g)
      case None
      then have "coordinator_idle c" using coordinator_begin_None [OF fields [unfolded None]] by simp
      then show ?thesis
        using assms h0(1) fields None
        by (auto simp: session_begin_request_def h0_def [symmetric] Let_def handler_idle_def
            split: option.splits if_splits)
    next
      case (Some g')
      then show ?thesis
        using assms h0 fields
        by (auto simp: session_begin_request_def h0_def [symmetric] Let_def current_binding_matches_def
            split: option.splits if_splits)
    qed
  qed
qed

lemma authorize_request_cases:
  assumes "session_authorize_request se i params now d h = (r, h')"
  shows "is_error r \<and> handler_idle h' \<or>
    (\<exists>attempt web sig. r = EmptySuccess i \<and> current_attempt attempt h \<and> current_binding_matches (se_device se) d h \<and>
       sh_context h' = sh_context h \<and> sh_context_active h' \<and>
       coordinator_authorize (se_p256_point se) (se_primitives se) (se_presence se) web sig now
         (sh_coordinator h, sh_presence h) = (True, sh_coordinator h', sh_presence h'))"
  using assms
  by (auto simp: session_authorize_request_def Let_def clear_context_idle current_attempt_def
      split: option.splits if_splits prod.splits
      dest: fail_closed_idle coordinator_authorize_idle) blast+

lemma status_request_cases:
  assumes "session_status_request se i params now d h = (r, h')"
  shows "handler_idle h' \<or> h' = h \<and> \<not> is_error r"
  using assms
  by (auto simp: session_status_request_def Let_def clear_context_idle
      split: option.splits if_splits prod.splits
      dest!: fail_closed_idle coordinator_expire_cases)

lemma cancel_request_cases:
  assumes "session_cancel_request se i params h = (r, h')" "handler_inv request h"
  shows "handler_idle h'"
  using assms
  by (auto simp: session_cancel_request_def clear_context_idle on_cancel handler_inv_def Let_def
      split: option.splits if_splits dest: fail_closed_idle)

lemma complete_request_cases:
  assumes "session_complete_request se i params now (h, d) = (r, h', d')"
  shows "handler_idle h' \<and> (d' = d \<and> is_error r \<or>
    (\<exists>attempt nonce ct tag vmk c p installed.
       current_attempt attempt h \<and> current_binding_matches (se_device se) d h \<and>
       coordinator_complete (se_primitives se) (se_presence se) nonce ct tag now
         (sh_coordinator h, sh_presence h) = (True, vmk, c, p) \<and>
       sd_install_vmk (se_device se) (sh_context h) vmk d = (installed, d') \<and> (is_error r \<longleftrightarrow> \<not> installed)))"
proof -
  have idle: "coordinator_idle c"
    if "coordinator_complete (se_primitives se) (se_presence se) nonce ct tag now
        (sh_coordinator h, sh_presence h) = (b, vmk, c, p)" for nonce ct tag b vmk c p
    using coordinator_complete_reset [of "se_primitives se" "se_presence se" nonce ct tag now
        "(sh_coordinator h, sh_presence h)"] that by simp
  show ?thesis
    using assms
    by (auto simp: session_complete_request_def Let_def clear_context_idle current_attempt_def
        split: option.splits if_splits prod.splits dest: fail_closed_idle idle) blast+
qed

section \<open>Every line\<close>

text \<open>What a line may have done: nothing that leaves a session (an error, a cancellation, an expiry),
  a report, an authenticated step, or a delivery.\<close>

definition attempt_opened ::
  "('k, 'p, 'd, 'j) session_setup \<Rightarrow> u64 \<Rightarrow> ('k, 'p) session_handler \<Rightarrow> 'd \<Rightarrow> ('k, 'p) session_handler \<Rightarrow> bool" where
  "attempt_opened se now h d h' \<longleftrightarrow> sh_context_active h' \<and> current_binding_matches (se_device se) d h' \<and>
     (\<exists>e c0 g. coordinator_begin (se_p256_point se) (se_presence se) e (sh_context h') now
        (c0, po_cancel (se_presence se) (sh_presence h)) = (Some g, sh_coordinator h', sh_presence h'))"

definition attempt_authenticated ::
  "('k, 'p, 'd, 'j) session_setup \<Rightarrow> u64 \<Rightarrow> ('k, 'p) session_handler \<Rightarrow> 'd \<Rightarrow> ('k, 'p) session_handler \<Rightarrow> bool" where
  "attempt_authenticated se now h d h' \<longleftrightarrow> sh_context_active h \<and> current_binding_matches (se_device se) d h \<and>
     sh_context h' = sh_context h \<and> sh_context_active h' \<and>
     (\<exists>web sig. coordinator_authorize (se_p256_point se) (se_primitives se) (se_presence se) web sig now
        (sh_coordinator h, sh_presence h) = (True, sh_coordinator h', sh_presence h'))"

definition key_delivered ::
  "('k, 'p, 'd, 'j) session_setup \<Rightarrow> u64 \<Rightarrow> ('k, 'p) session_handler \<Rightarrow> 'd \<Rightarrow> 'd \<Rightarrow> bool \<Rightarrow> bool" where
  "key_delivered se now h d d' installed \<longleftrightarrow> sh_context_active h \<and> co_active (sh_coordinator h) \<and>
     current_binding_matches (se_device se) d h \<and>
     (\<exists>nonce ct tag vmk c p. coordinator_complete (se_primitives se) (se_presence se) nonce ct tag now
         (sh_coordinator h, sh_presence h) = (True, vmk, c, p) \<and>
       sd_install_vmk (se_device se) (sh_context h) vmk d = (installed, d'))"

definition line_outcome ::
  "('k, 'p, 'd, 'j) session_setup \<Rightarrow> u64 \<Rightarrow> ('k, 'p) session_handler \<times> 'd \<Rightarrow>
   response \<times> ('k, 'p) session_handler \<times> 'd \<Rightarrow> bool" where
  "line_outcome se now st out \<longleftrightarrow> (case (st, out) of ((h, d), (r, h', d')) \<Rightarrow>
     handler_idle h' \<and> d' = d \<or>
     \<not> is_error r \<and> d' = d \<and> (h' = h \<or> attempt_opened se now h d h' \<or> attempt_authenticated se now h d h') \<or>
     handler_idle h' \<and> (\<exists>installed. key_delivered se now h d d' installed \<and> (is_error r \<longleftrightarrow> \<not> installed)))"

lemma fail_outcome:
  "line_outcome se now (h, d) (case fail_closed ops i code h of (r, h') \<Rightarrow> (r, h', d))"
  using fail_closed_idle [of ops i code h] by (cases "fail_closed ops i code h") (simp add: line_outcome_def)

lemma begin_outcome:
  "line_outcome se now (h, d) (case session_begin_request se e i params now d h of (r, h') \<Rightarrow> (r, h', d))"
proof -
  obtain r h' where f: "session_begin_request se e i params now d h = (r, h')" by (metis prod.collapse)
  then show ?thesis using begin_request_cases [OF f]
    by (auto simp: line_outcome_def attempt_opened_def begin_success_def)
qed

lemma authorize_outcome:
  "line_outcome se now (h, d) (case session_authorize_request se i params now d h of (r, h') \<Rightarrow> (r, h', d))"
proof -
  obtain r h' where f: "session_authorize_request se i params now d h = (r, h')" by (metis prod.collapse)
  then show ?thesis using authorize_request_cases [OF f]
    by (auto simp: line_outcome_def attempt_authenticated_def current_attempt_def)
qed

lemma status_outcome:
  "line_outcome se now (h, d) (case session_status_request se i params now d h of (r, h') \<Rightarrow> (r, h', d))"
proof -
  obtain r h' where f: "session_status_request se i params now d h = (r, h')" by (metis prod.collapse)
  then show ?thesis using status_request_cases [OF f] by (auto simp: line_outcome_def)
qed

lemma complete_outcome: "line_outcome se now (h, d) (session_complete_request se i params now (h, d))"
proof -
  obtain r h' d' where f: "session_complete_request se i params now (h, d) = (r, h', d')" by (metis prod_cases3)
  then show ?thesis using complete_request_cases [OF f]
    unfolding line_outcome_def key_delivered_def current_attempt_def prod.case f by blast
qed

lemma cancel_outcome:
  assumes "handler_inv request h"
  shows "line_outcome se now (h, d) (case session_cancel_request se i params h of (r, h') \<Rightarrow> (r, h', d))"
proof -
  obtain r h' where f: "session_cancel_request se i params h = (r, h')" by (metis prod.collapse)
  then show ?thesis using cancel_request_cases [OF f assms] by (simp add: line_outcome_def)
qed

lemma session_request_outcome:
  assumes "handler_inv request h"
  shows "line_outcome se now (h, d) (session_request se e i operation params now (h, d))"
  by (simp add: session_request_def begin_outcome authorize_outcome status_outcome complete_outcome
      fail_outcome cancel_outcome [OF assms] del: split_paired_All)

lemma session_line_outcome:
  assumes "handler_inv request h"
  shows "line_outcome se now (h, d) (session_handle_line se e line now (h, d))"
  by (simp add: session_handle_line_def Let_def fail_outcome session_request_outcome [OF assms]
      split: option.split)

lemma session_line_cases:
  assumes "session_handle_line se e line now (h, d) = (r, h', d')" "handler_inv request h"
  shows "handler_idle h' \<and> d' = d \<or> \<not> is_error r \<and> d' = d \<and>
      (h' = h \<or> attempt_opened se now h d h' \<or> attempt_authenticated se now h d h')
    \<or> handler_idle h' \<and> (\<exists>installed. key_delivered se now h d d' installed \<and> (is_error r \<longleftrightarrow> \<not> installed))"
  using session_line_outcome [OF assms(2), of se now d e line] unfolding assms(1) line_outcome_def by simp

context presence_binding begin

lemma opened_inv:
  "attempt_opened se now h d h' \<Longrightarrow> se_presence se = ops \<Longrightarrow> handler_inv request h'"
  by (auto simp: attempt_opened_def handler_inv_def attempt_shown_def Let_def dest: coordinator_begin_Some)

lemma authenticated_inv:
  assumes "attempt_authenticated se now h d h'" "se_presence se = ops" "handler_inv request h"
  shows "handler_inv request h'"
proof -
  obtain web sig where a: "coordinator_authorize (se_p256_point se) (se_primitives se) ops web sig now
      (sh_coordinator h, sh_presence h) = (True, sh_coordinator h', sh_presence h')"
    and c: "sh_context h' = sh_context h" "sh_context_active h'"
    using assms(1,2) by (auto simp: attempt_authenticated_def)
  note au = coordinator_authorize_True [OF a]
  then have "request (sh_presence h') = Some (presence_operation (bc_operation (co_context (sh_coordinator h))),
      ad_attempt_id (co_descriptor (sh_coordinator h)))"
    using begin_request by (metis snd_conv)
  then show ?thesis
    using au c assms(3) by (auto simp: handler_inv_def attempt_shown_def Let_def)
qed

lemma session_line_inv:
  assumes "session_handle_line se e line now (h, d) = (r, h', d')" "se_presence se = ops" "handler_inv request h"
  shows "handler_inv request h'"
  using session_line_cases [OF assms(1,3)] opened_inv [OF _ assms(2)] authenticated_inv [OF _ assms(2,3)]
    handler_idle_inv assms(3) by blast

lemma handler_expire_inv:
  assumes "handler_inv request h"
  shows "handler_inv request (snd (session_handler_expire ops now h))"
proof -
  obtain b c p where r: "coordinator_expire ops now (sh_coordinator h, sh_presence h) = (b, c, p)"
    by (metis prod_cases3)
  show ?thesis
  proof (cases b)
    case True
    then show ?thesis using coordinator_expire_cases [OF r]
      by (intro handler_idle_inv) (simp add: session_handler_expire_def r handler_idle_def Let_def)
  next
    case False
    then show ?thesis using coordinator_expire_cases [OF r] assms
      by (simp add: session_handler_expire_def r Let_def)
  qed
qed

text \<open>What an active attempt asks the user for is what is shown, so a delivery consumed a
  confirmation of exactly this operation and attempt.\<close>

lemma delivered_presence:
  assumes "key_delivered se now h d d' installed" "se_presence se = ops" "handler_inv request h"
  shows "po_confirmed ops (sh_presence h) \<and> co_context (sh_coordinator h) = sh_context h \<and>
    request (sh_presence h) = Some (presence_operation (bc_operation (sh_context h)),
      ad_attempt_id (co_descriptor (sh_coordinator h)))"
proof -
  obtain nonce ct tag vmk c p where k: "coordinator_complete (se_primitives se) ops nonce ct tag now
      (sh_coordinator h, sh_presence h) = (True, vmk, c, p)"
    using assms(1,2) by (auto simp: key_delivered_def)
  note co = coordinator_complete_True [OF k]
  then have "fst (po_consume ops (ad_attempt_id (co_descriptor (sh_coordinator h))) now (sh_presence h))" by blast
  from consume_confirmed [OF this] show ?thesis
    using assms(3) co by (auto simp: handler_inv_def attempt_shown_def Let_def)
qed

end

end
