(* ===== verification/Time_Service.thy ===== *)
theory Time_Service
  imports Vault_Runtime_Correct Trusted_Time
begin

text \<open>
  The time service (class \<open>TimeService\<close> of \<open>m5auth_time/canonical_time_service.cpp\<close>): it brings the
  Wi-Fi station up with the credentials of the Vault, asks an NTP server once, takes the network down
  again and offers the sample to the trusted clock. ESP-IDF and FreeRTOS are not part of this
  repository: \<open>esp_env\<close> holds the calls that the service makes, over an unspecified state \<open>'e\<close>;
  every call may fail and change that state in any way.

  The methods that take \<open>sync_mutex_\<close> exclude each other, so each is one function of the service's
  state. The Vault runtime is reached under its own mutex for the copy of the credentials only, and
  is an argument here. The periodic task is a sequence of \<open>resync_if_due\<close> calls.
\<close>

definition kMinAcceptedUnixSeconds :: u64 where "kMinAcceptedUnixSeconds = 1577836800"
definition kMaxAcceptedUnixSeconds :: u64 where "kMaxAcceptedUnixSeconds = 4102444800"
definition kInitialNtpRetrySeconds :: int where "kInitialNtpRetrySeconds = 60"

definition kMaxSsidBytes :: nat where "kMaxSsidBytes = 32"
definition kMaxPasswordBytes :: nat where "kMaxPasswordBytes = 64"

datatype sync_result =
    SyncOk | SyncNotConfigured | SyncLocked | SyncNotDue | SyncInvalidTime | SyncRejectedJump
  | SyncNetworkUnavailable | SyncFailed | SyncInternalError

definition sync_result_code :: "sync_result \<Rightarrow> string" where
  "sync_result_code result = (case result of
     SyncOk \<Rightarrow> ''ok'' | SyncNotConfigured \<Rightarrow> ''wifi_not_configured'' | SyncLocked \<Rightarrow> ''invalid_state''
   | SyncNotDue \<Rightarrow> ''time_sync_not_due'' | SyncInvalidTime \<Rightarrow> ''invalid_time''
   | SyncRejectedJump \<Rightarrow> ''time_jump_rejected'' | SyncNetworkUnavailable \<Rightarrow> ''network_unavailable''
   | SyncFailed \<Rightarrow> ''time_sync_failed'' | SyncInternalError \<Rightarrow> ''time_internal_error'')"

definition acceptable_unix_seconds :: "u64 \<Rightarrow> bool" where
  "acceptable_unix_seconds unix_seconds \<longleftrightarrow>
     unix_seconds \<ge> kMinAcceptedUnixSeconds \<and> unix_seconds \<le> kMaxAcceptedUnixSeconds"

section \<open>The platform\<close>

text \<open>\<open>sizeof(config.sta.ssid)\<close> and \<open>sizeof(config.sta.password)\<close> are 32 and 64 in ESP-IDF. The calls that
  return an \<open>esp_err_t\<close>, or nothing, are the constructors of \<open>esp_call\<close>; a delay and a timeout are
  in ticks (\<open>TickType_t\<close>, 32 bits), and \<open>ee_ticks\<close> is \<open>pdMS_TO_TICKS\<close>.\<close>

datatype esp_call =
    NetifInit | EventLoopCreateDefault | WifiInit | WifiSetStorageRam | WifiSetModeSta
  | WifiSetConfig bytes bytes | WifiStart | WifiConnect | StaGetApInfo
  | SntpInit bytes | SntpSyncWait u32 | SntpDeinit
  | WifiDisconnect | WifiStop | WifiDeinit | NetifDestroyWifi
  | TaskDelay u32 | SetTimeOfDay u64

datatype net_err = NetOk | NetInvalidState | NetFail

record 'e esp_env =
  ee_call :: "esp_call \<Rightarrow> 'e \<Rightarrow> net_err \<times> 'e"
  ee_create_station :: "'e \<Rightarrow> bool \<times> 'e"
  ee_ip_address :: "'e \<Rightarrow> u32 option \<times> 'e"
  ee_gettimeofday :: "'e \<Rightarrow> int option \<times> 'e"
  ee_timer :: "'e \<Rightarrow> int \<times> 'e"
  ee_ticks :: "nat \<Rightarrow> u32"

record 'e time_service =
  tv_clock :: trusted_clock
  tv_network_initialized :: bool
  tv_station :: bool
  tv_last_initial_attempt_us :: int
  tv_last_periodic_attempt_us :: int
  tv_env :: 'e

definition new_time_service :: "'e \<Rightarrow> 'e time_service" where
  "new_time_service e = \<lparr>tv_clock = initial_clock, tv_network_initialized = False, tv_station = False,
     tv_last_initial_attempt_us = -1, tv_last_periodic_attempt_us = -1, tv_env = e\<rparr>"

text \<open>One call on the platform.\<close>

definition on_env :: "('e \<Rightarrow> 'a \<times> 'e) \<Rightarrow> 'e time_service \<Rightarrow> 'a \<times> 'e time_service" where
  "on_env f ts = (case f (tv_env ts) of (r, e) \<Rightarrow> (r, ts\<lparr>tv_env := e\<rparr>))"

definition esp :: "'e esp_env \<Rightarrow> esp_call \<Rightarrow> 'e time_service \<Rightarrow> net_err \<times> 'e time_service" where
  "esp env c = on_env (ee_call env c)"

section \<open>The network\<close>

definition destroy_station :: "'e esp_env \<Rightarrow> 'e time_service \<Rightarrow> 'e time_service" where
  "destroy_station env ts = (snd (esp env NetifDestroyWifi ts))\<lparr>tv_station := False\<rparr>"

definition teardown_network :: "'e esp_env \<Rightarrow> 'e time_service \<Rightarrow> 'e time_service" where
  "teardown_network env ts =
     (let ts = (if tv_network_initialized ts then
            (let (_, ts) = esp env WifiDisconnect ts; (_, ts) = esp env WifiStop ts;
                 (_, ts) = esp env WifiDeinit ts
             in ts\<lparr>tv_network_initialized := False\<rparr>) else ts)
      in if tv_station ts then destroy_station env ts else ts)"

definition ensure_network_initialized :: "'e esp_env \<Rightarrow> 'e time_service \<Rightarrow> bool \<times> 'e time_service" where
  "ensure_network_initialized env ts =
     (if tv_network_initialized ts then (True, ts)
      else
        let (result, ts) = esp env NetifInit ts
        in if result \<noteq> NetOk \<and> result \<noteq> NetInvalidState then (False, ts)
           else
             let (result, ts) = esp env EventLoopCreateDefault ts
             in if result \<noteq> NetOk \<and> result \<noteq> NetInvalidState then (False, ts)
                else
                  let (created, ts) = on_env (ee_create_station env) ts; ts = ts\<lparr>tv_station := created\<rparr>
                  in if \<not> created then (False, ts)
                     else
                       let (result, ts) = esp env WifiInit ts
                       in if result \<noteq> NetOk then (False, destroy_station env ts)
                          else
                            let (result, ts) = esp env WifiSetStorageRam ts
                            in if result \<noteq> NetOk
                               then (False, destroy_station env (snd (esp env WifiDeinit ts)))
                               else
                                 let (result, ts) = esp env WifiSetModeSta ts
                                 in if result \<noteq> NetOk
                                    then (False, destroy_station env (snd (esp env WifiDeinit ts)))
                                    else (True, ts\<lparr>tv_network_initialized := True\<rparr>))"

text \<open>The condition of the polling loop, with its short-circuit evaluation.\<close>

definition station_has_address :: "'e esp_env \<Rightarrow> 'e time_service \<Rightarrow> bool \<times> 'e time_service" where
  "station_has_address env ts =
     (let (result, ts) = esp env StaGetApInfo ts
      in if result \<noteq> NetOk then (False, ts)
         else let (address, ts) = on_env (ee_ip_address env) ts
              in (case address of None \<Rightarrow> False | Some a \<Rightarrow> a \<noteq> 0, ts))"

text \<open>The loop may run for ever: it advances by \<open>pdMS_TO_TICKS(100)\<close>, which is zero when the tick is
  coarser than that. \<open>None\<close> is not returning.\<close>

partial_function (option) wait_for_address ::
  "'e esp_env \<Rightarrow> u32 \<Rightarrow> 'e time_service \<Rightarrow> (bool \<times> 'e time_service) option" where
  "wait_for_address env waited ts =
     (if waited < ee_ticks env 6000 then
        (case station_has_address env ts of (got_ip, ts) \<Rightarrow>
           if got_ip then Some (True, ts)
           else wait_for_address env (waited + ee_ticks env 100)
                  (snd (esp env (TaskDelay (ee_ticks env 100)) ts)))
      else Some (False, ts))"

section \<open>Synchronization\<close>

definition sntp_sample :: "'e esp_env \<Rightarrow> 'e time_service \<Rightarrow> u64 option \<times> 'e time_service" where
  "sntp_sample env ts =
     (let (result, ts) = esp env (SntpSyncWait (ee_ticks env 8000)) ts
      in if result \<noteq> NetOk then (None, ts)
         else let (now, ts) = on_env (ee_gettimeofday env) ts
              in (case now of None \<Rightarrow> None
                  | Some seconds \<Rightarrow>
                      if seconds \<ge> 0 \<and> acceptable_unix_seconds (word_of_int seconds)
                      then Some (word_of_int seconds) else None, ts))"

definition connect_and_sync ::
  "'e esp_env \<Rightarrow> bytes \<Rightarrow> bytes \<Rightarrow> 'e time_service \<Rightarrow> (sync_result \<times> 'e time_service) option" where
  "connect_and_sync env ssid password ts =
     (let failed = (\<lambda>ts. Some (SyncFailed, teardown_network env ts))
      in if ssid = [] \<or> length ssid > kMaxSsidBytes \<or> password = [] \<or> length password > kMaxPasswordBytes
      then Some (SyncFailed, ts)
      else case ensure_network_initialized env ts of (initialized, ts) \<Rightarrow>
        if \<not> initialized then Some (SyncNetworkUnavailable, ts)
        else case esp env (WifiSetConfig ssid password) ts of (result, ts) \<Rightarrow>
          if result \<noteq> NetOk then failed ts
          else case esp env WifiStart ts of (result, ts) \<Rightarrow>
            if result \<noteq> NetOk then failed ts
            else case esp env WifiConnect ts of (result, ts) \<Rightarrow>
              if result \<noteq> NetOk then failed ts
              else case wait_for_address env 0 ts of
                None \<Rightarrow> None
              | Some (got_ip, ts) \<Rightarrow>
                  if \<not> got_ip then failed ts
                  else case esp env (SntpInit (ascii ''pool.ntp.org'')) ts of (result, ts) \<Rightarrow>
                    if result \<noteq> NetOk then failed ts
                    else case sntp_sample env ts of (sample, ts) \<Rightarrow>
                      let ts = teardown_network env (snd (esp env SntpDeinit ts))
                      in case sample of
                        None \<Rightarrow> Some (SyncFailed, ts)
                      | Some seconds \<Rightarrow>
                          (case on_env (ee_timer env) ts of (monotonic_us, ts) \<Rightarrow>
                           case accept_ntp_sample seconds monotonic_us (tv_clock ts) of (accepted, c) \<Rightarrow>
                             Some (if accepted then SyncOk else SyncRejectedJump, ts\<lparr>tv_clock := c\<rparr>)))"

text \<open>The credentials are copied out of the Vault; the copies are wiped on every path.\<close>

definition copy_credentials ::
  "gcm \<Rightarrow> runtime \<Rightarrow> status \<times> (bytes \<times> bytes) option \<times> runtime" where
  "copy_credentials g r =
     with_wifi g (Some (\<lambda>wifi _. (Ok, Some (wifi_ssid wifi, wifi_password wifi)))) None r"

definition sync_ntp_once ::
  "'e esp_env \<Rightarrow> gcm \<Rightarrow> runtime \<times> 'e time_service \<Rightarrow> (sync_result \<times> runtime \<times> 'e time_service) option" where
  "sync_ntp_once env g st = (case st of (r, ts) \<Rightarrow>
     case copy_credentials g r of (status, copied, r) \<Rightarrow>
       if status = NotFound then Some (SyncNotConfigured, r, ts)
       else if status = StLocked \<or> status = InvalidState then Some (SyncLocked, r, ts)
       else if status \<noteq> Ok then Some (SyncInternalError, r, ts)
       else case connect_and_sync env (case copied of None \<Rightarrow> [] | Some c \<Rightarrow> fst c)
                 (case copied of None \<Rightarrow> [] | Some c \<Rightarrow> snd c) ts of
         None \<Rightarrow> None
       | Some (outcome, ts) \<Rightarrow> Some (outcome, r, ts))"

text \<open>At most three attempts, with 1 and 3 seconds between them. The first argument holds the delays
  that are left; there is none after the last attempt.\<close>

fun boot_attempts ::
  "u32 option list \<Rightarrow> 'e esp_env \<Rightarrow> gcm \<Rightarrow> sync_result \<Rightarrow> runtime \<times> 'e time_service \<Rightarrow>
   (sync_result \<times> runtime \<times> 'e time_service) option" where
  "boot_attempts [] env g result st = (case st of (r, ts) \<Rightarrow> Some (result, r, ts))"
| "boot_attempts (backoff # rest) env g _ st =
     (case sync_ntp_once env g st of
        None \<Rightarrow> None
      | Some (result, r, ts) \<Rightarrow>
          if result \<in> {SyncOk, SyncNotConfigured, SyncLocked, SyncInternalError} then Some (result, r, ts)
          else boot_attempts rest env g result
                 (r, case backoff of None \<Rightarrow> ts | Some ticks \<Rightarrow> snd (esp env (TaskDelay ticks) ts)))"

definition boot_sync ::
  "'e esp_env \<Rightarrow> gcm \<Rightarrow> runtime \<times> 'e time_service \<Rightarrow> (sync_result \<times> runtime \<times> 'e time_service) option" where
  "boot_sync env g st =
     boot_attempts [Some (ee_ticks env 1000), Some (ee_ticks env 3000), None] env g SyncNotConfigured st"

definition sync_from_usb ::
  "'e esp_env \<Rightarrow> u64 \<Rightarrow> runtime \<Rightarrow> 'e time_service \<Rightarrow> sync_result \<times> 'e time_service" where
  "sync_from_usb env unix_seconds r ts =
     (if \<not> acceptable_unix_seconds unix_seconds then (SyncInvalidTime, ts)
      else if \<not> unlocked r then (SyncLocked, ts)
      else
        let (result, ts) = esp env (SetTimeOfDay unix_seconds) ts
        in if result \<noteq> NetOk then (SyncInternalError, ts)
           else let (now, ts) = on_env (ee_timer env) ts
                in (SyncOk, ts\<lparr>tv_clock := mark_synchronized unix_seconds now SourceUsb (tv_clock ts)\<rparr>))"

text \<open>\<open>resync_if_due\<close> looks at the clock before it takes the mutex, and again afterwards; other
  methods may run between the two, so they are two definitions.\<close>

definition resync_wanted :: "'e esp_env \<Rightarrow> 'e time_service \<Rightarrow> bool \<times> 'e time_service" where
  "resync_wanted env ts =
     (let (before_lock, ts) = on_env (ee_timer env) ts; before = clock_snapshot before_lock (tv_clock ts)
      in (ts_readiness before = NotSynced \<or> ts_resync_due before, ts))"

definition resync_locked ::
  "'e esp_env \<Rightarrow> gcm \<Rightarrow> runtime \<times> 'e time_service \<Rightarrow> (sync_result \<times> runtime \<times> 'e time_service) option" where
  "resync_locked env g st = (case st of (r, ts) \<Rightarrow>
     case on_env (ee_timer env) ts of (now, ts) \<Rightarrow>
       let current = clock_snapshot now (tv_clock ts)
       in if ts_readiness current = NotSynced then
            (if tv_last_initial_attempt_us ts \<ge> 0
                \<and> now - tv_last_initial_attempt_us ts < kInitialNtpRetrySeconds * 1000000
             then Some (SyncNotDue, r, ts)
             else case sync_ntp_once env g (r, ts) of
               None \<Rightarrow> None
             | Some (result, r, ts) \<Rightarrow>
                 let ts = (if result \<noteq> SyncLocked then ts\<lparr>tv_last_initial_attempt_us := now\<rparr> else ts);
                     ts = (if result = SyncOk then ts\<lparr>tv_last_initial_attempt_us := -1\<rparr> else ts)
                 in Some (result, r, ts))
          else if \<not> ts_resync_due current then Some (SyncNotDue, r, ts)
          else if tv_last_periodic_attempt_us ts \<ge> 0
              \<and> now - tv_last_periodic_attempt_us ts < kResyncIntervalSeconds * 1000000
          then Some (SyncNotDue, r, ts)
          else sync_ntp_once env g (r, ts\<lparr>tv_last_periodic_attempt_us := now\<rparr>))"

definition resync_if_due ::
  "'e esp_env \<Rightarrow> gcm \<Rightarrow> runtime \<times> 'e time_service \<Rightarrow> (sync_result \<times> runtime \<times> 'e time_service) option" where
  "resync_if_due env g st = (case st of (r, ts) \<Rightarrow>
     case resync_wanted env ts of (wanted, ts) \<Rightarrow>
       if \<not> wanted then Some (SyncNotDue, r, ts) else resync_locked env g (r, ts))"

definition time_status :: "'e esp_env \<Rightarrow> 'e time_service \<Rightarrow> time_snapshot \<times> 'e time_service" where
  "time_status env ts =
     (let (now, ts) = on_env (ee_timer env) ts in (clock_snapshot now (tv_clock ts), ts))"

definition service_unix_seconds :: "'e esp_env \<Rightarrow> 'e time_service \<Rightarrow> u64 option \<times> 'e time_service" where
  "service_unix_seconds env ts =
     (let (now, ts) = on_env (ee_timer env) ts in (current_unix_seconds now (tv_clock ts), ts))"

text \<open>\<open>with_secret_boundary\<close>: the network goes down before the callback runs.\<close>

definition with_secret_boundary ::
  "'e esp_env \<Rightarrow> ('e time_service \<Rightarrow> 'a) \<Rightarrow> 'e time_service \<Rightarrow> 'a" where
  "with_secret_boundary env callback ts = callback (teardown_network env ts)"

end
