(* ===== verification/Time_Service_Correct.thy ===== *)
theory Time_Service_Correct
  imports Time_Service Vault_Runtime_Samples
begin

text \<open>
  Synchronizing the time never leaves the network up, returns, and only moves the trusted clock to an
  acceptable sample that the bounded-jump rule admits. What the platform must do for the first is the
  documented behaviour of \<open>esp_wifi_init\<close> and \<open>esp_wifi_deinit\<close>: only a successful initialization
  creates the driver, and deinitialization frees it with the configuration held in RAM.
\<close>

definition driver_contract :: "'e esp_env \<Rightarrow> ('e \<Rightarrow> bool) \<Rightarrow> bool" where
  "driver_contract env up \<longleftrightarrow>
     (\<forall>c e. up (snd (ee_call env c e)) \<longrightarrow> up e \<or> c = WifiInit \<and> fst (ee_call env c e) = NetOk) \<and>
     (\<forall>e. \<not> up (snd (ee_call env WifiDeinit e))) \<and>
     (\<forall>e. up (snd (ee_create_station env e)) \<longrightarrow> up e) \<and>
     (\<forall>e. up (snd (ee_ip_address env e)) \<longrightarrow> up e) \<and>
     (\<forall>e. up (snd (ee_gettimeofday env e)) \<longrightarrow> up e) \<and>
     (\<forall>e. up (snd (ee_timer env e)) \<longrightarrow> up e)"

definition network_down :: "('e \<Rightarrow> bool) \<Rightarrow> 'e time_service \<Rightarrow> bool" where
  "network_down up ts \<longleftrightarrow> \<not> tv_network_initialized ts \<and> \<not> tv_station ts \<and> \<not> up (tv_env ts)"

text \<open>In between, \<open>teardown_network\<close> can still take the driver down.\<close>

definition closable :: "('e \<Rightarrow> bool) \<Rightarrow> 'e time_service \<Rightarrow> bool" where
  "closable up ts \<longleftrightarrow> (up (tv_env ts) \<longrightarrow> tv_network_initialized ts)"

lemma network_down_closable: "network_down up ts \<Longrightarrow> closable up ts"
  by (simp add: network_down_def closable_def)

section \<open>Single calls\<close>

lemma on_env_eq: "on_env f ts = (fst (f (tv_env ts)), ts\<lparr>tv_env := snd (f (tv_env ts))\<rparr>)"
  by (simp add: on_env_def split: prod.split)

lemma esp_eq: "esp env c ts = (fst (ee_call env c (tv_env ts)), ts\<lparr>tv_env := snd (ee_call env c (tv_env ts))\<rparr>)"
  by (simp add: esp_def on_env_eq)

text \<open>Under the contract, what each call does to the driver.\<close>

lemma driver_calls:
  assumes "driver_contract env up"
  shows "up (snd (ee_call env c e)) \<Longrightarrow> c \<noteq> WifiInit \<or> fst (ee_call env c e) \<noteq> NetOk \<Longrightarrow> up e"
    "\<not> up (snd (ee_call env WifiDeinit e))"
    "up (snd (ee_create_station env e)) \<Longrightarrow> up e" "up (snd (ee_ip_address env e)) \<Longrightarrow> up e"
    "up (snd (ee_gettimeofday env e)) \<Longrightarrow> up e" "up (snd (ee_timer env e)) \<Longrightarrow> up e"
  using assms unfolding driver_contract_def by blast+

lemma driver_stays_down:
  assumes "driver_contract env up"
  shows "\<not> up e \<Longrightarrow> c \<noteq> WifiInit \<Longrightarrow> \<not> up (snd (ee_call env c e))"
    "\<not> up e \<Longrightarrow> \<not> up (snd (ee_timer env e))"
  using driver_calls [OF assms] by blast+

lemma esp_closable:
  "driver_contract env up \<Longrightarrow> closable up ts \<Longrightarrow> c \<noteq> WifiInit \<Longrightarrow> closable up (snd (esp env c ts))"
  by (auto simp: closable_def esp_eq dest: driver_calls(1))

lemma esp_initialized [simp]: "tv_network_initialized (snd (esp env c ts)) = tv_network_initialized ts"
  and esp_clock [simp]: "tv_clock (snd (esp env c ts)) = tv_clock ts"
  by (simp_all add: esp_eq)

lemma destroy_eq: "destroy_station env ts = ts\<lparr>tv_station := False, tv_env := snd (ee_call env NetifDestroyWifi (tv_env ts))\<rparr>"
  by (simp add: destroy_station_def esp_eq)

lemma teardown_clock [simp]: "tv_clock (teardown_network env ts) = tv_clock ts"
  by (simp add: teardown_network_def Let_def esp_eq destroy_eq)

lemma teardown_down:
  assumes "driver_contract env up" "closable up ts"
  shows "network_down up (teardown_network env ts)"
  using assms(2) driver_calls(2) [OF assms(1)]
  by (auto simp: teardown_network_def Let_def esp_eq destroy_eq network_down_def closable_def
      dest: driver_calls(1) [OF assms(1)])

section \<open>Bringing the network up\<close>

lemma ensure_clock: "tv_clock (snd (ensure_network_initialized env ts)) = tv_clock ts"
  by (simp add: ensure_network_initialized_def Let_def esp_eq on_env_eq destroy_eq)

lemma ensure_down:
  assumes c: "driver_contract env up" and down: "network_down up ts"
    and run: "ensure_network_initialized env ts = (b, ts')"
  shows "if b then tv_network_initialized ts' else network_down up ts'"
proof -
  have n: "\<not> tv_network_initialized ts" "\<not> tv_station ts" "\<not> up (tv_env ts)"
    using down by (simp_all add: network_down_def)
  define e1 where "e1 = snd (ee_call env NetifInit (tv_env ts))"
  define e2 where "e2 = snd (ee_call env EventLoopCreateDefault e1)"
  define e3 where "e3 = snd (ee_create_station env e2)"
  define e4 where "e4 = snd (ee_call env WifiInit e3)"
  note defs = e1_def [symmetric] e2_def [symmetric] e3_def [symmetric] e4_def [symmetric]
  have "\<not> up e1" using driver_calls(1) [OF c] n(3) by (simp add: e1_def) blast
  then have "\<not> up e2" "\<not> up e1" using driver_calls(1) [OF c] by (simp_all add: e2_def) blast
  then have "\<not> up e3" "\<not> up e2" "\<not> up e1" using driver_calls(3) [OF c] by (simp_all add: e3_def) blast
  moreover have "fst (ee_call env WifiInit e3) \<noteq> NetOk \<Longrightarrow> \<not> up e4"
    using driver_calls(1) [OF c] \<open>\<not> up e3\<close> by (simp add: e4_def) blast
  ultimately have down: "\<not> up e1" "\<not> up e2" "\<not> up e3"
    "fst (ee_call env WifiInit e3) \<noteq> NetOk \<Longrightarrow> \<not> up e4" by blast+
  have destroy: "\<not> up e \<Longrightarrow> \<not> up (snd (ee_call env NetifDestroyWifi e))" for e
    using driver_calls(1) [OF c] by blast
  have "case ensure_network_initialized env ts of (b, ts') \<Rightarrow>
      if b then tv_network_initialized ts' else network_down up ts'"
    using n by (simp add: ensure_network_initialized_def esp_eq on_env_eq destroy_eq defs Let_def
        network_down_def down destroy driver_calls(2) [OF c])
  then show ?thesis by (simp add: run)
qed

section \<open>Waiting for an address\<close>

lemma station_has_address_frame:
  "tv_clock (snd (station_has_address env ts)) = tv_clock ts"
  "tv_network_initialized (snd (station_has_address env ts)) = tv_network_initialized ts"
  by (simp_all add: station_has_address_def Let_def esp_eq on_env_eq)

lemma wait_frame:
  fixes env :: "'e esp_env"
  assumes "wait_for_address env waited ts = Some (b, ts')"
  shows "tv_clock ts' = tv_clock ts \<and> tv_network_initialized ts' = tv_network_initialized ts"
proof -
  define P where "P = (\<lambda>(env :: 'e esp_env) (waited :: u32) (ts :: 'e time_service) (out :: bool \<times> 'e time_service).
    tv_clock (snd out) = tv_clock ts \<and> tv_network_initialized (snd out) = tv_network_initialized ts)"
  have "P env waited ts (b, ts')"
  proof (rule wait_for_address.raw_induct [where P = P, OF _ assms])
    fix f and env :: "'e esp_env" and waited ts out
    assume IH: "\<And>env w ts out. f env w ts = Some out \<Longrightarrow> P env w ts out"
      and run: "(if waited < ee_ticks env 6000 then
        (case station_has_address env ts of (got_ip, ts) \<Rightarrow>
           if got_ip then Some (True, ts)
           else f env (waited + ee_ticks env 100) (snd (esp env (TaskDelay (ee_ticks env 100)) ts)))
        else Some (False, ts)) = Some out"
    obtain got t where g: "station_has_address env ts = (got, t)" by (metis prod.collapse)
    have t: "tv_clock t = tv_clock ts" "tv_network_initialized t = tv_network_initialized ts"
      using station_has_address_frame [of env ts] by (simp_all add: g)
    show "P env waited ts out"
    proof (cases "waited < ee_ticks env 6000 \<and> \<not> got")
      case True
      then show ?thesis using IH [of env "waited + ee_ticks env 100" _ out] run t by (simp add: g P_def)
    next
      case False
      then show ?thesis using run t by (auto simp: g P_def split: if_splits)
    qed
  qed
  then show ?thesis by (simp add: P_def)
qed

lemma wait_returns:
  assumes "0 < ee_ticks env 100" "unat (ee_ticks env 6000) + unat (ee_ticks env 100) < 2 ^ 32"
  shows "wait_for_address env waited ts \<noteq> None"
proof (induction "unat (ee_ticks env 6000) - unat waited" arbitrary: waited ts rule: less_induct)
  case less
  show ?case
  proof (cases "waited < ee_ticks env 6000")
    case True
    then have lt: "unat waited < unat (ee_ticks env 6000)" by (simp add: word_less_nat_alt)
    have "unat (waited + ee_ticks env 100) = unat waited + unat (ee_ticks env 100)"
      using lt assms(2) by (subst unat_add_lem [THEN iffD1]) auto
    moreover have "0 < unat (ee_ticks env 100)" using assms(1) by (simp add: word_less_nat_alt)
    ultimately have "unat (ee_ticks env 6000) - unat (waited + ee_ticks env 100) <
        unat (ee_ticks env 6000) - unat waited" using lt by simp
    then have "wait_for_address env (waited + ee_ticks env 100) t \<noteq> None" for t by (rule less)
    then show ?thesis
      by (subst wait_for_address.simps) (auto simp: True split: prod.split)
  next
    case False
    then show ?thesis by (subst wait_for_address.simps) simp
  qed
qed

section \<open>One synchronization\<close>

lemma sample_frame:
  "tv_clock (snd (sntp_sample env ts)) = tv_clock ts"
  "tv_network_initialized (snd (sntp_sample env ts)) = tv_network_initialized ts"
  "fst (sntp_sample env ts) = Some s \<Longrightarrow> acceptable_unix_seconds s"
  by (auto simp: sntp_sample_def Let_def esp_eq on_env_eq split: if_splits option.splits)

lemma refused_sample: "accept_ntp_sample s t c = (False, c') \<Longrightarrow> c' = c"
  by (auto simp: accept_ntp_sample_def Let_def split: if_splits option.splits)

text \<open>What a synchronization may do: leave the clock alone, or accept a sample.\<close>

definition sync_outcome :: "('e \<Rightarrow> bool) \<Rightarrow> trusted_clock \<Rightarrow> sync_result \<Rightarrow> 'e time_service \<Rightarrow> bool" where
  "sync_outcome up c result ts \<longleftrightarrow> network_down up ts \<and>
     (if result = SyncOk
      then \<exists>seconds now. acceptable_unix_seconds seconds \<and> accept_ntp_sample seconds now c = (True, tv_clock ts)
      else tv_clock ts = c)"

lemma torn_down:
  assumes "driver_contract env up" "tv_network_initialized t" "tv_clock t = c" "result \<noteq> SyncOk"
  shows "sync_outcome up c result (teardown_network env t)"
  using teardown_down [OF assms(1), of t] assms(2-4) by (simp add: sync_outcome_def closable_def)

lemma connect_outcome:
  assumes c: "driver_contract env up" and down: "network_down up ts"
    and run: "connect_and_sync env ssid password ts = Some (result, ts')"
  shows "sync_outcome up (tv_clock ts) result ts'"
proof (cases "ssid = [] \<or> length ssid > kMaxSsidBytes \<or> password = [] \<or> length password > kMaxPasswordBytes")
  case True
  then have "result = SyncFailed" "ts' = ts" using run by (auto simp: connect_and_sync_def)
  then show ?thesis using down by (simp add: sync_outcome_def)
next
  case False
  obtain b t0 where 0: "ensure_network_initialized env ts = (b, t0)" by (metis prod.collapse)
  have clock: "tv_clock t0 = tv_clock ts" using ensure_clock [of env ts] by (simp add: 0)
  have up: "b \<Longrightarrow> tv_network_initialized t0" "\<not> b \<Longrightarrow> network_down up t0"
    using ensure_down [OF c down 0] by auto
  obtain r1 t1 where 1: "esp env (WifiSetConfig ssid password) t0 = (r1, t1)" by (metis prod.collapse)
  obtain r2 t2 where 2: "esp env WifiStart t1 = (r2, t2)" by (metis prod.collapse)
  obtain r3 t3 where 3: "esp env WifiConnect t2 = (r3, t3)" by (metis prod.collapse)
  have f: "tv_clock t1 = tv_clock ts" "tv_clock t2 = tv_clock ts" "tv_clock t3 = tv_clock ts"
    "tv_network_initialized t1 = tv_network_initialized t0" "tv_network_initialized t2 = tv_network_initialized t0"
    "tv_network_initialized t3 = tv_network_initialized t0"
    using 1 2 3 clock by (auto simp: esp_eq)
  note named = 0 1 2 3
  show ?thesis
  proof (cases "b \<and> r1 = NetOk \<and> r2 = NetOk \<and> r3 = NetOk")
    case stopped: False
    then show ?thesis
      using run up f clock torn_down [OF c, of _ "tv_clock ts" SyncFailed] \<open>\<not> (ssid = [] \<or> _)\<close>
      by (auto simp: connect_and_sync_def named Let_def sync_outcome_def split: if_splits)
  next
    case started: True
    then have "tv_network_initialized t3" using up f by simp
    obtain got t4 where 4: "wait_for_address env 0 t3 = Some (got, t4)"
      using run started \<open>\<not> (ssid = [] \<or> _)\<close>
      by (auto simp: connect_and_sync_def named Let_def split: option.splits)
    obtain r5 t5 where 5: "esp env (SntpInit (ascii ''pool.ntp.org'')) t4 = (r5, t5)" by (metis prod.collapse)
    obtain smp t6 where 6: "sntp_sample env t5 = (smp, t6)" by (metis prod.collapse)
    define t7 where "t7 = teardown_network env (snd (esp env SntpDeinit t6))"
    have g: "tv_clock t4 = tv_clock ts" "tv_clock t5 = tv_clock ts" "tv_clock t6 = tv_clock ts"
      "tv_network_initialized t4" "tv_network_initialized t5" "tv_network_initialized t6"
      using wait_frame [OF 4] 5 sample_frame(1,2) [of env t5] f \<open>tv_network_initialized t3\<close>
      by (auto simp: esp_eq 6)
    have t7: "network_down up t7" "tv_clock t7 = tv_clock ts"
      using g teardown_down [OF c, of "snd (esp env SntpDeinit t6)"]
      by (simp_all add: t7_def closable_def)
    note run' = run [unfolded connect_and_sync_def named 4 5 6, simplified Let_def, simplified,
        unfolded named 4 5 6 t7_def [symmetric], simplified]
    show ?thesis
    proof (cases "got \<and> r5 = NetOk \<and> smp \<noteq> None")
      case False
      then show ?thesis
        using run' started \<open>\<not> (ssid = [] \<or> _)\<close> g t7 torn_down [OF c, of _ "tv_clock ts" SyncFailed]
        by (auto simp: sync_outcome_def named 4 5 6 t7_def [symmetric] split: if_splits)
    next
      case True
      then obtain seconds where seconds: "smp = Some seconds" by blast
      obtain now t8 where 8: "on_env (ee_timer env) t7 = (now, t8)" by (metis prod.collapse)
      have t8: "network_down up t8" "tv_clock t8 = tv_clock ts"
        using t7 8 driver_calls(6) [OF c] by (auto simp: on_env_eq network_down_def)
      obtain accepted clk where a: "accept_ntp_sample seconds now (tv_clock ts) = (accepted, clk)"
        by (metis prod.collapse)
      have "result = (if accepted then SyncOk else SyncRejectedJump)" "ts' = t8\<lparr>tv_clock := clk\<rparr>"
        using run' started \<open>\<not> (ssid = [] \<or> _)\<close> True
        by (auto simp: named 4 5 6 t7_def [symmetric] seconds 8 t8 a split: if_splits)
      moreover have "acceptable_unix_seconds seconds"
        using sample_frame(3) [of env t5] by (simp add: 6 seconds)
      ultimately show ?thesis
        using t8 a by (cases accepted) (auto simp: sync_outcome_def network_down_def dest: refused_sample)
    qed
  qed
qed

section \<open>The service\<close>

lemma credentials_result: "copy_credentials g r = (status, copied, r') \<Longrightarrow>
    r' \<in> {r, snd (fatal_security_error r)}"
  by (auto simp: copy_credentials_def with_wifi_def Let_def split: if_splits sum.splits option.splits)

lemma ntp_outcome:
  assumes c: "driver_contract env up" and down: "network_down up ts"
    and run: "sync_ntp_once env g (r, ts) = Some (result, r', ts')"
  shows "sync_outcome up (tv_clock ts) result ts'" "r' \<in> {r, snd (fatal_security_error r)}"
proof -
  obtain status copied r1 where k: "copy_credentials g r = (status, copied, r1)" by (metis prod_cases3)
  have "r' = r1 \<and> (ts' = ts \<and> result \<noteq> SyncOk \<or>
      (\<exists>ssid password. connect_and_sync env ssid password ts = Some (result, ts')))"
    using run by (auto simp: sync_ntp_once_def k split: if_splits option.splits)
  moreover have "sync_outcome up (tv_clock ts) result ts" if "result \<noteq> SyncOk"
    using that down by (simp add: sync_outcome_def)
  ultimately show "sync_outcome up (tv_clock ts) result ts'" "r' \<in> {r, snd (fatal_security_error r)}"
    using connect_outcome [OF c down] credentials_result [OF k] by blast+
qed

lemma sync_outcome_cong:
  "tv_clock t = tv_clock ts \<Longrightarrow> tv_network_initialized t = tv_network_initialized ts \<Longrightarrow>
   tv_station t = tv_station ts \<Longrightarrow> tv_env t = tv_env ts \<Longrightarrow> sync_outcome up c result t = sync_outcome up c result ts"
  by (simp add: sync_outcome_def network_down_def)

lemma delay_down:
  "driver_contract env up \<Longrightarrow> network_down up ts \<Longrightarrow> network_down up (snd (esp env (TaskDelay n) ts))"
  by (auto simp: network_down_def esp_eq dest: driver_calls(1))

lemma boot_outcome:
  assumes "driver_contract env up" "network_down up ts" "result0 \<noteq> SyncOk"
    and "boot_attempts delays env g result0 (r, ts) = Some (result, r', ts')"
  shows "sync_outcome up (tv_clock ts) result ts'"
  using assms
proof (induction delays arbitrary: result0 r ts)
  case Nil
  then show ?case by (simp add: sync_outcome_def)
next
  case (Cons backoff rest)
  obtain res r1 t1 where s: "sync_ntp_once env g (r, ts) = Some (res, r1, t1)"
    using Cons.prems(4) by (auto split: option.splits)
  have o: "sync_outcome up (tv_clock ts) res t1" by (rule ntp_outcome(1) [OF Cons.prems(1,2) s])
  show ?case
  proof (cases "res \<in> {SyncOk, SyncNotConfigured, SyncLocked, SyncInternalError}")
    case True
    then show ?thesis using Cons.prems(4) o s by auto
  next
    case False
    define t2 where "t2 = (case backoff of None \<Rightarrow> t1 | Some ticks \<Rightarrow> snd (esp env (TaskDelay ticks) t1))"
    have "network_down up t2" "tv_clock t2 = tv_clock ts"
      using o False delay_down [OF Cons.prems(1)] by (auto simp: t2_def sync_outcome_def split: option.splits)
    moreover have "boot_attempts rest env g res (r1, t2) = Some (result, r', ts')"
      using Cons.prems(4) s False by (simp add: t2_def)
    ultimately show ?thesis using Cons.IH [OF Cons.prems(1), of t2 res r1] False by auto
  qed
qed

lemma timer_down:
  assumes "driver_contract env up" "network_down up ts" "on_env (ee_timer env) ts = (now, t)"
  shows "network_down up t" "tv_clock t = tv_clock ts"
  using assms by (auto simp: network_down_def on_env_eq dest: driver_calls(6))

text \<open>A locked resynchronization is at most one attempt, whose time it may record.\<close>

lemma resync_locked_cases:
  assumes run: "resync_locked env g (r, ts) = Some (result, r', ts')"
    and t: "on_env (ee_timer env) ts = (now, t)"
  shows "result = SyncNotDue \<and> ts' = t \<or>
    (\<exists>n t1 n'. sync_ntp_once env g (r, t\<lparr>tv_last_periodic_attempt_us := n\<rparr>) = Some (result, r', t1) \<and>
       ts' = t1\<lparr>tv_last_initial_attempt_us := n'\<rparr>)"
proof (cases "ts_readiness (clock_snapshot now (tv_clock t)) = NotSynced")
  case True
  have same: "t = t\<lparr>tv_last_periodic_attempt_us := tv_last_periodic_attempt_us t\<rparr>" by simp
  have upd: "x = x\<lparr>tv_last_initial_attempt_us := tv_last_initial_attempt_us x\<rparr>" for x :: "'a time_service" by simp
  show ?thesis
  proof (cases "sync_ntp_once env g (r, t)")
    case None
    then show ?thesis using run True by (simp add: resync_locked_def t Let_def split: if_splits)
  next
    case (Some out)
    obtain res r1 t1 where o: "out = (res, r1, t1)" by (metis prod_cases3)
    have "result = SyncNotDue \<and> ts' = t \<or> result = res \<and> r' = r1 \<and>
        (\<exists>n'. ts' = t1\<lparr>tv_last_initial_attempt_us := n'\<rparr>)"
      using run True by (simp add: resync_locked_def t Let_def Some o split: if_splits) (metis upd)+
    then show ?thesis using Some o same by metis
  qed
next
  case False
  have upd: "x = x\<lparr>tv_last_initial_attempt_us := tv_last_initial_attempt_us x\<rparr>" for x :: "'a time_service" by simp
  have "result = SyncNotDue \<and> ts' = t \<or>
      sync_ntp_once env g (r, t\<lparr>tv_last_periodic_attempt_us := now\<rparr>) = Some (result, r', ts')"
    using run False by (simp add: resync_locked_def t Let_def split: if_splits)
  then show ?thesis using upd by metis
qed

lemma resync_locked_outcome:
  assumes c: "driver_contract env up" and down: "network_down up ts"
    and run: "resync_locked env g (r, ts) = Some (result, r', ts')"
  shows "sync_outcome up (tv_clock ts) result ts'"
proof -
  obtain now t where t: "on_env (ee_timer env) ts = (now, t)" by (metis prod.collapse)
  note td = timer_down [OF c down t]
  have ntp: "sync_outcome up (tv_clock ts) res t1"
    if "sync_ntp_once env g (r, t\<lparr>tv_last_periodic_attempt_us := n\<rparr>) = Some (res, r1, t1)" for n res r1 t1
    using ntp_outcome(1) [OF c _ that] td by (simp add: network_down_def)
  from resync_locked_cases [OF run t] show ?thesis
  proof (elim disjE exE conjE)
    show "result = SyncNotDue \<Longrightarrow> ts' = t \<Longrightarrow> ?thesis" using td by (simp add: sync_outcome_def)
  next
    fix n t1 n'
    assume "sync_ntp_once env g (r, t\<lparr>tv_last_periodic_attempt_us := n\<rparr>) = Some (result, r', t1)"
      "ts' = t1\<lparr>tv_last_initial_attempt_us := n'\<rparr>"
    then show ?thesis using ntp sync_outcome_cong [of ts' t1] by simp
  qed
qed

lemma wanted_frame:
  assumes "driver_contract env up" "network_down up ts" "resync_wanted env ts = (b, t)"
  shows "network_down up t" "tv_clock t = tv_clock ts"
  using assms timer_down [OF assms(1,2) prod.collapse [symmetric]]
  by (auto simp: resync_wanted_def Let_def split: prod.splits)

text \<open>The calls of the service's clients: boot, the periodic task, \<open>time.sync\<close> and the boundaries.\<close>

datatype time_call = TcBoot | TcResync | TcUsb u64 | TcBoundary

fun time_step ::
  "'e esp_env \<Rightarrow> gcm \<Rightarrow> time_call \<Rightarrow> runtime \<times> 'e time_service \<Rightarrow>
   (sync_result \<times> runtime \<times> 'e time_service) option" where
  "time_step env g TcBoot st = boot_sync env g st"
| "time_step env g TcResync st = resync_if_due env g st"
| "time_step env g (TcUsb unix_seconds) (r, ts) =
     (case sync_from_usb env unix_seconds r ts of (result, ts) \<Rightarrow> Some (result, r, ts))"
| "time_step env g TcBoundary (r, ts) = with_secret_boundary env (\<lambda>ts. Some (SyncNotDue, r, ts)) ts"

text \<open>Which new anchors a call may set: a sample of the network that the bounded-jump rule admits, or
  the time that the host asserts while the Vault is unlocked.\<close>

definition clock_moves :: "time_call \<Rightarrow> runtime \<Rightarrow> trusted_clock \<Rightarrow> trusted_clock \<Rightarrow> bool" where
  "clock_moves call r c c' \<longleftrightarrow> (\<exists>seconds now. acceptable_unix_seconds seconds \<and>
     (accept_ntp_sample seconds now c = (True, c') \<and> call \<in> {TcBoot, TcResync} \<or>
      c' = mark_synchronized seconds now SourceUsb c \<and> call = TcUsb seconds \<and> unlocked r))"

lemma usb_outcome:
  assumes "driver_contract env up" "network_down up ts" "sync_from_usb env s r ts = (result, ts')"
  shows "network_down up ts'" "if result = SyncOk then clock_moves (TcUsb s) r (tv_clock ts) (tv_clock ts')
    else tv_clock ts' = tv_clock ts"
  using assms(2,3) driver_stays_down [OF assms(1)]
  by (auto simp: sync_from_usb_def Let_def esp_eq on_env_eq network_down_def clock_moves_def split: if_splits)

lemma time_step_closed:
  assumes c: "driver_contract env up" and down: "network_down up ts"
    and run: "time_step env g call (r, ts) = Some (result, r', ts')"
  shows "network_down up ts' \<and> (if result = SyncOk then clock_moves call r (tv_clock ts) (tv_clock ts')
    else tv_clock ts' = tv_clock ts)"
proof (cases call)
  case TcBoot
  have "boot_attempts [Some (ee_ticks env 1000), Some (ee_ticks env 3000), None] env g SyncNotConfigured (r, ts) =
      Some (result, r', ts')" using run by (simp only: TcBoot time_step.simps boot_sync_def)
  then have "sync_outcome up (tv_clock ts) result ts'" by (rule boot_outcome [OF c down, rotated]) simp
  then show ?thesis by (auto simp: sync_outcome_def clock_moves_def TcBoot)
next
  case TcResync
  obtain b t where w: "resync_wanted env ts = (b, t)" by (metis prod.collapse)
  note t = wanted_frame [OF c down w]
  have "sync_outcome up (tv_clock ts) result ts'"
  proof (cases b)
    case True
    then have "resync_locked env g (r, t) = Some (result, r', ts')"
      using run by (simp add: TcResync resync_if_due_def w)
    then show ?thesis using resync_locked_outcome [OF c t(1)] t(2) by simp
  next
    case False
    then have "result = SyncNotDue" "ts' = t" using run by (simp_all add: TcResync resync_if_due_def w)
    then show ?thesis using t by (simp add: sync_outcome_def)
  qed
  then show ?thesis by (auto simp: sync_outcome_def clock_moves_def TcResync)
next
  case (TcUsb s)
  then show ?thesis using run usb_outcome [OF c down] by (auto split: prod.splits)
next
  case TcBoundary
  then show ?thesis
    using run teardown_down [OF c network_down_closable [OF down]] by (auto simp: with_secret_boundary_def)
qed

lemma ntp_returns:
  assumes "0 < ee_ticks env 100" "unat (ee_ticks env 6000) + unat (ee_ticks env 100) < 2 ^ 32"
  shows "sync_ntp_once env g st \<noteq> None"
proof -
  have "connect_and_sync env ssid password ts \<noteq> None" for ssid password ts
    by (simp add: connect_and_sync_def Let_def wait_returns [OF assms] split: prod.split option.split)
  then have returns: "connect_and_sync env ssid password ts = None \<Longrightarrow> False" for ssid password ts by simp
  show ?thesis by (auto simp: sync_ntp_once_def split: prod.splits option.splits if_splits dest: returns)
qed

lemma resync_returns:
  assumes "0 < ee_ticks env 100" "unat (ee_ticks env 6000) + unat (ee_ticks env 100) < 2 ^ 32"
  shows "resync_if_due env g st \<noteq> None"
proof -
  have returns: "sync_ntp_once env g st = None \<Longrightarrow> False" for st using ntp_returns [OF assms] by simp
  have returns': "\<exists>a b c. sync_ntp_once env g st = Some (a, b, c)" for st
    using ntp_returns [OF assms, of g st] by (metis not_None_eq prod_cases3)
  show ?thesis
    by (auto simp: resync_if_due_def resync_locked_def Let_def split: prod.splits option.splits if_splits
        dest: returns intro: returns')
qed

lemma boot_returns:
  assumes "0 < ee_ticks env 100" "unat (ee_ticks env 6000) + unat (ee_ticks env 100) < 2 ^ 32"
  shows "boot_attempts delays env g result st \<noteq> None"
proof (induction delays arbitrary: result st)
  case Nil
  then show ?case by (simp split: prod.split)
next
  case (Cons backoff rest)
  obtain res r t where s: "sync_ntp_once env g st = Some (res, r, t)"
    using ntp_returns [OF assms, of g st] by (metis not_None_eq prod_cases3)
  then show ?case using Cons.IH by simp
qed

text \<open>C38. Synchronizing the time returns: every call of the time service comes to an end, whatever the
  network and the platform answer, provided that 100 ms are at least one tick and that the ticks of
  6.1 seconds fit \<open>TickType_t\<close>. (With a coarser tick the polling loop would not advance.)\<close>

theorem time_calls_return:
  assumes "0 < ee_ticks env 100" "unat (ee_ticks env 6000) + unat (ee_ticks env 100) < 2 ^ 32"
  shows "\<exists>result r' ts'. time_step env g call (r, ts) = Some (result, r', ts')"
proof -
  have "time_step env g call (r, ts) \<noteq> None"
    using boot_returns [OF assms] resync_returns [OF assms]
    by (cases call) (simp_all del: boot_attempts.simps add: boot_sync_def with_secret_boundary_def
        split: prod.split)
  then show ?thesis by (metis not_None_eq prod_cases3)
qed

text \<open>C37. Secrets do not stay in the Wi-Fi driver: whatever a call of the time service does (a boot
  synchronization with its retries, a periodic one, \<open>time.sync\<close>, a security boundary), and whatever fails
  in it, the driver is gone again when it ends, if it was before. The call moves the trusted clock only
  when it answers \<open>SyncOk\<close>, and then to a time between 2020 and 2100: a network sample that the bounded-jump
  rule admits, or the time that the host asserted while the Vault was unlocked.\<close>

theorem time_calls_close_network:
  assumes "driver_contract env up" "network_down up ts"
    and "time_step env g call (r, ts) = Some (result, r', ts')"
  shows "network_down up ts' \<and> (if result = SyncOk then clock_moves call r (tv_clock ts) (tv_clock ts')
    else tv_clock ts' = tv_clock ts)"
  using assms by (rule time_step_closed)

section \<open>A platform on which all of it happens\<close>

definition demo_esp :: "bool esp_env" where
  "demo_esp = \<lparr>ee_call = \<lambda>c up. (NetOk, c = WifiInit \<or> up \<and> c \<noteq> WifiDeinit), ee_create_station = \<lambda>up. (True, up),
     ee_ip_address = \<lambda>up. (Some 1, up), ee_gettimeofday = \<lambda>up. (Some 1700000000, up),
     ee_timer = \<lambda>up. (5000000, up), ee_ticks = \<lambda>ms. of_nat (ms div 10)\<rparr>"

lemma demo_esp_simps:
  "ee_call demo_esp c up = (NetOk, c = WifiInit \<or> up \<and> c \<noteq> WifiDeinit)" "ee_create_station demo_esp up = (True, up)"
  "ee_gettimeofday demo_esp up = (Some 1700000000, up)" "ee_timer demo_esp up = (5000000, up)"
  by (simp_all add: demo_esp_def)

lemma demo_driver: "driver_contract demo_esp (\<lambda>up. up)"
  by (simp add: driver_contract_def demo_esp_def)

definition demo_wifi :: vault_plaintext where
  "demo_wifi = \<lparr>vp_credentials = [], vp_wifi = Some \<lparr>wifi_ssid = ascii ''ap'', wifi_password = ascii ''pw''\<rparr>,
     vp_auto_lock_days = None\<rparr>"

definition demo_wifi_bytes :: bytes where "demo_wifi_bytes = the (encode_plaintext demo_wifi 1)"

definition demo_wifi_vault :: vault_envelope where
  "demo_wifi_vault = the (encrypt_vault_with_nonce toy_gcm demo_wifi_bytes demo_key (replicate 16 1) 1 (zeros 12) 1)"

definition demo_online :: runtime where
  "demo_online = demo_unlocked\<lparr>rt_envelope := demo_wifi_vault\<rparr>"

lemma demo_wifi_opens: "open_resident_vault toy_gcm demo_online = Inr demo_wifi"
proof -
  have e: "encode_plaintext demo_wifi 1 = Some demo_wifi_bytes" "demo_wifi_bytes \<noteq> []" "length demo_wifi_bytes \<le> 1000"
    by (simp_all add: demo_wifi_bytes_def encode_plaintext_def demo_wifi_def valid_auto_lock_days_def
        is_supported_vault_format_def vault_constants plaintext_magic_def append_sized_text_def encode_wifi_def
        kPlaintextMagicV1_def c_string_def ascii_def append_u16_def)
  obtain aad where aad: "build_vault_aad (replicate 16 1) 1 1 2 = Some aad"
    by (simp add: build_vault_aad_def aad_magic_def vault_constants is_supported_vault_format_def)
  have v: "encrypt_vault_with_nonce toy_gcm demo_wifi_bytes demo_key (replicate 16 1) 1 (zeros 12) 1 =
      Some demo_wifi_vault \<and> ve_vault_format_version demo_wifi_vault = 1 \<and> ve_vault_id demo_wifi_vault = replicate 16 1
      \<and> ve_generation demo_wifi_vault = 1 \<and> ve_nonce demo_wifi_vault = zeros 12"
    using e aad by (simp add: demo_wifi_vault_def encrypt_vault_with_nonce_def toy_gcm_def vault_constants
        demo_key_def is_supported_vault_format_def numeral_eq_Suc)
  have "sealed_vault toy_gcm demo_key demo_wifi demo_wifi_vault"
    using e(1) v by (simp add: sealed_vault_def) (simp add: plaintext_wf_def demo_wifi_def vault_constants ids_wf_def)
  then show ?thesis
    by (simp add: open_resident_iff [OF toy_gcm_laws] demo_online_def demo_unlocked_def)
qed

lemma demo_ntp:
  "\<exists>ts'. sync_ntp_once demo_esp toy_gcm (demo_online, new_time_service False) = Some (SyncOk, demo_online, ts')"
proof -
  have "copy_credentials toy_gcm demo_online = (Ok, Some (ascii ''ap'', ascii ''pw''), demo_online)"
    using demo_unlocked_flags
    by (simp add: copy_credentials_def with_wifi_def demo_wifi_opens demo_wifi_def) (simp add: demo_online_def)
  moreover have "wait_for_address demo_esp 0 ts = Some (True, ts)" for ts
    by (subst wait_for_address.simps) (simp add: station_has_address_def esp_eq on_env_eq demo_esp_def)
  ultimately show ?thesis
    by (simp add: sync_ntp_once_def connect_and_sync_def kMaxSsidBytes_def kMaxPasswordBytes_def ascii_def
        ensure_network_initialized_def esp_eq on_env_eq new_time_service_def sntp_sample_def
        acceptable_unix_seconds_def kMinAcceptedUnixSeconds_def kMaxAcceptedUnixSeconds_def
        accept_ntp_sample_def initial_clock_def teardown_network_def destroy_eq demo_esp_simps Let_def)
qed

lemma demo_boot:
  "\<exists>r' ts'. time_step demo_esp toy_gcm TcBoot (demo_online, new_time_service False) = Some (SyncOk, r', ts')"
  using demo_ntp by (auto simp: boot_sync_def)

theorem time_calls_close_network_witness:
  "\<exists>r' ts'. time_step demo_esp toy_gcm TcBoot (demo_online, new_time_service False) = Some (SyncOk, r', ts') \<and>
     network_down (\<lambda>up. up) ts' \<and> clock_moves TcBoot demo_online initial_clock (tv_clock ts')"
proof -
  obtain r' ts' where run:
    "time_step demo_esp toy_gcm TcBoot (demo_online, new_time_service False) = Some (SyncOk, r', ts')"
    using demo_boot by blast
  have "network_down (\<lambda>up. up) (new_time_service False)" "tv_clock (new_time_service False) = initial_clock"
    by (simp_all add: network_down_def new_time_service_def)
  then show ?thesis using time_calls_close_network [OF demo_driver _ run] run by auto
qed

theorem time_calls_return_witness:
  "\<exists>result r' ts'. time_step demo_esp toy_gcm TcResync (demo_online, new_time_service False) = Some (result, r', ts')"
  by (rule time_calls_return) (simp_all add: demo_esp_def)

end
