(* ===== verification/Canonical_Protocol.thy ===== *)
theory Canonical_Protocol
  imports Session_Handler Vmk_Sink Time_Service
begin

text \<open>
  The handler of the whole protocol (class \<open>CanonicalProtocolV2Handler\<close> of
  \<open>m5auth_provisioning/canonical_protocol_v2.cpp\<close>). It holds references to the Vault runtime, the
  registration store, the time service, the session handler, the key sink, the presence provider and a
  callback into the user interface: \<open>canonical_protocol\<close> is the state of all of them, and the presence
  provider is the one of the session handler, as \<open>app_main\<close> wires them. The main task calls
  \<open>handle_line\<close>, \<open>housekeeping\<close> and \<open>disconnect\<close>; each takes the mutexes it needs, and is one
  function here.

  A request draws an attempt id until it is not all zero, which need not end: \<open>handle_line\<close> returns
  an option, \<open>None\<close> when the random source of the platform yields zeros for ever.
\<close>

definition kMaxCanonicalV2MessageBytes :: nat where "kMaxCanonicalV2MessageBytes = 96 * 1024"

definition kFactoryResetBeginOperation :: string where
  "kFactoryResetBeginOperation = ''factory_reset.begin''"
definition kFactoryResetStatusOperation :: string where
  "kFactoryResetStatusOperation = ''factory_reset.status''"
definition kFactoryResetCancelOperation :: string where
  "kFactoryResetCancelOperation = ''factory_reset.cancel''"
definition kFactoryResetCommitOperation :: string where
  "kFactoryResetCommitOperation = ''factory_reset.commit''"

record device_metadata =
  dm_device :: bytes
  dm_firmware :: bytes
  dm_protocol :: int
  dm_storage_schema :: int
  dm_vault_format :: int
  dm_build_commit :: bytes

record ('k, 'p, 'w, 'n, 'e, 'u) canonical_protocol =
  cq_session :: "('k, 'p) session_handler"
  cq_device :: "('w, 'n) device"
  cq_time :: "'e time_service"
  cq_ui :: 'u
  cq_reset :: reset_authorization
  cq_recovery_attempt_id :: bytes
  cq_recovery_deadline_ms :: u64
  cq_recovery_active :: bool

text \<open>What does not change: the parameters of the parts, the constants that \<open>hello\<close> reports, the random
  source and the callback \<open>security_boundary_clear\<close>, which also reads the Vault, the presence provider
  and the clock.\<close>

record ('k, 'p, 'w, 'n, 'e, 'u, 'j) canonical_setup =
  cu_metadata :: device_metadata
  cu_json :: "'j json_api"
  cu_primitives :: "'k session_primitives"
  cu_presence :: "'p presence_ops"
  cu_device :: "('w, 'n) device_env"
  cu_platform :: "'e esp_env"
  cu_random :: "nat \<Rightarrow> 'e \<Rightarrow> bytes \<times> 'e"
  cu_clear_ui :: "runtime \<Rightarrow> 'p \<Rightarrow> 'e time_service \<times> 'u \<Rightarrow> 'e time_service \<times> 'u"

text \<open>What a line finds besides its text: the entropy of an attempt, and the timer when a key arrives.\<close>

record 'k line_inputs =
  li_entropy :: "'k session_entropy"
  li_timer_us :: int

section \<open>Power-up\<close>

definition new_sink :: vmk_sink where
  "new_sink = \<lparr>sk_pending_vmk = zeros kVmkBytes, sk_pending_context = initial_context, sk_pending = False,
     sk_deadline_armed = False, sk_pending_expires_at_ms = 0\<rparr>"

text \<open>\<open>app_main\<close> initializes the registration store, then the Vault runtime; neither status is looked at.\<close>

definition power_up_device ::
  "('w, 'n) device_env \<Rightarrow> (nat \<Rightarrow> 'n \<Rightarrow> bytes \<times> 'n) \<Rightarrow> 'w \<Rightarrow> 'n \<Rightarrow> ('w, 'n) device option" where
  "power_up_device env rng w n =
     (case reg_initialize (en_nvs env) (en_p256_point env) rng (new_store, n) of
        None \<Rightarrow> None
      | Some (_, store, n) \<Rightarrow>
          (case initialize (en_persistence env) (new_runtime, w) of (_, r, w) \<Rightarrow>
             Some \<lparr>dv_runtime = r, dv_medium = w, dv_store = store, dv_reg_medium = n, dv_sink = new_sink\<rparr>))"

definition new_protocol ::
  "('w, 'n) device \<Rightarrow> 'e time_service \<Rightarrow> 'p \<Rightarrow> 'u \<Rightarrow> ('k, 'p, 'w, 'n, 'e, 'u) canonical_protocol" where
  "new_protocol d ts p u =
     \<lparr>cq_session = new_session_handler p, cq_device = d, cq_time = ts, cq_ui = u, cq_reset = reset_idle,
      cq_recovery_attempt_id = zeros kAttemptIdBytes, cq_recovery_deadline_ms = 0,
      cq_recovery_active = False\<rparr>"

section \<open>Calls on the parts\<close>

definition on_device ::
  "(('w, 'n) device \<Rightarrow> 'a \<times> ('w, 'n) device) \<Rightarrow> ('k, 'p, 'w, 'n, 'e, 'u) canonical_protocol \<Rightarrow>
   'a \<times> ('k, 'p, 'w, 'n, 'e, 'u) canonical_protocol" where
  "on_device f s = (case f (cq_device s) of (a, d) \<Rightarrow> (a, s\<lparr>cq_device := d\<rparr>))"

definition on_time ::
  "('e time_service \<Rightarrow> 'a \<times> 'e time_service) \<Rightarrow> ('k, 'p, 'w, 'n, 'e, 'u) canonical_protocol \<Rightarrow>
   'a \<times> ('k, 'p, 'w, 'n, 'e, 'u) canonical_protocol" where
  "on_time f s = (case f (cq_time s) of (a, ts) \<Rightarrow> (a, s\<lparr>cq_time := ts\<rparr>))"

text \<open>A call on the presence provider.\<close>

definition on_presence ::
  "('p \<Rightarrow> 'a \<times> 'p) \<Rightarrow> ('k, 'p, 'w, 'n, 'e, 'u) canonical_protocol \<Rightarrow>
   'a \<times> ('k, 'p, 'w, 'n, 'e, 'u) canonical_protocol" where
  "on_presence f s = (case f (sh_presence (cq_session s)) of (a, p) \<Rightarrow>
     (a, s\<lparr>cq_session := (cq_session s)\<lparr>sh_presence := p\<rparr>\<rparr>))"

definition cancel_presence ::
  "('k, 'p, 'w, 'n, 'e, 'u, 'j) canonical_setup \<Rightarrow> ('k, 'p, 'w, 'n, 'e, 'u) canonical_protocol \<Rightarrow>
   ('k, 'p, 'w, 'n, 'e, 'u) canonical_protocol" where
  "cancel_presence cu s = snd (on_presence (\<lambda>p. ((), po_cancel (cu_presence cu) p)) s)"

definition notify_security_boundary ::
  "('k, 'p, 'w, 'n, 'e, 'u, 'j) canonical_setup \<Rightarrow> ('k, 'p, 'w, 'n, 'e, 'u) canonical_protocol \<Rightarrow>
   ('k, 'p, 'w, 'n, 'e, 'u) canonical_protocol" where
  "notify_security_boundary cu s =
     (case cu_clear_ui cu (dv_runtime (cq_device s)) (sh_presence (cq_session s)) (cq_time s, cq_ui s) of
        (ts, u) \<Rightarrow> s\<lparr>cq_time := ts, cq_ui := u\<rparr>)"

definition secret_boundary ::
  "('k, 'p, 'w, 'n, 'e, 'u, 'j) canonical_setup \<Rightarrow>
   (('k, 'p, 'w, 'n, 'e, 'u) canonical_protocol \<Rightarrow> 'a) \<Rightarrow>
   ('k, 'p, 'w, 'n, 'e, 'u) canonical_protocol \<Rightarrow> 'a" where
  "secret_boundary cu callback s =
     with_secret_boundary (cu_platform cu) (\<lambda>ts. callback (s\<lparr>cq_time := ts\<rparr>)) (cq_time s)"

section \<open>Boundaries\<close>

definition cancel_healthy_factory_reset ::
  "('k, 'p, 'w, 'n, 'e, 'u, 'j) canonical_setup \<Rightarrow> ('k, 'p, 'w, 'n, 'e, 'u) canonical_protocol \<Rightarrow>
   ('k, 'p, 'w, 'n, 'e, 'u) canonical_protocol" where
  "cancel_healthy_factory_reset cu s =
     (let s = (if fa_active (cq_reset s) then cancel_presence cu s else s)
      in s\<lparr>cq_reset := reset_cancel (cq_reset s)\<rparr>)"

definition cancel_recovery_reset ::
  "('k, 'p, 'w, 'n, 'e, 'u, 'j) canonical_setup \<Rightarrow> ('k, 'p, 'w, 'n, 'e, 'u) canonical_protocol \<Rightarrow>
   ('k, 'p, 'w, 'n, 'e, 'u) canonical_protocol" where
  "cancel_recovery_reset cu s =
     (let s = (if cq_recovery_active s then cancel_presence cu s else s)
      in s\<lparr>cq_recovery_attempt_id := zeros kAttemptIdBytes, cq_recovery_deadline_ms := 0,
           cq_recovery_active := False\<rparr>)"

text \<open>\<open>session_handler_.disconnect(); vmk_sink_.cancel_pending();\<close>\<close>

definition drop_session ::
  "('k, 'p, 'w, 'n, 'e, 'u, 'j) canonical_setup \<Rightarrow> ('k, 'p, 'w, 'n, 'e, 'u) canonical_protocol \<Rightarrow>
   ('k, 'p, 'w, 'n, 'e, 'u) canonical_protocol" where
  "drop_session cu s = s\<lparr>cq_session := session_disconnect (cu_presence cu) (cq_session s),
     cq_device := cancel_pending (cq_device s)\<rparr>"

definition protocol_disconnect ::
  "('k, 'p, 'w, 'n, 'e, 'u, 'j) canonical_setup \<Rightarrow> ('k, 'p, 'w, 'n, 'e, 'u) canonical_protocol \<Rightarrow>
   ('k, 'p, 'w, 'n, 'e, 'u) canonical_protocol" where
  "protocol_disconnect cu s =
     cancel_recovery_reset cu (cancel_healthy_factory_reset cu (drop_session cu s))"

definition lock_security_boundary ::
  "('k, 'p, 'w, 'n, 'e, 'u, 'j) canonical_setup \<Rightarrow> ('k, 'p, 'w, 'n, 'e, 'u) canonical_protocol \<Rightarrow>
   status \<times> ('k, 'p, 'w, 'n, 'e, 'u) canonical_protocol" where
  "lock_security_boundary cu s =
     secret_boundary cu (\<lambda>s.
       let (result, s) = on_device (on_memory lock) s
       in (result, if result = Ok then notify_security_boundary cu s else s))
     (cancel_recovery_reset cu (cancel_healthy_factory_reset cu (drop_session cu s)))"

definition housekeeping ::
  "('k, 'p, 'w, 'n, 'e, 'u, 'j) canonical_setup \<Rightarrow> u64 \<Rightarrow> ('k, 'p, 'w, 'n, 'e, 'u) canonical_protocol \<Rightarrow>
   ('k, 'p, 'w, 'n, 'e, 'u) canonical_protocol" where
  "housekeeping cu now_ms s =
     (let s = s\<lparr>cq_session := snd (session_handler_expire (cu_presence cu) now_ms (cq_session s))\<rparr>;
          s = s\<lparr>cq_device := (cq_device s)\<lparr>dv_sink := snd (expire_pending now_ms (dv_sink (cq_device s)))\<rparr>\<rparr>;
          s = (if reset_expired now_ms (cq_reset s) then cancel_healthy_factory_reset cu s else s);
          s = (if cq_recovery_active s \<and> now_ms \<ge> cq_recovery_deadline_ms s
               then cancel_recovery_reset cu s else s)
      in if automatic_lock_due now_ms (dv_runtime (cq_device s)) then snd (lock_security_boundary cu s) else s)"

section \<open>Reading a request\<close>

definition read_ciphertext :: "'j json_api \<Rightarrow> 'j \<Rightarrow> bytes option" where
  "read_ciphertext api object =
     (case Option.bind (Option.bind (js_item api object ''ciphertext'') (js_string api)) base64url_decode of
        None \<Rightarrow> None
      | Some output \<Rightarrow>
          if output = [] \<or> length output > kMaxPersistedCiphertextBytes then None else Some output)"

definition read_envelope :: "'j json_api \<Rightarrow> 'j \<Rightarrow> vault_envelope option" where
  "read_envelope api params = do {
     vault_format \<leftarrow> read_nonnegative_int api (js_item api params ''vault_format_version'');
     storage_schema \<leftarrow> read_nonnegative_int api (js_item api params ''storage_schema_version'');
     (if vault_format \<noteq> uint kVaultFormatVersion1 \<and> vault_format \<noteq> uint kVaultFormatVersion2
         \<or> storage_schema \<noteq> uint kTargetStorageSchemaVersion then None
      else do {
        vault_id \<leftarrow> read_binary api params ''vault_id'' kVaultIdBytes;
        generation \<leftarrow> read_u64_decimal api (js_item api params ''generation'');
        (if generation = 0 then None
         else do {
           nonce \<leftarrow> read_binary api params ''nonce'' kVaultNonceBytes;
           tag \<leftarrow> read_binary api params ''tag'' kVaultTagBytes;
           ciphertext \<leftarrow> read_ciphertext api params;
           ciphertext_length \<leftarrow> read_nonnegative_int api (js_item api params ''ciphertext_length'');
           (if ciphertext_length \<le> 0 \<or> ciphertext_length \<noteq> int (length ciphertext) then None
            else Some \<lparr>ve_vault_format_version = word_of_int vault_format,
                   ve_storage_schema_version = word_of_int storage_schema, ve_vault_id = vault_id,
                   ve_generation = generation, ve_nonce = nonce, ve_ciphertext = ciphertext,
                   ve_tag = tag\<rparr>) }) }) }"

definition destroys_runtime_vmk :: "operation \<Rightarrow> bool" where
  "destroys_runtime_vmk operation \<longleftrightarrow>
     operation = Recovery \<or> operation = BrowserReplacement \<or> operation = VmkRekey"

definition runtime_state_name :: "vault_state \<Rightarrow> string" where
  "runtime_state_name state = (case state of
     Unprovisioned \<Rightarrow> ''unprovisioned'' | ReprovisionRequired \<Rightarrow> ''reprovision_required''
   | Locked \<Rightarrow> ''locked'' | Unlocked \<Rightarrow> ''unlocked'' | VaultError \<Rightarrow> ''error'')"

definition parse_session_operation :: "'j json_api \<Rightarrow> 'j \<Rightarrow> operation option" where
  "parse_session_operation api params =
     Option.bind (Option.bind (js_item api params ''operation'') (js_string api)) parse_operation"

definition recovery_deadline_from :: "u64 \<Rightarrow> u64" where
  "recovery_deadline_from now_ms =
     (if now_ms > max_u64 - kAttemptTtlMs then max_u64 else now_ms + kAttemptTtlMs)"

text \<open>\<open>recovery_reset_decision\<close> with its output arguments, which keep their defaults when it fails.\<close>

definition empty_metadata :: vault_metadata where
  "empty_metadata = \<lparr>md_state = Unprovisioned, md_schema_ready = False, md_has_vault = False,
     md_recovery_reset_allowed = False, md_storage_schema_version = 0, md_vault_format_version = 0,
     md_vault_id = zeros kVaultIdBytes, md_generation = 0, md_last_used = None\<rparr>"

definition recovery_facts ::
  "('w, 'n) device \<Rightarrow> recovery_reset_decision \<times> vault_metadata \<times> reg_snapshot \<times> reg_status" where
  "recovery_facts d =
     (case metadata (dv_runtime d) of
        Inl _ \<Rightarrow> (Unavailable, empty_metadata, empty_reg_snapshot, RegIo)
      | Inr m \<Rightarrow> (case reg_snapshot_of (dv_store d) of (status, output) \<Rightarrow>
          let snapshot = (case output of None \<Rightarrow> empty_reg_snapshot | Some sn \<Rightarrow> sn)
          in (classify_recovery_reset m status snapshot (rs_recovery_reset_available (dv_store d)),
              m, snapshot, status)))"

definition hello_data_of ::
  "device_metadata \<Rightarrow> vault_metadata \<Rightarrow> reg_snapshot \<Rightarrow> bool \<Rightarrow> hello_data" where
  "hello_data_of dm m sn recovery_reset_required =
     \<lparr>he_device = dm_device dm, he_device_id = device_id_text (sn_device_id sn),
      he_firmware = dm_firmware dm,
      he_persisted_format = (if md_has_vault m then md_vault_format_version m else kVaultFormatVersion2),
      he_build_commit = dm_build_commit dm, he_state = runtime_state_name (md_state m),
      he_storage_ready = md_schema_ready m, he_recovery_reset_required = recovery_reset_required,
      he_vault = (if md_has_vault m then Some (md_vault_id m, md_generation m) else None),
      he_registration = (if sn_registration_present sn
        then Some (sn_registration_id sn, sn_epoch sn, sn_brk_public_key sn) else None)\<rparr>"

section \<open>A destructive reset of a healthy device\<close>

definition draw_attempt_id ::
  "('k, 'p, 'w, 'n, 'e, 'u, 'j) canonical_setup \<Rightarrow> ('k, 'p, 'w, 'n, 'e, 'u) canonical_protocol \<Rightarrow>
   (bytes \<times> ('k, 'p, 'w, 'n, 'e, 'u) canonical_protocol) option" where
  "draw_attempt_id cu s =
     (case draw_nonzero (cu_random cu) kAttemptIdBytes (tv_env (cq_time s)) of
        None \<Rightarrow> None
      | Some (attempt_id, e) \<Rightarrow> Some (attempt_id, s\<lparr>cq_time := (cq_time s)\<lparr>tv_env := e\<rparr>\<rparr>))"

definition confirmation_state ::
  "('k, 'p, 'w, 'n, 'e, 'u, 'j) canonical_setup \<Rightarrow> int \<Rightarrow> ('k, 'p, 'w, 'n, 'e, 'u) canonical_protocol \<Rightarrow>
   response" where
  "confirmation_state cu i s = StateSuccess i
     (if po_confirmed (cu_presence cu) (sh_presence (cq_session s)) then ''confirmed'' else ''awaiting_confirmation'')"

definition reset_begin_request ::
  "('k, 'p, 'w, 'n, 'e, 'u, 'j) canonical_setup \<Rightarrow> int \<Rightarrow> u64 \<Rightarrow>
   ('k, 'p, 'w, 'n, 'e, 'u) canonical_protocol \<Rightarrow>
   (response \<times> ('k, 'p, 'w, 'n, 'e, 'u) canonical_protocol) option" where
  "reset_begin_request cu i now_ms s =
     (case recovery_facts (cq_device s) of (decision, m, _, _) \<Rightarrow>
        if decision \<noteq> NotRequired \<or> md_state m \<noteq> Unlocked then Some (ErrorResponse i ''invalid_state'', s)
        else case draw_attempt_id cu (protocol_disconnect cu s) of
          None \<Rightarrow> None
        | Some (attempt_id, s) \<Rightarrow>
            (case on_presence (po_begin (cu_presence cu) PresFactoryReset attempt_id now_ms) s of (begun, s) \<Rightarrow>
               if \<not> begun then Some (ErrorResponse i ''invalid_state'', s)
               else Some (ResetBeginSuccess i attempt_id,
                      s\<lparr>cq_reset := reset_begin attempt_id now_ms (cq_reset s)\<rparr>)))"

text \<open>The checks that \<open>status\<close>, \<open>cancel\<close> and \<open>commit\<close> begin with.\<close>

definition checked_reset ::
  "('k, 'p, 'w, 'n, 'e, 'u, 'j) canonical_setup \<Rightarrow> int \<Rightarrow> 'j \<Rightarrow> u64 \<Rightarrow>
   (bytes \<Rightarrow> ('k, 'p, 'w, 'n, 'e, 'u) canonical_protocol \<Rightarrow>
      response \<times> ('k, 'p, 'w, 'n, 'e, 'u) canonical_protocol) \<Rightarrow>
   ('k, 'p, 'w, 'n, 'e, 'u) canonical_protocol \<Rightarrow> response \<times> ('k, 'p, 'w, 'n, 'e, 'u) canonical_protocol" where
  "checked_reset cu i params now_ms action s =
     (case read_binary (cu_json cu) params ''attempt_id'' kAttemptIdBytes of
        None \<Rightarrow> (ErrorResponse i ''invalid_request'', s)
      | Some attempt_id \<Rightarrow>
          let check = reset_check_of attempt_id now_ms (cq_reset s)
          in if check = CheckExpired then (ErrorResponse i ''expired'', cancel_healthy_factory_reset cu s)
             else if check \<noteq> CheckOk then (ErrorResponse i ''invalid_state'', s)
             else action attempt_id s)"

definition reset_status_request where
  "reset_status_request cu i params now_ms s =
     checked_reset cu i params now_ms (\<lambda>_ s. (confirmation_state cu i s, s)) s"

definition reset_cancel_request where
  "reset_cancel_request cu i params now_ms s =
     checked_reset cu i params now_ms (\<lambda>_ s. (EmptySuccess i, cancel_healthy_factory_reset cu s)) s"

text \<open>The Vault goes first, then the registration; both must succeed.\<close>

definition erase_vault_then_registration ::
  "('k, 'p, 'w, 'n, 'e, 'u, 'j) canonical_setup \<Rightarrow> int \<Rightarrow> ('k, 'p, 'w, 'n, 'e, 'u) canonical_protocol \<Rightarrow>
   response \<times> ('k, 'p, 'w, 'n, 'e, 'u) canonical_protocol" where
  "erase_vault_then_registration cu i s =
     (let (vault_status, s) = on_device (on_runtime (factory_reset (en_persistence (cu_device cu)))) s;
          (clear_status, s) = (if vault_status = Ok
            then on_device (on_store (clear_registration (en_nvs (cu_device cu)))) s else (RegIo, s))
      in if vault_status = Ok \<and> clear_status = RegOk
         then (EmptySuccess i, notify_security_boundary cu s) else (ErrorResponse i ''reset_failed'', s))"

definition reset_commit_request ::
  "('k, 'p, 'w, 'n, 'e, 'u, 'j) canonical_setup \<Rightarrow> int \<Rightarrow> 'j \<Rightarrow> u64 \<Rightarrow>
   ('k, 'p, 'w, 'n, 'e, 'u) canonical_protocol \<Rightarrow> response \<times> ('k, 'p, 'w, 'n, 'e, 'u) canonical_protocol" where
  "reset_commit_request cu i params now_ms s =
     checked_reset cu i params now_ms (\<lambda>attempt_id s.
       case on_presence (po_consume (cu_presence cu) attempt_id now_ms) s of (consumed, s) \<Rightarrow>
         if \<not> consumed then (ErrorResponse i ''presence_required'', s)
         else
           let s = s\<lparr>cq_reset := reset_consume (cq_reset s)\<rparr>
           in case recovery_facts (cq_device s) of (decision, m, _, _) \<Rightarrow>
             if decision \<noteq> NotRequired \<or> md_state m \<noteq> Unlocked then (ErrorResponse i ''invalid_state'', s)
             else secret_boundary cu (erase_vault_then_registration cu i)
                    (cancel_recovery_reset cu (drop_session cu s))) s"

section \<open>A reset that recovers from corruption\<close>

text \<open>The callback behind the secret boundary: the Vault is locked, unless it is in error already.\<close>

definition enter_reset_boundary ::
  "('k, 'p, 'w, 'n, 'e, 'u, 'j) canonical_setup \<Rightarrow> vault_metadata \<Rightarrow>
   ('k, 'p, 'w, 'n, 'e, 'u) canonical_protocol \<Rightarrow> status \<times> ('k, 'p, 'w, 'n, 'e, 'u) canonical_protocol" where
  "enter_reset_boundary cu m s =
     (let (result, s) = (if md_state m = VaultError
            then (if md_recovery_reset_allowed m then Ok else InvalidState, s)
            else on_device (on_memory enter_recovery_boundary) s)
      in (result, if result = Ok then notify_security_boundary cu s else s))"

definition recovery_begin_request ::
  "('k, 'p, 'w, 'n, 'e, 'u, 'j) canonical_setup \<Rightarrow> int \<Rightarrow> u64 \<Rightarrow>
   ('k, 'p, 'w, 'n, 'e, 'u) canonical_protocol \<Rightarrow>
   (response \<times> ('k, 'p, 'w, 'n, 'e, 'u) canonical_protocol) option" where
  "recovery_begin_request cu i now_ms s =
     (case recovery_facts (cq_device s) of (decision, m, _, _) \<Rightarrow>
        if decision \<noteq> Required then Some (ErrorResponse i ''invalid_state'', s)
        else case secret_boundary cu (enter_reset_boundary cu m) (protocol_disconnect cu s) of
            (boundary_status, s) \<Rightarrow>
          if boundary_status \<noteq> Ok then Some (ErrorResponse i ''invalid_state'', s)
          else case draw_attempt_id cu s of
            None \<Rightarrow> None
          | Some (attempt_id, s) \<Rightarrow>
              let s = s\<lparr>cq_recovery_attempt_id := attempt_id,
                        cq_recovery_deadline_ms := recovery_deadline_from now_ms\<rparr>;
                  (begun, s) = on_presence (po_begin (cu_presence cu) PresFactoryReset attempt_id now_ms) s;
                  s = s\<lparr>cq_recovery_active := begun\<rparr>
              in if \<not> begun then Some (ErrorResponse i ''invalid_state'', cancel_recovery_reset cu s)
                 else Some (ResetBeginSuccess i attempt_id, s))"

definition checked_recovery ::
  "('k, 'p, 'w, 'n, 'e, 'u, 'j) canonical_setup \<Rightarrow> int \<Rightarrow> 'j \<Rightarrow> u64 \<Rightarrow>
   (bytes \<Rightarrow> ('k, 'p, 'w, 'n, 'e, 'u) canonical_protocol \<Rightarrow>
      response \<times> ('k, 'p, 'w, 'n, 'e, 'u) canonical_protocol) \<Rightarrow>
   ('k, 'p, 'w, 'n, 'e, 'u) canonical_protocol \<Rightarrow> response \<times> ('k, 'p, 'w, 'n, 'e, 'u) canonical_protocol" where
  "checked_recovery cu i params now_ms action s =
     (case read_binary (cu_json cu) params ''attempt_id'' kAttemptIdBytes of
        None \<Rightarrow> (ErrorResponse i ''invalid_request'', s)
      | Some attempt_id \<Rightarrow>
          if \<not> cq_recovery_active s \<or> \<not> constant_time_equal attempt_id (cq_recovery_attempt_id s)
          then (ErrorResponse i ''invalid_state'', s)
          else if now_ms \<ge> cq_recovery_deadline_ms s
          then (ErrorResponse i ''expired'', cancel_recovery_reset cu s)
          else action attempt_id s)"

definition recovery_status_request where
  "recovery_status_request cu i params now_ms s =
     checked_recovery cu i params now_ms (\<lambda>_ s. (confirmation_state cu i s, s)) s"

text \<open>The registration goes first, with the Device ID to keep, and the Vault after it.\<close>

definition erase_registration_then_vault ::
  "('k, 'p, 'w, 'n, 'e, 'u, 'j) canonical_setup \<Rightarrow> reg_status \<Rightarrow> int \<Rightarrow>
   ('k, 'p, 'w, 'n, 'e, 'u) canonical_protocol \<Rightarrow> response \<times> ('k, 'p, 'w, 'n, 'e, 'u) canonical_protocol" where
  "erase_registration_then_vault cu registration_status i s =
     (let n = en_nvs (cu_device cu);
          (clear_status, s) = on_device (on_store (if registration_status = RegCorrupt
            then clear_corrupt_registration_for_recovery n else clear_registration n)) s;
          (vault_status, s) = (if clear_status = RegOk
            then on_device (on_runtime (factory_reset (en_persistence (cu_device cu)))) s else (Io, s))
      in if vault_status = Ok \<and> clear_status = RegOk
         then (EmptySuccess i, notify_security_boundary cu s) else (ErrorResponse i ''reset_failed'', s))"

definition recovery_complete_request ::
  "('k, 'p, 'w, 'n, 'e, 'u, 'j) canonical_setup \<Rightarrow> int \<Rightarrow> 'j \<Rightarrow> u64 \<Rightarrow>
   ('k, 'p, 'w, 'n, 'e, 'u) canonical_protocol \<Rightarrow> response \<times> ('k, 'p, 'w, 'n, 'e, 'u) canonical_protocol" where
  "recovery_complete_request cu i params now_ms s =
     checked_recovery cu i params now_ms (\<lambda>attempt_id s.
       case on_presence (po_consume (cu_presence cu) attempt_id now_ms) s of (consumed, s) \<Rightarrow>
         if \<not> consumed then (ErrorResponse i ''presence_required'', s)
         else
           let s = s\<lparr>cq_recovery_active := False, cq_recovery_attempt_id := zeros kAttemptIdBytes,
                     cq_recovery_deadline_ms := 0\<rparr>
           in case recovery_facts (cq_device s) of (decision, _, _, registration_status) \<Rightarrow>
             if decision \<noteq> Required then (ErrorResponse i ''invalid_state'', s)
             else secret_boundary cu (erase_registration_then_vault cu registration_status i) s) s"

section \<open>The other requests\<close>

definition hello_request ::
  "('k, 'p, 'w, 'n, 'e, 'u, 'j) canonical_setup \<Rightarrow> int \<Rightarrow> ('k, 'p, 'w, 'n, 'e, 'u) canonical_protocol \<Rightarrow>
   response" where
  "hello_request cu i s =
     (case recovery_facts (cq_device s) of (decision, m, sn, _) \<Rightarrow>
        if decision = Unavailable then ErrorResponse i ''invalid_state''
        else HelloSuccess i (hello_data_of (cu_metadata cu) m sn (decision = Required)))"

definition status_response :: "int \<Rightarrow> status \<Rightarrow> response" where
  "status_response i status = (if status = Ok then EmptySuccess i else ErrorResponse i (status_code status))"

definition vault_install_request ::
  "('k, 'p, 'w, 'n, 'e, 'u, 'j) canonical_setup \<Rightarrow> int \<Rightarrow> 'j \<Rightarrow> u64 \<Rightarrow>
   ('k, 'p, 'w, 'n, 'e, 'u) canonical_protocol \<Rightarrow> response \<times> ('k, 'p, 'w, 'n, 'e, 'u) canonical_protocol" where
  "vault_install_request cu i params now_ms s =
     (case read_envelope (cu_json cu) params of
        None \<Rightarrow> (ErrorResponse i ''invalid_request'', s\<lparr>cq_device := cancel_pending (cq_device s)\<rparr>)
      | Some envelope \<Rightarrow>
          if \<not> sk_pending (dv_sink (cq_device s)) then (ErrorResponse i ''invalid_state'', s)
          else case on_device (case bc_operation (sk_pending_context (dv_sink (cq_device s))) of
                 InitialProvisioning \<Rightarrow> install_initial_vault (cu_device cu) envelope now_ms
               | Recovery \<Rightarrow> install_recovered_vault (cu_device cu) envelope now_ms
               | _ \<Rightarrow> (\<lambda>d. (False, cancel_pending d))) s of (installed, s) \<Rightarrow>
            (if installed then EmptySuccess i else ErrorResponse i ''invalid_state'', s))"

definition on_update ::
  "(runtime \<times> 'w \<Rightarrow> status \<times> bool \<times> runtime \<times> 'w) \<Rightarrow> ('w, 'n) device \<Rightarrow> (status \<times> bool) \<times> ('w, 'n) device" where
  "on_update f d = (case f (dv_runtime d, dv_medium d) of (status, due, r, w) \<Rightarrow>
     ((status, due), d\<lparr>dv_runtime := r, dv_medium := w\<rparr>))"

definition vault_update_request ::
  "('k, 'p, 'w, 'n, 'e, 'u, 'j) canonical_setup \<Rightarrow> int \<Rightarrow> 'j \<Rightarrow> u64 \<Rightarrow>
   ('k, 'p, 'w, 'n, 'e, 'u) canonical_protocol \<Rightarrow> response \<times> ('k, 'p, 'w, 'n, 'e, 'u) canonical_protocol" where
  "vault_update_request cu i params now_ms s =
     (case (do { envelope \<leftarrow> read_envelope (cu_json cu) params;
                 expected \<leftarrow> read_u64_decimal (cu_json cu) (js_item (cu_json cu) params ''expected_generation'');
                 Some (envelope, expected) }) of
        None \<Rightarrow> (ErrorResponse i ''invalid_request'', s)
      | Some (envelope, expected) \<Rightarrow>
          (case on_device (on_update (update_encrypted_vault (en_persistence (cu_device cu))
                  (en_gcm (cu_device cu)) expected envelope now_ms)) s of ((status, due), s) \<Rightarrow>
             case (if status = Ok \<and> due then lock_security_boundary cu s else (status, s)) of (status, s) \<Rightarrow>
               (status_response i status, s)))"

definition vault_rekey_request ::
  "('k, 'p, 'w, 'n, 'e, 'u, 'j) canonical_setup \<Rightarrow> int \<Rightarrow> 'j \<Rightarrow> u64 \<Rightarrow>
   ('k, 'p, 'w, 'n, 'e, 'u) canonical_protocol \<Rightarrow> response \<times> ('k, 'p, 'w, 'n, 'e, 'u) canonical_protocol" where
  "vault_rekey_request cu i params now_ms s =
     (case (do { envelope \<leftarrow> read_envelope (cu_json cu) params;
                 expected \<leftarrow> read_u64_decimal (cu_json cu) (js_item (cu_json cu) params ''expected_generation'');
                 Some (envelope, expected) }) of
        None \<Rightarrow> (ErrorResponse i ''invalid_request'', s\<lparr>cq_device := cancel_pending (cq_device s)\<rparr>)
      | Some (envelope, expected) \<Rightarrow>
          (case on_device (install_rekeyed_vault (cu_device cu) expected envelope now_ms) s of (installed, s) \<Rightarrow>
             if \<not> installed then (ErrorResponse i ''invalid_state'', s)
             else case (if automatic_lock_due now_ms (dv_runtime (cq_device s))
                        then lock_security_boundary cu s else (Ok, s)) of (lock_status, s) \<Rightarrow>
               (status_response i lock_status, s)))"

definition time_status_request ::
  "('k, 'p, 'w, 'n, 'e, 'u, 'j) canonical_setup \<Rightarrow> int \<Rightarrow> ('k, 'p, 'w, 'n, 'e, 'u) canonical_protocol \<Rightarrow>
   response \<times> ('k, 'p, 'w, 'n, 'e, 'u) canonical_protocol" where
  "time_status_request cu i s =
     (case on_time (time_status (cu_platform cu)) s of (snapshot, s) \<Rightarrow> (TimeStatusSuccess i snapshot, s))"

definition time_sync_request ::
  "('k, 'p, 'w, 'n, 'e, 'u, 'j) canonical_setup \<Rightarrow> int \<Rightarrow> 'j \<Rightarrow>
   ('k, 'p, 'w, 'n, 'e, 'u) canonical_protocol \<Rightarrow> response \<times> ('k, 'p, 'w, 'n, 'e, 'u) canonical_protocol" where
  "time_sync_request cu i params s =
     (case read_u64_decimal (cu_json cu) (js_item (cu_json cu) params ''unix_seconds'') of
        None \<Rightarrow> (ErrorResponse i ''invalid_request'', s)
      | Some unix_seconds \<Rightarrow>
          (case on_time (sync_from_usb (cu_platform cu) unix_seconds (dv_runtime (cq_device s))) s of
             (status, s) \<Rightarrow>
               (if status = SyncOk then EmptySuccess i else ErrorResponse i (sync_result_code status), s)))"

definition device_lock_request ::
  "('k, 'p, 'w, 'n, 'e, 'u, 'j) canonical_setup \<Rightarrow> int \<Rightarrow> ('k, 'p, 'w, 'n, 'e, 'u) canonical_protocol \<Rightarrow>
   response \<times> ('k, 'p, 'w, 'n, 'e, 'u) canonical_protocol" where
  "device_lock_request cu i s =
     (case lock_security_boundary cu s of (status, s) \<Rightarrow> (status_response i status, s))"

text \<open>The undisguised \<open>factory_reset\<close> of earlier clients is always refused.\<close>

definition bare_factory_reset_request ::
  "int \<Rightarrow> ('k, 'p, 'w, 'n, 'e, 'u) canonical_protocol \<Rightarrow> response" where
  "bare_factory_reset_request i s =
     (case recovery_facts (cq_device s) of (decision, m, _, _) \<Rightarrow>
        if decision = NotRequired \<and> md_state m = Unlocked then ErrorResponse i ''presence_required''
        else ErrorResponse i ''invalid_state'')"

section \<open>Sessions\<close>

definition session_setup_of ::
  "('k, 'p, 'w, 'n, 'e, 'u, 'j) canonical_setup \<Rightarrow> int \<Rightarrow> ('k, 'p, ('w, 'n) device, 'j) session_setup" where
  "session_setup_of cu timer_us =
     \<lparr>se_json = cu_json cu, se_p256_point = en_p256_point (cu_device cu), se_primitives = cu_primitives cu,
      se_presence = cu_presence cu,
      se_device = \<lparr>sd_snapshot = \<lambda>d. canonical_snapshot (dv_runtime d) (dv_store d),
        sd_install_vmk = \<lambda>context vmk. install_vmk (cu_device cu) context vmk timer_us\<rparr>\<rparr>"

definition handle_session_line ::
  "('k, 'p, 'w, 'n, 'e, 'u, 'j) canonical_setup \<Rightarrow> 'k line_inputs \<Rightarrow> bytes \<Rightarrow> u64 \<Rightarrow>
   ('k, 'p, 'w, 'n, 'e, 'u) canonical_protocol \<Rightarrow> response \<times> ('k, 'p, 'w, 'n, 'e, 'u) canonical_protocol" where
  "handle_session_line cu inp line now_ms s =
     (case session_handle_line (session_setup_of cu (li_timer_us inp)) (li_entropy inp) line now_ms
             (cq_session s, cq_device s) of
        (response, h, d) \<Rightarrow> (response, s\<lparr>cq_session := h, cq_device := d\<rparr>))"

text \<open>After a session has begun: the Vault is brought into the state that its operation needs. An
  operation that destroys the resident key runs behind the secret boundary.\<close>

definition prepare_session ::
  "('k, 'p, 'w, 'n, 'e, 'u, 'j) canonical_setup \<Rightarrow> int \<Rightarrow> operation \<Rightarrow> response \<Rightarrow>
   ('k, 'p, 'w, 'n, 'e, 'u) canonical_protocol \<Rightarrow> response \<times> ('k, 'p, 'w, 'n, 'e, 'u) canonical_protocol" where
  "prepare_session cu i operation response s =
     (case (if destroys_runtime_vmk operation
            then secret_boundary cu (\<lambda>s. let (result, s) = on_device (prepare_attempt operation) s
                   in (result, notify_security_boundary cu s)) s
            else on_device (prepare_attempt operation) s) of (prepared, s) \<Rightarrow>
        if \<not> prepared then (ErrorResponse i ''invalid_state'', drop_session cu s) else (response, s))"

definition session_protocol_request ::
  "('k, 'p, 'w, 'n, 'e, 'u, 'j) canonical_setup \<Rightarrow> 'k line_inputs \<Rightarrow> bytes \<Rightarrow> int \<Rightarrow> bytes \<Rightarrow> 'j \<Rightarrow> u64 \<Rightarrow>
   ('k, 'p, 'w, 'n, 'e, 'u) canonical_protocol \<Rightarrow> response \<times> ('k, 'p, 'w, 'n, 'e, 'u) canonical_protocol" where
  "session_protocol_request cu inp line i operation params now_ms s =
     (let s = cancel_recovery_reset cu (cancel_healthy_factory_reset cu s);
          begin = (operation = ascii ''session.begin''); parsed = parse_session_operation (cu_json cu) params
      in if length line > kMaxSessionV2MessageBytes then (message_too_large, protocol_disconnect cu s)
         else if begin \<and> parsed = None then (ErrorResponse i ''invalid_request'', protocol_disconnect cu s)
         else case handle_session_line cu inp line now_ms s of (response, s) \<Rightarrow>
           if begin \<and> response_ok (cu_json cu) response then prepare_session cu i (the parsed) response s
           else if operation = ascii ''session.complete'' \<and> response_ok (cu_json cu) response
           then (response, s\<lparr>cq_device := (cq_device s)\<lparr>dv_sink :=
                   arm_pending_deadline now_ms (dv_sink (cq_device s))\<rparr>\<rparr>)
           else if operation = ascii ''session.cancel''
           then (response, s\<lparr>cq_device := cancel_pending (cq_device s)\<rparr>)
           else (response, s))"

section \<open>Lines\<close>

definition is_session_operation :: "bytes \<Rightarrow> bool" where
  "is_session_operation operation \<longleftrightarrow> take 8 operation = ascii ''session.''"

definition protocol_request ::
  "('k, 'p, 'w, 'n, 'e, 'u, 'j) canonical_setup \<Rightarrow> 'k line_inputs \<Rightarrow> bytes \<Rightarrow> int \<Rightarrow> bytes \<Rightarrow> 'j \<Rightarrow> u64 \<Rightarrow>
   ('k, 'p, 'w, 'n, 'e, 'u) canonical_protocol \<Rightarrow>
   (response \<times> ('k, 'p, 'w, 'n, 'e, 'u) canonical_protocol) option" where
  "protocol_request cu inp line i operation params now_ms s =
     (if is_session_operation operation then
        Some (session_protocol_request cu inp line i operation params now_ms s)
      else if operation = ascii ''hello'' then Some (hello_request cu i s, s)
      else if operation = ascii kFactoryResetBeginOperation then reset_begin_request cu i now_ms s
      else if operation = ascii kFactoryResetStatusOperation then Some (reset_status_request cu i params now_ms s)
      else if operation = ascii kFactoryResetCancelOperation then Some (reset_cancel_request cu i params now_ms s)
      else if operation = ascii kFactoryResetCommitOperation then Some (reset_commit_request cu i params now_ms s)
      else if operation = ascii ''factory_reset.recovery_begin'' then recovery_begin_request cu i now_ms s
      else if operation = ascii ''factory_reset.recovery_status'' then
        Some (recovery_status_request cu i params now_ms s)
      else if operation = ascii ''factory_reset.recovery_complete'' then
        Some (recovery_complete_request cu i params now_ms s)
      else if operation = ascii ''vault.install'' then Some (vault_install_request cu i params now_ms s)
      else if operation = ascii ''vault.update'' then Some (vault_update_request cu i params now_ms s)
      else if operation = ascii ''vault.rekey'' then Some (vault_rekey_request cu i params now_ms s)
      else if operation = ascii ''time.status'' then Some (time_status_request cu i s)
      else if operation = ascii ''time.sync'' then Some (time_sync_request cu i params s)
      else if operation = ascii ''device.lock'' then Some (device_lock_request cu i s)
      else if operation = ascii ''factory_reset'' then Some (bare_factory_reset_request i s, s)
      else Some (ErrorResponse i ''unsupported_op'', s))"

definition protocol_handle_line ::
  "('k, 'p, 'w, 'n, 'e, 'u, 'j) canonical_setup \<Rightarrow> 'k line_inputs \<Rightarrow> bytes \<Rightarrow> u64 \<Rightarrow>
   ('k, 'p, 'w, 'n, 'e, 'u) canonical_protocol \<Rightarrow>
   (response \<times> ('k, 'p, 'w, 'n, 'e, 'u) canonical_protocol) option" where
  "protocol_handle_line cu inp line now_ms s =
     (let s = housekeeping cu now_ms s; api = cu_json cu;
          failed = (\<lambda>i code. Some (ErrorResponse i code, protocol_disconnect cu s))
      in if line = [] then Some (ErrorResponse 0 ''invalid_request'', s)
         else if length line > kMaxCanonicalV2MessageBytes then failed 0 ''message_too_large''
         else case js_parse api line of
           None \<Rightarrow> failed 0 ''invalid_json''
         | Some root \<Rightarrow>
             if \<not> js_is_object api root then failed 0 ''invalid_json''
             else case read_nonnegative_int api (js_item api root ''id'') of
               None \<Rightarrow> failed 0 ''invalid_id''
             | Some i \<Rightarrow>
                 if read_nonnegative_int api (js_item api root ''v'') \<noteq> Some (uint kProtocolVersion)
                 then failed i ''unsupported_version''
                 else case (Option.bind (js_item api root ''op'') (js_string api), js_item api root ''params'') of
                   (Some operation, Some params) \<Rightarrow>
                     if \<not> js_is_object api params then failed i ''invalid_request''
                     else protocol_request cu inp line i operation params now_ms s
                 | _ \<Rightarrow> failed i ''invalid_request'')"

end
