(* ===== verification/Canonical_Protocol_Correct.thy ===== *)
theory Canonical_Protocol_Correct
  imports Canonical_Protocol Session_Handler_Correct Vmk_Sink_Correct Vault_Runtime_Props Time_Service_Correct
begin

text \<open>
  The whole protocol, proved for any presence provider that keeps the contract \<open>presence_binding\<close> and
  then applied to the physical button. Three things are shown of every line: the session, the reset of a
  healthy device and the reset that recovers a broken one exclude each other; what the user is asked to
  confirm is what the pending operation needs; and short of a confirmed FACTORY RESET a device that
  holds a Vault keeps it, or moves to its successor.
\<close>

section \<open>What may happen to the device\<close>

text \<open>A key that waits for a Vault to come waits only while there is none: installing may erase the
  partition, so this is what protects an existing Vault.\<close>

definition pending_fits :: "('w, 'n) device \<Rightarrow> bool" where
  "pending_fits d \<longleftrightarrow> (sk_pending (dv_sink d) \<and>
     bc_operation (sk_pending_context (dv_sink d)) \<in> {InitialProvisioning, Recovery} \<longrightarrow>
     \<not> rt_has_vault (dv_runtime d))"

definition parts_inv :: "('w, 'n) device_env \<Rightarrow> ('w, 'n) device \<Rightarrow> bool" where
  "parts_inv env d \<longleftrightarrow> device_ok env d \<and> pending_fits d"

text \<open>\<open>vault_still\<close>: the same Vault, or still none; \<open>vault_kept\<close>: a Vault is never lost, and moves to
  its successor only.\<close>

definition vault_still :: "('w, 'n) device \<Rightarrow> ('w, 'n) device \<Rightarrow> bool" where
  "vault_still d d' \<longleftrightarrow> rt_has_vault (dv_runtime d') = rt_has_vault (dv_runtime d) \<and>
     (rt_has_vault (dv_runtime d) \<longrightarrow> rt_envelope (dv_runtime d') = rt_envelope (dv_runtime d))"

definition vault_kept :: "('w, 'n) device \<Rightarrow> ('w, 'n) device \<Rightarrow> bool" where
  "vault_kept d d' \<longleftrightarrow> (rt_has_vault (dv_runtime d) \<longrightarrow> rt_has_vault (dv_runtime d') \<and>
     (rt_envelope (dv_runtime d') = rt_envelope (dv_runtime d) \<or>
      succeeds (rt_envelope (dv_runtime d)) (rt_envelope (dv_runtime d'))))"

lemma still_refl [simp]: "vault_still d d"
  by (simp add: vault_still_def)

lemma still_trans: "vault_still d d' \<Longrightarrow> vault_still d' d'' \<Longrightarrow> vault_still d d''"
  by (simp add: vault_still_def)

lemma still_kept: "vault_still d d' \<Longrightarrow> vault_kept d d'"
  by (simp add: vault_still_def vault_kept_def)

lemma kept_still: "vault_kept d d' \<Longrightarrow> vault_still d' d'' \<Longrightarrow> vault_kept d d''"
  by (auto simp: vault_still_def vault_kept_def)

lemma still_kept_trans: "vault_still d d' \<Longrightarrow> vault_kept d' d'' \<Longrightarrow> vault_kept d d''"
  by (auto simp: vault_still_def vault_kept_def)

text \<open>The sink's own operations do not touch the Vault.\<close>

lemma sink_still [simp]: "vault_still d (d\<lparr>dv_sink := k\<rparr>)" "vault_still d (cancel_pending d)"
  by (simp_all add: vault_still_def)

lemma cancel_inv: "parts_inv env d \<Longrightarrow> parts_inv env (cancel_pending d)"
  by (simp add: parts_inv_def cancel_ok pending_fits_def)

lemma expire_device_inv:
  "parts_inv env d \<Longrightarrow> parts_inv env (d\<lparr>dv_sink := snd (expire_pending now (dv_sink d))\<rparr>)"
  by (auto simp: parts_inv_def device_ok_def expire_pending_inv pending_fits_def expire_pending_def)

lemma arm_device_inv:
  "parts_inv env d \<Longrightarrow> parts_inv env (d\<lparr>dv_sink := arm_pending_deadline now (dv_sink d)\<rparr>)"
proof -
  assume d: "parts_inv env d"
  have "sk_pending (arm_pending_deadline now k) = sk_pending k"
    "sk_pending_context (arm_pending_deadline now k) = sk_pending_context k" for k
    by (simp_all add: arm_pending_deadline_def)
  then show ?thesis using d by (simp add: parts_inv_def device_ok_def arm_inv pending_fits_def)
qed

text \<open>A call in memory that leaves the Vault alone.\<close>

definition keeps_vault :: "(runtime \<Rightarrow> status \<times> runtime) \<Rightarrow> bool" where
  "keeps_vault f \<longleftrightarrow> (\<forall>r. rt_has_vault (snd (f r)) = rt_has_vault r \<and> rt_envelope (snd (f r)) = rt_envelope r)"

lemma keeps_vault_calls:
  "keeps_vault lock" "keeps_vault enter_recovery_boundary" "keeps_vault enter_vmk_rekey_boundary"
  "keeps_vault (unlock g vmk now)"
  by (auto simp: keeps_vault_def lock_def enter_recovery_boundary_def enter_vmk_rekey_boundary_def unlock_def
      clear_unlock_session_state_def wipe_vmk_def begin_unlock_session_def Let_def split: sum.split)

lemma memory_device:
  assumes "on_memory f d = (st, d')" "keeps_vault f"
  shows "vault_still d d'" "dv_sink d' = dv_sink d" "dv_store d' = dv_store d"
proof -
  have "d' = d\<lparr>dv_runtime := snd (f (dv_runtime d))\<rparr>"
    using assms(1) by (auto simp: on_memory_def split: prod.splits)
  then show "vault_still d d'" "dv_sink d' = dv_sink d" "dv_store d' = dv_store d"
    using assms(2) by (simp_all add: vault_still_def keeps_vault_def)
qed

lemma memory_inv:
  assumes "on_memory f d = (st, d')" "keeps_vault f" "parts_inv env d"
    and "runtime_inv (en_gcm env) (dv_runtime d) \<Longrightarrow> runtime_inv (en_gcm env) (snd (f (dv_runtime d)))"
  shows "parts_inv env d'"
proof -
  have "device_ok env (snd (on_memory f d))"
    using assms(3,4) by (intro memory_ok) (simp_all add: parts_inv_def device_ok_def)
  then show ?thesis
    using memory_device [OF assms(1,2)] assms(1,3)
    by (auto simp: parts_inv_def pending_fits_def vault_still_def)
qed

lemma lock_device:
  assumes "on_memory lock d = (st, d')" "parts_inv env d"
  shows "parts_inv env d' \<and> vault_still d d' \<and> dv_sink d' = dv_sink d"
  using memory_inv [OF assms(1) keeps_vault_calls(1) assms(2)] memory_device [OF assms(1) keeps_vault_calls(1)]
  by (simp add: lock_inv)

lemma boundary_device:
  assumes "on_memory enter_recovery_boundary d = (st, d')" "parts_inv env d"
  shows "parts_inv env d' \<and> vault_still d d' \<and> dv_sink d' = dv_sink d"
  using memory_inv [OF assms(1) keeps_vault_calls(2) assms(2)] memory_device [OF assms(1) keeps_vault_calls(2)]
  by (simp add: recovery_boundary_inv)

lemma prepare_device:
  assumes "prepare_attempt op d = (b, d')" "parts_inv env d"
  shows "parts_inv env d' \<and> vault_still d d'"
proof -
  have c: "parts_inv env (cancel_pending d)" by (rule cancel_inv [OF assms(2)])
  have same: "enter_registration_replacement_boundary = enter_recovery_boundary"
    by (rule ext) (simp add: enter_registration_replacement_boundary_def)
  obtain s1 d1 where 1: "on_memory enter_recovery_boundary (cancel_pending d) = (s1, d1)" by (metis prod.collapse)
  obtain s2 d2 where 2: "on_memory enter_vmk_rekey_boundary (cancel_pending d) = (s2, d2)" by (metis prod.collapse)
  have "parts_inv env d1 \<and> vault_still d d1"
    using boundary_device [OF 1 c] still_trans sink_still by blast
  moreover have "parts_inv env d2 \<and> vault_still d d2"
    using memory_inv [OF 2 keeps_vault_calls(3) c rekey_boundary_inv]
      memory_device(1) [OF 2 keeps_vault_calls(3)] still_trans sink_still by blast
  moreover have "d' \<in> {cancel_pending d, d1, d2}"
    using assms(1) by (auto simp: prepare_attempt_def Let_def same 1 2
        split: sum.splits operation.splits if_splits)
  ultimately show ?thesis using c by auto
qed

text \<open>A call on the store.\<close>

lemma store_device:
  assumes "on_store f d = (st, d')"
  shows "vault_still d d'" "dv_sink d' = dv_sink d" "dv_runtime d' = dv_runtime d"
proof -
  have "d' = d\<lparr>dv_store := fst (snd (f (dv_store d, dv_reg_medium d))),
      dv_reg_medium := snd (snd (f (dv_store d, dv_reg_medium d)))\<rparr>"
    using assms by (auto simp: on_store_def split: prod.splits)
  then show "vault_still d d'" "dv_sink d' = dv_sink d" "dv_runtime d' = dv_runtime d"
    by (simp_all add: vault_still_def)
qed

lemma replace_device:
  assumes "unlock_and_replace env c vmk now d = (ok, d')"
  shows "vault_still d d' \<and> dv_sink d' = dv_sink d"
proof -
  obtain s1 d1 where u: "on_memory (unlock (en_gcm env) vmk now) d = (s1, d1)" by (metis prod.collapse)
  obtain s2 d2 where r: "on_store (reg_replace (en_nvs env) (en_p256_point env) (bc_vault_id c)
      (bc_registration_epoch c - 1) (bc_registration_id c) (bc_registration_epoch c)
      (bc_proposed_brk_public_key c)) d1 = (s2, d2)" by (metis prod.collapse)
  obtain s3 d3 where l: "on_memory lock d2 = (s3, d3)" by (metis prod.collapse)
  have "d' \<in> {d, d1, d2, d3}"
    using assms by (auto simp: unlock_and_replace_def u r l Let_def split: if_splits)
  then show ?thesis
    using memory_device [OF u keeps_vault_calls(4)] store_device [OF r] memory_device [OF l keeps_vault_calls(1)]
    by (auto simp: vault_still_def)
qed

lemma install_device:
  assumes run: "install_vmk env c vmk t d = (ok, d')" and inv: "parts_inv env d"
    and initial: "bc_operation c = InitialProvisioning \<Longrightarrow> \<not> rt_has_vault (dv_runtime d)"
  shows "parts_inv env d' \<and> vault_still d d'"
proof -
  let ?now = "runtime_monotonic_ms t" and ?d = "cancel_pending d"
  obtain s1 d1 where u: "on_memory (unlock (en_gcm env) vmk ?now) ?d = (s1, d1)" by (metis prod.collapse)
  obtain r d2 where r: "unlock_and_replace env c vmk ?now ?d = (r, d2)" by (metis prod.collapse)
  define d3 where "d3 = ?d\<lparr>dv_sink := sink_hold c vmk (dv_sink ?d)\<rparr>"
  have ok: "device_ok env d'" using sink_step_ok [of env d "SInstallVmk c vmk t"] inv
    by (simp add: run parts_inv_def)
  have "d' \<in> {?d, d1, d2} \<or> d' = d3 \<and> (bc_operation c = Recovery \<longrightarrow> \<not> rt_has_vault (dv_runtime d))"
    using run by (cases "bc_operation c")
      (auto simp: install_vmk_def u r Let_def metadata_def d3_def split: if_splits sum.splits)
  moreover have "vault_still d x \<and> pending_fits x" if "x \<in> {?d, d1, d2}" for x
    using that memory_device [OF u keeps_vault_calls(4)] replace_device [OF r]
    by (auto simp: vault_still_def pending_fits_def)
  moreover have "vault_still d d3"
    "bc_operation c = Recovery \<longrightarrow> \<not> rt_has_vault (dv_runtime d) \<Longrightarrow> pending_fits d3"
    using initial by (auto simp: d3_def vault_still_def pending_fits_def sink_hold_def)
  ultimately show ?thesis using ok by (auto simp: parts_inv_def)
qed

lemma provision_device:
  assumes "install_initial_vault env e now d = (ok, d') \<or> install_recovered_vault env e now d = (ok, d')"
    and inv: "parts_inv env d"
  shows "parts_inv env d' \<and> vault_kept d d'"
proof -
  have ok: "device_ok env d'" using assms install_ok [of env d e now] by (auto simp: parts_inv_def)
  have "\<not> rt_has_vault (dv_runtime d) \<and> \<not> sk_pending (dv_sink d') \<or> (\<exists>k. d' = cancel_pending (d\<lparr>dv_sink := k\<rparr>))"
  proof -
    have "provision_vault env e now d = (ok, d') \<and> \<not> rt_has_vault (dv_runtime d) \<or> (\<exists>k. d' = cancel_pending (d\<lparr>dv_sink := k\<rparr>))"
      using assms(1) initial_provisions [of env e now d ok d'] recovered_provisions [of env e now d ok d'] inv
      by (auto simp: accepts_def parts_inv_def pending_fits_def)
    moreover have "\<not> sk_pending (dv_sink d')" if "provision_vault env e now d = (ok, d')"
      using that provision_result [OF that] by (auto simp: provision_vault_def Let_def split: prod.splits if_splits)
    ultimately show ?thesis by blast
  qed
  then show ?thesis
    using ok by (auto simp: parts_inv_def pending_fits_def vault_kept_def)
qed

lemma rekey_device:
  assumes run: "install_rekeyed_vault env g e now d = (ok, d')" and inv: "parts_inv env d"
  shows "parts_inv env d' \<and> vault_kept d d'"
proof -
  obtain v k where pv: "pending_valid VmkRekey now (dv_sink d) = (v, k)" by (metis prod.collapse)
  obtain s1 r1 w1 where r: "rekey_encrypted_vault (en_persistence env) (en_gcm env) g e (sk_pending_vmk k) now
      (dv_runtime d, dv_medium d) = (s1, r1, w1)" by (metis prod_cases3)
  have ok: "device_ok env d'" using sink_step_ok [of env d "SRekeyedVault g e now"] inv
    by (simp add: run parts_inv_def)
  have "d' \<in> {cancel_pending (d\<lparr>dv_sink := k\<rparr>), cancel_pending (d\<lparr>dv_sink := k, dv_runtime := r1, dv_medium := w1\<rparr>)}"
    using run r by (auto simp: install_rekeyed_vault_def pv Let_def on_runtime_def split: if_splits)
  moreover have "rt_has_vault (dv_runtime d) \<Longrightarrow> rt_has_vault r1 \<and>
      (rt_envelope r1 = rt_envelope (dv_runtime d) \<or> succeeds (rt_envelope (dv_runtime d)) (rt_envelope r1))"
    using rekey_succession [of "dv_runtime d" "en_persistence env" "en_gcm env" g e "sk_pending_vmk k" now "dv_medium d"] r
    by simp
  ultimately show ?thesis using ok by (auto simp: parts_inv_def pending_fits_def vault_kept_def)
qed

lemma update_device:
  assumes run: "on_update (update_encrypted_vault (en_persistence env) (en_gcm env) g e now) d = (out, d')"
    and inv: "parts_inv env d"
  shows "parts_inv env d' \<and> vault_kept d d'"
proof -
  let ?f = "update_encrypted_vault (en_persistence env) (en_gcm env) g e now"
  obtain st due r w where u: "?f (dv_runtime d, dv_medium d) = (st, due, r, w)" by (metis prod_cases4)
  have d': "d' = d\<lparr>dv_runtime := r, dv_medium := w\<rparr>" using run by (simp add: on_update_def u)
  have "runtime_inv (en_gcm env) r"
    using update_inv [of "en_gcm env" "dv_runtime d" "en_persistence env" g e now "dv_medium d"] inv u
    by (simp add: parts_inv_def device_ok_def)
  moreover have "rt_has_vault (dv_runtime d) \<Longrightarrow> rt_has_vault r \<and>
      (rt_envelope r = rt_envelope (dv_runtime d) \<or> succeeds (rt_envelope (dv_runtime d)) (rt_envelope r))"
    using update_succession [of "dv_runtime d" "en_persistence env" "en_gcm env" g e now "dv_medium d"] u by simp
  moreover have "r = dv_runtime d" if "\<not> rt_has_vault (dv_runtime d)"
    using u that by (simp add: update_encrypted_vault_def split: if_splits)
  ultimately show ?thesis
    using inv by (auto simp: d' parts_inv_def device_ok_def pending_fits_def vault_kept_def)
qed

text \<open>Erasing keeps the parts in order.\<close>

lemma erase_device:
  assumes "on_runtime (factory_reset p) d = (st, d')" "parts_inv env d"
  shows "parts_inv env d'"
proof -
  have "rt_has_vault (dv_runtime d') \<longrightarrow> rt_has_vault (dv_runtime d)" "dv_sink d' = dv_sink d"
    using assms(1) by (auto simp: on_runtime_def factory_reset_def Let_def clear_unlock_session_state_def wipe_vmk_def
        split: prod.splits if_splits)
  then show ?thesis using reset_ok [of env d p] assms by (auto simp: parts_inv_def pending_fits_def)
qed

lemma clear_device:
  assumes "on_store (if b then clear_corrupt_registration_for_recovery n else clear_registration n) d = (st, d')"
    and "parts_inv env d"
  shows "parts_inv env d'"
proof -
  have "store_inv p (fst (snd (clear_registration n (s, w))))"
    "store_inv p (fst (snd (clear_corrupt_registration_for_recovery n (s, w))))" if "store_inv p s" for p s w
    using clear_registration_inv [OF that] clear_corrupt_inv [OF that] by (metis prod.collapse)+
  then have "device_ok env (snd (on_store (if b then clear_corrupt_registration_for_recovery n else clear_registration n) d))"
    using assms(2) by (intro store_ok) (simp_all add: parts_inv_def device_ok_def)
  then show ?thesis using assms store_device [OF assms(1)] by (simp add: parts_inv_def pending_fits_def)
qed

section \<open>Who is asking the user\<close>

text \<open>What the provider's own state may be, for whatever the device has done so far: a predicate that its
  operations keep. For the physical button it is the history of its gate.\<close>

locale presence_history = presence_binding ops request
  for ops :: "'p presence_ops" and request :: "'p \<Rightarrow> (presence_operation_kind \<times> bytes) option" +
  fixes reached :: "'p \<Rightarrow> bool"
  assumes keeps_begin: "reached p \<Longrightarrow> reached (snd (po_begin ops op a now p))"
    and keeps_consume: "reached p \<Longrightarrow> reached (snd (po_consume ops a now p))"
    and keeps_cancel: "reached p \<Longrightarrow> reached (po_cancel ops p)"

interpretation gate: presence_history canonical_ops "\<lambda>p. gate_request (cp_gate p)" gate_reached
  by unfold_locales (rule reached_begin reached_consume reached_cancel; assumption)+

text \<open>At most one of the three kinds of attempt is open, and a pending reset shows its own request, if
  any is shown still.\<close>

definition asks_reset ::
  "('p \<Rightarrow> (presence_operation_kind \<times> bytes) option) \<Rightarrow> ('k, 'p, 'w, 'n, 'e, 'u) canonical_protocol \<Rightarrow>
   bytes \<Rightarrow> bool" where
  "asks_reset request s attempt_id \<longleftrightarrow>
     coordinator_idle (sh_coordinator (cq_session s)) \<and>
     request (sh_presence (cq_session s)) \<in> {Some (PresFactoryReset, attempt_id), None}"

definition control_inv ::
  "('p \<Rightarrow> (presence_operation_kind \<times> bytes) option) \<Rightarrow> ('p \<Rightarrow> bool) \<Rightarrow> ('k, 'p, 'w, 'n, 'e, 'u) canonical_protocol \<Rightarrow> bool" where
  "control_inv request reached s \<longleftrightarrow> reached (sh_presence (cq_session s)) \<and> handler_inv request (cq_session s) \<and>
     \<not> (fa_active (cq_reset s) \<and> cq_recovery_active s) \<and>
     (fa_active (cq_reset s) \<longrightarrow> asks_reset request s (fa_attempt_id (cq_reset s))) \<and>
     (cq_recovery_active s \<longrightarrow> asks_reset request s (cq_recovery_attempt_id s))"

definition control_idle :: "('k, 'p, 'w, 'n, 'e, 'u) canonical_protocol \<Rightarrow> bool" where
  "control_idle s \<longleftrightarrow> coordinator_idle (sh_coordinator (cq_session s)) \<and> \<not> fa_active (cq_reset s) \<and>
     \<not> cq_recovery_active s"

lemma coordinator_idle_inactive: "coordinator_idle c \<Longrightarrow> \<not> co_active c"
  by (simp add: coordinator_idle_def)

lemma handler_inv_idle: "coordinator_idle (sh_coordinator h) \<Longrightarrow> handler_inv request h"
  by (simp add: handler_inv_def Let_def coordinator_idle_inactive)

lemma control_idle_inv:
  "control_idle s \<Longrightarrow> reached (sh_presence (cq_session s)) \<Longrightarrow> control_inv request reached s"
  by (simp add: control_idle_def control_inv_def handler_inv_idle)

lemma handler_inv_presence:
  "handler_inv request h \<Longrightarrow> request p \<in> {request (sh_presence h), None} \<Longrightarrow>
   handler_inv request (h\<lparr>sh_presence := p\<rparr>)"
  by (auto simp: handler_inv_def attempt_shown_def Let_def split: if_splits)

definition with_presence ::
  "'p \<Rightarrow> ('k, 'p, 'w, 'n, 'e, 'u) canonical_protocol \<Rightarrow> ('k, 'p, 'w, 'n, 'e, 'u) canonical_protocol" where
  "with_presence p s = s\<lparr>cq_session := (cq_session s)\<lparr>sh_presence := p\<rparr>\<rparr>"

lemma with_presence_simps [simp]:
  "cq_device (with_presence p s) = cq_device s" "cq_time (with_presence p s) = cq_time s"
  "cq_ui (with_presence p s) = cq_ui s" "cq_reset (with_presence p s) = cq_reset s"
  "cq_recovery_active (with_presence p s) = cq_recovery_active s"
  "cq_recovery_attempt_id (with_presence p s) = cq_recovery_attempt_id s"
  "cq_recovery_deadline_ms (with_presence p s) = cq_recovery_deadline_ms s"
  "sh_presence (cq_session (with_presence p s)) = p"
  "sh_coordinator (cq_session (with_presence p s)) = sh_coordinator (cq_session s)"
  by (simp_all add: with_presence_def)

text \<open>The button may be pressed, released or time out at any moment.\<close>

lemma control_inv_presence:
  "control_inv request reached s \<Longrightarrow> request p \<in> {request (sh_presence (cq_session s)), None} \<Longrightarrow> reached p \<Longrightarrow>
   control_inv request reached (with_presence p s)"
  using handler_inv_presence [of request "cq_session s" p]
  by (auto simp: control_inv_def asks_reset_def with_presence_def)

section \<open>Small steps\<close>

lemma on_presence_eq: "on_presence f s = (fst (f (sh_presence (cq_session s))),
    with_presence (snd (f (sh_presence (cq_session s)))) s)"
  by (simp add: on_presence_def with_presence_def split: prod.split)

lemma cancel_presence_eq:
  "cancel_presence cu s = with_presence (po_cancel (cu_presence cu) (sh_presence (cq_session s))) s"
  by (simp add: cancel_presence_def on_presence_eq)

lemma on_deviceD: "on_device f s = (a, s') \<Longrightarrow> \<exists>d. f (cq_device s) = (a, d) \<and> s' = s\<lparr>cq_device := d\<rparr>"
  by (auto simp: on_device_def split: prod.splits)

lemma secret_boundary_eq:
  "secret_boundary cu f s = f (s\<lparr>cq_time := teardown_network (cu_platform cu) (cq_time s)\<rparr>)"
  by (simp add: secret_boundary_def with_secret_boundary_def)

lemma notify_simps [simp]:
  "cq_device (notify_security_boundary cu s) = cq_device s" "cq_session (notify_security_boundary cu s) = cq_session s"
  "cq_reset (notify_security_boundary cu s) = cq_reset s"
  "cq_recovery_active (notify_security_boundary cu s) = cq_recovery_active s"
  "cq_recovery_attempt_id (notify_security_boundary cu s) = cq_recovery_attempt_id s"
  "cq_recovery_deadline_ms (notify_security_boundary cu s) = cq_recovery_deadline_ms s"
  by (simp_all add: notify_security_boundary_def split: prod.split)

text \<open>\<open>control_inv\<close> and \<open>control_idle\<close> look at the session and the two resets only.\<close>

definition same_control ::
  "('k, 'p, 'w, 'n, 'e, 'u) canonical_protocol \<Rightarrow> ('k, 'p, 'w, 'n, 'e, 'u) canonical_protocol \<Rightarrow> bool" where
  "same_control s s' \<longleftrightarrow> cq_session s' = cq_session s \<and> cq_reset s' = cq_reset s \<and>
     cq_recovery_active s' = cq_recovery_active s \<and> cq_recovery_attempt_id s' = cq_recovery_attempt_id s \<and>
     cq_recovery_deadline_ms s' = cq_recovery_deadline_ms s"

lemma same_control_inv: "same_control s s' \<Longrightarrow> control_inv request reached s' = control_inv request reached s"
  by (simp add: same_control_def control_inv_def asks_reset_def)

lemma same_control_idle: "same_control s s' \<Longrightarrow> control_idle s' = control_idle s"
  by (simp add: same_control_def control_idle_def)

lemma same_control_updates [simp]:
  "same_control s s" "same_control s (s\<lparr>cq_device := d\<rparr>)" "same_control s (s\<lparr>cq_time := ts\<rparr>)"
  "same_control s (notify_security_boundary cu s)"
  by (simp_all add: same_control_def)

lemma same_control_trans: "same_control s s' \<Longrightarrow> same_control s' s'' \<Longrightarrow> same_control s s''"
  by (simp add: same_control_def)

section \<open>Boundaries\<close>

lemma cancel_healthy_simps [simp]:
  "cq_device (cancel_healthy_factory_reset cu s) = cq_device s" "cq_time (cancel_healthy_factory_reset cu s) = cq_time s"
  "\<not> fa_active (cq_reset (cancel_healthy_factory_reset cu s))"
  "cq_recovery_active (cancel_healthy_factory_reset cu s) = cq_recovery_active s"
  "sh_coordinator (cq_session (cancel_healthy_factory_reset cu s)) = sh_coordinator (cq_session s)"
  by (simp_all add: cancel_healthy_factory_reset_def cancel_presence_eq reset_cancel_def Let_def)

lemma cancel_recovery_simps [simp]:
  "cq_device (cancel_recovery_reset cu s) = cq_device s" "cq_time (cancel_recovery_reset cu s) = cq_time s"
  "cq_reset (cancel_recovery_reset cu s) = cq_reset s" "\<not> cq_recovery_active (cancel_recovery_reset cu s)"
  "sh_coordinator (cq_session (cancel_recovery_reset cu s)) = sh_coordinator (cq_session s)"
  by (simp_all add: cancel_recovery_reset_def cancel_presence_eq Let_def)

lemma drop_session_simps [simp]:
  "cq_device (drop_session cu s) = cancel_pending (cq_device s)" "cq_time (drop_session cu s) = cq_time s"
  "cq_reset (drop_session cu s) = cq_reset s" "cq_recovery_active (drop_session cu s) = cq_recovery_active s"
  "cq_recovery_attempt_id (drop_session cu s) = cq_recovery_attempt_id s"
  "coordinator_idle (sh_coordinator (cq_session (drop_session cu s)))"
  "sh_presence (cq_session (drop_session cu s)) = po_cancel (cu_presence cu) (sh_presence (cq_session s))"
  using disconnect_idle [of "cu_presence cu" "cq_session s"]
  by (simp_all add: drop_session_def handler_idle_def)

lemma disconnect_simps [simp]:
  "cq_device (protocol_disconnect cu s) = cancel_pending (cq_device s)"
  "cq_time (protocol_disconnect cu s) = cq_time s" "control_idle (protocol_disconnect cu s)"
  by (simp_all add: protocol_disconnect_def control_idle_def)

lemma lock_boundary:
  assumes "lock_security_boundary cu s = (st, s')" "parts_inv env (cq_device s)"
  shows "control_idle s' \<and> parts_inv env (cq_device s') \<and> vault_still (cq_device s) (cq_device s') \<and>
    cq_session s' = cq_session (protocol_disconnect cu s)"
proof -
  define t where "t = (protocol_disconnect cu s)\<lparr>cq_time := teardown_network (cu_platform cu) (cq_time s)\<rparr>"
  obtain r d where l: "on_memory lock (cancel_pending (cq_device s)) = (r, d)" by (metis prod.collapse)
  have "same_control t s' \<and> cq_device s' = d"
    using assms(1) l by (auto simp: lock_security_boundary_def secret_boundary_eq Let_def on_device_def t_def
        same_control_def protocol_disconnect_def [symmetric] split: prod.splits if_splits)
  moreover have "control_idle t" using same_control_idle [of "protocol_disconnect cu s" t] by (simp add: t_def)
  ultimately show ?thesis
    using lock_device [OF l cancel_inv [OF assms(2)]] same_control_idle [of t s'] still_trans [OF sink_still(2)]
    by (auto simp: same_control_def t_def)
qed

context presence_history begin

lemma authorize_reached:
  assumes "reached p"
  shows "reached (snd (snd (coordinator_authorize p256 prim ops web sig now (c, p))))"
proof -
  obtain b q where q: "po_begin ops (presence_operation (bc_operation (co_context c)))
      (ad_attempt_id (co_descriptor c)) now p = (b, q)" by (metis prod.collapse)
  then have "reached q" using keeps_begin [OF assms] by (metis snd_conv)
  then show ?thesis using assms
    by (auto simp: coordinator_authorize_def q cancel_idle(4) keeps_cancel Let_def
        split: prod.split bool.split option.split)
qed

lemma complete_reached:
  assumes "reached p"
  shows "reached (snd (snd (snd (coordinator_complete prim ops nonce ct tag now (c, p)))))"
proof -
  obtain b q where q: "po_consume ops (ad_attempt_id (co_descriptor c)) now p = (b, q)" by (metis prod.collapse)
  then have "reached q" using keeps_consume [OF assms] by (metis snd_conv)
  then show ?thesis using assms
    by (auto simp: coordinator_complete_def q cancel_idle(4) keeps_cancel Let_def
        split: prod.split bool.split)
qed

lemma expire_reached:
  assumes "reached p" shows "reached (snd (snd (coordinator_expire ops now (c, p))))"
  using assms coordinator_expire_cases [of ops now c p "fst (coordinator_expire ops now (c, p))"
      "fst (snd (coordinator_expire ops now (c, p)))" "snd (snd (coordinator_expire ops now (c, p)))"]
  by (auto simp: keeps_cancel split: if_splits)

lemma handler_expire_reached:
  "reached (sh_presence h) \<Longrightarrow> reached (sh_presence (snd (session_handler_expire ops now h)))"
  using expire_reached [of "sh_presence h" now "sh_coordinator h"]
  by (auto simp: session_handler_expire_def Let_def split: prod.split)

lemma cancel_reached:
  "reached (sh_presence h) \<Longrightarrow> reached (sh_presence (on_coordinator (coordinator_cancel ops) h))"
  by (simp add: on_cancel keeps_cancel)

lemma begin_reached:
  assumes "reached p" shows "reached (snd (snd (coordinator_begin p256 ops e ctx now (c, p))))"
proof -
  obtain g c' p' where r: "coordinator_begin p256 ops e ctx now (c, p) = (g, c', p')" by (metis prod_cases3)
  have "p' = po_cancel ops p"
    using coordinator_begin_None [of p256 ops e ctx now "(c, p)" c' p']
      coordinator_begin_Some [of p256 ops e ctx now "(c, p)" "the g" c' p'] r by (cases g) auto
  then show ?thesis using keeps_cancel [OF assms] by (simp add: r)
qed

lemma fail_reached: "reached (sh_presence h) \<Longrightarrow> reached (sh_presence (snd (fail_closed ops i code h)))"
  by (simp add: fail_closed_def cancel_reached)

lemma session_requests_reached:
  assumes se: "se_presence se = ops" and r: "reached (sh_presence h)"
  shows "reached (sh_presence (snd (session_begin_request se e i params now d h)))"
    "reached (sh_presence (snd (session_authorize_request se i params now d h)))"
    "reached (sh_presence (snd (session_status_request se i params now d h)))"
    "reached (sh_presence (fst (snd (session_complete_request se i params now (h, d)))))"
    "reached (sh_presence (snd (session_cancel_request se i params h)))"
proof -
  define h0 where "h0 = clear_context (on_coordinator (coordinator_cancel ops) h)"
  have h0: "reached (sh_presence h0)" using cancel_reached [OF r] by (simp add: h0_def)
  note began = begin_reached [OF h0]
  show "reached (sh_presence (snd (session_begin_request se e i params now d h)))"
    using began [of "se_p256_point se" e _ now "sh_coordinator h0"] h0
    by (simp add: session_begin_request_def se h0_def [symmetric] Let_def case_prod_beta split: option.split)
  show "reached (sh_presence (snd (session_authorize_request se i params now d h)))"
    using authorize_reached [OF r, where c = "sh_coordinator h"] fail_reached [OF r] r
    by (simp add: session_authorize_request_def se Let_def case_prod_beta split: option.split)
  show "reached (sh_presence (snd (session_status_request se i params now d h)))"
    using expire_reached [OF r, where c = "sh_coordinator h"] fail_reached [OF r] r
    by (simp add: session_status_request_def se Let_def case_prod_beta split: option.split)
  show "reached (sh_presence (fst (snd (session_complete_request se i params now (h, d)))))"
    using complete_reached [OF r, where c = "sh_coordinator h"] fail_reached [OF r] r
    by (simp add: session_complete_request_def se Let_def case_prod_beta split: option.split)
  show "reached (sh_presence (snd (session_cancel_request se i params h)))"
    using fail_reached [OF r] cancel_reached [OF r] r
    by (auto simp: session_cancel_request_def se Let_def split: option.split)
qed

lemma session_line_reached:
  assumes "se_presence se = ops" "reached (sh_presence h)"
  shows "reached (sh_presence (fst (snd (session_handle_line se e line now (h, d)))))"
proof -
  have fail: "reached (sh_presence (fst (snd (case fail_closed ops i code h of (r, h) \<Rightarrow> (r, h, d)))))" for i code
    using fail_reached [OF assms(2)] by (simp add: case_prod_beta)
  have "reached (sh_presence (fst (snd (session_request se e i operation params now (h, d)))))" for i operation params
    using session_requests_reached [OF assms] fail
    by (simp add: session_request_def assms(1) case_prod_beta)
  then show ?thesis using fail
    by (simp add: session_handle_line_def assms(1) Let_def split: option.split)
qed

lemma disconnect_reached:
  assumes "cu_presence cu = ops" "reached (sh_presence (cq_session s))"
  shows "reached (sh_presence (cq_session (protocol_disconnect cu s)))"
  using assms by (simp add: protocol_disconnect_def cancel_recovery_reset_def cancel_healthy_factory_reset_def
      cancel_presence_eq keeps_cancel Let_def)

lemma disconnect_inv:
  assumes "cu_presence cu = ops" "control_inv request reached s"
  shows "control_inv request reached (protocol_disconnect cu s)"
  using disconnect_reached [OF assms(1)] assms(2) by (intro control_idle_inv) (simp_all add: control_inv_def)

lemma lock_boundary_inv:
  assumes "cu_presence cu = ops" "lock_security_boundary cu s = (st, s')"
    "control_inv request reached s" "parts_inv (cu_device cu) (cq_device s)"
  shows "control_inv request reached s' \<and> parts_inv (cu_device cu) (cq_device s') \<and>
    vault_still (cq_device s) (cq_device s')"
  using lock_boundary [OF assms(2,4)] disconnect_reached [OF assms(1)] assms(3)
  by (auto intro!: control_idle_inv simp: control_inv_def [of _ _ s])

lemma cancel_healthy_inv:
  assumes "cu_presence cu = ops" "control_inv request reached s"
  shows "control_inv request reached (cancel_healthy_factory_reset cu s)"
proof -
  have "control_inv request reached (with_presence (po_cancel ops (sh_presence (cq_session s))) s)"
    using assms(2) by (intro control_inv_presence) (simp_all add: cancel_clears keeps_cancel control_inv_def)
  then show ?thesis
    using assms by (auto simp: cancel_healthy_factory_reset_def cancel_presence_eq Let_def control_inv_def
        asks_reset_def reset_cancel_def)
qed

lemma cancel_recovery_inv:
  assumes "cu_presence cu = ops" "control_inv request reached s"
  shows "control_inv request reached (cancel_recovery_reset cu s)"
proof -
  have "control_inv request reached (with_presence (po_cancel ops (sh_presence (cq_session s))) s)"
    using assms(2) by (intro control_inv_presence) (simp_all add: cancel_clears keeps_cancel control_inv_def)
  then show ?thesis
    using assms by (auto simp: cancel_recovery_reset_def cancel_presence_eq Let_def control_inv_def asks_reset_def)
qed

lemma drop_session_inv:
  assumes "cu_presence cu = ops" "control_inv request reached s"
  shows "control_inv request reached (drop_session cu s)"
  using assms by (auto simp: control_inv_def asks_reset_def handler_inv_idle cancel_clears keeps_cancel)

lemma session_handler_expire_presence:
  "coordinator_idle (sh_coordinator h) \<Longrightarrow> session_handler_expire ops now h = (False, h)"
  by (simp add: session_handler_expire_def coordinator_expire_def device_ttl.expire_eq coordinator_idle_def Let_def)

lemma expire_session_inv:
  assumes "control_inv request reached s"
  shows "control_inv request reached (s\<lparr>cq_session := snd (session_handler_expire ops now (cq_session s))\<rparr>)"
proof (cases "coordinator_idle (sh_coordinator (cq_session s))")
  case True
  then show ?thesis using assms by (simp add: session_handler_expire_presence)
next
  case False
  then show ?thesis
    using assms handler_expire_inv [of "cq_session s" now] handler_expire_reached [of "cq_session s" now]
    by (auto simp: control_inv_def asks_reset_def)
qed

end

section \<open>Every step\<close>

definition protocol_inv ::
  "('p \<Rightarrow> (presence_operation_kind \<times> bytes) option) \<Rightarrow> ('p \<Rightarrow> bool) \<Rightarrow> ('k, 'p, 'w, 'n, 'e, 'u, 'j) canonical_setup \<Rightarrow>
   ('k, 'p, 'w, 'n, 'e, 'u) canonical_protocol \<Rightarrow> bool" where
  "protocol_inv request reached cu s \<longleftrightarrow> control_inv request reached s \<and> parts_inv (cu_device cu) (cq_device s)"

text \<open>The pending reset that a request names was asked of the user as such, confirmed, and is not late;
  the confirmation is consumed in this step.\<close>

definition reset_confirmed ::
  "('p \<Rightarrow> (presence_operation_kind \<times> bytes) option) \<Rightarrow> ('k, 'p, 'w, 'n, 'e, 'u, 'j) canonical_setup \<Rightarrow>
   'j \<Rightarrow> u64 \<Rightarrow> ('k, 'p, 'w, 'n, 'e, 'u) canonical_protocol \<Rightarrow> bool" where
  "reset_confirmed request cu params now_ms s \<longleftrightarrow> (\<exists>attempt_id.
     read_binary (cu_json cu) params ''attempt_id'' kAttemptIdBytes = Some attempt_id \<and>
     request (sh_presence (cq_session s)) = Some (PresFactoryReset, attempt_id) \<and>
     fst (po_consume (cu_presence cu) attempt_id now_ms (sh_presence (cq_session s))) \<and>
     (reset_check_of attempt_id now_ms (cq_reset s) = CheckOk \<or>
      cq_recovery_active s \<and> attempt_id = cq_recovery_attempt_id s \<and> now_ms < cq_recovery_deadline_ms s))"

text \<open>A step keeps the invariant, and the Vault unless \<open>P\<close>.\<close>

definition step_ok ::
  "('p \<Rightarrow> (presence_operation_kind \<times> bytes) option) \<Rightarrow> ('p \<Rightarrow> bool) \<Rightarrow> ('k, 'p, 'w, 'n, 'e, 'u, 'j) canonical_setup \<Rightarrow>
   bool \<Rightarrow> ('k, 'p, 'w, 'n, 'e, 'u) canonical_protocol \<Rightarrow> ('k, 'p, 'w, 'n, 'e, 'u) canonical_protocol \<Rightarrow> bool" where
  "step_ok request reached cu P s s' \<longleftrightarrow> protocol_inv request reached cu s' \<and>
     (vault_kept (cq_device s) (cq_device s') \<or> P)"

lemma step_okI:
  "control_inv request reached s' \<Longrightarrow> parts_inv (cu_device cu) (cq_device s') \<and> vault_kept (cq_device s) (cq_device s') \<Longrightarrow>
   step_ok request reached cu P s s'"
  by (simp add: step_ok_def protocol_inv_def)

lemma step_still:
  "control_inv request reached s' \<Longrightarrow> parts_inv (cu_device cu) (cq_device s') \<and> vault_still (cq_device s) (cq_device s') \<Longrightarrow>
   step_ok request reached cu P s s'"
  by (rule step_okI) (auto intro: still_kept)

lemma step_device:
  assumes "on_device f s = (a, s')" "protocol_inv request reached cu s"
    and "\<And>d. f (cq_device s) = (a, d) \<Longrightarrow> parts_inv (cu_device cu) d \<and> vault_kept (cq_device s) d"
  shows "step_ok request reached cu P s s'"
proof -
  obtain d where "f (cq_device s) = (a, d)" "s' = s\<lparr>cq_device := d\<rparr>" using on_deviceD [OF assms(1)] by blast
  then show ?thesis
    using assms(2,3) same_control_inv [of s s'] by (intro step_okI) (simp_all add: protocol_inv_def)
qed

lemma step_refl: "protocol_inv request reached cu s \<Longrightarrow> step_ok request reached cu P s s"
  by (simp add: step_ok_def protocol_inv_def still_kept)

lemma step_cancel_pending:
  "protocol_inv request reached cu s \<Longrightarrow> step_ok request reached cu P s (s\<lparr>cq_device := cancel_pending (cq_device s)\<rparr>)"
  using same_control_inv [of s "s\<lparr>cq_device := cancel_pending (cq_device s)\<rparr>" request]
  by (intro step_still) (simp_all add: protocol_inv_def cancel_inv)

context presence_history begin

lemma step_disconnect:
  assumes "cu_presence cu = ops" "protocol_inv request reached cu s"
  shows "step_ok request reached cu P s (protocol_disconnect cu s)"
  using disconnect_inv [OF assms(1)] assms(2)
  by (intro step_still) (simp_all add: protocol_inv_def cancel_inv)

lemma step_lock:
  assumes "cu_presence cu = ops" "lock_security_boundary cu s = (st, s')" "protocol_inv request reached cu s"
  shows "step_ok request reached cu P s s'"
  using lock_boundary_inv [OF assms(1,2)] assms(3) by (intro step_still) (auto simp: protocol_inv_def)

text \<open>A step that keeps everything, followed by one.\<close>

lemma step_then_lock:
  assumes "cu_presence cu = ops" "step_ok request reached cu P s t" "vault_kept (cq_device s) (cq_device t)"
    "lock_security_boundary cu t = (st, s')"
  shows "step_ok request reached cu P s s'"
  using lock_boundary_inv [OF assms(1,4)] assms(2) kept_still [OF assms(3)]
  by (intro step_okI) (auto simp: step_ok_def protocol_inv_def)

lemma housekeeping_inv:
  assumes p: "cu_presence cu = ops" and inv: "protocol_inv request reached cu s"
  shows "protocol_inv request reached cu (housekeeping cu now s) \<and>
    vault_still (cq_device s) (cq_device (housekeeping cu now s))"
proof -
  define s1 where "s1 = s\<lparr>cq_session := snd (session_handler_expire ops now (cq_session s))\<rparr>"
  define s2 where "s2 = s1\<lparr>cq_device := (cq_device s1)\<lparr>dv_sink := snd (expire_pending now (dv_sink (cq_device s1)))\<rparr>\<rparr>"
  define s3 where "s3 = (if reset_expired now (cq_reset s2) then cancel_healthy_factory_reset cu s2 else s2)"
  define s4 where "s4 = (if cq_recovery_active s3 \<and> now \<ge> cq_recovery_deadline_ms s3
    then cancel_recovery_reset cu s3 else s3)"
  have 1: "control_inv request reached s1" using expire_session_inv [of s now] inv by (simp add: s1_def protocol_inv_def)
  have 2: "control_inv request reached s2" using 1 same_control_inv [of s1 s2 request] by (simp add: s2_def)
  have 3: "control_inv request reached s3" using 2 cancel_healthy_inv [OF p 2] by (simp add: s3_def)
  have 4: "control_inv request reached s4" using 3 cancel_recovery_inv [OF p 3] by (simp add: s4_def)
  have "cq_device s4 = (cq_device s)\<lparr>dv_sink := snd (expire_pending now (dv_sink (cq_device s)))\<rparr>"
    by (simp add: s4_def s3_def s2_def s1_def)
  then have d: "parts_inv (cu_device cu) (cq_device s4)" "vault_still (cq_device s) (cq_device s4)"
    using expire_device_inv [of "cu_device cu" "cq_device s"] inv by (simp_all add: protocol_inv_def)
  have h: "housekeeping cu now s = (if automatic_lock_due now (dv_runtime (cq_device s4))
      then snd (lock_security_boundary cu s4) else s4)"
    by (simp only: housekeeping_def Let_def p s4_def s3_def s2_def s1_def)
  obtain st s5 where l: "lock_security_boundary cu s4 = (st, s5)" by (metis prod.collapse)
  have 5: "control_inv request reached s5 \<and> parts_inv (cu_device cu) (cq_device s5) \<and> vault_still (cq_device s4) (cq_device s5)"
    by (rule lock_boundary_inv [OF p l 4 d(1)])
  then have "vault_still (cq_device s) (cq_device s5)" using still_trans [OF d(2)] by blast
  then show ?thesis using 4 5 d by (simp add: h l protocol_inv_def)
qed

section \<open>The resets\<close>

lemma step_begin_presence:
  assumes "cu_presence cu = ops" "control_idle s" "parts_inv (cu_device cu) (cq_device s)"
    "vault_still (cq_device s0) (cq_device s)" "reached (sh_presence (cq_session s))"
    and "on_presence (po_begin ops PresFactoryReset a now) s = (b, t)"
  shows "step_ok request reached cu P s0 (t\<lparr>cq_reset := reset_begin a now r\<rparr>)"
    "step_ok request reached cu P s0 (t\<lparr>cq_recovery_active := True, cq_recovery_attempt_id := a\<rparr>)" "step_ok request reached cu P s0 t"
proof -
  have t: "t = with_presence (snd (po_begin ops PresFactoryReset a now (sh_presence (cq_session s)))) s"
    using assms(6) by (simp add: on_presence_eq)
  have reached: "reached (sh_presence (cq_session t))" using assms(5) by (simp add: t keeps_begin)
  from t have r: "request (sh_presence (cq_session t)) = Some (PresFactoryReset, a)" by (simp add: begin_request)
  have i: "coordinator_idle (sh_coordinator (cq_session t))" "\<not> fa_active (cq_reset t)" "\<not> cq_recovery_active t"
    "cq_device t = cq_device s"
    using assms(2) by (simp_all add: t control_idle_def)
  show "step_ok request reached cu P s0 (t\<lparr>cq_reset := reset_begin a now r\<rparr>)"
    "step_ok request reached cu P s0 (t\<lparr>cq_recovery_active := True, cq_recovery_attempt_id := a\<rparr>)"
    "step_ok request reached cu P s0 t"
    using assms(3,4) i r reached
    by (simp_all add: step_still control_inv_def asks_reset_def reset_begin_def handler_inv_idle)
qed

lemma reset_begin_step:
  assumes p: "cu_presence cu = ops" and inv: "protocol_inv request reached cu s"
    and run: "reset_begin_request cu i now s = Some (r, s')"
  shows "step_ok request reached cu P s s'"
proof (cases "recovery_facts (cq_device s)")
  case (fields decision m sn st)
  show ?thesis
  proof (cases "decision = NotRequired \<and> md_state m = Unlocked")
    case False
    then have "s' = s" using run by (auto simp: reset_begin_request_def fields)
    then show ?thesis using step_refl [OF inv] by simp
  next
    case True
    obtain a t where t: "draw_attempt_id cu (protocol_disconnect cu s) = Some (a, t)"
      using run True by (auto simp: reset_begin_request_def fields split: option.splits)
    obtain b u where u: "on_presence (po_begin ops PresFactoryReset a now) t = (b, u)" by (metis prod.collapse)
    have s': "s' = (if b then u\<lparr>cq_reset := reset_begin a now (cq_reset u)\<rparr> else u)"
      using run True by (auto simp: reset_begin_request_def fields t p u split: if_splits)
    have "same_control (protocol_disconnect cu s) t" "cq_device t = cancel_pending (cq_device s)"
      using t by (auto simp: draw_attempt_id_def split: option.splits)
    then have "control_idle t" "parts_inv (cu_device cu) (cq_device t)" "vault_still (cq_device s) (cq_device t)"
      "reached (sh_presence (cq_session t))"
      using same_control_idle [of "protocol_disconnect cu s" t] disconnect_reached [OF p, of s] inv
      by (simp_all add: protocol_inv_def cancel_inv) (simp_all add: same_control_def control_inv_def)
    from step_begin_presence [OF p this u] show ?thesis by (simp add: s')
  qed
qed

lemma checked_reset_step:
  assumes p: "cu_presence cu = ops" and inv: "protocol_inv request reached cu s"
    and run: "checked_reset cu i params now action s = (r, s')"
    and action: "\<And>a. read_binary (cu_json cu) params ''attempt_id'' kAttemptIdBytes = Some a \<Longrightarrow>
      reset_check_of a now (cq_reset s) = CheckOk \<Longrightarrow> action a s = (r, s') \<Longrightarrow> step_ok request reached cu P s s'"
  shows "step_ok request reached cu P s s'"
proof -
  have "step_ok request reached cu P s (cancel_healthy_factory_reset cu s)"
    using cancel_healthy_inv [OF p] inv by (intro step_still) (simp_all add: protocol_inv_def)
  then show ?thesis
    using run action step_refl [OF inv] by (auto simp: checked_reset_def Let_def split: option.splits if_splits)
qed

lemma reset_cancel_step:
  assumes p: "cu_presence cu = ops" and inv: "protocol_inv request reached cu s"
    and run: "reset_cancel_request cu i params now s = (r, s')"
  shows "step_ok request reached cu P s s'"
proof (rule checked_reset_step [OF p inv run [unfolded reset_cancel_request_def]])
  fix a assume "(EmptySuccess i, cancel_healthy_factory_reset cu s) = (r, s')"
  then show "step_ok request reached cu P s s'"
    using cancel_healthy_inv [OF p] inv by (intro step_still) (auto simp: protocol_inv_def)
qed

lemma consumed_inv:
  assumes "protocol_inv request reached cu s"
  shows "control_inv request reached (with_presence (snd (po_consume ops a now (sh_presence (cq_session s)))) s)"
  using assms consume_keeps keeps_consume
  by (intro control_inv_presence) (auto simp: protocol_inv_def control_inv_def)

text \<open>Consuming a confirmation that belongs to a pending reset.\<close>

lemma consumed_reset:
  assumes p: "cu_presence cu = ops" and inv: "protocol_inv request reached cu s"
    and run: "on_presence (po_consume ops a now) s = (True, t)"
    and named: "read_binary (cu_json cu) params ''attempt_id'' kAttemptIdBytes = Some a"
    and pending: "reset_check_of a now (cq_reset s) = CheckOk \<or>
      cq_recovery_active s \<and> a = cq_recovery_attempt_id s \<and> now < cq_recovery_deadline_ms s"
  shows "reset_confirmed request cu params now s \<and> control_inv request reached t \<and> cq_device t = cq_device s \<and>
    coordinator_idle (sh_coordinator (cq_session t))"
proof -
  have t: "t = with_presence (snd (po_consume ops a now (sh_presence (cq_session s)))) s"
    and c: "fst (po_consume ops a now (sh_presence (cq_session s)))"
    using run by (auto simp: on_presence_eq)
  obtain op where r: "request (sh_presence (cq_session s)) = Some (op, a)" using consume_confirmed [OF c] by blast
  have idle: "coordinator_idle (sh_coordinator (cq_session s)) \<and> op = PresFactoryReset"
    using pending inv r by (auto simp: protocol_inv_def control_inv_def asks_reset_def reset_check_Ok)
  then have "reset_confirmed request cu params now s" using r c pending named p by (auto simp: reset_confirmed_def)
  moreover have "control_inv request reached t"
    unfolding t using inv by (rule consumed_inv)
  ultimately show ?thesis using idle by (simp add: t)
qed

lemma step_confirmed:
  "P \<Longrightarrow> control_inv request reached s' \<Longrightarrow> parts_inv (cu_device cu) (cq_device s') \<Longrightarrow>
   step_ok request reached cu P s s'"
  by (simp add: step_ok_def protocol_inv_def)

lemma erase_first_step:
  assumes "erase_vault_then_registration cu i s = (r, s')" "control_inv request reached s" "parts_inv (cu_device cu) (cq_device s)"
  shows "control_inv request reached s' \<and> parts_inv (cu_device cu) (cq_device s')"
proof -
  obtain s1 d1 where 1: "on_runtime (factory_reset (en_persistence (cu_device cu))) (cq_device s) = (s1, d1)"
    by (metis prod.collapse)
  obtain s2 d2 where 2: "on_store (clear_registration (en_nvs (cu_device cu))) d1 = (s2, d2)" by (metis prod.collapse)
  have d1: "parts_inv (cu_device cu) d1" by (rule erase_device [OF 1 assms(3)])
  have d2: "parts_inv (cu_device cu) d2" using clear_device [of False, simplified, OF 2 d1] .
  have "same_control s s' \<and> cq_device s' \<in> {d1, d2}"
    using assms(1) by (auto simp: erase_vault_then_registration_def on_device_def 1 2 Let_def same_control_def split: if_splits)
  then show ?thesis using d1 d2 assms(2) same_control_inv [of s s' request] by auto
qed

lemma reset_commit_step:
  assumes p: "cu_presence cu = ops" and inv: "protocol_inv request reached cu s"
    and run: "reset_commit_request cu i params now s = (r, s')"
  shows "step_ok request reached cu (reset_confirmed request cu params now s) s s'"
proof (rule checked_reset_step [OF p inv run [unfolded reset_commit_request_def]])
  fix a
  assume named: "read_binary (cu_json cu) params ''attempt_id'' kAttemptIdBytes = Some a"
    and check: "reset_check_of a now (cq_reset s) = CheckOk"
    and act: "(case on_presence (po_consume (cu_presence cu) a now) s of (consumed, s) \<Rightarrow>
         if \<not> consumed then (ErrorResponse i ''presence_required'', s)
         else
           let s = s\<lparr>cq_reset := reset_consume (cq_reset s)\<rparr>
           in case recovery_facts (cq_device s) of (decision, m, _, _) \<Rightarrow>
             if decision \<noteq> NotRequired \<or> md_state m \<noteq> Unlocked then (ErrorResponse i ''invalid_state'', s)
             else secret_boundary cu (erase_vault_then_registration cu i)
                    (cancel_recovery_reset cu (drop_session cu s))) = (r, s')"
  obtain c t where t: "on_presence (po_consume ops a now) s = (c, t)" by (metis prod.collapse)
  show "step_ok request reached cu (reset_confirmed request cu params now s) s s'"
  proof (cases c)
    case False
    then have "s' = t" "t = with_presence (snd (po_consume ops a now (sh_presence (cq_session s)))) s"
      using act t by (auto simp: p on_presence_eq)
    then show ?thesis
      using inv consumed_inv [OF inv] by (intro step_still) (simp_all add: protocol_inv_def)
  next
    case True
    have tt: "on_presence (po_consume ops a now) s = (True, t)" using t True by simp
    note k = consumed_reset [OF p inv tt named disjI1 [OF check]]
    define u where "u = t\<lparr>cq_reset := reset_consume (cq_reset t)\<rparr>"
    define v where "v = (cancel_recovery_reset cu (drop_session cu u))\<lparr>cq_time := teardown_network (cu_platform cu) (cq_time u)\<rparr>"
    have u: "control_inv request reached u" "cq_device u = cq_device s"
      using k by (auto simp: u_def control_inv_def asks_reset_def reset_consume_def reset_cancel_def)
    have v: "control_inv request reached v" "parts_inv (cu_device cu) (cq_device v)"
      using cancel_recovery_inv [OF p drop_session_inv [OF p u(1)]] u(2) inv
        same_control_inv [of "cancel_recovery_reset cu (drop_session cu u)" v request]
      by (simp_all add: v_def protocol_inv_def cancel_inv)
    have "s' = u \<or> erase_vault_then_registration cu i v = (r, s')"
      using act by (auto simp: p t True u_def [symmetric] secret_boundary_eq v_def Let_def split: prod.splits if_splits)
    then show ?thesis
      using step_confirmed k u v erase_first_step [of cu i v r s'] inv by (auto simp: protocol_inv_def)
  qed
qed

end

end
