(* ===== verification/Canonical_Lines.thy ===== *)
theory Canonical_Lines
  imports Canonical_Protocol_Correct
begin

text \<open>
  The remaining requests, and then every line: the invariant of the whole protocol and the properties
  that rest on it.
\<close>

section \<open>The reset that recovers\<close>

context presence_history begin

lemma cancel_recovery_step:
  assumes p: "cu_presence cu = ops" and inv: "protocol_inv request reached cu s"
  shows "step_ok request reached cu P s (cancel_recovery_reset cu s)"
  using cancel_recovery_inv [OF p] inv by (intro step_still) (simp_all add: protocol_inv_def)

lemma enter_reset_boundary_device:
  assumes "enter_reset_boundary cu m s = (b, t)"
  shows "same_control s t \<and> cq_device t \<in> {cq_device s, snd (on_memory enter_recovery_boundary (cq_device s))}"
proof -
  obtain st d where d: "on_memory enter_recovery_boundary (cq_device s) = (st, d)" by (metis prod.collapse)
  show ?thesis
    using assms by (simp add: enter_reset_boundary_def on_device_def d split: if_splits)
      (auto simp: same_control_def)
qed

lemma recovery_begin_step:
  assumes p: "cu_presence cu = ops" and inv: "protocol_inv request reached cu s"
    and run: "recovery_begin_request cu i now s = Some (r, s')"
  shows "step_ok request reached cu P s s'"
proof (cases "recovery_facts (cq_device s)")
  case (fields decision m sn st)
  show ?thesis
  proof (cases "decision = Required")
    case False
    then have "s' = s" using run by (auto simp: recovery_begin_request_def fields)
    then show ?thesis using step_refl [OF inv] by simp
  next
    case True
    define v where "v = (protocol_disconnect cu s)\<lparr>cq_time := teardown_network (cu_platform cu) (cq_time s)\<rparr>"
    obtain b1 d1 where e: "on_memory enter_recovery_boundary (cancel_pending (cq_device s)) = (b1, d1)"
      by (metis prod.collapse)
    obtain b t where b: "enter_reset_boundary cu m v = (b, t)" by (metis prod.collapse)
    have "same_control v t \<and> cq_device t \<in> {cancel_pending (cq_device s), d1}"
      using enter_reset_boundary_device [OF b] e by (auto simp: v_def)
    moreover have "control_idle v"
      using same_control_idle [of "protocol_disconnect cu s" v] by (simp add: v_def)
    moreover have c: "parts_inv (cu_device cu) (cancel_pending (cq_device s))"
      using inv by (simp add: protocol_inv_def cancel_inv)
    moreover have "parts_inv (cu_device cu) d1 \<and> vault_still (cq_device s) d1"
      using boundary_device [OF e c] still_trans sink_still(2) by blast
    ultimately have t: "control_idle t" "parts_inv (cu_device cu) (cq_device t)" "vault_still (cq_device s) (cq_device t)"
      "reached (sh_presence (cq_session t))"
      using same_control_idle [of v t] disconnect_reached [OF p, of s] inv
      by (auto simp: same_control_def v_def protocol_inv_def control_inv_def)
    note run' = run [unfolded recovery_begin_request_def fields secret_boundary_eq, simplified True,
        simplified, folded v_def, unfolded b p]
    show ?thesis
    proof (cases "b = Ok")
      case False
      then have "s' = t" using run' by simp
      then show ?thesis using t by (simp add: step_still control_idle_inv)
    next
      case True
      obtain a u where u: "draw_attempt_id cu t = Some (a, u)"
        using run' True by (auto split: option.splits)
      define w where "w = u\<lparr>cq_recovery_attempt_id := a, cq_recovery_deadline_ms := recovery_deadline_from now\<rparr>"
      obtain g x where x: "on_presence (po_begin ops PresFactoryReset a now) w = (g, x)" by (metis prod.collapse)
      have "cq_session w = cq_session t \<and> cq_reset w = cq_reset t \<and> cq_recovery_active w = cq_recovery_active t \<and>
          cq_device w = cq_device t"
        using u by (auto simp: draw_attempt_id_def w_def split: option.splits)
      then have "control_idle w" "parts_inv (cu_device cu) (cq_device w)" "vault_still (cq_device s) (cq_device w)"
        "reached (sh_presence (cq_session w))"
        using t by (simp_all add: control_idle_def)
      note begun = step_begin_presence [OF p this x]
      have s': "s' = (if g then x\<lparr>cq_recovery_active := True\<rparr> else cancel_recovery_reset cu (x\<lparr>cq_recovery_active := False\<rparr>))"
        using run' True u x by (auto simp: w_def [symmetric] split: if_splits)
      show ?thesis
      proof (cases g)
        case True
        have "x\<lparr>cq_recovery_active := True\<rparr> = x\<lparr>cq_recovery_active := True, cq_recovery_attempt_id := a\<rparr>"
          using x by (auto simp: on_presence_eq w_def with_presence_def)
        then show ?thesis using begun(2) True by (simp add: s')
      next
        case False
        have "x\<lparr>cq_recovery_active := False\<rparr> = x"
          using x \<open>control_idle w\<close> by (auto simp: on_presence_eq with_presence_def control_idle_def)
        then have "step_ok request reached cu P s x" "s' = cancel_recovery_reset cu x" using begun(3) False by (simp_all add: s')
        then show ?thesis using cancel_recovery_inv [OF p, of x]
          by (simp add: step_ok_def protocol_inv_def)
      qed
    qed
  qed
qed

lemma checked_recovery_step:
  assumes p: "cu_presence cu = ops" and inv: "protocol_inv request reached cu s"
    and run: "checked_recovery cu i params now action s = (r, s')"
    and action: "\<And>a. read_binary (cu_json cu) params ''attempt_id'' kAttemptIdBytes = Some a \<Longrightarrow>
      cq_recovery_active s \<and> a = cq_recovery_attempt_id s \<and> now < cq_recovery_deadline_ms s \<Longrightarrow>
      action a s = (r, s') \<Longrightarrow> step_ok request reached cu P s s'"
  shows "step_ok request reached cu P s s'"
  using run action step_refl [OF inv] cancel_recovery_step [OF p inv]
  by (auto simp: checked_recovery_def not_le split: option.splits if_splits)

lemma erase_second_step:
  assumes "erase_registration_then_vault cu st i s = (r, s')" "control_inv request reached s"
    "parts_inv (cu_device cu) (cq_device s)"
  shows "control_inv request reached s' \<and> parts_inv (cu_device cu) (cq_device s')"
proof -
  obtain s1 d1 where 1: "on_store (if st = RegCorrupt then clear_corrupt_registration_for_recovery (en_nvs (cu_device cu))
      else clear_registration (en_nvs (cu_device cu))) (cq_device s) = (s1, d1)" by (metis prod.collapse)
  obtain s2 d2 where 2: "on_runtime (factory_reset (en_persistence (cu_device cu))) d1 = (s2, d2)"
    by (metis prod.collapse)
  have d1: "parts_inv (cu_device cu) d1" by (rule clear_device [OF 1 assms(3)])
  have d2: "parts_inv (cu_device cu) d2" by (rule erase_device [OF 2 d1])
  have "same_control s s' \<and> cq_device s' \<in> {d1, d2}"
    using assms(1) by (auto simp: erase_registration_then_vault_def on_device_def 1 2 Let_def same_control_def
        simp del: if_split split: if_splits)
  then show ?thesis using d1 d2 assms(2) same_control_inv [of s s' request] by auto
qed

lemma recovery_complete_step:
  assumes p: "cu_presence cu = ops" and inv: "protocol_inv request reached cu s"
    and run: "recovery_complete_request cu i params now s = (r, s')"
  shows "step_ok request reached cu (reset_confirmed request cu params now s) s s'"
proof (rule checked_recovery_step [OF p inv run [unfolded recovery_complete_request_def]])
  fix a
  assume named: "read_binary (cu_json cu) params ''attempt_id'' kAttemptIdBytes = Some a"
    and pending: "cq_recovery_active s \<and> a = cq_recovery_attempt_id s \<and> now < cq_recovery_deadline_ms s"
    and act: "(case on_presence (po_consume (cu_presence cu) a now) s of (consumed, s) \<Rightarrow>
         if \<not> consumed then (ErrorResponse i ''presence_required'', s)
         else
           let s = s\<lparr>cq_recovery_active := False, cq_recovery_attempt_id := zeros kAttemptIdBytes,
                     cq_recovery_deadline_ms := 0\<rparr>
           in case recovery_facts (cq_device s) of (decision, _, _, registration_status) \<Rightarrow>
             if decision \<noteq> Required then (ErrorResponse i ''invalid_state'', s)
             else secret_boundary cu (erase_registration_then_vault cu registration_status i) s) = (r, s')"
  obtain c t where t: "on_presence (po_consume ops a now) s = (c, t)" by (metis prod.collapse)
  show "step_ok request reached cu (reset_confirmed request cu params now s) s s'"
  proof (cases c)
    case False
    then have "s' = t" "t = with_presence (snd (po_consume ops a now (sh_presence (cq_session s)))) s"
      using act t by (auto simp: p on_presence_eq)
    then show ?thesis
      using inv consumed_inv [OF inv] by (intro step_still) (simp_all add: protocol_inv_def)
  next
    case True
    have tt: "on_presence (po_consume ops a now) s = (True, t)" using t True by simp
    note k = consumed_reset [OF p inv tt named disjI2 [OF pending]]
    define u where "u = t\<lparr>cq_recovery_active := False, cq_recovery_attempt_id := zeros kAttemptIdBytes,
      cq_recovery_deadline_ms := 0\<rparr>"
    define v where "v = u\<lparr>cq_time := teardown_network (cu_platform cu) (cq_time u)\<rparr>"
    have u: "control_inv request reached u" "cq_device u = cq_device s"
      using k by (auto simp: u_def control_inv_def asks_reset_def)
    have v: "control_inv request reached v" "parts_inv (cu_device cu) (cq_device v)"
      using u inv same_control_inv [of u v request] by (simp_all add: v_def protocol_inv_def)
    have "s' = u \<or> (\<exists>st. erase_registration_then_vault cu st i v = (r, s'))"
      using act by (auto simp: p t True u_def [symmetric] secret_boundary_eq v_def Let_def split: prod.splits if_splits)
    then show ?thesis
      using step_confirmed [of "reset_confirmed request cu params now s" s' cu s] k u v erase_second_step [of cu _ i v r s'] inv
      by (auto simp: protocol_inv_def)
  qed
qed

end

section \<open>Vault requests\<close>

lemma vault_install_step:
  assumes inv: "protocol_inv request reached cu s" and run: "vault_install_request cu i params now s = (r, s')"
  shows "step_ok request reached cu P s s'"
proof (cases "read_envelope (cu_json cu) params")
  case None
  then show ?thesis using run step_cancel_pending [OF inv] by (auto simp: vault_install_request_def)
next
  case (Some e)
  let ?env = "cu_device cu" and ?d = "cq_device s"
  define f where "f = (case bc_operation (sk_pending_context (dv_sink ?d)) of
                 InitialProvisioning \<Rightarrow> install_initial_vault ?env e now
               | Recovery \<Rightarrow> install_recovered_vault ?env e now
               | _ \<Rightarrow> (\<lambda>d. (False, cancel_pending d)))"
  obtain b t where t: "on_device f s = (b, t)" by (metis prod.collapse)
  have "s' = s \<or> s' = t"
    using run t by (auto simp: vault_install_request_def Some f_def [symmetric] split: if_splits)
  moreover have "step_ok request reached cu P s t"
  proof (rule step_device [OF t inv])
    fix d assume "f ?d = (b, d)"
    then show "parts_inv ?env d \<and> vault_kept ?d d"
      using provision_device [of ?env e now ?d b d] inv cancel_inv [of ?env ?d] still_kept [OF sink_still(2), of ?d]
      by (auto simp: f_def protocol_inv_def split: operation.splits)
  qed
  ultimately show ?thesis using step_refl [OF inv] by auto
qed

text \<open>A change of the Vault, and the automatic lock that may follow it.\<close>

lemma kept_device:
  assumes "on_device f s = (a, t)" "protocol_inv request reached cu s"
    and "\<And>d. f (cq_device s) = (a, d) \<Longrightarrow> parts_inv (cu_device cu) d \<and> vault_kept (cq_device s) d"
  shows "step_ok request reached cu P s t \<and> vault_kept (cq_device s) (cq_device t)"
  using step_device [OF assms] on_deviceD [OF assms(1)] assms(3) by auto

context presence_history begin

lemma step_maybe_lock:
  assumes "cu_presence cu = ops" "step_ok request reached cu P s t" "vault_kept (cq_device s) (cq_device t)"
    and "(if due then lock_security_boundary cu t else (st, t)) = (st', s')"
  shows "step_ok request reached cu P s s'"
  using assms(2,4) step_then_lock [OF assms(1-3)] by (auto split: if_splits)

lemma vault_update_step:
  assumes p: "cu_presence cu = ops" and inv: "protocol_inv request reached cu s" and run: "vault_update_request cu i params now s = (r, s')"
  shows "step_ok request reached cu P s s'"
proof (cases "do { envelope \<leftarrow> read_envelope (cu_json cu) params;
      expected \<leftarrow> read_u64_decimal (cu_json cu) (js_item (cu_json cu) params ''expected_generation'');
      Some (envelope, expected) }")
  case None
  then show ?thesis using run step_refl [OF inv] by (auto simp: vault_update_request_def)
next
  case (Some pr)
  obtain e g where pr: "pr = (e, g)" by fastforce
  obtain st due t where t: "on_device (on_update (update_encrypted_vault (en_persistence (cu_device cu))
      (en_gcm (cu_device cu)) g e now)) s = ((st, due), t)" by (metis prod.collapse)
  obtain st' u where u: "(if st = Ok \<and> due then lock_security_boundary cu t else (st, t)) = (st', u)"
    by (metis prod.collapse)
  have k: "step_ok request reached cu P s t \<and> vault_kept (cq_device s) (cq_device t)"
    by (rule kept_device [OF t inv]) (use inv in \<open>auto simp: protocol_inv_def dest: update_device\<close>)
  have "s' = u" using run by (simp add: vault_update_request_def Some pr t u)
  then show ?thesis using step_maybe_lock [OF p _ _ u] k by blast
qed

lemma vault_rekey_step:
  assumes p: "cu_presence cu = ops" and inv: "protocol_inv request reached cu s" and run: "vault_rekey_request cu i params now s = (r, s')"
  shows "step_ok request reached cu P s s'"
proof (cases "do { envelope \<leftarrow> read_envelope (cu_json cu) params;
      expected \<leftarrow> read_u64_decimal (cu_json cu) (js_item (cu_json cu) params ''expected_generation'');
      Some (envelope, expected) }")
  case None
  then show ?thesis using run step_cancel_pending [OF inv] by (auto simp: vault_rekey_request_def)
next
  case (Some pr)
  obtain e g where pr: "pr = (e, g)" by fastforce
  obtain b t where t: "on_device (install_rekeyed_vault (cu_device cu) g e now) s = (b, t)" by (metis prod.collapse)
  obtain st' u where u: "(if automatic_lock_due now (dv_runtime (cq_device t))
      then lock_security_boundary cu t else (Ok, t)) = (st', u)" by (metis prod.collapse)
  have k: "step_ok request reached cu P s t \<and> vault_kept (cq_device s) (cq_device t)"
    by (rule kept_device [OF t inv]) (use inv in \<open>auto simp: protocol_inv_def dest: rekey_device\<close>)
  have "s' = u \<or> s' = t" using run by (auto simp: vault_rekey_request_def Some pr t u split: if_splits)
  then show ?thesis using step_maybe_lock [OF p _ _ u] k by blast
qed

lemma device_lock_step:
  assumes "cu_presence cu = ops" "protocol_inv request reached cu s" "device_lock_request cu i s = (r, s')"
  shows "step_ok request reached cu P s s'"
proof -
  obtain st t where t: "lock_security_boundary cu s = (st, t)" by (metis prod.collapse)
  then show ?thesis using assms step_lock [OF assms(1) t] by (simp add: device_lock_request_def)
qed

end

text \<open>The clock is none of the parts that the invariant is about.\<close>

lemma on_time_step:
  assumes "on_time f s = (a, s')" "protocol_inv request reached cu s"
  shows "step_ok request reached cu P s s'"
proof -
  have "s' = s\<lparr>cq_time := snd (f (cq_time s))\<rparr>" using assms(1) by (auto simp: on_time_def split: prod.splits)
  then show ?thesis using assms(2) same_control_inv [of s s' request]
    by (intro step_still) (simp_all add: protocol_inv_def)
qed

lemma time_steps:
  assumes inv: "protocol_inv request reached cu s"
  shows "time_status_request cu i s = (r, s') \<Longrightarrow> step_ok request reached cu P s s'"
    "time_sync_request cu i params s = (r, s') \<Longrightarrow> step_ok request reached cu P s s'"
  using on_time_step [OF _ inv] step_refl [OF inv]
  by (auto simp: time_status_request_def time_sync_request_def split: prod.splits option.splits)

section \<open>Sessions\<close>

text \<open>An initial provisioning is bound to a device without a Vault.\<close>

lemma provisioning_bound:
  assumes "current_binding_matches (se_device (session_setup_of cu t)) d h"
    and "bc_operation (sh_context h) = InitialProvisioning" "parts_inv env d"
  shows "\<not> rt_has_vault (dv_runtime d)"
proof -
  have "store_inv (en_p256_point env) (dv_store d)" using assms(3) by (simp add: parts_inv_def device_ok_def)
  from canonical_snapshot_eq [OF this] show ?thesis
    using assms(1,2) by (auto simp: current_binding_matches_def session_setup_of_def clean_unprovisioned_snapshot_def
        session_v2_begin_matches_snapshot_def Let_def split: option.splits if_splits)
qed

lemma session_device:
  assumes run: "session_handle_line (session_setup_of cu t) e line now (h, d) = (r, h', d')"
    and inv: "handler_inv request h" "parts_inv (cu_device cu) d"
  shows "parts_inv (cu_device cu) d' \<and> vault_still d d'"
proof (cases "d' = d")
  case True
  then show ?thesis using inv by simp
next
  case False
  then obtain installed where "key_delivered (session_setup_of cu t) now h d d' installed"
    using session_line_cases [OF run inv(1)] by blast
  then obtain vmk where b: "current_binding_matches (se_device (session_setup_of cu t)) d h"
    and i: "install_vmk (cu_device cu) (sh_context h) vmk t d = (installed, d')"
    by (auto simp: key_delivered_def session_setup_of_def)
  show ?thesis using install_device [OF i inv(2)] provisioning_bound [OF b _ inv(2)] by blast
qed

context presence_history begin

lemma prepare_step:
  assumes "cu_presence cu = ops" "protocol_inv request reached cu s" "prepare_session cu i op r0 s = (r, s')"
  shows "protocol_inv request reached cu s' \<and> vault_still (cq_device s) (cq_device s')"
proof -
  obtain b d where d: "prepare_attempt op (cq_device s) = (b, d)" by (metis prod.collapse)
  have k: "parts_inv (cu_device cu) d \<and> vault_still (cq_device s) d"
    using prepare_device [OF d, of "cu_device cu"] assms(2) by (simp add: protocol_inv_def)
  obtain b' t where t: "(if destroys_runtime_vmk op
            then secret_boundary cu (\<lambda>s. let (result, s) = on_device (prepare_attempt op) s
                   in (result, notify_security_boundary cu s)) s
            else on_device (prepare_attempt op) s) = (b', t)" by (metis prod.collapse)
  have t': "same_control s t \<and> cq_device t = d"
    using t d by (auto simp: secret_boundary_eq on_device_def Let_def same_control_def split: if_splits)
  then have "control_inv request reached t" using same_control_inv assms(2) by (auto simp: protocol_inv_def)
  then show ?thesis
    using assms(3) t' k drop_session_inv [OF assms(1)] still_trans [OF conjunct2 [OF k] sink_still(2)]
    by (auto simp: prepare_session_def t protocol_inv_def cancel_inv split: if_splits)
qed

lemma session_protocol_step:
  assumes p: "cu_presence cu = ops" and inv: "protocol_inv request reached cu s"
    and run: "session_protocol_request cu inp line i operation params now s = (r, s')"
  shows "step_ok request reached cu P s s'"
proof -
  define s0 where "s0 = cancel_recovery_reset cu (cancel_healthy_factory_reset cu s)"
  have c0: "control_inv request reached s0"
    using cancel_recovery_inv [OF p cancel_healthy_inv [OF p]] inv by (simp add: s0_def protocol_inv_def)
  have s0: "cq_device s0 = cq_device s" "\<not> fa_active (cq_reset s0)" "\<not> cq_recovery_active s0"
    by (simp_all add: s0_def)
  have i0: "protocol_inv request reached cu s0" using c0 inv s0 by (simp add: protocol_inv_def)
  obtain resp t where t: "handle_session_line cu inp line now s0 = (resp, t)" by (metis prod.collapse)
  then obtain h d where l: "session_handle_line (session_setup_of cu (li_timer_us inp)) (li_entropy inp) line now
      (cq_session s0, cq_device s0) = (resp, h, d)" and t': "t = s0\<lparr>cq_session := h, cq_device := d\<rparr>"
    by (auto simp: handle_session_line_def split: prod.splits)
  have hi: "handler_inv request (cq_session s0)" using c0 by (simp add: control_inv_def)
  have "reached (sh_presence (cq_session s0))" using c0 by (simp add: control_inv_def)
  then have "reached (sh_presence h)"
    using session_line_reached [of "session_setup_of cu (li_timer_us inp)" "cq_session s0" "li_entropy inp" line now
        "cq_device s0"] p by (simp add: l) (simp add: session_setup_of_def)
  moreover have "handler_inv request h" using session_line_inv [OF l _ hi] p by (simp add: session_setup_of_def)
  ultimately have "protocol_inv request reached cu t"
    using session_device [OF l hi] i0 s0 by (simp add: t' protocol_inv_def control_inv_def)
  moreover have st: "vault_still (cq_device s) (cq_device t)"
    using session_device [OF l hi] i0 s0 by (simp add: t' protocol_inv_def)
  ultimately have ti: "protocol_inv request reached cu t" "vault_still (cq_device s) (cq_device t)" by blast+
  define arm where "arm = t\<lparr>cq_device := (cq_device t)\<lparr>dv_sink := arm_pending_deadline now (dv_sink (cq_device t))\<rparr>\<rparr>"
  define can where "can = t\<lparr>cq_device := cancel_pending (cq_device t)\<rparr>"
  have "s' \<in> {protocol_disconnect cu s0, t, arm, can} \<or> (\<exists>op. prepare_session cu i op resp t = (r, s'))"
    using run by (auto simp: session_protocol_request_def s0_def [symmetric] t Let_def arm_def can_def split: if_splits)
  moreover have "step_ok request reached cu P s (protocol_disconnect cu s0)"
    using i0 s0 disconnect_inv [OF p c0] by (intro step_still) (simp_all add: protocol_inv_def cancel_inv)
  moreover have "step_ok request reached cu P s t"
    using ti by (simp add: step_ok_def still_kept)
  moreover have "step_ok request reached cu P s arm" "step_ok request reached cu P s can"
    using ti arm_device_inv [of "cu_device cu" "cq_device t" now] cancel_inv [of "cu_device cu" "cq_device t"]
      same_control_inv [of t arm request] same_control_inv [of t can request] still_trans [OF ti(2) sink_still(1)]
      still_trans [OF ti(2) sink_still(2)]
    by (simp_all add: step_still protocol_inv_def arm_def can_def)
  moreover have "step_ok request reached cu P s s'" if "prepare_session cu i op resp t = (r, s')" for op
    using prepare_step [OF p ti(1) that] still_trans [OF ti(2)] by (auto simp: step_ok_def still_kept)
  ultimately show ?thesis by auto
qed

end

section \<open>Every line\<close>

text \<open>What it takes to lose the Vault.\<close>

definition reset_request ::
  "('p \<Rightarrow> (presence_operation_kind \<times> bytes) option) \<Rightarrow> ('k, 'p, 'w, 'n, 'e, 'u, 'j) canonical_setup \<Rightarrow>
   bytes \<Rightarrow> 'j \<Rightarrow> u64 \<Rightarrow> ('k, 'p, 'w, 'n, 'e, 'u) canonical_protocol \<Rightarrow> bool" where
  "reset_request request cu operation params now_ms s \<longleftrightarrow>
     operation \<in> {ascii ''factory_reset.commit'', ascii ''factory_reset.recovery_complete''} \<and>
     reset_confirmed request cu params now_ms s"

lemma step_weaken: "step_ok request reached cu P s s' \<Longrightarrow> (P \<Longrightarrow> Q) \<Longrightarrow> step_ok request reached cu Q s s'"
  by (auto simp: step_ok_def)

context presence_history begin

lemma protocol_request_step:
  assumes p: "cu_presence cu = ops" and inv: "protocol_inv request reached cu s"
    and run: "protocol_request cu inp line i operation params now s = Some (r, s')"
  shows "step_ok request reached cu (reset_request request cu operation params now s) s s'"
proof -
  define Q where "Q = reset_request request cu operation params now s"
  have status: "step_ok request reached cu Q s s'" if "reset_status_request cu i params now s = (r, s')"
    by (rule checked_reset_step [OF p inv that [unfolded reset_status_request_def]]) (use step_refl [OF inv] in auto)
  have recovery_status: "step_ok request reached cu Q s s'" if "recovery_status_request cu i params now s = (r, s')"
    by (rule checked_recovery_step [OF p inv that [unfolded recovery_status_request_def]]) (use step_refl [OF inv] in auto)
  have commit: "step_ok request reached cu Q s s'" if "reset_commit_request cu i params now s = (r, s')"
    "operation = ascii ''factory_reset.commit''"
    by (rule step_weaken [OF reset_commit_step [OF p inv that(1)]]) (use that(2) in \<open>simp add: Q_def reset_request_def\<close>)
  have complete: "step_ok request reached cu Q s s'" if "recovery_complete_request cu i params now s = (r, s')"
    "operation = ascii ''factory_reset.recovery_complete''"
    by (rule step_weaken [OF recovery_complete_step [OF p inv that(1)]]) (use that(2) in \<open>simp add: Q_def reset_request_def\<close>)
  note steps = session_protocol_step [OF p inv] reset_begin_step [OF p inv] status recovery_status
    reset_cancel_step [OF p inv] commit recovery_begin_step [OF p inv]
    complete vault_install_step [OF inv] vault_update_step [OF p inv]
    vault_rekey_step [OF p inv] time_steps [OF inv] device_lock_step [OF p inv]
  show ?thesis
    using run step_refl [OF inv, of Q] unfolding protocol_request_def kFactoryResetCommitOperation_def Q_def [symmetric]
    by (simp only: split: if_splits) (auto intro: steps)
qed

end

section \<open>What a line must be to reach a request\<close>

definition well_formed_request :: "'j json_api \<Rightarrow> bytes \<Rightarrow> (int \<times> bytes \<times> 'j) option" where
  "well_formed_request api line =
     (if line = [] \<or> length line > kMaxCanonicalV2MessageBytes then None
      else case js_parse api line of
        None \<Rightarrow> None
      | Some root \<Rightarrow>
          (case (read_nonnegative_int api (js_item api root ''id''),
                 Option.bind (js_item api root ''op'') (js_string api), js_item api root ''params'') of
             (Some i, Some operation, Some params) \<Rightarrow>
               if js_is_object api root \<and> js_is_object api params \<and>
                 read_nonnegative_int api (js_item api root ''v'') = Some (uint kProtocolVersion)
               then Some (i, operation, params) else None
           | _ \<Rightarrow> None))"

lemma handle_line_eq:
  "case well_formed_request (cu_json cu) line of
     Some (i, operation, params) \<Rightarrow> protocol_handle_line cu inp line now s =
       protocol_request cu inp line i operation params now (housekeeping cu now s)
   | None \<Rightarrow> \<exists>i code. protocol_handle_line cu inp line now s = Some (ErrorResponse i code,
       if line = [] then housekeeping cu now s else protocol_disconnect cu (housekeeping cu now s))"
  by (simp add: well_formed_request_def protocol_handle_line_def Let_def split: option.split)

context presence_history begin

lemma protocol_line_step:
  assumes p: "cu_presence cu = ops" and inv: "protocol_inv request reached cu s"
    and run: "protocol_handle_line cu inp line now s = Some (r, s')"
  shows "step_ok request reached cu (\<exists>i operation params. well_formed_request (cu_json cu) line = Some (i, operation, params) \<and>
    reset_request request cu operation params now (housekeeping cu now s)) (housekeeping cu now s) s'"
proof -
  let ?s = "housekeeping cu now s"
  have i: "protocol_inv request reached cu ?s" using housekeeping_inv [OF p inv] by blast
  show ?thesis
  proof (cases "well_formed_request (cu_json cu) line")
    case None
    then have "s' \<in> {?s, protocol_disconnect cu ?s}"
      using handle_line_eq [of cu inp line now s] run by (auto split: if_splits)
    then show ?thesis using step_refl [OF i] step_disconnect [OF p i] by blast
  next
    case (Some req)
    obtain j operation params where req: "req = (j, operation, params)" by (metis prod_cases3)
    have "protocol_request cu inp line j operation params now ?s = Some (r, s')"
      using handle_line_eq [of cu inp line now s] run by (simp add: Some req)
    from protocol_request_step [OF p i this] show ?thesis
      by (rule step_weaken) (simp add: Some req)
  qed
qed

end

end
