(* ===== verification/Protocol_Runs.thy ===== *)
theory Protocol_Runs
  imports Canonical_Lines
begin

text \<open>
  Runs of the powered device: lines, housekeeping and disconnections from the main task, the button, and
  what the other tasks do to the shared state in between. The button keeps a log of what reached its
  gate, which no operation reads, so that the properties can speak about the past.
\<close>

section \<open>The button and its log\<close>

type_synonym logged_presence = "canonical_presence \<times> gate_input list"

definition logged :: "(canonical_presence \<Rightarrow> 'a \<times> canonical_presence) \<Rightarrow> gate_input \<Rightarrow>
    logged_presence \<Rightarrow> 'a \<times> logged_presence" where
  "logged f e pl = (case pl of (p, es) \<Rightarrow> case f p of (a, p) \<Rightarrow> (a, p, es @ [e]))"

definition logged_ops :: "logged_presence presence_ops" where
  "logged_ops = \<lparr>
     po_begin = \<lambda>op a now pl. logged (canonical_begin_presence op a now)
       (GBegin op a now (cp_button_press_generation (fst pl))) pl,
     po_consume = \<lambda>a now. logged (canonical_consume_presence a now) (GConsume a now),
     po_cancel = \<lambda>pl. snd (logged (\<lambda>p. ((), canonical_cancel_presence p)) GCancel pl),
     po_confirmed = \<lambda>pl. canonical_presence_confirmed (fst pl)\<rparr>"

text \<open>A press while no request is open does not reach the gate.\<close>

fun logged_button :: "button_input \<Rightarrow> logged_presence \<Rightarrow> logged_presence" where
  "logged_button (PObserve pressed) (p, es) = (button_step (PObserve pressed) p, es @ [GObserve pressed])"
| "logged_button (PButton now) (p, es) = (let p' = button_step (PButton now) p in
     (p', if gate_active (cp_gate p) then es @ [GConfirm now (cp_button_press_generation p')] else es))"
| "logged_button (PExpire now) (p, es) = (button_step (PExpire now) p, es @ [GExpire now])"

definition logged_request :: "logged_presence \<Rightarrow> (presence_operation_kind \<times> bytes) option" where
  "logged_request pl = gate_request (cp_gate (fst pl))"

definition log_true :: "logged_presence \<Rightarrow> bool" where
  "log_true pl \<longleftrightarrow> gate_history (snd pl) (cp_gate (fst pl))"

lemma logged_eq: "logged f e pl = (fst (f (fst pl)), snd (f (fst pl)), snd pl @ [e])"
  by (simp add: logged_def split: prod.split)

text \<open>Logging changes nothing else: each operation is the one of \<open>CanonicalPresence\<close>.\<close>

lemma logged_ops_canonical:
  "fst (po_begin logged_ops op a now pl) = fst (po_begin canonical_ops op a now (fst pl))"
  "fst (snd (po_begin logged_ops op a now pl)) = snd (po_begin canonical_ops op a now (fst pl))"
  "fst (po_consume logged_ops a now pl) = fst (po_consume canonical_ops a now (fst pl))"
  "fst (snd (po_consume logged_ops a now pl)) = snd (po_consume canonical_ops a now (fst pl))"
  "fst (po_cancel logged_ops pl) = po_cancel canonical_ops (fst pl)"
  "po_confirmed logged_ops pl = po_confirmed canonical_ops (fst pl)"
  by (simp_all add: logged_ops_def logged_eq canonical_ops_def)

lemma history_step: "gate_history es g \<Longrightarrow> g' = gate_step e g \<Longrightarrow> gate_history (es @ [e]) g'"
  by (simp add: gate_history.input)

interpretation button: presence_history logged_ops logged_request log_true
proof
  fix op a now pl
  show "logged_request (snd (po_begin logged_ops op a now pl)) = Some (op, a)"
    "\<not> po_confirmed logged_ops (snd (po_begin logged_ops op a now pl))"
    using canonical.begin_request canonical.begin_unconfirmed
    by (simp_all add: logged_request_def logged_ops_canonical)
  show "fst (po_consume logged_ops a now pl) \<Longrightarrow>
      po_confirmed logged_ops pl \<and> (\<exists>op. logged_request pl = Some (op, a))"
    using canonical.consume_confirmed by (auto simp: logged_request_def logged_ops_canonical)
  show "fst (po_consume logged_ops a now pl) \<Longrightarrow> logged_request (snd (po_consume logged_ops a now pl)) = None"
    using canonical.consume_clears by (auto simp: logged_request_def logged_ops_canonical)
  show "logged_request (snd (po_consume logged_ops a now pl)) \<in> {logged_request pl, None}"
    using canonical.consume_keeps by (auto simp: logged_request_def logged_ops_canonical)
  show "logged_request (po_cancel logged_ops pl) = None"
    using canonical.cancel_clears by (simp add: logged_request_def logged_ops_canonical)
  show "po_confirmed logged_ops pl \<Longrightarrow> logged_request pl \<noteq> None"
    using canonical.confirmed_request by (simp add: logged_request_def logged_ops_canonical)
  show "log_true pl \<Longrightarrow> log_true (snd (po_begin logged_ops op a now pl))"
    by (simp add: log_true_def logged_ops_def logged_eq history_step canonical_begin_presence_def split: prod.split)
  show "log_true pl \<Longrightarrow> log_true (snd (po_consume logged_ops a now pl))"
    by (simp add: log_true_def logged_ops_def logged_eq history_step canonical_consume_result)
  show "log_true pl \<Longrightarrow> log_true (po_cancel logged_ops pl)"
    by (simp add: log_true_def logged_ops_def logged_eq history_step canonical_cancel_presence_def)
qed

lemma logged_button_request: "logged_request (logged_button b pl) \<in> {logged_request pl, None}"
  using button_request [of b "fst pl"]
  by (cases pl; cases b) (simp_all add: logged_request_def Let_def del: button_step.simps)

lemma logged_button_true: "log_true pl \<Longrightarrow> log_true (logged_button b pl)"
proof (cases pl; cases b)
  fix p es now
  assume pl: "pl = (p, es)" "b = PButton now" and t: "log_true pl"
  define q where "q = (if cp_button_press_generation p \<noteq> max_u64
    then p\<lparr>cp_button_press_generation := cp_button_press_generation p + 1\<rparr> else p)"
  have q: "cp_gate q = cp_gate p" by (simp add: q_def)
  have "canonical_button_pressed now p = (if \<not> gate_active (cp_gate q) then (False, q)
         else let (b, g) = confirm_current now (cp_button_press_generation q) (cp_gate q)
              in (b, q\<lparr>cp_gate := g\<rparr>))" by (simp add: canonical_button_pressed_def q_def Let_def)
  then show "log_true (logged_button b pl)"
    using t by (auto simp: pl log_true_def q history_step case_prod_beta Let_def)
qed (auto simp: log_true_def history_step canonical_observe_def canonical_expire_def case_prod_beta)

section \<open>Steps and runs\<close>

text \<open>Besides lines, housekeeping and disconnections: the button; a call of the user interface or of the
  time task on the Vault, which reads it; and whatever the other tasks do to the time service and to the
  screen (\<open>PeElsewhere\<close>).\<close>

datatype 'k protocol_event =
    PeLine "'k line_inputs" bytes u64
  | PeHousekeeping u64
  | PeDisconnect
  | PeButton button_input
  | PeVault runtime_call
  | PeElsewhere

fun reads_vault :: "runtime_call \<Rightarrow> bool" where
  "reads_vault (RWithCredential _ _) = True"
| "reads_vault (RWithWifi _) = True"
| "reads_vault (RSetLastUsed _) = True"
| "reads_vault RList = True"
| "reads_vault _ = False"

inductive protocol_step ::
  "('k, logged_presence, 'w, 'n, 'e, 'u, 'j) canonical_setup \<Rightarrow>
   ('k, logged_presence, 'w, 'n, 'e, 'u) canonical_protocol \<Rightarrow> 'k protocol_event \<Rightarrow>
   ('k, logged_presence, 'w, 'n, 'e, 'u) canonical_protocol \<Rightarrow> bool" for cu where
  line: "protocol_handle_line cu inp msg now s = Some (r, s') \<Longrightarrow> protocol_step cu s (PeLine inp msg now) s'"
| housekeeping: "protocol_step cu s (PeHousekeeping now) (housekeeping cu now s)"
| disconnect: "protocol_step cu s PeDisconnect (protocol_disconnect cu s)"
| button: "protocol_step cu s (PeButton b) (with_presence (logged_button b (sh_presence (cq_session s))) s)"
| vault: "reads_vault c \<Longrightarrow>
    runtime_step (en_persistence (cu_device cu)) (en_gcm (cu_device cu)) c
      (dv_runtime (cq_device s), dv_medium (cq_device s)) = (r, w) \<Longrightarrow>
    protocol_step cu s (PeVault c) (s\<lparr>cq_device := (cq_device s)\<lparr>dv_runtime := r, dv_medium := w\<rparr>\<rparr>)"
| elsewhere: "protocol_step cu s PeElsewhere (s\<lparr>cq_time := ts, cq_ui := u\<rparr>)"

inductive protocol_run for cu s0 where
  start: "protocol_run cu s0 [] s0"
| step: "protocol_run cu s0 es s \<Longrightarrow> protocol_step cu s e s' \<Longrightarrow> protocol_run cu s0 (es @ [e]) s'"

abbreviation button_inv where "button_inv \<equiv> protocol_inv logged_request log_true"

lemma reads_device:
  assumes "reads_vault c" "parts_inv env d"
    and "runtime_step (en_persistence env) (en_gcm env) c (dv_runtime d, dv_medium d) = (r, w)"
  shows "parts_inv env (d\<lparr>dv_runtime := r, dv_medium := w\<rparr>) \<and> vault_still d (d\<lparr>dv_runtime := r, dv_medium := w\<rparr>)"
proof -
  let ?r = "dv_runtime d" and ?p = "en_persistence env" and ?g = "en_gcm env"
  have inv: "runtime_inv ?g r"
    using runtime_step_inv [of ?g "(?r, dv_medium d)" ?p c] assms(2,3) by (simp add: parts_inv_def device_ok_def)
  have "r \<in> {?r, snd (fatal_security_error ?r)} \<or> (\<exists>a. r = ?r\<lparr>rt_last_used := Some a\<rparr>)"
  proof (cases c)
    case (RWithCredential a f)
    then show ?thesis using with_credential_result [of ?p ?g a "silent f" "()" ?r "dv_medium d"] assms(3) by auto
  next
    case (RWithWifi f)
    then show ?thesis using with_wifi_result [of ?g "silent f" "()" ?r] assms(3) by auto
  next
    case (RSetLastUsed a)
    then show ?thesis using set_last_used_result [of ?p ?g a ?r "dv_medium d"] assms(3) by auto
  next
    case RList
    then show ?thesis using list_result [of ?g ?r] assms(3) by auto
  qed (use assms(1) in simp_all)
  then have "rt_has_vault r = rt_has_vault ?r \<and> rt_envelope r = rt_envelope ?r"
    by (auto simp: fatal_envelope)
  then show ?thesis using inv assms(2)
    by (simp add: parts_inv_def device_ok_def pending_fits_def vault_still_def)
qed

text \<open>A line that may cost the Vault, judged in the state that its own housekeeping leaves.\<close>

definition reset_line ::
  "('k, logged_presence, 'w, 'n, 'e, 'u, 'j) canonical_setup \<Rightarrow>
   ('k, logged_presence, 'w, 'n, 'e, 'u) canonical_protocol \<Rightarrow> 'k protocol_event \<Rightarrow> bool" where
  "reset_line cu s e \<longleftrightarrow> (\<exists>inp msg now i operation params. e = PeLine inp msg now \<and>
     well_formed_request (cu_json cu) msg = Some (i, operation, params) \<and>
     reset_request logged_request cu operation params now (housekeeping cu now s))"

lemma step_facts:
  assumes "protocol_step cu s e s'" and p: "cu_presence cu = logged_ops" and inv: "button_inv cu s"
  shows "button_inv cu s' \<and> (vault_kept (cq_device s) (cq_device s') \<or> reset_line cu s e)"
  using assms(1)
proof (cases rule: protocol_step.cases)
  case (line inp msg now r)
  note button.protocol_line_step [OF p inv line(2)]
  moreover have "vault_still (cq_device s) (cq_device (housekeeping cu now s))"
    using button.housekeeping_inv [OF p inv] by blast
  ultimately show ?thesis
    using still_kept_trans line(1) by (auto simp: step_ok_def reset_line_def)
next
  case (housekeeping now)
  then show ?thesis using button.housekeeping_inv [OF p inv] still_kept by blast
next
  case disconnect
  then show ?thesis using button.step_disconnect [OF p inv, of False] still_kept [OF sink_still(2), of "cq_device s"]
    by (simp add: step_ok_def)
next
  case (button b)
  then show ?thesis
    using control_inv_presence [of logged_request log_true s] logged_button_request logged_button_true inv
    by (auto simp: protocol_inv_def control_inv_def [of _ _ s] still_kept)
next
  case (vault c r w)
  then show ?thesis
    using reads_device [OF vault(3) _ vault(4)] inv same_control_inv [of s s' logged_request log_true] still_kept
    by (auto simp: protocol_inv_def)
next
  case (elsewhere ts u)
  then have "same_control s s'" by (simp add: same_control_def)
  then show ?thesis using elsewhere inv same_control_inv [of s s' logged_request log_true]
    by (auto simp: protocol_inv_def still_kept)
qed

lemma protocol_run_inv:
  "protocol_run cu s0 es s \<Longrightarrow> cu_presence cu = logged_ops \<Longrightarrow> button_inv cu s0 \<Longrightarrow> button_inv cu s"
  by (induction rule: protocol_run.induct) (use step_facts in blast)+

lemma power_up_inv:
  assumes "power_up_device (cu_device cu) rng w n = Some d"
  shows "button_inv cu (new_protocol d ts (initial_presence, []) u)"
proof -
  let ?env = "cu_device cu"
  obtain st store n' where r: "reg_initialize (en_nvs ?env) (en_p256_point ?env) rng (new_store, n) = Some (st, store, n')"
    using assms by (auto simp: power_up_device_def split: option.splits)
  obtain st' rt w' where i: "initialize (en_persistence ?env) (new_runtime, w) = (st', rt, w')" by (metis prod_cases3)
  have d: "d = \<lparr>dv_runtime = rt, dv_medium = w', dv_store = store, dv_reg_medium = n', dv_sink = new_sink\<rparr>"
    using assms by (simp add: power_up_device_def r i)
  have "runtime_inv (en_gcm ?env) rt"
    using initialize_inv [of "en_gcm ?env" "en_persistence ?env" "(new_runtime, w)"] by (simp add: i)
  moreover have "store_inv (en_p256_point ?env) store" using reg_initialize_inv [OF r] by blast
  ultimately have "parts_inv ?env d"
    by (simp add: d parts_inv_def device_ok_def pending_fits_def sink_inv_def new_sink_def kVmkBytes_def all_zero_def zeros_def
        list_all_iff)
  moreover have "gate_history [] (cp_gate initial_presence)"
    by (simp add: initial_presence_def gate_history.start)
  ultimately show ?thesis
    by (simp add: protocol_inv_def control_inv_def new_protocol_def new_session_handler_def handler_inv_idle
        idle_initial log_true_def reset_idle_def)
qed

end
