(* ===== verification/Protocol_Props.thy ===== *)
theory Protocol_Props
  imports Protocol_Runs
begin

text \<open>
  The claims about the composed device: what every run keeps, what can cost a Vault, what the security
  boundary and the housekeeping achieve, and that requests are answered.
\<close>

section \<open>The boundary\<close>

lemma disconnect_context: "\<not> sh_context_active (cq_session (protocol_disconnect cu s))"
  using disconnect_idle [of "cu_presence cu" "cq_session s"]
  by (simp add: protocol_disconnect_def cancel_recovery_reset_def cancel_healthy_factory_reset_def
      cancel_presence_eq drop_session_def handler_idle_def with_presence_def Let_def)

context presence_binding begin

lemma disconnect_unasked:
  assumes "cu_presence cu = ops"
  shows "request (sh_presence (cq_session (protocol_disconnect cu s))) = None"
proof -
  have "request (po_cancel (cu_presence cu) p) = None" for p using assms cancel_clears by simp
  then show ?thesis
    by (simp add: protocol_disconnect_def cancel_recovery_reset_def cancel_healthy_factory_reset_def
        cancel_presence_eq Let_def)
qed

end

text \<open>What is gone once everything has been given up.\<close>

definition given_up :: "('k, canonical_presence, 'w, 'n, 'e, 'u) canonical_protocol \<Rightarrow> bool" where
  "given_up s \<longleftrightarrow> control_idle s \<and> \<not> sh_context_active (cq_session s) \<and>
     gate_request (cp_gate (sh_presence (cq_session s))) = None \<and>
     \<not> sk_pending (dv_sink (cq_device s)) \<and> all_zero (sk_pending_vmk (dv_sink (cq_device s)))"

lemma disconnect_given_up: "cu_presence cu = canonical_ops \<Longrightarrow> given_up (protocol_disconnect cu s)"
  using canonical.disconnect_unasked [of cu s] disconnect_context [of cu s] by (simp add: given_up_def)

lemma given_up_cong:
  "given_up s \<Longrightarrow> same_control s s' \<Longrightarrow> dv_sink (cq_device s') = dv_sink (cq_device s) \<Longrightarrow> given_up s'"
  using same_control_idle [of s s'] by (simp add: given_up_def same_control_def)

lemma lock_boundary_result:
  assumes "lock_security_boundary cu s = (st, s')"
  shows "same_control (protocol_disconnect cu s) s' \<and>
    cq_device s' = (cancel_pending (cq_device s))\<lparr>dv_runtime := snd (lock (dv_runtime (cq_device s)))\<rparr> \<and>
    st = fst (lock (dv_runtime (cq_device s))) \<and>
    (cq_time s', cq_ui s') = (if st = Ok
      then cu_clear_ui cu (dv_runtime (cq_device s')) (sh_presence (cq_session s'))
        (teardown_network (cu_platform cu) (cq_time s), cq_ui s)
      else (teardown_network (cu_platform cu) (cq_time s), cq_ui s))"
proof -
  have "cq_ui (protocol_disconnect cu s) = cq_ui s"
    by (simp add: protocol_disconnect_def cancel_recovery_reset_def cancel_healthy_factory_reset_def
        cancel_presence_eq drop_session_def Let_def)
  then show ?thesis
    using assms by (auto simp: lock_security_boundary_def secret_boundary_eq Let_def on_device_def on_memory_def
        protocol_disconnect_def [symmetric] same_control_def notify_security_boundary_def
        split: prod.splits if_splits)
qed

lemma lock_outcome:
  "fst (lock r) = (if \<not> rt_initialized r then NotReady else if rt_state r = VaultError then InvalidState else Ok)"
  "rt_initialized r \<Longrightarrow> \<not> rt_vmk_present (snd (lock r)) \<and> all_zero (rt_vmk (snd (lock r))) \<and>
     rt_state (snd (lock r)) \<noteq> Unlocked"
  by (auto simp: lock_def clear_unlock_session_state_def wipe_vmk_def Let_def)

text \<open>C19. The security boundary (\<open>device.lock\<close>, the automatic lock, the lock after an update) leaves
  nothing behind, whatever was going on: no session and no context of one, no reset of either kind,
  nothing asked of the user, no delivered key, the Wi-Fi driver down and, on an initialized runtime, no
  resident key, also when the Vault is in error and the lock is refused. When it succeeds the user
  interface has been told, with the network already down.\<close>

theorem security_boundary_clears:
  assumes "lock_security_boundary cu s = (st, s')" "cu_presence cu = canonical_ops"
    and "driver_contract (cu_platform cu) up" "closable up (cq_time s)"
    and "rt_initialized (dv_runtime (cq_device s))"
    and "\<And>r p ts u. network_down up ts \<Longrightarrow> network_down up (fst (cu_clear_ui cu r p (ts, u)))"
  shows "given_up s' \<and> network_down up (cq_time s') \<and> vault_still (cq_device s) (cq_device s') \<and>
    \<not> rt_vmk_present (dv_runtime (cq_device s')) \<and> all_zero (rt_vmk (dv_runtime (cq_device s'))) \<and>
    rt_state (dv_runtime (cq_device s')) \<noteq> Unlocked \<and>
    (st = Ok \<longleftrightarrow> rt_state (dv_runtime (cq_device s)) \<noteq> VaultError) \<and>
    (st = Ok \<longrightarrow> (cq_time s', cq_ui s') = cu_clear_ui cu (dv_runtime (cq_device s')) (sh_presence (cq_session s'))
       (teardown_network (cu_platform cu) (cq_time s), cq_ui s))"
proof -
  note res = lock_boundary_result [OF assms(1)]
  have "given_up s'"
    using given_up_cong [OF disconnect_given_up [OF assms(2)], of s s'] res by simp
  moreover have "vault_still (cq_device s) (cq_device s')"
    using res keeps_vault_calls(1) by (simp add: vault_still_def keeps_vault_def)
  moreover have "network_down up (cq_time s')"
    using res teardown_down [OF assms(3,4)] assms(6) by (metis fst_conv)
  ultimately show ?thesis
    using res lock_outcome [of "dv_runtime (cq_device s)"] assms(5) by simp
qed

section \<open>A device to try it on\<close>

text \<open>The Vault of \<open>demo_store\<close> and an empty registration partition. A JSON text is one byte here, the
  number of one of the requests in a list.\<close>

definition demo_json :: "json_tree list \<Rightarrow> json_tree json_api" where
  "demo_json requests = \<lparr>
     js_parse = \<lambda>line. case line of [b] \<Rightarrow> if unat b < length requests then Some (requests ! unat b) else None | _ \<Rightarrow> None,
     js_is_object = \<lambda>j. case j of JObject _ \<Rightarrow> True | _ \<Rightarrow> False,
     js_item = \<lambda>j key. case j of JObject items \<Rightarrow> map_of items key | _ \<Rightarrow> None,
     js_string = \<lambda>j. case j of JString v \<Rightarrow> Some v | _ \<Rightarrow> None,
     js_number = \<lambda>j. case j of JNumber n \<Rightarrow> Some (Finite n 0) | _ \<Rightarrow> None,
     js_is_true = \<lambda>j. j = JBool True,
     js_print = \<lambda>_. []\<rparr>"

definition demo_request :: "string \<Rightarrow> (string \<times> json_tree) list \<Rightarrow> json_tree" where
  "demo_request operation params = JObject [(''v'', JNumber 2), (''id'', JNumber 1),
     (''op'', JString (ascii operation)), (''params'', JObject params)]"

definition demo_setup :: "'p presence_ops \<Rightarrow> json_tree list \<Rightarrow>
    (unit, 'p, persisted_snapshot, ram, bool, bool, json_tree) canonical_setup" where
  "demo_setup ops requests = \<lparr>cu_metadata = \<lparr>dm_device = [], dm_firmware = [], dm_protocol = 2,
       dm_storage_schema = 2, dm_vault_format = 1, dm_build_commit = []\<rparr>,
     cu_json = demo_json requests, cu_primitives = sample_primitives, cu_presence = ops, cu_device = demo_env,
     cu_platform = demo_esp, cu_random = \<lambda>len up. (replicate len 3, up),
     cu_clear_ui = \<lambda>r p (ts, shown). (ts, shown \<and> rt_vmk_present r)\<rparr>"

definition demo_parts :: "runtime \<Rightarrow> (persisted_snapshot, ram) device" where
  "demo_parts r = \<lparr>dv_runtime = r, dv_medium = demo_store, dv_store = demo_reg, dv_reg_medium = (8, demo_flash),
     dv_sink = new_sink\<rparr>"

lemma demo_power_up:
  "power_up_device (cu_device (demo_setup ops requests)) demo_rng demo_store (9, \<lambda>_ _. None) = Some (demo_parts demo_locked)"
  by (simp add: power_up_device_def demo_setup_def demo_env_def demo_reg_boot demo_initialize demo_parts_def)

theorem security_boundary_clears_witness:
  "\<exists>s'. lock_security_boundary (demo_setup canonical_ops [])
      (new_protocol (demo_parts demo_unlocked) ((new_time_service True)\<lparr>tv_network_initialized := True\<rparr>)
        initial_presence True) = (Ok, s') \<and>
    given_up s' \<and> \<not> rt_vmk_present (dv_runtime (cq_device s')) \<and> \<not> cq_ui s'"
proof -
  let ?cu = "demo_setup canonical_ops []"
  let ?s = "new_protocol (demo_parts demo_unlocked) ((new_time_service True)\<lparr>tv_network_initialized := True\<rparr>)
      initial_presence True ::
    (unit, canonical_presence, persisted_snapshot, ram, bool, bool) canonical_protocol"
  obtain st s' where run: "lock_security_boundary ?cu ?s = (st, s')" by (metis prod.collapse)
  have "closable (\<lambda>up. up) (cq_time ?s)" "rt_initialized (dv_runtime (cq_device ?s))"
    "rt_state (dv_runtime (cq_device ?s)) = Unlocked"
    using demo_unlocked_flags by (simp_all add: closable_def new_protocol_def new_time_service_def demo_parts_def)
  with security_boundary_clears [OF run _ _ this(1,2)] run demo_driver show ?thesis
    by (auto simp: demo_setup_def)
qed

section \<open>Housekeeping\<close>

text \<open>What is due at \<open>now\<close>.\<close>

definition session_due :: "u64 \<Rightarrow> 'k coordinator \<Rightarrow> bool" where
  "session_due now c \<longleftrightarrow> co_active c \<and> (ad_expires_at_ms (co_descriptor c) \<le> now \<or>
     ds_active (co_crypto c) \<and> ds_expires_at_ms (co_crypto c) \<le> now)"

definition sink_due :: "u64 \<Rightarrow> vmk_sink \<Rightarrow> bool" where
  "sink_due now k \<longleftrightarrow> sk_pending k \<and> sk_deadline_armed k \<and> sk_pending_expires_at_ms k \<le> now"

definition recovery_due :: "u64 \<Rightarrow> ('k, 'p, 'w, 'n, 'e, 'u) canonical_protocol \<Rightarrow> bool" where
  "recovery_due now s \<longleftrightarrow> cq_recovery_active s \<and> cq_recovery_deadline_ms s \<le> now"

definition something_due :: "u64 \<Rightarrow> ('k, 'p, 'w, 'n, 'e, 'u) canonical_protocol \<Rightarrow> bool" where
  "something_due now s \<longleftrightarrow> session_due now (sh_coordinator (cq_session s)) \<or> sink_due now (dv_sink (cq_device s)) \<or>
     reset_expired now (cq_reset s) \<or> recovery_due now s \<or> automatic_lock_due now (dv_runtime (cq_device s))"

lemma idle_not_due: "coordinator_idle c \<Longrightarrow> \<not> session_due now c"
  by (simp add: session_due_def coordinator_idle_def)

lemma expire_handler:
  "session_handler_expire ops now h = (if session_due now (sh_coordinator h)
     then (True, session_disconnect ops h) else (False, h))"
proof (cases "session_due now (sh_coordinator h)")
  case False
  then show ?thesis
    by (auto simp: session_handler_expire_def coordinator_expire_def session_due_def device_ttl.expire_eq Let_def)
next
  case True
  then show ?thesis
    by (auto simp: session_handler_expire_def coordinator_expire_def session_due_def device_ttl.expire_eq Let_def
        session_disconnect_def on_coordinator_def coordinator_cancel_def session_cancel_def split: if_splits)
qed

lemma disconnect_session_idle: "coordinator_idle (sh_coordinator (session_disconnect ops h))"
  using disconnect_idle [of ops h] by (simp add: handler_idle_def)

lemma expire_sink: "snd (expire_pending now k) = (if sink_due now k then sink_cancel k else k)"
  by (simp add: sink_ttl.expire_eq sink_due_def)

text \<open>The four deadlines, before the automatic lock.\<close>

definition expire_attempts where
  "expire_attempts cu now s =
     (let s = s\<lparr>cq_session := snd (session_handler_expire (cu_presence cu) now (cq_session s))\<rparr>;
          s = s\<lparr>cq_device := (cq_device s)\<lparr>dv_sink := snd (expire_pending now (dv_sink (cq_device s)))\<rparr>\<rparr>;
          s = (if reset_expired now (cq_reset s) then cancel_healthy_factory_reset cu s else s)
      in if cq_recovery_active s \<and> now \<ge> cq_recovery_deadline_ms s then cancel_recovery_reset cu s else s)"

lemma housekeeping_eq:
  "housekeeping cu now s = (let s = expire_attempts cu now s
     in if automatic_lock_due now (dv_runtime (cq_device s)) then snd (lock_security_boundary cu s) else s)"
  by (simp add: housekeeping_def expire_attempts_def Let_def)

lemma cancel_healthy_deadline [simp]:
  "cq_recovery_deadline_ms (cancel_healthy_factory_reset cu s) = cq_recovery_deadline_ms s"
  by (simp add: cancel_healthy_factory_reset_def cancel_presence_eq Let_def)

lemma expire_attempts_done:
  "\<not> session_due now (sh_coordinator (cq_session (expire_attempts cu now s)))"
  "\<not> sink_due now (dv_sink (cq_device (expire_attempts cu now s)))"
  "\<not> reset_expired now (cq_reset (expire_attempts cu now s))" "\<not> recovery_due now (expire_attempts cu now s)"
  "dv_runtime (cq_device (expire_attempts cu now s)) = dv_runtime (cq_device s)"
  by (simp_all add: expire_attempts_def Let_def expire_handler expire_sink idle_not_due disconnect_session_idle)
    (auto simp: sink_due_def recovery_due_def reset_expired_def)

lemma expire_attempts_same:
  "\<not> something_due now s \<Longrightarrow> expire_attempts cu now s = s"
  by (auto simp: something_due_def expire_attempts_def expire_handler expire_sink recovery_due_def Let_def)

lemma not_unlocked_not_due: "rt_state r \<noteq> Unlocked \<Longrightarrow> \<not> automatic_lock_due now r"
  by (simp add: automatic_lock_due_def unlocked_def split: option.split)

lemma control_idle_not_due:
  "control_idle s \<Longrightarrow> \<not> sk_pending (dv_sink (cq_device s)) \<Longrightarrow> rt_state (dv_runtime (cq_device s)) \<noteq> Unlocked \<Longrightarrow>
   \<not> something_due now s"
  by (simp add: something_due_def control_idle_def idle_not_due sink_due_def reset_expired_def recovery_due_def
      not_unlocked_not_due)

lemma due_initialized: "automatic_lock_due now r \<Longrightarrow> rt_initialized r \<and> rt_state r = Unlocked"
  by (auto simp: automatic_lock_due_def unlocked_def split: option.splits if_splits)

lemma housekeeping_lock:
  assumes "automatic_lock_due now (dv_runtime (cq_device s))"
  shows "control_idle (housekeeping cu now s) \<and> \<not> sk_pending (dv_sink (cq_device (housekeeping cu now s))) \<and>
    \<not> rt_vmk_present (dv_runtime (cq_device (housekeeping cu now s))) \<and>
    all_zero (rt_vmk (dv_runtime (cq_device (housekeeping cu now s)))) \<and>
    rt_state (dv_runtime (cq_device (housekeeping cu now s))) \<noteq> Unlocked \<and>
    cq_ui (housekeeping cu now s) = snd (cu_clear_ui cu (dv_runtime (cq_device (housekeeping cu now s)))
      (sh_presence (cq_session (housekeeping cu now s)))
      (teardown_network (cu_platform cu) (cq_time (expire_attempts cu now s)), cq_ui (expire_attempts cu now s)))"
proof -
  let ?t = "expire_attempts cu now s" and ?r = "dv_runtime (cq_device s)"
  obtain st u where l: "lock_security_boundary cu ?t = (st, u)" by (metis prod.collapse)
  have h: "housekeeping cu now s = u" using assms by (simp add: housekeeping_eq expire_attempts_done l)
  note res = lock_boundary_result [OF l]
  have "control_idle u" using same_control_idle [of "protocol_disconnect cu ?t" u] res by simp
  moreover have "st = Ok" using res lock_outcome [of ?r] due_initialized [OF assms] by (simp add: expire_attempts_done)
  moreover from this have "cq_ui u = snd (cu_clear_ui cu (dv_runtime (cq_device u)) (sh_presence (cq_session u))
      (teardown_network (cu_platform cu) (cq_time ?t), cq_ui ?t))" using res by (metis snd_conv)
  ultimately show ?thesis
    using res lock_outcome [of ?r] due_initialized [OF assms] by (simp add: h expire_attempts_done)
qed

lemma expire_attempts_ui [simp]:
  "cq_ui (expire_attempts cu now s) = cq_ui s" "cq_time (expire_attempts cu now s) = cq_time s"
  by (simp_all add: expire_attempts_def cancel_healthy_factory_reset_def cancel_recovery_reset_def cancel_presence_eq Let_def)

lemma housekeeping_not_due: "\<not> something_due now (housekeeping cu now s)"
proof (cases "automatic_lock_due now (dv_runtime (cq_device s))")
  case True
  then show ?thesis using housekeeping_lock [of now s cu] by (simp add: control_idle_not_due)
next
  case False
  then show ?thesis
    by (simp add: housekeeping_eq something_due_def expire_attempts_done Let_def)
qed

text \<open>C20. Housekeeping enforces every deadline. After it, nothing is past its time: not the attempt
  of a session nor its ephemeral key, not a delivered key, not either kind of reset, and the Vault is
  not unlocked beyond its policy. If nothing was due it changes nothing, and when the policy says so
  the Vault is locked with no key left, every attempt is given up and the user interface is told.\<close>

theorem housekeeping_enforces_deadlines:
  "\<not> something_due now (housekeeping cu now s) \<and>
   (\<not> something_due now s \<longrightarrow> housekeeping cu now s = s) \<and>
   (automatic_lock_due now (dv_runtime (cq_device s)) \<longrightarrow>
      control_idle (housekeeping cu now s) \<and> \<not> sk_pending (dv_sink (cq_device (housekeeping cu now s))) \<and>
      \<not> rt_vmk_present (dv_runtime (cq_device (housekeeping cu now s))) \<and>
      all_zero (rt_vmk (dv_runtime (cq_device (housekeeping cu now s)))) \<and>
      cq_ui (housekeeping cu now s) = snd (cu_clear_ui cu (dv_runtime (cq_device (housekeeping cu now s)))
        (sh_presence (cq_session (housekeeping cu now s))) (teardown_network (cu_platform cu) (cq_time s), cq_ui s)))"
  using housekeeping_not_due [of now cu s] expire_attempts_same [of now s cu] housekeeping_lock [of now s cu]
  by (auto simp: housekeeping_eq something_due_def Let_def)

theorem housekeeping_enforces_deadlines_witness:
  "\<not> cq_ui (housekeeping (demo_setup canonical_ops []) 86400007
      (new_protocol (demo_parts (demo_unlocked\<lparr>rt_auto_lock_days := Some 1\<rparr>)) (new_time_service False)
         initial_presence True))"
proof -
  let ?r = "demo_unlocked\<lparr>rt_auto_lock_days := Some 1\<rparr>" and ?cu = "demo_setup canonical_ops []"
  let ?s = "new_protocol (demo_parts ?r) (new_time_service False) initial_presence True ::
    (unit, canonical_presence, persisted_snapshot, ram, bool, bool) canonical_protocol"
  have due: "automatic_lock_due 86400007 ?r"
    by (simp add: automatic_lock_due_def unlocked_def demo_unlocked_def demo_locked_def kMillisecondsPerDay_def)
  have d: "dv_runtime (cq_device ?s) = ?r" by (simp add: new_protocol_def demo_parts_def)
  have c: "snd (cu_clear_ui ?cu r p (ts, shown)) \<longleftrightarrow> shown \<and> rt_vmk_present r" for r p ts shown by (simp add: demo_setup_def)
  show ?thesis
    using housekeeping_enforces_deadlines [of 86400007 ?cu ?s] due unfolding d c by blast
qed

section \<open>Lines\<close>

text \<open>C35. A line that is not a request (empty, too long, not JSON, of another protocol version, without
  an id, an operation or parameters) is refused with an error, and the Vault, the registration and their
  media are not touched. A line that is not empty ends whatever attempt was going on. The empty line is
  an exception of the code: it is refused too, but changes nothing, so an open session, a pending key and the
  authorization of a reset stay until their deadlines.\<close>

theorem malformed_line_gives_up:
  assumes "well_formed_request (cu_json cu) line = None" "cu_presence cu = canonical_ops"
  shows "\<exists>i code s'. protocol_handle_line cu inp line now s = Some (ErrorResponse i code, s') \<and>
    (if line = [] then s' = housekeeping cu now s else given_up s') \<and>
    cq_device s' = (if line = [] then id else cancel_pending) (cq_device (housekeeping cu now s)) \<and>
    dv_runtime (cq_device s') = dv_runtime (cq_device (housekeeping cu now s)) \<and>
    dv_medium (cq_device s') = dv_medium (cq_device (housekeeping cu now s)) \<and>
    dv_store (cq_device s') = dv_store (cq_device (housekeeping cu now s))"
  using handle_line_eq [of cu inp line now s] assms disconnect_given_up [of cu "housekeeping cu now s"] by auto

theorem malformed_line_gives_up_witness:
  "\<exists>i code s'. protocol_handle_line (demo_setup canonical_ops []) \<lparr>li_entropy = sample_entropy, li_timer_us = 0\<rparr> [1] 7
      (new_protocol (demo_parts demo_unlocked) (new_time_service False) initial_presence True) =
      Some (ErrorResponse i code, s') \<and> given_up s'"
proof -
  have "well_formed_request (cu_json (demo_setup canonical_ops [])) [1] = None" "cu_presence (demo_setup canonical_ops []) = canonical_ops"
    by (simp_all add: well_formed_request_def demo_setup_def demo_json_def)
  from malformed_line_gives_up [OF this] show ?thesis by (metis list.distinct(1))
qed

lemma draw_returns: "draws_nonzero (cu_random cu) kAttemptIdBytes (tv_env (cq_time s)) \<Longrightarrow> draw_attempt_id cu s \<noteq> None"
  using draw_nonzero_returns [of "cu_random cu" kAttemptIdBytes "tv_env (cq_time s)"]
  by (auto simp: draw_attempt_id_def)

text \<open>C36. Every line is answered, whatever it says and whatever the parts do, if the random source does
  not draw zeros for ever.\<close>

theorem every_line_is_answered:
  assumes "\<And>e. draws_nonzero (cu_random cu) kAttemptIdBytes e"
  shows "\<exists>r s'. protocol_handle_line cu inp line now s = Some (r, s')"
proof -
  have d: "draw_attempt_id cu t = None \<Longrightarrow> False" for t using draw_returns [OF assms] by blast
  have "reset_begin_request cu i now t \<noteq> None" "recovery_begin_request cu i now t \<noteq> None" for i t
    by (auto simp: reset_begin_request_def recovery_begin_request_def Let_def split: prod.split option.split dest: d)
  then have "protocol_request cu inp line i operation params now t \<noteq> None" for i operation params t
    by (simp add: protocol_request_def)
  then show ?thesis using handle_line_eq [of cu inp line now s] by (fastforce split: option.splits)
qed

theorem every_line_is_answered_witness:
  "\<exists>r s'. protocol_handle_line (demo_setup canonical_ops [demo_request ''factory_reset.begin'' []])
      \<lparr>li_entropy = sample_entropy, li_timer_us = 0\<rparr> [0] 7
      (new_protocol (demo_parts demo_unlocked) (new_time_service False) initial_presence True) = Some (r, s')"
  by (rule every_line_is_answered)
    (simp add: draws_nonzero_def demo_setup_def all_zero_iff zeros_def kAttemptIdBytes_def)

section \<open>Every run\<close>

lemma run_from_power_up:
  assumes "cu_presence cu = logged_ops" "power_up_device (cu_device cu) rng w n = Some d"
    and "protocol_run cu (new_protocol d ts (initial_presence, []) u) es s"
  shows "button_inv cu s"
  using protocol_run_inv [OF assms(3,1)] power_up_inv [OF assms(2)] by blast

lemma handler_shows:
  assumes "handler_inv request h" "co_active (sh_coordinator h)"
  shows "sh_context_active h \<and> co_context (sh_coordinator h) = sh_context h \<and>
    (co_state (sh_coordinator h) = AwaitingPresence \<longrightarrow> request (sh_presence h) \<in>
       {Some (presence_operation (bc_operation (co_context (sh_coordinator h))), ad_attempt_id (co_descriptor (sh_coordinator h))), None})"
  using assms(1) unfolding handler_inv_def Let_def attempt_shown_def eqTrueI [OF assms(2)] if_True by blast

text \<open>C5. The user stays in control of what is asked. After any run from power-up, at most one of a
  session, a reset of a healthy device and a reset that recovers is going on; what the screen asks the
  user to confirm (if it asks) is FACTORY RESET for a pending reset and the operation of the session
  otherwise, always with the attempt id of what is pending; a session's context is the one it was begun
  with; a delivered key that waits to create a Vault waits only while there is none; and a key is
  resident exactly when the Vault is unlocked.\<close>

theorem attempts_never_mix:
  assumes "cu_presence cu = logged_ops" "power_up_device (cu_device cu) rng w n = Some d"
    and "protocol_run cu (new_protocol d ts (initial_presence, []) u) es s"
  shows "(let c = sh_coordinator (cq_session s); asked = logged_request (sh_presence (cq_session s));
      k = dv_sink (cq_device s); r = dv_runtime (cq_device s) in
    \<not> (fa_active (cq_reset s) \<and> cq_recovery_active s) \<and>
    (fa_active (cq_reset s) \<or> cq_recovery_active s \<longrightarrow> \<not> co_active c \<and> co_crypto c = session_reset) \<and>
    (fa_active (cq_reset s) \<longrightarrow> asked \<in> {Some (PresFactoryReset, fa_attempt_id (cq_reset s)), None}) \<and>
    (cq_recovery_active s \<longrightarrow> asked \<in> {Some (PresFactoryReset, cq_recovery_attempt_id s), None}) \<and>
    (co_active c \<longrightarrow> sh_context_active (cq_session s) \<and> co_context c = sh_context (cq_session s)) \<and>
    (co_active c \<and> co_state c = AwaitingPresence \<longrightarrow>
       asked \<in> {Some (presence_operation (bc_operation (co_context c)), ad_attempt_id (co_descriptor c)), None}) \<and>
    (sk_pending k \<and> bc_operation (sk_pending_context k) \<in> {InitialProvisioning, Recovery} \<longrightarrow> \<not> rt_has_vault r) \<and>
    (\<not> sk_pending k \<longrightarrow> all_zero (sk_pending_vmk k)) \<and>
    (rt_vmk_present r \<longleftrightarrow> rt_state r = Unlocked) \<and> (\<not> rt_vmk_present r \<longrightarrow> all_zero (rt_vmk r)))"
proof -
  have inv: "button_inv cu s" by (rule run_from_power_up [OF assms])
  then have c: "control_inv logged_request log_true s" and d: "pending_fits (cq_device s)"
    "runtime_inv (en_gcm (cu_device cu)) (dv_runtime (cq_device s))" "sink_inv (dv_sink (cq_device s))"
    by (simp_all add: protocol_inv_def parts_inv_def device_ok_def)
  note resets = c [unfolded control_inv_def asks_reset_def coordinator_idle_def]
  note session = handler_shows [of logged_request "cq_session s"]
  have keys: "sk_pending (dv_sink (cq_device s)) \<and>
      bc_operation (sk_pending_context (dv_sink (cq_device s))) \<in> {InitialProvisioning, Recovery} \<longrightarrow>
        \<not> rt_has_vault (dv_runtime (cq_device s))"
    "\<not> sk_pending (dv_sink (cq_device s)) \<longrightarrow> all_zero (sk_pending_vmk (dv_sink (cq_device s)))"
    "rt_vmk_present (dv_runtime (cq_device s)) \<longleftrightarrow> rt_state (dv_runtime (cq_device s)) = Unlocked"
    "\<not> rt_vmk_present (dv_runtime (cq_device s)) \<longrightarrow> all_zero (rt_vmk (dv_runtime (cq_device s)))"
    using d unfolding pending_fits_def runtime_inv_def sink_inv_def by blast+
  have reset: "\<not> (fa_active (cq_reset s) \<and> cq_recovery_active s)"
    "fa_active (cq_reset s) \<or> cq_recovery_active s \<longrightarrow> \<not> co_active (sh_coordinator (cq_session s)) \<and>
       co_crypto (sh_coordinator (cq_session s)) = session_reset"
    "fa_active (cq_reset s) \<longrightarrow> logged_request (sh_presence (cq_session s)) \<in>
       {Some (PresFactoryReset, fa_attempt_id (cq_reset s)), None}"
    "cq_recovery_active s \<longrightarrow> logged_request (sh_presence (cq_session s)) \<in>
       {Some (PresFactoryReset, cq_recovery_attempt_id s), None}"
    using resets by blast+
  have asked: "co_active (sh_coordinator (cq_session s)) \<and> co_state (sh_coordinator (cq_session s)) = AwaitingPresence \<longrightarrow>
      logged_request (sh_presence (cq_session s)) \<in> {Some (presence_operation (bc_operation (co_context
        (sh_coordinator (cq_session s)))), ad_attempt_id (co_descriptor (sh_coordinator (cq_session s)))), None}"
    "co_active (sh_coordinator (cq_session s)) \<longrightarrow> sh_context_active (cq_session s) \<and>
      co_context (sh_coordinator (cq_session s)) = sh_context (cq_session s)"
    using session c by (auto simp: control_inv_def)
  show ?thesis unfolding Let_def by (intro conjI) (fact reset asked keys)+
qed

definition demo_start :: "(unit, logged_presence, persisted_snapshot, ram, bool, bool) canonical_protocol" where
  "demo_start = new_protocol (demo_parts demo_locked) (new_time_service False) (initial_presence, []) False"

theorem attempts_never_mix_witness:
  "protocol_run (demo_setup logged_ops []) demo_start [PeHousekeeping 5] (housekeeping (demo_setup logged_ops []) 5 demo_start) \<and>
   (rt_vmk_present (dv_runtime (cq_device (housekeeping (demo_setup logged_ops []) 5 demo_start))) \<longleftrightarrow>
    rt_state (dv_runtime (cq_device (housekeeping (demo_setup logged_ops []) 5 demo_start))) = Unlocked)"
proof -
  let ?cu = "demo_setup logged_ops []"
  have run: "protocol_run ?cu demo_start [PeHousekeeping 5] (housekeeping ?cu 5 demo_start)"
    using protocol_run.step [OF protocol_run.start protocol_step.housekeeping, of ?cu demo_start 5] by simp
  have p: "cu_presence ?cu = logged_ops" by (simp add: demo_setup_def)
  from attempts_never_mix [OF p demo_power_up run [unfolded demo_start_def]] run show ?thesis
    unfolding Let_def by (simp only: demo_start_def)
qed

text \<open>C1. Nobody loses a Vault by accident. In any run from power-up a step can take the Vault away, or
  replace it by anything but its successor, only if it is a line \<open>factory_reset.commit\<close> or
  \<open>factory_reset.recovery_complete\<close> that names the attempt id of a FACTORY RESET, and the log of the
  button shows that this attempt was asked of the user, that the button was then released, pressed and
  released as the gesture requires, that the press was newer than the request and in time, with nothing
  cancelled in between, and that the line too came in time.\<close>

theorem vault_lost_only_by_confirmed_reset:
  assumes "cu_presence cu = logged_ops" "power_up_device (cu_device cu) rng w n = Some d"
    and "protocol_run cu (new_protocol d ts (initial_presence, []) u) es s" "protocol_step cu s e s'"
  shows "vault_kept (cq_device s) (cq_device s') \<or> (\<exists>inp msg now i operation params a pre t0 gen0 m1 at gen m2.
    e = PeLine inp msg now \<and> well_formed_request (cu_json cu) msg = Some (i, operation, params) \<and>
    operation \<in> {ascii ''factory_reset.commit'', ascii ''factory_reset.recovery_complete''} \<and>
    read_binary (cu_json cu) params ''attempt_id'' kAttemptIdBytes = Some a \<and>
    snd (sh_presence (cq_session (housekeeping cu now s))) =
      pre @ GBegin PresFactoryReset a t0 gen0 # m1 @ GConfirm at gen # m2 \<and>
    list_all (\<lambda>e. \<not> is_restart e) (m1 @ m2) \<and> gesture (samples m1) \<and> gen0 < gen \<and>
    at < deadline_from t0 \<and> now < deadline_from t0)"
proof (cases "vault_kept (cq_device s) (cq_device s')")
  case True
  then show ?thesis ..
next
  case False
  have inv: "button_inv cu s" by (rule run_from_power_up [OF assms(1-3)])
  then have "reset_line cu s e" using step_facts [OF assms(4,1)] False by blast
  then obtain inp msg now i operation params a where e: "e = PeLine inp msg now"
    "well_formed_request (cu_json cu) msg = Some (i, operation, params)"
    "operation \<in> {ascii ''factory_reset.commit'', ascii ''factory_reset.recovery_complete''}"
    "read_binary (cu_json cu) params ''attempt_id'' kAttemptIdBytes = Some a"
    and r: "logged_request (sh_presence (cq_session (housekeeping cu now s))) = Some (PresFactoryReset, a)"
    and c: "fst (po_consume logged_ops a now (sh_presence (cq_session (housekeeping cu now s))))"
    using assms(1) by (auto simp: reset_line_def reset_request_def reset_confirmed_def)
  obtain p es' where pe: "sh_presence (cq_session (housekeeping cu now s)) = (p, es')" by fastforce
  have "button_inv cu (housekeeping cu now s)" using button.housekeeping_inv [OF assms(1) inv] by blast
  then have h: "gate_history es' (cp_gate p)"
    by (simp add: protocol_inv_def control_inv_def pe log_true_def)
  have "fst (consume_confirmation a now (cp_gate p))"
    using c by (simp add: pe logged_ops_canonical canonical_ops_def canonical_consume_result)
  then obtain g where g: "consume_confirmation a now (cp_gate p) = (True, g)" by (metis prod.collapse)
  have o: "pg_operation (cp_gate p) = PresFactoryReset"
    using r by (auto simp: pe logged_request_def gate_request_def split: if_splits)
  obtain pre t0 gen0 m1 at gen m2 where "es' = pre @ GBegin PresFactoryReset a t0 gen0 # m1 @ GConfirm at gen # m2"
    "list_all (\<lambda>e. \<not> is_restart e) (m1 @ m2)" "gesture (samples m1)" "gen0 < gen"
    "at < deadline_from t0" "now < deadline_from t0"
    using consumed_inputs [OF h g] o by auto
  then have "snd (sh_presence (cq_session (housekeeping cu now s))) =
      pre @ GBegin PresFactoryReset a t0 gen0 # m1 @ GConfirm at gen # m2" by (simp add: pe)
  then show ?thesis
    using e \<open>list_all _ (m1 @ m2)\<close> \<open>gesture (samples m1)\<close> \<open>gen0 < gen\<close> \<open>at < deadline_from t0\<close> \<open>now < deadline_from t0\<close>
    by blast
qed

theorem vault_lost_only_by_confirmed_reset_witness:
  "\<exists>s'. protocol_step (demo_setup logged_ops []) demo_start (PeLine \<lparr>li_entropy = sample_entropy, li_timer_us = 0\<rparr> [1] 7) s' \<and>
     rt_has_vault (dv_runtime (cq_device s'))"
proof -
  let ?cu = "demo_setup logged_ops []" and ?inp = "\<lparr>li_entropy = sample_entropy, li_timer_us = 0\<rparr>"
  have p: "cu_presence ?cu = logged_ops" by (simp add: demo_setup_def)
  have n: "well_formed_request (cu_json ?cu) [1] = None" by (simp add: well_formed_request_def demo_setup_def demo_json_def)
  then obtain r s' where "protocol_handle_line ?cu ?inp [1] 7 demo_start = Some (r, s')"
    using handle_line_eq [of ?cu ?inp "[1]" 7 demo_start] by auto
  then have s: "protocol_step ?cu demo_start (PeLine ?inp [1] 7) s'" by (rule protocol_step.line)
  have "vault_kept (cq_device demo_start) (cq_device s')"
    using vault_lost_only_by_confirmed_reset [OF p demo_power_up protocol_run.start s [unfolded demo_start_def]] n
    unfolding demo_start_def by auto
  moreover have "rt_has_vault (dv_runtime (cq_device demo_start))"
    by (simp add: demo_start_def new_protocol_def demo_parts_def demo_locked_def)
  ultimately show ?thesis using s by (auto simp: vault_kept_def)
qed

end
