(* ===== verification/Vault_Generator.thy ===== *)
theory Vault_Generator
  imports Totp_Core Time_Service
begin

text \<open>
  The generator of codes from the resident Vault (\<open>m5auth_totp/vault_generator.cpp\<close>). The secret is
  used inside the callback of \<open>Runtime::with_credential\<close> only; what leaves it is the code and the
  Unix time it is for. HMAC-SHA1 (\<open>generate_raw\<close> of \<open>totp_mbedtls.cpp\<close> hands mbedTLS to
  \<open>generate_raw_with_provider\<close>) is a parameter. The caller passes the variables \<open>code\<close> and \<open>metadata\<close>.
\<close>

datatype generate_result =
    GenOk | GenNotSynced | GenTimeStale | GenAccountNotFound | GenInvalidSecret | GenCryptoError | GenStorageError

text \<open>\<open>unix_seconds\<close> of \<open>GenerateMetadata\<close>, the code, and the clock that the callback reads.\<close>

record 'e generation =
  gn_result :: generate_result
  gn_code :: u32
  gn_unix_seconds :: u64
  gn_time :: "'e time_service"

definition supported_credential :: "credential \<Rightarrow> bool" where
  "supported_credential c \<longleftrightarrow> cr_algorithm c = kSha1 \<and> ucast (cr_digits c) = kDigits \<and>
     ucast (cr_period_seconds c) = kPeriodSeconds \<and> cr_secret c \<noteq> []"

text \<open>The lambda: its status is always \<open>kOk\<close>.\<close>

definition generate_in_vault ::
  "'e esp_env \<Rightarrow> hmac_provider \<Rightarrow> credential \<Rightarrow> 'e generation \<Rightarrow> status \<times> 'e generation" where
  "generate_in_vault env hmac c gn = (Ok,
     case time_status env (gn_time gn) of (current_status, ts) \<Rightarrow>
       let gn = gn\<lparr>gn_time := ts\<rparr>
       in if ts_readiness current_status = NotSynced then gn\<lparr>gn_result := GenNotSynced\<rparr>
          else if ts_readiness current_status = Stale then gn\<lparr>gn_result := GenTimeStale\<rparr>
          else if \<not> supported_credential c then gn\<lparr>gn_result := GenInvalidSecret\<rparr>
          else case service_unix_seconds env (gn_time gn) of (now, ts) \<Rightarrow>
            let gn = gn\<lparr>gn_time := ts\<rparr>
            in case now of
              None \<Rightarrow> gn\<lparr>gn_result := GenTimeStale\<rparr>
            | Some unix_seconds \<Rightarrow>
                (case generate_raw_with_provider (cr_secret c) unix_seconds (Some hmac) 0 of
                   (CoreOk, generated) \<Rightarrow>
                     gn\<lparr>gn_code := generated, gn_unix_seconds := unix_seconds, gn_result := GenOk\<rparr>
                 | (CoreInvalidSecret, _) \<Rightarrow> gn\<lparr>gn_result := GenInvalidSecret\<rparr>
                 | (CoreCryptoError, _) \<Rightarrow> gn\<lparr>gn_result := GenCryptoError\<rparr>))"

definition generate_for_credential ::
  "'e esp_env \<Rightarrow> 'w persistence \<Rightarrow> gcm \<Rightarrow> hmac_provider \<Rightarrow> bytes \<Rightarrow> u32 \<Rightarrow> 'e time_service \<Rightarrow> runtime \<times> 'w \<Rightarrow>
   'e generation \<times> runtime \<times> 'w" where
  "generate_for_credential env p g hmac credential_id code ts st =
     (case time_status env ts of (before_vault, ts) \<Rightarrow>
        let gn = \<lparr>gn_result = GenStorageError, gn_code = code, gn_unix_seconds = 0, gn_time = ts\<rparr>
        in if ts_readiness before_vault = NotSynced then (gn\<lparr>gn_result := GenNotSynced\<rparr>, st)
           else if ts_readiness before_vault = Stale then (gn\<lparr>gn_result := GenTimeStale\<rparr>, st)
           else case with_credential p g credential_id (Some (generate_in_vault env hmac)) gn st of
             (runtime_status, gn, st) \<Rightarrow>
               (if runtime_status = NotFound then gn\<lparr>gn_result := GenAccountNotFound\<rparr>
                else if runtime_status \<noteq> Ok then gn\<lparr>gn_result := GenStorageError\<rparr> else gn, st))"

section \<open>What a generated code is\<close>

text \<open>The RFC 6238 code of a key at a time, for a given HMAC.\<close>

definition totp_of :: "hmac_provider \<Rightarrow> bytes \<Rightarrow> u64 \<Rightarrow> u32 \<Rightarrow> bool" where
  "totp_of hmac key unix_seconds code \<longleftrightarrow> (\<exists>m d. length m = 8 \<and> be_number m = unat unix_seconds div 30 \<and>
     hmac key m = Some d \<and> code = of_nat (hotp_value d))"

text \<open>The state of the platform after \<open>n\<close> readings of the timer, and what the reading after those makes of the
  trusted clock.\<close>

definition timer_at :: "'e esp_env \<Rightarrow> 'e \<Rightarrow> nat \<Rightarrow> 'e" where
  "timer_at env e n = ((\<lambda>e. snd (ee_timer env e)) ^^ n) e"

definition clock_reading :: "'e esp_env \<Rightarrow> 'e time_service \<Rightarrow> nat \<Rightarrow> u64 option" where
  "clock_reading env ts n = current_unix_seconds (fst (ee_timer env (timer_at env (tv_env ts) n))) (tv_clock ts)"

lemma timer_at_simps [simp]:
  "timer_at env e 0 = e" "snd (ee_timer env (timer_at env e n)) = timer_at env e (Suc n)"
  by (simp_all add: timer_at_def)

lemma timer_at_add: "timer_at env (timer_at env e m) n = timer_at env e (m + n)"
  by (induction n) (simp_all add: timer_at_def)

lemma reading_shift:
  "clock_reading env (ts\<lparr>tv_env := timer_at env (tv_env ts) m\<rparr>) n = clock_reading env ts (m + n)"
  by (simp add: clock_reading_def timer_at_add)

lemma read_clock:
  "time_status env ts = (clock_snapshot (fst (ee_timer env (tv_env ts))) (tv_clock ts),
     ts\<lparr>tv_env := snd (ee_timer env (tv_env ts))\<rparr>)"
  "service_unix_seconds env ts = (current_unix_seconds (fst (ee_timer env (tv_env ts))) (tv_clock ts),
     ts\<lparr>tv_env := snd (ee_timer env (tv_env ts))\<rparr>)"
  by (simp_all add: time_status_def service_unix_seconds_def on_env_def split: prod.split)

text \<open>The callback reads the clock twice, first whether it is ready and then the time of the code.\<close>

definition generated :: "'e esp_env \<Rightarrow> hmac_provider \<Rightarrow> credential \<Rightarrow> 'e generation \<Rightarrow> 'e generation \<Rightarrow> bool" where
  "generated env hmac c gn gn' \<longleftrightarrow>
     (if gn_result gn' = GenOk
      then supported_credential c \<and> clock_reading env (gn_time gn) 1 = Some (gn_unix_seconds gn') \<and>
        gn_time gn' = (gn_time gn)\<lparr>tv_env := timer_at env (tv_env (gn_time gn)) 2\<rparr> \<and>
        totp_of hmac (cr_secret c) (gn_unix_seconds gn') (gn_code gn')
      else tv_clock (gn_time gn') = tv_clock (gn_time gn) \<and> gn_code gn' = gn_code gn \<and> gn_unix_seconds gn' = gn_unix_seconds gn)"

lemma generate_raw_result:
  assumes "\<And>k m d. hmac k m = Some d \<Longrightarrow> length d = 20"
  shows "case generate_raw_with_provider key unix_seconds (Some hmac) 0 of (core, code) \<Rightarrow>
    core = CoreOk \<longrightarrow> totp_of hmac key unix_seconds code"
proof -
  have "\<exists>m. length m = 8 \<and> be_number m = unat unix_seconds div 30 \<and>
    generate_raw_with_provider key unix_seconds (Some hmac) 0 =
      (if key = [] then (CoreInvalidSecret, 0)
       else case hmac key m of None \<Rightarrow> (CoreCryptoError, 0) | Some d \<Rightarrow> (CoreOk, of_nat (hotp_value d)))"
    unfolding generate_raw_with_provider_def by (rule generate_key_hotp) (rule assms)
  then show ?thesis by (auto simp: totp_of_def split: if_splits option.splits)
qed

lemma callback_result:
  assumes "\<And>k m d. hmac k m = Some d \<Longrightarrow> length d = 20" "gn_result gn \<noteq> GenOk"
  shows "fst (generate_in_vault env hmac c gn) = Ok \<and> generated env hmac c gn (snd (generate_in_vault env hmac c gn))"
proof -
  define core code where "core u = fst (generate_raw_with_provider (cr_secret c) u (Some hmac) 0)"
    and "code u = snd (generate_raw_with_provider (cr_secret c) u (Some hmac) 0)" for u
  then have r: "generate_raw_with_provider (cr_secret c) u (Some hmac) 0 = (core u, code u)" for u by simp
  have t: "core u = CoreOk \<Longrightarrow> totp_of hmac (cr_secret c) u (code u)" for u
    using generate_raw_result [of hmac "cr_secret c" u, OF assms(1)] by (simp add: r)
  show ?thesis
    using assms(2) t
    by (auto simp: generate_in_vault_def generated_def read_clock r clock_reading_def timer_at_def numeral_2_eq_2 Let_def
        split: option.splits core_result.splits)
qed

lemma with_credential_Ok:
  assumes "with_credential p g a (Some consume) c (r, w) = (Ok, c', r', w')"
  shows "rt_initialized r \<and> rt_state r = Unlocked \<and> (\<exists>v cred. open_resident_vault g r = Inr v \<and> cred \<in> set (vp_credentials v) \<and>
    cr_credential_id cred = a \<and> c' = snd (consume cred c)) \<and> r' = r\<lparr>rt_last_used := Some a\<rparr>"
proof -
  have "cred \<in> set xs \<and> cr_credential_id cred = a" if "find_credential a xs = Some cred" for xs cred
    using that by (auto simp: find_credential_def find_Some_iff)
  note found = this
  have "open_resident_vault g r \<noteq> Inl Ok"
    by (simp add: open_resident_vault_def split: option.split prod.split)
  then show ?thesis using assms
    by (auto simp: with_credential_def Let_def dest!: found split: if_splits sum.splits option.splits prod.splits)
qed

lemma generate_Ok:
  assumes run: "generate_for_credential env p g hmac a code ts (r, w) = (gn, r', w')" and ok: "gn_result gn = GenOk"
  shows "rt_initialized r \<and> rt_state r = Unlocked \<and> r' = r\<lparr>rt_last_used := Some a\<rparr> \<and>
    (\<exists>v c gn0. open_resident_vault g r = Inr v \<and> c \<in> set (vp_credentials v) \<and> cr_credential_id c = a \<and>
       gn_time gn0 = ts\<lparr>tv_env := timer_at env (tv_env ts) 1\<rparr> \<and> gn_result gn0 \<noteq> GenOk \<and> gn = snd (generate_in_vault env hmac c gn0))"
proof -
  define ts1 where "ts1 = ts\<lparr>tv_env := snd (ee_timer env (tv_env ts))\<rparr>"
  define gn0 where "gn0 = \<lparr>gn_result = GenStorageError, gn_code = code, gn_unix_seconds = 0, gn_time = ts1\<rparr>"
  obtain st gn1 r1 w1 where c: "with_credential p g a (Some (generate_in_vault env hmac)) gn0 (r, w) = (st, gn1, r1, w1)"
    by (metis prod_cases4)
  have st: "st = Ok \<and> gn = gn1 \<and> r' = r1"
    using run ok by (auto simp: generate_for_credential_def read_clock Let_def ts1_def [symmetric]
        gn0_def [symmetric] c split: if_splits)
  have "with_credential p g a (Some (generate_in_vault env hmac)) gn0 (r, w) = (Ok, gn1, r1, w1)" using c st by simp
  moreover have "gn_time gn0 = ts\<lparr>tv_env := timer_at env (tv_env ts) 1\<rparr> \<and> gn_result gn0 \<noteq> GenOk"
    by (simp add: gn0_def ts1_def timer_at_def)
  ultimately show ?thesis using with_credential_Ok [of p g a "generate_in_vault env hmac" gn0 r w gn1 r1 w1] st by blast
qed

text \<open>A whole generation reads the clock three times; the code is of the third reading.\<close>

lemma generated_code:
  assumes run: "generate_for_credential env p g hmac a code ts (r, w) = (gn, r', w')"
    and hmac: "\<And>k m d. hmac k m = Some d \<Longrightarrow> length d = 20" and ok: "gn_result gn = GenOk"
  shows "rt_state r = Unlocked \<and> r' = r\<lparr>rt_last_used := Some a\<rparr> \<and>
    clock_reading env ts 2 = Some (gn_unix_seconds gn) \<and> gn_time gn = ts\<lparr>tv_env := timer_at env (tv_env ts) 3\<rparr> \<and>
    (\<exists>v c. open_resident_vault g r = Inr v \<and> c \<in> set (vp_credentials v) \<and> cr_credential_id c = a \<and>
       supported_credential c \<and> totp_of hmac (cr_secret c) (gn_unix_seconds gn) (gn_code gn))"
proof -
  from generate_Ok [OF run ok] obtain v c gn0 where v: "rt_state r = Unlocked" "r' = r\<lparr>rt_last_used := Some a\<rparr>"
    "open_resident_vault g r = Inr v" "c \<in> set (vp_credentials v)" "cr_credential_id c = a"
    "gn_time gn0 = ts\<lparr>tv_env := timer_at env (tv_env ts) 1\<rparr>" "gn_result gn0 \<noteq> GenOk"
    "gn = snd (generate_in_vault env hmac c gn0)"
    by blast
  moreover have "generated env hmac c gn0 gn"
    using callback_result [of hmac gn0 env c, OF hmac] v(7,8) by simp
  ultimately show ?thesis
    using ok by (auto simp: generated_def reading_shift timer_at_add numeral_2_eq_2 numeral_3_eq_3)
qed

end
