(* ===== verification/Ui_State.thy ===== *)
theory Ui_State
  imports Vault_Generator Presence_Binding
begin

text \<open>
  What the user interface keeps and shows: the scrolling of a long label
  (\<open>label_scroll_state.hpp\<close>), the validity of a code (\<open>totp_validity.hpp\<close>), the places of the lines
  (\<open>ui_layout.hpp\<close>), the private fields of \<open>CanonicalUiController\<close> (\<open>canonical_device.hpp\<close>) and the
  display. The library that draws is M5Unified; the display is what its last calls left in each of the
  five bands below the title, which is the same on every screen. Colors and the title are not
  represented.
\<close>

section \<open>Scrolling a label\<close>

definition dwell_elapsed :: "bool \<Rightarrow> u64 \<Rightarrow> u64 \<Rightarrow> u64 \<Rightarrow> bool" where
  "dwell_elapsed screen_hidden epoch_ms now_ms delay_ms =
     (if screen_hidden \<or> now_ms < epoch_ms then False else now_ms - epoch_ms \<ge> delay_ms)"

definition scroll_saturating_add :: "u64 \<Rightarrow> u64 \<Rightarrow> u64" where
  "scroll_saturating_add left right = (if left > max_u64 - right then max_u64 else left + right)"

definition scroll_saturating_multiply :: "u64 \<Rightarrow> u64 \<Rightarrow> u64" where
  "scroll_saturating_multiply left right =
     (if left = 0 \<or> right = 0 then 0 else if left > max_u64 div right then max_u64 else left * right)"

text \<open>Pixels are C \<open>int\<close>s; the conversions to and from \<open>uint64_t\<close> are of nonnegative values.\<close>

definition cycle_offset_px :: "bool \<Rightarrow> u64 \<Rightarrow> u64 \<Rightarrow> u64 \<Rightarrow> u64 \<Rightarrow> int \<Rightarrow> int \<Rightarrow> u64 \<Rightarrow> int" where
  "cycle_offset_px screen_hidden epoch_ms now_ms initial_dwell_ms step_ms step_px max_offset_px end_dwell_ms =
     (if screen_hidden \<or> now_ms < epoch_ms \<or> step_ms = 0 \<or> step_px \<le> 0 \<or> max_offset_px \<le> 0 then 0
      else
        let max_offset = word_of_int max_offset_px :: u64;
            step = word_of_int step_px :: u64;
            max_steps = (max_offset + step - 1) div step;
            scroll_duration_ms = scroll_saturating_multiply max_steps step_ms;
            cycle_duration_ms = scroll_saturating_add (scroll_saturating_add initial_dwell_ms scroll_duration_ms) end_dwell_ms;
            elapsed_ms = now_ms - epoch_ms;
            phase_ms = (if cycle_duration_ms = 0 \<or> cycle_duration_ms = max_u64 then elapsed_ms
                        else elapsed_ms mod cycle_duration_ms)
        in if phase_ms < initial_dwell_ms then 0
           else
             let scroll_phase_ms = phase_ms - initial_dwell_ms
             in if scroll_phase_ms \<ge> scroll_duration_ms then max_offset_px
                else
                  let completed_steps = scroll_phase_ms div step_ms;
                      moved_px = min max_offset (scroll_saturating_multiply completed_steps step)
                  in uint moved_px)"

section \<open>The validity of a code\<close>

record validity =
  va_period_index :: u64
  va_seconds_remaining :: u8

definition from_unix_seconds :: "u64 \<Rightarrow> validity" where
  "from_unix_seconds unix_seconds =
     \<lparr>va_period_index = unix_seconds div kPeriodSeconds,
      va_seconds_remaining = ucast (kPeriodSeconds - (unix_seconds mod kPeriodSeconds))\<rparr>"

definition same_period :: "validity \<Rightarrow> validity \<Rightarrow> bool" where
  "same_period l r \<longleftrightarrow> va_period_index l = va_period_index r"

section \<open>The display\<close>

definition kContentLeftPx :: int where "kContentLeftPx = 4"
definition kTitlePaddingTopPx :: int where "kTitlePaddingTopPx = 4"
definition kTitlePaddingBottomPx :: int where "kTitlePaddingBottomPx = 4"
definition kHeaderSeparatorHeightPx :: int where "kHeaderSeparatorHeightPx = 1"
definition kLineAdvancePx :: int where "kLineAdvancePx = 20"
definition kStatusBandHeightPx :: int where "kStatusBandHeightPx = 18"
definition kAccountLabelHeightPx :: int where "kAccountLabelHeightPx = 18"
definition kAccountLabelOffsetPx :: int where "kAccountLabelOffsetPx = 57"
definition kOtpOffsetPx :: int where "kOtpOffsetPx = 78"
definition kOtpBandHeightPx :: int where "kOtpBandHeightPx = 32"
definition kHelpFirstOffsetPx :: int where "kHelpFirstOffsetPx = 76"
definition kHelpSecondOffsetPx :: int where "kHelpSecondOffsetPx = 94"

lemmas layout_constants = kContentLeftPx_def kTitlePaddingTopPx_def kTitlePaddingBottomPx_def
  kHeaderSeparatorHeightPx_def kLineAdvancePx_def kStatusBandHeightPx_def kAccountLabelHeightPx_def
  kAccountLabelOffsetPx_def kOtpOffsetPx_def kOtpBandHeightPx_def kHelpFirstOffsetPx_def kHelpSecondOffsetPx_def

record frame_geometry =
  fg_title_band_height :: int
  fg_separator_y :: int
  fg_content_start_y :: int
  fg_primary_line_y :: int
  fg_secondary_line_y :: int
  fg_tertiary_line_y :: int
  fg_account_label_y :: int
  fg_otp_y :: int
  fg_help_first_y :: int
  fg_help_second_y :: int

definition frame_geometry_of :: "int \<Rightarrow> frame_geometry" where
  "frame_geometry_of title_font_height =
     (let title_band_height = kTitlePaddingTopPx + title_font_height + kTitlePaddingBottomPx;
          content_start_y = title_band_height + kHeaderSeparatorHeightPx
      in \<lparr>fg_title_band_height = title_band_height, fg_separator_y = title_band_height,
          fg_content_start_y = content_start_y, fg_primary_line_y = content_start_y,
          fg_secondary_line_y = content_start_y + kLineAdvancePx,
          fg_tertiary_line_y = content_start_y + 2 * kLineAdvancePx,
          fg_account_label_y = content_start_y + kAccountLabelOffsetPx,
          fg_otp_y = content_start_y + kOtpOffsetPx, fg_help_first_y = content_start_y + kHelpFirstOffsetPx,
          fg_help_second_y = content_start_y + kHelpSecondOffsetPx\<rparr>)"

definition content_viewport_width :: "int \<Rightarrow> int" where
  "content_viewport_width display_width =
     (if display_width > kContentLeftPx then display_width - kContentLeftPx else 0)"

text \<open>The bands of the content, from \<open>primary_line_y\<close> down. The fourth holds the account label or the
  line after the tertiary one, the fifth the digits of a code, the help, or the line after that.\<close>

datatype band =
    BandBlank
  | BandText string
  | BandState vault_state
  | BandReadiness readiness
  | BandPosition nat nat
  | BandValid u8
  | BandLabel bytes int
  | BandOtp u32
  | BandHelp

record screen =
  sc_primary :: band
  sc_secondary :: band
  sc_tertiary :: band
  sc_fourth :: band
  sc_fifth :: band

definition starting_screen :: screen where
  "starting_screen = \<lparr>sc_primary = BandText ''Starting...'', sc_secondary = BandBlank, sc_tertiary = BandBlank,
     sc_fourth = BandBlank, sc_fifth = BandBlank\<rparr>"

section \<open>The controller's fields\<close>

record credential_view =
  vw_credential_id :: bytes
  vw_issuer :: bytes
  vw_account :: bytes
  vw_display_name :: bytes

record ui_view =
  uv_credentials :: "credential_view list"
  uv_selected_index :: nat
  uv_visible_generation :: u64
  uv_runtime_state :: vault_state
  uv_vault_visible :: bool
  uv_storage_error :: bool
  uv_reveal_active :: bool
  uv_revealed_code :: u32
  uv_reveal_deadline_ms :: u64
  uv_revealed_period_index :: u64
  uv_validity_seconds_remaining :: u8
  uv_last_generate_result :: generate_result
  uv_label_scroll_epoch_ms :: u64
  uv_label_scroll_offset_px :: int
  uv_quarantine :: gesture_quarantine
  uv_screen :: screen

definition new_ui_view :: ui_view where
  "new_ui_view = \<lparr>uv_credentials = [], uv_selected_index = 0, uv_visible_generation = 0,
     uv_runtime_state = Unprovisioned, uv_vault_visible = False, uv_storage_error = False,
     uv_reveal_active = False, uv_revealed_code = 0, uv_reveal_deadline_ms = 0, uv_revealed_period_index = 0,
     uv_validity_seconds_remaining = 0, uv_last_generate_result = GenOk, uv_label_scroll_epoch_ms = 0,
     uv_label_scroll_offset_px = 0, uv_quarantine = quarantine_cancel, uv_screen = starting_screen\<rparr>"

definition display_label :: "credential_view \<Rightarrow> bytes" where
  "display_label c =
     (if vw_display_name c \<noteq> [] then vw_display_name c
      else if vw_issuer c \<noteq> [] \<and> vw_account c \<noteq> [] then vw_issuer c @ ascii '': '' @ vw_account c
      else if vw_issuer c \<noteq> [] then vw_issuer c
      else if vw_account c \<noteq> [] then vw_account c
      else ascii ''Unnamed account'')"

text \<open>The functions of \<open>label_scroll\<close> on the two fields that they are called with.\<close>

definition reset_label_scroll :: "u64 \<Rightarrow> ui_view \<Rightarrow> ui_view" where
  "reset_label_scroll now_ms v = v\<lparr>uv_label_scroll_epoch_ms := now_ms, uv_label_scroll_offset_px := 0\<rparr>"

definition on_screen_hidden_changed :: "bool \<Rightarrow> bool \<Rightarrow> u64 \<Rightarrow> ui_view \<Rightarrow> ui_view" where
  "on_screen_hidden_changed was_hidden is_hidden now_ms v =
     (if was_hidden = is_hidden then v else reset_label_scroll now_ms v)"

definition update_offset :: "bool \<Rightarrow> int \<Rightarrow> ui_view \<Rightarrow> bool \<times> ui_view" where
  "update_offset screen_hidden desired_offset_px v =
     (if screen_hidden \<or> uv_label_scroll_offset_px v = desired_offset_px then (False, v)
      else (True, v\<lparr>uv_label_scroll_offset_px := desired_offset_px\<rparr>))"

text \<open>A label may be shown: the guard that several operations share.\<close>

definition label_shown :: "ui_view \<Rightarrow> bool" where
  "label_shown v \<longleftrightarrow> uv_vault_visible v \<and> uv_credentials v \<noteq> [] \<and> uv_selected_index v < length (uv_credentials v)"

definition selected_credential :: "ui_view \<Rightarrow> credential_view" where
  "selected_credential v = uv_credentials v ! uv_selected_index v"

end
