(* ===== verification/Ui_Controller.thy ===== *)
theory Ui_Controller
  imports Ui_State
begin

text \<open>
  The controller of the device's own screen: \<open>CanonicalUiController\<close>
  (\<open>m5auth_device_sticks3/canonical_device.cpp\<close>). The functions of the class act on a \<open>ui_world\<close>, which
  holds the private fields and what the references of the constructor lead to; those that touch the
  fields and the clock only act on its first part, a \<open>face\<close>, because the protocol task calls one of them
  on its own. A mutex of the class or of its callers makes each access atomic; a pass of \<open>run\<close> is
  modelled as one step, so no other task acts in the middle of one. Wiping is writing zeros or the empty
  list. Parameters: the platform and its timer, persistence, GCM and HMAC, and of the library that draws
  the width of a text and of the display.
\<close>

record 'e face =
  fa_view :: ui_view
  fa_time :: "'e time_service"

record ('e, 'w) ui_world = "'e face" +
  uw_runtime :: runtime
  uw_medium :: 'w
  uw_presence :: canonical_presence

record ('e, 'w) ui_setup =
  ug_env :: "'e esp_env"
  ug_persistence :: "'w persistence"
  ug_gcm :: gcm
  ug_hmac :: hmac_provider
  ug_text_width :: "bytes \<Rightarrow> int"
  ug_display_width :: int

definition kCredentialRefreshIntervalMs :: u64 where "kCredentialRefreshIntervalMs = 1000"
definition kOtpRevealDurationMs :: u64 where "kOtpRevealDurationMs = 10000"
definition kLabelScrollDelayMs :: u64 where "kLabelScrollDelayMs = 2000"
definition kLabelScrollEndDelayMs :: u64 where "kLabelScrollEndDelayMs = 2000"
definition kLabelScrollStepMs :: u64 where "kLabelScrollStepMs = 40"
definition kLabelScrollStepPx :: int where "kLabelScrollStepPx = 1"

definition on_view :: "(ui_view \<Rightarrow> ui_view) \<Rightarrow> ('e, 'z) face_scheme \<Rightarrow> ('e, 'z) face_scheme" where
  "on_view f w = w\<lparr>fa_view := f (fa_view w)\<rparr>"

definition ui_monotonic_ms :: "'e esp_env \<Rightarrow> ('e, 'z) face_scheme \<Rightarrow> u64 \<times> ('e, 'z) face_scheme" where
  "ui_monotonic_ms env w = (case on_env (ee_timer env) (fa_time w) of (microseconds, ts) \<Rightarrow>
     (if microseconds \<le> 0 then 0 else word_of_int (microseconds div 1000), w\<lparr>fa_time := ts\<rparr>))"

definition same_presence :: "presence_view \<Rightarrow> presence_view \<Rightarrow> bool" where
  "same_presence l r \<longleftrightarrow> pv_active l = pv_active r \<and> pv_confirmed l = pv_confirmed r \<and>
     pv_operation l = pv_operation r"

section \<open>Hiding\<close>

text \<open>\<open>reset_label_scroll(monotonic_ms())\<close>.\<close>

definition reset_scroll_now :: "'e esp_env \<Rightarrow> ('e, 'z) face_scheme \<Rightarrow> ('e, 'z) face_scheme" where
  "reset_scroll_now env w = (case ui_monotonic_ms env w of (now_ms, w) \<Rightarrow> on_view (reset_label_scroll now_ms) w)"

definition hide_reveal :: "'e esp_env \<Rightarrow> ('e, 'z) face_scheme \<Rightarrow> ('e, 'z) face_scheme" where
  "hide_reveal env w = reset_scroll_now env (on_view (\<lambda>v. v\<lparr>uv_revealed_code := 0, uv_reveal_deadline_ms := 0,
     uv_revealed_period_index := 0, uv_validity_seconds_remaining := 0, uv_reveal_active := False\<rparr>) w)"

definition clear_private_view :: "'e esp_env \<Rightarrow> ('e, 'z) face_scheme \<Rightarrow> bool \<times> ('e, 'z) face_scheme" where
  "clear_private_view env w =
     (let v = fa_view w;
          changed = (uv_vault_visible v \<or> uv_credentials v \<noteq> [] \<or> uv_reveal_active v);
          w = hide_reveal env w;
          w = on_view (\<lambda>v. v\<lparr>uv_credentials := [], uv_selected_index := 0, uv_visible_generation := 0,
                uv_vault_visible := False\<rparr>) w
      in (changed, reset_scroll_now env w))"

section \<open>Drawing\<close>

definition render_account_label :: "ui_view \<Rightarrow> ui_view" where
  "render_account_label v =
     (if uv_storage_error v \<or> \<not> label_shown v then v
      else v\<lparr>uv_screen := (uv_screen v)\<lparr>sc_fourth :=
        BandLabel (display_label (selected_credential v)) (uv_label_scroll_offset_px v)\<rparr>\<rparr>)"

definition render_reveal_validity :: "ui_view \<Rightarrow> ui_view" where
  "render_reveal_validity v =
     v\<lparr>uv_screen := (uv_screen v)\<lparr>sc_tertiary := BandValid (uv_validity_seconds_remaining v)\<rparr>\<rparr>"

definition render_reveal_region :: "ui_view \<Rightarrow> ui_view" where
  "render_reveal_region v =
     (let v = v\<lparr>uv_screen := (uv_screen v)\<lparr>sc_fifth := BandBlank\<rparr>\<rparr>;
          v = render_reveal_validity v
      in v\<lparr>uv_screen := (uv_screen v)\<lparr>sc_fifth := BandOtp (uv_revealed_code v)\<rparr>\<rparr>)"

definition request_screen :: "presence_view \<Rightarrow> screen" where
  "request_screen p =
     (let (first, second) = (if pv_confirmed p then (''Confirmed'', ''Waiting for browser'')
                             else (''Press A to confirm'', ''Expires in 30 sec''))
      in if pv_operation p = PresFactoryReset
         then \<lparr>sc_primary = BandText ''UNLOCK REQUEST'',
               sc_secondary = BandText (presence_operation_text (pv_operation p)),
               sc_tertiary = BandText ''ERASE DEVICE DATA'', sc_fourth = BandText first, sc_fifth = BandText second\<rparr>
         else \<lparr>sc_primary = BandText ''UNLOCK REQUEST'',
               sc_secondary = BandText (presence_operation_text (pv_operation p)),
               sc_tertiary = BandText first, sc_fourth = BandText second, sc_fifth = BandBlank\<rparr>)"

definition generate_error :: "generate_result \<Rightarrow> bool" where
  "generate_error r \<longleftrightarrow> r \<noteq> GenOk \<and> r \<noteq> GenNotSynced \<and> r \<noteq> GenTimeStale"

text \<open>The branch without a request, after \<open>M5.Display.clear\<close>.\<close>

definition render_status :: "readiness \<Rightarrow> ui_view \<Rightarrow> ui_view" where
  "render_status rd v =
     (let v = v\<lparr>uv_screen := \<lparr>sc_primary = BandState (uv_runtime_state v), sc_secondary = BandReadiness rd,
                sc_tertiary = BandBlank, sc_fourth = BandBlank, sc_fifth = BandBlank\<rparr>\<rparr>;
          line = (\<lambda>t. v\<lparr>uv_screen := (uv_screen v)\<lparr>sc_tertiary := t\<rparr>\<rparr>);
          revealed = (uv_reveal_active v \<and> rd = Ready)
      in if uv_storage_error v then line (BandText ''Vault unavailable'')
         else if \<not> uv_vault_visible v then line (BandText ''Open Web app'')
         else if uv_credentials v = [] then line (BandText ''No accounts'')
         else
           let v = (if revealed then render_reveal_validity v
                    else if generate_error (uv_last_generate_result v) then line (BandText ''OTP unavailable'')
                    else line (BandPosition (uv_selected_index v + 1) (length (uv_credentials v))));
               v = render_account_label v
           in v\<lparr>uv_screen := (uv_screen v)\<lparr>sc_fifth :=
                if revealed then BandOtp (uv_revealed_code v) else BandHelp\<rparr>\<rparr>)"

definition render :: "'e esp_env \<Rightarrow> canonical_presence \<Rightarrow> ('e, 'z) face_scheme \<Rightarrow> ('e, 'z) face_scheme" where
  "render env p w =
     (case time_status env (fa_time w) of (snapshot, ts) \<Rightarrow>
        let presence = canonical_view p
        in on_view (\<lambda>v. if pv_active presence then v\<lparr>uv_screen := request_screen presence\<rparr>
                        else render_status (ts_readiness snapshot) v) (w\<lparr>fa_time := ts\<rparr>))"

text \<open>\<open>security_boundary_clear\<close>, which the protocol task calls.\<close>

definition security_boundary_clear ::
  "'e esp_env \<Rightarrow> runtime \<Rightarrow> canonical_presence \<Rightarrow> ('e, 'z) face_scheme \<Rightarrow> ('e, 'z) face_scheme" where
  "security_boundary_clear env r p w =
     (let w = (case metadata r of
            Inr m \<Rightarrow> on_view (\<lambda>v. v\<lparr>uv_runtime_state := md_state m, uv_storage_error := (md_state m = VaultError)\<rparr>) w
          | Inl _ \<Rightarrow> on_view (\<lambda>v. v\<lparr>uv_runtime_state := VaultError, uv_storage_error := True\<rparr>) w);
          (_, w) = clear_private_view env w;
          w = on_view (\<lambda>v. v\<lparr>uv_last_generate_result := GenOk\<rparr>) w
      in render env p w)"

section \<open>The account list\<close>

definition update_label_scroll ::
  "('e, 'w) ui_setup \<Rightarrow> u64 \<Rightarrow> ui_view \<Rightarrow> bool \<times> ui_view" where
  "update_label_scroll sg now_ms v =
     (if uv_storage_error v then (False, v)
      else if \<not> label_shown v then update_offset False 0 v
      else
        let label_width = ug_text_width sg (display_label (selected_credential v));
            viewport_width = content_viewport_width (ug_display_width sg)
        in if label_width \<le> viewport_width then update_offset False 0 v
           else update_offset (uv_storage_error v)
             (cycle_offset_px (uv_storage_error v) (uv_label_scroll_epoch_ms v) now_ms kLabelScrollDelayMs
               kLabelScrollStepMs kLabelScrollStepPx (label_width - viewport_width) kLabelScrollEndDelayMs) v)"

definition view_of :: "credential_metadata \<Rightarrow> credential_view" where
  "view_of m = \<lparr>vw_credential_id = cm_credential_id m, vw_issuer = cm_issuer m, vw_account = cm_account m,
     vw_display_name = cm_display_name m\<rparr>"

definition preferred_credential :: "vault_metadata \<Rightarrow> ui_view \<Rightarrow> bytes option" where
  "preferred_credential m v =
     (if uv_vault_visible v \<and> uv_selected_index v < length (uv_credentials v)
      then Some (vw_credential_id (selected_credential v)) else md_last_used m)"

definition preferred_index :: "bytes option \<Rightarrow> credential_view list \<Rightarrow> nat" where
  "preferred_index preferred views =
     (case preferred of None \<Rightarrow> 0
      | Some a \<Rightarrow> let found = length (takeWhile (\<lambda>c. vw_credential_id c \<noteq> a) views)
                 in if found \<noteq> length views then found else 0)"

text \<open>\<open>refresh_credentials\<close>: the end, which reads the Vault; what follows \<open>runtime_state_ = ...\<close>; and all
  of it.\<close>

definition reload_credentials ::
  "('e, 'w) ui_setup \<Rightarrow> vault_metadata \<Rightarrow> ('e, 'w) ui_world \<Rightarrow> bool \<times> ('e, 'w) ui_world" where
  "reload_credentials sg m w =
     (let preferred = preferred_credential m (fa_view w)
      in case list_credentials (ug_gcm sg) (uw_runtime w) of (list_status, items, r) \<Rightarrow>
           let w = w\<lparr>uw_runtime := r\<rparr>
           in if list_status \<noteq> Ok then
                let (changed, w) = clear_private_view (ug_env sg) w;
                    changed = (changed \<or> \<not> uv_storage_error (fa_view w))
                in (changed, on_view (\<lambda>v. v\<lparr>uv_storage_error := True\<rparr>) w)
              else
                let views = map view_of items;
                    next_index = preferred_index preferred views;
                    (_, w) = clear_private_view (ug_env sg) w;
                    w = on_view (\<lambda>v. v\<lparr>uv_credentials := views,
                          uv_selected_index := (if views = [] then 0 else next_index),
                          uv_visible_generation := md_generation m, uv_vault_visible := True,
                          uv_storage_error := False\<rparr>) w
                in (True, reset_scroll_now (ug_env sg) w))"

definition refresh_known ::
  "('e, 'w) ui_setup \<Rightarrow> bool \<Rightarrow> vault_metadata \<Rightarrow> ('e, 'w) ui_world \<Rightarrow> bool \<times> ('e, 'w) ui_world" where
  "refresh_known sg force m w =
     (if md_state m \<noteq> Unlocked then
        let (changed, w) = clear_private_view (ug_env sg) w;
            changed = (changed \<or> uv_storage_error (fa_view w))
        in (changed, on_view (\<lambda>v. v\<lparr>uv_storage_error := False\<rparr>) w)
      else if \<not> force \<and> uv_vault_visible (fa_view w) \<and> uv_visible_generation (fa_view w) = md_generation m then
        (if uv_storage_error (fa_view w) then
           let w = on_view (\<lambda>v. v\<lparr>uv_storage_error := False\<rparr>) w;
               (now_ms, w) = ui_monotonic_ms (ug_env sg) w
           in (True, on_view (on_screen_hidden_changed True False now_ms) w)
         else (False, w))
      else reload_credentials sg m w)"

definition refresh_credentials ::
  "('e, 'w) ui_setup \<Rightarrow> bool \<Rightarrow> ('e, 'w) ui_world \<Rightarrow> bool \<times> ('e, 'w) ui_world" where
  "refresh_credentials sg force w =
     (case metadata (uw_runtime w) of
        Inl _ \<Rightarrow>
          let (changed, w) = clear_private_view (ug_env sg) w;
              changed = (changed \<or> \<not> uv_storage_error (fa_view w))
          in (changed, on_view (\<lambda>v. v\<lparr>uv_storage_error := True, uv_runtime_state := VaultError\<rparr>) w)
      | Inr m \<Rightarrow> refresh_known sg force m (on_view (\<lambda>v. v\<lparr>uv_runtime_state := md_state m\<rparr>) w))"

text \<open>The results of \<open>persist_selection\<close> and \<open>on_screen_hidden_changed\<close> are not looked at.\<close>

definition persist_selection :: "('e, 'w) ui_setup \<Rightarrow> ('e, 'w) ui_world \<Rightarrow> ('e, 'w) ui_world" where
  "persist_selection sg w =
     (if \<not> label_shown (fa_view w) then w
      else case set_last_used (ug_persistence sg) (ug_gcm sg) (vw_credential_id (selected_credential (fa_view w)))
             (uw_runtime w, uw_medium w) of
        (status, r, m) \<Rightarrow>
          let w = w\<lparr>uw_runtime := r, uw_medium := m\<rparr>;
              previous = uv_storage_error (fa_view w);
              w = on_view (\<lambda>v. v\<lparr>uv_storage_error := (status \<noteq> Ok)\<rparr>) w;
              (now_ms, w) = ui_monotonic_ms (ug_env sg) w
          in on_view (\<lambda>v. on_screen_hidden_changed previous (uv_storage_error v) now_ms v) w)"

definition select_at :: "('e, 'w) ui_setup \<Rightarrow> (nat \<Rightarrow> nat \<Rightarrow> nat) \<Rightarrow> ('e, 'w) ui_world \<Rightarrow> ('e, 'w) ui_world" where
  "select_at sg f w =
     (if uv_credentials (fa_view w) = [] then w
      else
        let w = hide_reveal (ug_env sg) w;
            w = on_view (\<lambda>v. v\<lparr>uv_selected_index := f (uv_selected_index v) (length (uv_credentials v))\<rparr>) w;
            w = reset_scroll_now (ug_env sg) w
        in persist_selection sg w)"

definition select_next :: "('e, 'w) ui_setup \<Rightarrow> ('e, 'w) ui_world \<Rightarrow> ('e, 'w) ui_world" where
  "select_next sg = select_at sg (\<lambda>i n. (i + 1) mod n)"

definition select_previous :: "('e, 'w) ui_setup \<Rightarrow> ('e, 'w) ui_world \<Rightarrow> ('e, 'w) ui_world" where
  "select_previous sg = select_at sg (\<lambda>i n. if i = 0 then n - 1 else i - 1)"

section \<open>Revealing a code\<close>

text \<open>The loop of \<open>refresh_revealed_totp\<close>, with the attempts that are left and the variable \<open>code\<close>.\<close>

primrec refresh_attempts ::
  "('e, 'w) ui_setup \<Rightarrow> nat \<Rightarrow> u32 \<Rightarrow> ('e, 'w) ui_world \<Rightarrow> bool \<times> ('e, 'w) ui_world" where
  "refresh_attempts sg 0 code w = (False, w)"
| "refresh_attempts sg (Suc attempts) code w =
     (case generate_for_credential (ug_env sg) (ug_persistence sg) (ug_gcm sg) (ug_hmac sg)
             (vw_credential_id (selected_credential (fa_view w))) code (fa_time w) (uw_runtime w, uw_medium w) of
        (gn, r, m) \<Rightarrow>
          let w = on_view (\<lambda>v. v\<lparr>uv_last_generate_result := gn_result gn\<rparr>)
                (w\<lparr>fa_time := gn_time gn, uw_runtime := r, uw_medium := m\<rparr>)
          in if gn_result gn \<noteq> GenOk then (False, w)
             else case service_unix_seconds (ug_env sg) (fa_time w) of (current, ts) \<Rightarrow>
               let w = w\<lparr>fa_time := ts\<rparr>
               in case current of
                    None \<Rightarrow> (False, on_view (\<lambda>v. v\<lparr>uv_last_generate_result := GenTimeStale\<rparr>) w)
                  | Some unix_now \<Rightarrow>
                      let current_validity = from_unix_seconds unix_now
                      in if \<not> same_period (from_unix_seconds (gn_unix_seconds gn)) current_validity
                         then refresh_attempts sg attempts 0 w
                         else (True, on_view (\<lambda>v. v\<lparr>uv_revealed_code := gn_code gn,
                           uv_revealed_period_index := va_period_index current_validity,
                           uv_validity_seconds_remaining := va_seconds_remaining current_validity\<rparr>) w))"

definition refresh_revealed_totp :: "('e, 'w) ui_setup \<Rightarrow> ('e, 'w) ui_world \<Rightarrow> bool \<times> ('e, 'w) ui_world" where
  "refresh_revealed_totp sg w =
     (if \<not> label_shown (fa_view w)
      then (False, on_view (\<lambda>v. v\<lparr>uv_last_generate_result := GenAccountNotFound\<rparr>) w)
      else refresh_attempts sg 2 0 w)"

definition reveal_deadline :: "u64 \<Rightarrow> u64" where
  "reveal_deadline now_ms = (if now_ms > max_u64 - kOtpRevealDurationMs then max_u64 else now_ms + kOtpRevealDurationMs)"

definition reveal_selected :: "('e, 'w) ui_setup \<Rightarrow> u64 \<Rightarrow> ('e, 'w) ui_world \<Rightarrow> ('e, 'w) ui_world" where
  "reveal_selected sg now_ms w =
     (let w = hide_reveal (ug_env sg) w;
          w = on_view (\<lambda>v. v\<lparr>uv_last_generate_result := GenOk\<rparr>) w;
          (refreshed, w) = refresh_revealed_totp sg w
      in if \<not> refreshed then w
         else on_view (\<lambda>v. reset_label_scroll now_ms
                (v\<lparr>uv_reveal_active := True, uv_reveal_deadline_ms := reveal_deadline now_ms\<rparr>)) w)"

end
