(* ===== verification/Ui_Loop.thy ===== *)
theory Ui_Loop
  imports Ui_Controller
begin

text \<open>
  The task of the user interface: \<open>CanonicalUiController::run\<close>. Its local variables are the record
  \<open>ui_loop\<close>; a pass of the loop is the composition of the parts below, in the order of the code. What the
  library reports of button A after \<open>M5.update\<close> is an input of the pass.
\<close>

record ui_loop =
  lo_previous_readiness :: readiness
  lo_previous_presence :: presence_view
  lo_last_refresh_ms :: u64

record buttons =
  bt_pressed :: bool
  bt_was_pressed :: bool
  bt_decide_click_count :: bool
  bt_hold_thresh :: u32
  bt_was_hold :: bool
  bt_was_double_clicked :: bool
  bt_was_single_clicked :: bool

section \<open>Before the loop\<close>

definition ui_start :: "('e, 'w) ui_setup \<Rightarrow> ('e, 'w) ui_world \<Rightarrow> ui_loop \<times> ('e, 'w) ui_world" where
  "ui_start sg w =
     (case time_status (ug_env sg) (fa_time w) of (snapshot, ts) \<Rightarrow>
        let w = w\<lparr>fa_time := ts\<rparr>;
            previous_presence = canonical_view (uw_presence w);
            (last_refresh_ms, w) = ui_monotonic_ms (ug_env sg) w;
            (_, w) = refresh_credentials sg True w;
            w = on_view (reset_label_scroll last_refresh_ms) w
        in (\<lparr>lo_previous_readiness = ts_readiness snapshot, lo_previous_presence = previous_presence,
             lo_last_refresh_ms = last_refresh_ms\<rparr>, render (ug_env sg) (uw_presence w) w))"

section \<open>A pass\<close>

text \<open>The presence, before \<open>view_mutex_\<close> is taken: whether the pass is dirty, whether the presence has
  changed, and the view of it that the rest of the pass uses.\<close>

record presence_outcome =
  pp_dirty :: bool
  pp_changed :: bool
  pp_current :: presence_view

definition pass_presence ::
  "buttons \<Rightarrow> u64 \<Rightarrow> ui_loop \<Rightarrow> ('e, 'w) ui_world \<Rightarrow> presence_outcome \<times> ui_loop \<times> ('e, 'w) ui_world" where
  "pass_presence b now_ms lo w =
     (let (expired, p) = canonical_expire now_ms (uw_presence w);
          current = canonical_view p;
          changed = (\<not> same_presence current (lo_previous_presence lo));
          dirty = (changed \<or> expired);
          previous = (if changed then current else lo_previous_presence lo);
          p = (if pv_active current then canonical_observe (bt_pressed b) p else p);
          q = uv_quarantine (fa_view w);
          (dirty, changed, current, previous, p, q) =
            (if pv_active current \<and> bt_was_pressed b then
               let (confirmed, p) = canonical_button_pressed now_ms p;
                   q = (if confirmed then quarantine_begin now_ms (bt_hold_thresh b) q else q);
                   current = canonical_view p
               in (confirmed \<or> dirty, \<not> same_presence current previous \<or> changed, current, current, p, q)
             else (dirty, changed, current, previous, p, q));
          q = quarantine_observe (bt_pressed b) (bt_decide_click_count b) now_ms q
      in (\<lparr>pp_dirty = dirty, pp_changed = changed, pp_current = current\<rparr>, lo\<lparr>lo_previous_presence := previous\<rparr>,
          on_view (\<lambda>v. v\<lparr>uv_quarantine := q\<rparr>) (w\<lparr>uw_presence := p\<rparr>)))"

definition observed_state :: "runtime \<Rightarrow> vault_state" where
  "observed_state r = (case metadata r of Inr m \<Rightarrow> md_state m | Inl _ \<Rightarrow> VaultError)"

text \<open>What has changed since the last pass, and the end of a revelation.\<close>

definition watch_vault ::
  "'e esp_env \<Rightarrow> u64 \<Rightarrow> vault_state \<Rightarrow> bool \<Rightarrow> ('e, 'w) ui_world \<Rightarrow> bool \<times> ('e, 'w) ui_world" where
  "watch_vault env now_ms observed dirty w =
     (let (dirty, w) = (if observed \<noteq> uv_runtime_state (fa_view w)
            then (True, on_view (\<lambda>v. reset_label_scroll now_ms (v\<lparr>uv_runtime_state := observed\<rparr>)) w)
            else (dirty, w))
      in if observed \<noteq> Unlocked \<and> uv_vault_visible (fa_view w)
         then (let (changed, w) = clear_private_view env w in (changed \<or> dirty, w))
         else (dirty, w))"

definition watch_reveal ::
  "'e esp_env \<Rightarrow> u64 \<Rightarrow> readiness \<Rightarrow> vault_state \<Rightarrow> bool \<times> ('e, 'w) ui_world \<Rightarrow> bool \<times> ('e, 'w) ui_world" where
  "watch_reveal env now_ms readiness observed dw = (case dw of (dirty, w) \<Rightarrow>
     if uv_reveal_active (fa_view w) \<and>
        (readiness \<noteq> Ready \<or> now_ms \<ge> uv_reveal_deadline_ms (fa_view w) \<or> observed \<noteq> Unlocked)
     then (True, hide_reveal env w) else (dirty, w))"

definition pass_watch ::
  "('e, 'w) ui_setup \<Rightarrow> u64 \<Rightarrow> bool \<Rightarrow> ui_loop \<Rightarrow> ('e, 'w) ui_world \<Rightarrow> (bool \<times> ('e, 'w) ui_world) \<times> ui_loop" where
  "pass_watch sg now_ms dirty lo w =
     (case time_status (ug_env sg) (fa_time w) of (snapshot, ts) \<Rightarrow>
        let w = w\<lparr>fa_time := ts\<rparr>;
            readiness = ts_readiness snapshot;
            changed = (readiness \<noteq> lo_previous_readiness lo);
            w = (if changed then on_view (reset_label_scroll now_ms) w else w);
            observed = observed_state (uw_runtime w)
        in (watch_reveal (ug_env sg) now_ms readiness observed
              (watch_vault (ug_env sg) now_ms observed (changed \<or> dirty) w),
            if changed then lo\<lparr>lo_previous_readiness := readiness\<rparr> else lo))"

text \<open>What is left to draw of a pass: everything, both bands of a code, the countdown.\<close>

record redraw =
  rd_dirty :: bool
  rd_rollover :: bool
  rd_validity :: bool

definition pass_reveal ::
  "('e, 'w) ui_setup \<Rightarrow> bool \<Rightarrow> ('e, 'w) ui_world \<Rightarrow> redraw \<times> ('e, 'w) ui_world" where
  "pass_reveal sg dirty w =
     (let rd = \<lparr>rd_dirty = dirty, rd_rollover = False, rd_validity = False\<rparr>
      in if \<not> uv_reveal_active (fa_view w) then (rd, w)
         else case service_unix_seconds (ug_env sg) (fa_time w) of (current, ts) \<Rightarrow>
           let w = w\<lparr>fa_time := ts\<rparr>
           in case current of
                None \<Rightarrow> (rd\<lparr>rd_dirty := True\<rparr>,
                  hide_reveal (ug_env sg) (on_view (\<lambda>v. v\<lparr>uv_last_generate_result := GenTimeStale\<rparr>) w))
              | Some unix_now \<Rightarrow>
                  let validity = from_unix_seconds unix_now; v = fa_view w
                  in if va_period_index validity \<noteq> uv_revealed_period_index v then
                       (let (refreshed, w) = refresh_revealed_totp sg w
                        in if refreshed then (rd\<lparr>rd_rollover := True\<rparr>, w)
                           else (rd\<lparr>rd_dirty := True\<rparr>, hide_reveal (ug_env sg) w))
                     else if va_seconds_remaining validity \<noteq> uv_validity_seconds_remaining v then
                       (rd\<lparr>rd_validity := True\<rparr>,
                        on_view (\<lambda>v. v\<lparr>uv_validity_seconds_remaining := va_seconds_remaining validity\<rparr>) w)
                     else (rd, w))"

definition pass_gestures ::
  "('e, 'w) ui_setup \<Rightarrow> buttons \<Rightarrow> u64 \<Rightarrow> presence_view \<Rightarrow> redraw \<times> ('e, 'w) ui_world \<Rightarrow>
   redraw \<times> ('e, 'w) ui_world" where
  "pass_gestures sg b now_ms current rw = (case rw of (rd, w) \<Rightarrow>
     if pv_active current \<or> gq_active (uv_quarantine (fa_view w)) then (rd, w)
     else if bt_was_hold b then (rd\<lparr>rd_dirty := True\<rparr>, reveal_selected sg now_ms w)
     else if bt_was_double_clicked b then (rd\<lparr>rd_dirty := True\<rparr>, select_previous sg w)
     else if bt_was_single_clicked b then
       (rd\<lparr>rd_dirty := True\<rparr>,
        if uv_reveal_active (fa_view w) then hide_reveal (ug_env sg) w else select_next sg w)
     else (rd, w))"

definition pass_refresh ::
  "('e, 'w) ui_setup \<Rightarrow> u64 \<Rightarrow> vault_state \<Rightarrow> presence_view \<Rightarrow> ui_loop \<Rightarrow> redraw \<times> ('e, 'w) ui_world \<Rightarrow>
   redraw \<times> ui_loop \<times> ('e, 'w) ui_world" where
  "pass_refresh sg now_ms observed current lo rw = (case rw of (rd, w) \<Rightarrow>
     if observed = Unlocked \<and> \<not> pv_active current \<and>
        now_ms - lo_last_refresh_ms lo \<ge> kCredentialRefreshIntervalMs then
       (let (changed, w) = refresh_credentials sg False w
        in (rd\<lparr>rd_dirty := changed \<or> rd_dirty rd\<rparr>, lo\<lparr>lo_last_refresh_ms := now_ms\<rparr>, w))
     else (rd, lo, w))"

definition pass_draw ::
  "('e, 'w) ui_setup \<Rightarrow> u64 \<Rightarrow> vault_state \<Rightarrow> presence_view \<Rightarrow> redraw \<Rightarrow> ('e, 'w) ui_world \<Rightarrow> ('e, 'w) ui_world" where
  "pass_draw sg now_ms observed current rd w =
     (let (label_scroll_changed, v) =
            (if \<not> pv_active current \<and> observed = Unlocked then update_label_scroll sg now_ms (fa_view w)
             else (False, fa_view w));
          w = w\<lparr>fa_view := v\<rparr>
      in if rd_dirty rd then render (ug_env sg) (uw_presence w) w
         else if rd_rollover rd then on_view render_reveal_region w
         else if rd_validity rd then on_view render_reveal_validity w
         else if label_scroll_changed then on_view render_account_label w
         else w)"

definition ui_pass ::
  "('e, 'w) ui_setup \<Rightarrow> buttons \<Rightarrow> ui_loop \<times> ('e, 'w) ui_world \<Rightarrow> ui_loop \<times> ('e, 'w) ui_world" where
  "ui_pass sg b st = (case st of (lo, w) \<Rightarrow>
     let (now_ms, w) = ui_monotonic_ms (ug_env sg) w;
         (pp, lo, w) = pass_presence b now_ms lo w;
         w = (if pp_changed pp then on_view (reset_label_scroll now_ms) w else w);
         observed = observed_state (uw_runtime w);
         ((dirty, w), lo) = pass_watch sg now_ms (pp_dirty pp) lo w;
         (rd, w) = pass_gestures sg b now_ms (pp_current pp) (pass_reveal sg dirty w);
         (rd, lo, w) = pass_refresh sg now_ms observed (pp_current pp) lo (rd, w)
     in (lo, pass_draw sg now_ms observed (pp_current pp) rd w))"

end
