(* ===== verification/Ui_Correct.thy ===== *)
theory Ui_Correct
  imports Ui_Loop
begin

text \<open>
  What the functions of the controller do to its fields: each is described by what it changes, and a pass
  is followed part by part with one invariant, \<open>pass_inv\<close>, which relates the fields to what the display
  still shows.
\<close>

section \<open>The pieces\<close>

lemma on_view_face [simp]: "fa_view (on_view f w) = f (fa_view w)" "fa_time (on_view f w) = fa_time w"
  by (simp_all add: on_view_def)

lemma on_view_world [simp]:
  "uw_runtime (on_view f w) = uw_runtime w" "uw_medium (on_view f w) = uw_medium w"
  "uw_presence (on_view f w) = uw_presence w"
  by (simp_all add: on_view_def)

lemma monotonic_face [simp]: "fa_view (snd (ui_monotonic_ms env w)) = fa_view w"
  by (simp add: ui_monotonic_ms_def split: prod.split)

lemma monotonic_world [simp]:
  "uw_runtime (snd (ui_monotonic_ms env w)) = uw_runtime w" "uw_medium (snd (ui_monotonic_ms env w)) = uw_medium w"
  "uw_presence (snd (ui_monotonic_ms env w)) = uw_presence w"
  by (simp_all add: ui_monotonic_ms_def split: prod.split)

lemma reset_scroll_now_eq:
  "reset_scroll_now env w = on_view (reset_label_scroll (fst (ui_monotonic_ms env w))) (snd (ui_monotonic_ms env w))"
  by (simp add: reset_scroll_now_def case_prod_beta)

lemma reset_label_scroll_fields [simp]:
  "uv_credentials (reset_label_scroll n v) = uv_credentials v"
  "uv_selected_index (reset_label_scroll n v) = uv_selected_index v"
  "uv_visible_generation (reset_label_scroll n v) = uv_visible_generation v"
  "uv_runtime_state (reset_label_scroll n v) = uv_runtime_state v"
  "uv_vault_visible (reset_label_scroll n v) = uv_vault_visible v"
  "uv_storage_error (reset_label_scroll n v) = uv_storage_error v"
  "uv_reveal_active (reset_label_scroll n v) = uv_reveal_active v"
  "uv_revealed_code (reset_label_scroll n v) = uv_revealed_code v"
  "uv_reveal_deadline_ms (reset_label_scroll n v) = uv_reveal_deadline_ms v"
  "uv_revealed_period_index (reset_label_scroll n v) = uv_revealed_period_index v"
  "uv_validity_seconds_remaining (reset_label_scroll n v) = uv_validity_seconds_remaining v"
  "uv_last_generate_result (reset_label_scroll n v) = uv_last_generate_result v"
  "uv_quarantine (reset_label_scroll n v) = uv_quarantine v"
  "uv_screen (reset_label_scroll n v) = uv_screen v"
  by (simp_all add: reset_label_scroll_def)

lemma hidden_changed_cases: "on_screen_hidden_changed a b n v \<in> {v, reset_label_scroll n v}"
  by (simp add: on_screen_hidden_changed_def)

text \<open>What remains of the fields when a code is hidden, and when nothing private is kept.\<close>

definition concealed :: "ui_view \<Rightarrow> ui_view" where
  "concealed v = v\<lparr>uv_revealed_code := 0, uv_reveal_deadline_ms := 0, uv_revealed_period_index := 0,
     uv_validity_seconds_remaining := 0, uv_reveal_active := False\<rparr>"

definition emptied :: "ui_view \<Rightarrow> ui_view" where
  "emptied v = (concealed v)\<lparr>uv_credentials := [], uv_selected_index := 0, uv_visible_generation := 0,
     uv_vault_visible := False\<rparr>"

lemma scroll_now_view: "\<exists>n. fa_view (reset_scroll_now env w) = reset_label_scroll n (fa_view w)"
  by (auto simp: reset_scroll_now_eq)

lemma scroll_now_world [simp]:
  "uw_runtime (reset_scroll_now env w) = uw_runtime w" "uw_medium (reset_scroll_now env w) = uw_medium w"
  "uw_presence (reset_scroll_now env w) = uw_presence w"
  by (simp_all add: reset_scroll_now_eq)

lemma hide_view: "\<exists>n. fa_view (hide_reveal env w) = reset_label_scroll n (concealed (fa_view w))"
proof -
  obtain n where "fa_view (hide_reveal env w) = reset_label_scroll n (fa_view (on_view concealed w))"
    unfolding hide_reveal_def concealed_def using scroll_now_view by blast
  then show ?thesis by auto
qed

lemma hide_world [simp]:
  "uw_runtime (hide_reveal env w) = uw_runtime w" "uw_medium (hide_reveal env w) = uw_medium w"
  "uw_presence (hide_reveal env w) = uw_presence w"
  by (simp_all add: hide_reveal_def)

lemma clear_changed: "fst (clear_private_view env w) \<longleftrightarrow>
    uv_vault_visible (fa_view w) \<or> uv_credentials (fa_view w) \<noteq> [] \<or> uv_reveal_active (fa_view w)"
  by (simp add: clear_private_view_def Let_def)

lemma clear_view: "\<exists>n. fa_view (snd (clear_private_view env w)) = reset_label_scroll n (emptied (fa_view w))"
proof -
  obtain n where "fa_view (hide_reveal env w) = reset_label_scroll n (concealed (fa_view w))"
    using hide_view by blast
  moreover obtain m where "fa_view (snd (clear_private_view env w)) = reset_label_scroll m
      ((fa_view (hide_reveal env w))\<lparr>uv_credentials := [], uv_selected_index := 0, uv_visible_generation := 0,
        uv_vault_visible := False\<rparr>)"
    unfolding clear_private_view_def Let_def
    using scroll_now_view [of env "on_view (\<lambda>v. v\<lparr>uv_credentials := [], uv_selected_index := 0,
      uv_visible_generation := 0, uv_vault_visible := False\<rparr>) (hide_reveal env w)"] by auto
  ultimately show ?thesis by (auto simp: emptied_def reset_label_scroll_def)
qed

lemma clear_world [simp]:
  "uw_runtime (snd (clear_private_view env w)) = uw_runtime w"
  "uw_medium (snd (clear_private_view env w)) = uw_medium w"
  "uw_presence (snd (clear_private_view env w)) = uw_presence w"
  by (simp_all add: clear_private_view_def Let_def)

lemma concealed_fields [simp]:
  "uv_credentials (concealed v) = uv_credentials v" "uv_selected_index (concealed v) = uv_selected_index v"
  "uv_runtime_state (concealed v) = uv_runtime_state v" "uv_vault_visible (concealed v) = uv_vault_visible v"
  "uv_storage_error (concealed v) = uv_storage_error v" "\<not> uv_reveal_active (concealed v)"
  "uv_revealed_code (concealed v) = 0" "uv_screen (concealed v) = uv_screen v"
  "uv_quarantine (concealed v) = uv_quarantine v"
  by (simp_all add: concealed_def)

lemma emptied_fields [simp]:
  "uv_credentials (emptied v) = []" "uv_selected_index (emptied v) = 0" "\<not> uv_vault_visible (emptied v)"
  "uv_runtime_state (emptied v) = uv_runtime_state v" "uv_storage_error (emptied v) = uv_storage_error v"
  "\<not> uv_reveal_active (emptied v)" "uv_revealed_code (emptied v) = 0" "uv_screen (emptied v) = uv_screen v"
  "uv_quarantine (emptied v) = uv_quarantine v"
  by (simp_all add: emptied_def)

lemma observed_Unlocked: "observed_state r = Unlocked \<longleftrightarrow> rt_initialized r \<and> rt_state r = Unlocked"
  by (simp add: observed_state_def metadata_def)

section \<open>The invariant of a pass\<close>

definition selection_ok :: "ui_view \<Rightarrow> bool" where
  "selection_ok v \<longleftrightarrow> (uv_credentials v = [] \<and> uv_selected_index v = 0 \<or> uv_selected_index v < length (uv_credentials v)) \<and>
     (\<not> uv_vault_visible v \<longrightarrow> uv_credentials v = []) \<and> (uv_reveal_active v \<longrightarrow> label_shown v) \<and>
     (\<not> uv_reveal_active v \<longrightarrow> uv_revealed_code v = 0)"

definition otp_ok :: "ui_view \<Rightarrow> bool" where
  "otp_ok v \<longleftrightarrow> (\<forall>c. sc_fifth (uv_screen v) = BandOtp c \<longrightarrow> uv_reveal_active v \<and> c = uv_revealed_code v)"

definition valid_ok :: "ui_view \<Rightarrow> bool" where
  "valid_ok v \<longleftrightarrow> (\<forall>n. sc_tertiary (uv_screen v) = BandValid n \<longrightarrow>
     uv_reveal_active v \<and> n = uv_validity_seconds_remaining v)"

definition label_ok :: "ui_view \<Rightarrow> bool" where
  "label_ok v \<longleftrightarrow> (\<forall>l offset. sc_fourth (uv_screen v) = BandLabel l offset \<longrightarrow>
     label_shown v \<and> \<not> uv_storage_error v \<and> l = display_label (selected_credential v))"

definition screen_ok :: "ui_view \<Rightarrow> bool" where
  "screen_ok v \<longleftrightarrow> selection_ok v \<and> otp_ok v \<and> valid_ok v \<and> label_ok v"

definition pass_inv :: "redraw \<Rightarrow> runtime \<Rightarrow> ui_view \<Rightarrow> bool" where
  "pass_inv rd r v \<longleftrightarrow> selection_ok v \<and> (uv_reveal_active v \<longrightarrow> observed_state r = Unlocked) \<and>
     (\<not> rd_dirty rd \<longrightarrow> label_ok v \<and> (rd_rollover rd \<or> rd_validity rd \<longrightarrow> uv_reveal_active v) \<and>
       (\<not> rd_rollover rd \<longrightarrow> otp_ok v \<and> (\<not> rd_validity rd \<longrightarrow> valid_ok v)))"

text \<open>A code that was already revealed keeps its deadline.\<close>

definition deadline_kept :: "ui_view \<Rightarrow> ui_view \<Rightarrow> bool" where
  "deadline_kept v v' \<longleftrightarrow> (uv_reveal_active v' \<longrightarrow>
     uv_reveal_active v \<and> uv_reveal_deadline_ms v' = uv_reveal_deadline_ms v)"

lemmas view_ok_defs = selection_ok_def otp_ok_def valid_ok_def label_ok_def label_shown_def selected_credential_def

lemma kept_trans: "deadline_kept v v' \<Longrightarrow> deadline_kept v' v'' \<Longrightarrow> deadline_kept v v''"
  by (simp add: deadline_kept_def)

lemma dirty_inv: "rd_dirty rd \<Longrightarrow> pass_inv rd r v \<longleftrightarrow> selection_ok v \<and> (uv_reveal_active v \<longrightarrow> observed_state r = Unlocked)"
  by (simp add: pass_inv_def)

lemma selection_concealed: "selection_ok v \<Longrightarrow> selection_ok (reset_label_scroll n (concealed v))"
  by (simp add: selection_ok_def)

lemma selection_emptied: "selection_ok (reset_label_scroll n (emptied v))"
  by (simp add: selection_ok_def)

lemma selection_scroll [simp]: "selection_ok (reset_label_scroll n v) = selection_ok v"
  "label_ok (reset_label_scroll n v) = label_ok v" "otp_ok (reset_label_scroll n v) = otp_ok v"
  "valid_ok (reset_label_scroll n v) = valid_ok v"
  by (simp_all add: view_ok_defs)

section \<open>The parts of a pass\<close>

lemma pass_presence_effect:
  assumes "pass_presence b now lo w = (pp, lo', w')"
  shows "uw_runtime w' = uw_runtime w \<and> uw_medium w' = uw_medium w \<and> fa_time w' = fa_time w \<and>
    (\<exists>q. fa_view w' = (fa_view w)\<lparr>uv_quarantine := q\<rparr>)"
  using assms by (auto simp: pass_presence_def Let_def case_prod_beta)

lemma hide_inv:
  assumes "selection_ok (fa_view w)"
  shows "selection_ok (fa_view (hide_reveal env w)) \<and> \<not> uv_reveal_active (fa_view (hide_reveal env w)) \<and>
    uv_vault_visible (fa_view (hide_reveal env w)) = uv_vault_visible (fa_view w) \<and>
    uv_credentials (fa_view (hide_reveal env w)) = uv_credentials (fa_view w)"
  using hide_view [of env w] selection_concealed [OF assms] by auto

lemma clear_inv:
  "selection_ok (fa_view (snd (clear_private_view env w))) \<and> \<not> uv_reveal_active (fa_view (snd (clear_private_view env w))) \<and>
    \<not> uv_vault_visible (fa_view (snd (clear_private_view env w)))"
  using clear_view [of env w] selection_emptied by auto

text \<open>What a pass keeps until it draws: nothing needs to be redrawn, or the pass is dirty.\<close>

definition drawn_or_dirty :: "bool \<Rightarrow> ui_view \<Rightarrow> bool" where
  "drawn_or_dirty dirty v \<longleftrightarrow> selection_ok v \<and> (\<not> dirty \<longrightarrow> otp_ok v \<and> valid_ok v \<and> label_ok v)"

lemma drawn_scroll [simp]: "drawn_or_dirty d (reset_label_scroll n v) = drawn_or_dirty d v"
  by (simp add: drawn_or_dirty_def)

lemma drawn_state: "drawn_or_dirty d (v\<lparr>uv_runtime_state := s\<rparr>) = drawn_or_dirty d v"
  by (simp add: drawn_or_dirty_def view_ok_defs)

lemma drawn_dirty: "drawn_or_dirty d v \<Longrightarrow> drawn_or_dirty True v"
  by (simp add: drawn_or_dirty_def)

lemma watch_vault_effect:
  assumes run: "watch_vault env now obs dirty w = (dirty', w')" and ok: "drawn_or_dirty dirty (fa_view w)"
  shows "drawn_or_dirty dirty' (fa_view w') \<and> uw_runtime w' = uw_runtime w \<and> uw_presence w' = uw_presence w \<and>
    deadline_kept (fa_view w) (fa_view w') \<and> (obs \<noteq> Unlocked \<longrightarrow> \<not> uv_vault_visible (fa_view w'))"
proof -
  define d1 w1 where "d1 = (obs \<noteq> uv_runtime_state (fa_view w) \<or> dirty)"
    and "w1 = (if obs \<noteq> uv_runtime_state (fa_view w)
      then on_view (\<lambda>v. reset_label_scroll now (v\<lparr>uv_runtime_state := obs\<rparr>)) w else w)"
  have res: "(dirty', w') = (if obs \<noteq> Unlocked \<and> uv_vault_visible (fa_view w1)
      then (True, snd (clear_private_view env w1)) else (d1, w1))"
    using run by (auto simp: watch_vault_def Let_def case_prod_beta d1_def w1_def clear_changed split: if_splits)
  have 1: "drawn_or_dirty d1 (fa_view w1) \<and> deadline_kept (fa_view w) (fa_view w1) \<and> uw_runtime w1 = uw_runtime w \<and>
      uw_presence w1 = uw_presence w"
    using ok drawn_dirty [OF ok] by (auto simp: d1_def w1_def drawn_state deadline_kept_def)
  show ?thesis
    using res 1 clear_inv [of env w1] by (auto simp: drawn_or_dirty_def deadline_kept_def split: if_splits)
qed

lemma pass_watch_effect:
  assumes run: "pass_watch sg now dirty lo w = ((dirty', w'), lo')" and ok: "drawn_or_dirty dirty (fa_view w)"
  shows "drawn_or_dirty dirty' (fa_view w') \<and> uw_runtime w' = uw_runtime w \<and> uw_presence w' = uw_presence w \<and>
    deadline_kept (fa_view w) (fa_view w') \<and>
    (uv_reveal_active (fa_view w') \<longrightarrow> now < uv_reveal_deadline_ms (fa_view w') \<and> observed_state (uw_runtime w) = Unlocked) \<and>
    (observed_state (uw_runtime w) \<noteq> Unlocked \<longrightarrow> \<not> uv_vault_visible (fa_view w'))"
proof -
  define rd where "rd = ts_readiness (fst (time_status (ug_env sg) (fa_time w)))"
  define w0 where "w0 = w\<lparr>fa_time := snd (time_status (ug_env sg) (fa_time w))\<rparr>"
  define w1 where "w1 = (if rd \<noteq> lo_previous_readiness lo then on_view (reset_label_scroll now) w0 else w0)"
  define d1 where "d1 = (rd \<noteq> lo_previous_readiness lo \<or> dirty)"
  define obs where "obs = observed_state (uw_runtime w)"
  obtain d2 w2 where vault: "watch_vault (ug_env sg) now obs d1 w1 = (d2, w2)" by (metis prod.collapse)
  have w1: "uw_runtime w1 = uw_runtime w" "uw_presence w1 = uw_presence w" by (simp_all add: w1_def w0_def)
  have "drawn_or_dirty d1 (fa_view w1) \<and> deadline_kept (fa_view w) (fa_view w1)"
    using ok drawn_dirty [OF ok] by (auto simp: d1_def w1_def w0_def deadline_kept_def)
  with watch_vault_effect [OF vault] w1
  have 2: "drawn_or_dirty d2 (fa_view w2) \<and> uw_runtime w2 = uw_runtime w \<and> uw_presence w2 = uw_presence w \<and>
      deadline_kept (fa_view w) (fa_view w2) \<and> (obs \<noteq> Unlocked \<longrightarrow> \<not> uv_vault_visible (fa_view w2))"
    using kept_trans by auto
  have "fst (pass_watch sg now dirty lo w) = watch_reveal (ug_env sg) now rd (observed_state (uw_runtime w1))
      (watch_vault (ug_env sg) now (observed_state (uw_runtime w1)) d1 w1)"
    by (simp add: pass_watch_def Let_def case_prod_beta rd_def w0_def w1_def d1_def)
  then have "(dirty', w') = watch_reveal (ug_env sg) now rd obs (d2, w2)"
    using run vault w1 by (simp add: obs_def)
  then show ?thesis
    using 2 hide_inv [of w2 "ug_env sg"]
    by (auto simp: watch_reveal_def drawn_or_dirty_def deadline_kept_def obs_def split: if_splits)
qed

text \<open>A code is committed with its period and its countdown, or nothing is.\<close>

lemma refresh_attempts_effect:
  assumes "refresh_attempts sg n code w = (ok, w')"
  shows "uw_presence w' = uw_presence w \<and> (ok \<longrightarrow> observed_state (uw_runtime w') = Unlocked) \<and>
    (if ok then \<exists>c p s. fa_view w' = (fa_view w)\<lparr>uv_last_generate_result := GenOk, uv_revealed_code := c,
        uv_revealed_period_index := p, uv_validity_seconds_remaining := s\<rparr>
     else \<exists>g. fa_view w' = (fa_view w)\<lparr>uv_last_generate_result := g\<rparr>)"
  using assms
proof (induction n arbitrary: code w)
  case 0
  have "\<exists>g. v = v\<lparr>uv_last_generate_result := g\<rparr>" for v :: ui_view
    by (rule exI [of _ "uv_last_generate_result v"]) simp
  with 0 show ?case by auto
next
  case (Suc n)
  obtain gn r m where gen: "generate_for_credential (ug_env sg) (ug_persistence sg) (ug_gcm sg) (ug_hmac sg)
      (vw_credential_id (selected_credential (fa_view w))) code (fa_time w) (uw_runtime w, uw_medium w) = (gn, r, m)"
    by (metis prod_cases3)
  obtain cur ts where clock: "service_unix_seconds (ug_env sg) (gn_time gn) = (cur, ts)" by (metis prod.collapse)
  show ?case
  proof (cases "gn_result gn = GenOk")
    case False
    then show ?thesis using Suc.prems by (auto simp: gen Let_def)
  next
    case True
    with generate_Ok [OF gen True] have r: "observed_state r = Unlocked" by (auto simp: observed_Unlocked)
    define w1 where "w1 = (on_view (\<lambda>v. v\<lparr>uv_last_generate_result := gn_result gn\<rparr>)
      (w\<lparr>fa_time := gn_time gn, uw_runtime := r, uw_medium := m\<rparr>))\<lparr>fa_time := ts\<rparr>"
    have w1: "fa_view w1 = (fa_view w)\<lparr>uv_last_generate_result := GenOk\<rparr>" "uw_presence w1 = uw_presence w"
      "uw_runtime w1 = r"
      by (simp_all add: w1_def True)
    have run: "(ok, w') = (case cur of
        None \<Rightarrow> (False, on_view (\<lambda>v. v\<lparr>uv_last_generate_result := GenTimeStale\<rparr>) w1)
      | Some u \<Rightarrow> if \<not> same_period (from_unix_seconds (gn_unix_seconds gn)) (from_unix_seconds u)
          then refresh_attempts sg n 0 w1
          else (True, on_view (\<lambda>v. v\<lparr>uv_revealed_code := gn_code gn,
            uv_revealed_period_index := va_period_index (from_unix_seconds u),
            uv_validity_seconds_remaining := va_seconds_remaining (from_unix_seconds u)\<rparr>) w1))"
      using Suc.prems by (cases cur) (simp_all add: gen Let_def True clock w1_def split: if_split_asm)
    show ?thesis
      using run w1 r Suc.IH [of 0 w1] by (auto split: option.splits if_splits)
  qed
qed

lemma refresh_revealed_effect:
  assumes run: "refresh_revealed_totp sg w = (ok, w')"
  shows "uw_presence w' = uw_presence w \<and> (ok \<longrightarrow> observed_state (uw_runtime w') = Unlocked \<and> label_shown (fa_view w)) \<and>
    (if ok then \<exists>c p s. fa_view w' = (fa_view w)\<lparr>uv_last_generate_result := GenOk, uv_revealed_code := c,
        uv_revealed_period_index := p, uv_validity_seconds_remaining := s\<rparr>
     else \<exists>g. fa_view w' = (fa_view w)\<lparr>uv_last_generate_result := g\<rparr>)"
proof (cases "label_shown (fa_view w)")
  case True
  then have "refresh_attempts sg 2 0 w = (ok, w')" using run by (simp add: refresh_revealed_totp_def)
  from refresh_attempts_effect [OF this] show ?thesis using True by simp
next
  case False
  then show ?thesis using run by (auto simp: refresh_revealed_totp_def)
qed

lemma pass_reveal_effect:
  assumes run: "pass_reveal sg dirty w = (rd, w')" and ok: "drawn_or_dirty dirty (fa_view w)"
    and unlocked: "uv_reveal_active (fa_view w) \<longrightarrow> observed_state (uw_runtime w) = Unlocked"
  shows "pass_inv rd (uw_runtime w') (fa_view w') \<and> uw_presence w' = uw_presence w \<and>
    deadline_kept (fa_view w) (fa_view w') \<and> uv_vault_visible (fa_view w') = uv_vault_visible (fa_view w)"
proof (cases "uv_reveal_active (fa_view w)")
  case False
  then show ?thesis using run ok
    by (auto simp: pass_reveal_def pass_inv_def drawn_or_dirty_def deadline_kept_def)
next
  case True
  obtain cur ts where clock: "service_unix_seconds (ug_env sg) (fa_time w) = (cur, ts)" by (metis prod.collapse)
  define w1 where "w1 = w\<lparr>fa_time := ts\<rparr>"
  have w1: "fa_view w1 = fa_view w" "uw_presence w1 = uw_presence w" "uw_runtime w1 = uw_runtime w" by (simp_all add: w1_def)
  have sel: "selection_ok (fa_view w)" using ok by (simp add: drawn_or_dirty_def)
  show ?thesis
  proof (cases cur)
    case None
    define w2 where "w2 = on_view (\<lambda>v. v\<lparr>uv_last_generate_result := GenTimeStale\<rparr>) w1"
    have "selection_ok (fa_view w2)" using sel by (simp add: w2_def w1 view_ok_defs)
    with hide_inv [of w2 "ug_env sg"] show ?thesis
      using run True None
      by (auto simp: pass_reveal_def clock w1_def [symmetric] w2_def [symmetric] dirty_inv deadline_kept_def)
        (simp_all add: w2_def w1)
  next
    case (Some u)
    define va where "va = from_unix_seconds u"
    obtain refreshed w2 where code: "refresh_revealed_totp sg w1 = (refreshed, w2)" by (metis prod.collapse)
    have res: "(rd, w') = (let rd = \<lparr>rd_dirty = dirty, rd_rollover = False, rd_validity = False\<rparr> in
        if va_period_index va \<noteq> uv_revealed_period_index (fa_view w) then
          if refreshed then (rd\<lparr>rd_rollover := True\<rparr>, w2) else (rd\<lparr>rd_dirty := True\<rparr>, hide_reveal (ug_env sg) w2)
        else if va_seconds_remaining va \<noteq> uv_validity_seconds_remaining (fa_view w) then
          (rd\<lparr>rd_validity := True\<rparr>, on_view (\<lambda>v. v\<lparr>uv_validity_seconds_remaining := va_seconds_remaining va\<rparr>) w1)
        else (rd, w1))"
      unfolding run [symmetric]
      using True code by (simp add: pass_reveal_def clock Some w1_def va_def Let_def)
    note effect = refresh_revealed_effect [OF code, unfolded w1]
    have sel2: "selection_ok (fa_view w2)"
      using effect sel True by (auto simp: view_ok_defs split: if_splits)
    consider (rollover) "va_period_index va \<noteq> uv_revealed_period_index (fa_view w)" refreshed
      | (failed) "va_period_index va \<noteq> uv_revealed_period_index (fa_view w)" "\<not> refreshed"
      | (second) "va_period_index va = uv_revealed_period_index (fa_view w)"
      by blast
    then show ?thesis
    proof cases
      case rollover
      then have "rd = \<lparr>rd_dirty = dirty, rd_rollover = True, rd_validity = False\<rparr>" "w' = w2"
        using res by (simp_all add: Let_def)
      then show ?thesis using effect rollover sel2 ok True
        by (auto simp: pass_inv_def drawn_or_dirty_def deadline_kept_def view_ok_defs)
    next
      case failed
      then have "rd_dirty rd" "w' = hide_reveal (ug_env sg) w2" using res by (simp_all add: Let_def)
      then show ?thesis using effect failed hide_inv [OF sel2, of "ug_env sg"]
        by (auto simp: dirty_inv deadline_kept_def)
    next
      case second
      then show ?thesis using res ok unlocked True
        by (auto simp: Let_def pass_inv_def drawn_or_dirty_def deadline_kept_def view_ok_defs w1 split: if_splits)
    qed
  qed
qed

lemma reveal_selected_effect:
  assumes "selection_ok (fa_view w)"
  shows "selection_ok (fa_view (reveal_selected sg now w)) \<and>
    uw_presence (reveal_selected sg now w) = uw_presence w \<and>
    (uv_reveal_active (fa_view (reveal_selected sg now w)) \<longrightarrow>
      observed_state (uw_runtime (reveal_selected sg now w)) = Unlocked \<and>
      uv_reveal_deadline_ms (fa_view (reveal_selected sg now w)) = reveal_deadline now) \<and>
    uv_vault_visible (fa_view (reveal_selected sg now w)) = uv_vault_visible (fa_view w)"
proof -
  define w1 where "w1 = on_view (\<lambda>v. v\<lparr>uv_last_generate_result := GenOk\<rparr>) (hide_reveal (ug_env sg) w)"
  obtain refreshed w2 where code: "refresh_revealed_totp sg w1 = (refreshed, w2)" by (metis prod.collapse)
  have res: "reveal_selected sg now w = (if \<not> refreshed then w2 else on_view (\<lambda>v. reset_label_scroll now
      (v\<lparr>uv_reveal_active := True, uv_reveal_deadline_ms := reveal_deadline now\<rparr>)) w2)"
    using code by (simp add: reveal_selected_def w1_def Let_def)
  have 1: "selection_ok (fa_view w1)" "\<not> uv_reveal_active (fa_view w1)" "uw_presence w1 = uw_presence w"
    "uv_vault_visible (fa_view w1) = uv_vault_visible (fa_view w)"
    using hide_inv [OF assms, of "ug_env sg"] by (auto simp: w1_def view_ok_defs)
  show ?thesis
    using refresh_revealed_effect [OF code] 1
    by (cases refreshed) (auto simp: res view_ok_defs)
qed

lemma select_at_effect:
  assumes ok: "selection_ok (fa_view w)" and f: "\<And>i n. i < n \<Longrightarrow> f i n < n"
  shows "selection_ok (fa_view (select_at sg f w)) \<and> uw_presence (select_at sg f w) = uw_presence w \<and>
    (uv_reveal_active (fa_view (select_at sg f w)) \<longrightarrow> select_at sg f w = w) \<and>
    uv_vault_visible (fa_view (select_at sg f w)) = uv_vault_visible (fa_view w)"
proof (cases "uv_credentials (fa_view w) = []")
  case True
  then show ?thesis using ok by (simp add: select_at_def)
next
  case False
  define w1 where "w1 = reset_scroll_now (ug_env sg) (on_view (\<lambda>v. v\<lparr>uv_selected_index :=
    f (uv_selected_index v) (length (uv_credentials v))\<rparr>) (hide_reveal (ug_env sg) w))"
  have res: "select_at sg f w = persist_selection sg w1" using False by (simp add: select_at_def w1_def)
  have sel: "selection_ok (fa_view w1) \<and> \<not> uv_reveal_active (fa_view w1) \<and> uw_presence w1 = uw_presence w \<and>
      uv_vault_visible (fa_view w1) = uv_vault_visible (fa_view w)"
  proof -
    obtain m where hide: "fa_view (hide_reveal (ug_env sg) w) = reset_label_scroll m (concealed (fa_view w))"
      using hide_view by blast
    obtain n where "fa_view w1 = reset_label_scroll n ((fa_view (hide_reveal (ug_env sg) w))\<lparr>uv_selected_index :=
        f (uv_selected_index (fa_view w)) (length (uv_credentials (fa_view w)))\<rparr>)"
      unfolding w1_def
      using scroll_now_view [of "ug_env sg" "on_view (\<lambda>v. v\<lparr>uv_selected_index :=
        f (uv_selected_index v) (length (uv_credentials v))\<rparr>) (hide_reveal (ug_env sg) w)"] hide by auto
    moreover have "uw_presence w1 = uw_presence w" by (simp add: w1_def)
    ultimately show ?thesis using ok False f hide by (auto simp: selection_ok_def label_shown_def)
  qed
  obtain st r m where last: "set_last_used (ug_persistence sg) (ug_gcm sg) (vw_credential_id (selected_credential (fa_view w1)))
      (uw_runtime w1, uw_medium w1) = (st, r, m)"
    by (metis prod_cases3)
  have "selection_ok (fa_view (persist_selection sg w1)) \<and> \<not> uv_reveal_active (fa_view (persist_selection sg w1)) \<and>
      uw_presence (persist_selection sg w1) = uw_presence w1 \<and>
      uv_vault_visible (fa_view (persist_selection sg w1)) = uv_vault_visible (fa_view w1)"
    using sel by (auto simp: persist_selection_def last Let_def case_prod_beta on_screen_hidden_changed_def
        selection_ok_def label_shown_def)
  with res sel show ?thesis by simp
qed

lemma select_previous_index: "i < n \<Longrightarrow> (if i = 0 then n - 1 else i - 1) < (n::nat)"
  by auto

lemmas select_effects =
  select_at_effect [where f = "\<lambda>i n. (i + 1) mod n", folded select_next_def, simplified]
  select_at_effect [where f = "\<lambda>i n. if i = 0 then n - 1 else i - 1", OF _ select_previous_index, folded select_previous_def]

lemma pass_gestures_effect:
  assumes run: "pass_gestures sg b now cur (rd, w) = (rd', w')" and inv: "pass_inv rd (uw_runtime w) (fa_view w)"
  shows "pass_inv rd' (uw_runtime w') (fa_view w') \<and> uw_presence w' = uw_presence w \<and>
    (deadline_kept (fa_view w) (fa_view w') \<or>
      bt_was_hold b \<and> \<not> pv_active cur \<and> uv_reveal_deadline_ms (fa_view w') = reveal_deadline now) \<and>
    uv_vault_visible (fa_view w') = uv_vault_visible (fa_view w)"
proof -
  have sel: "selection_ok (fa_view w)" using inv by (simp add: pass_inv_def)
  define single where "single = (if uv_reveal_active (fa_view w) then hide_reveal (ug_env sg) w else select_next sg w)"
  have select: "selection_ok (fa_view x) \<and> uw_presence x = uw_presence w \<and> \<not> uv_reveal_active (fa_view x) \<and>
      uv_vault_visible (fa_view x) = uv_vault_visible (fa_view w) \<or> x = w"
    if "x \<in> {single, select_previous sg w}" for x
    using that select_effects [where w = w and sg = sg, OF sel] hide_inv [OF sel, of "ug_env sg"]
    by (cases "uv_reveal_active (fa_view w)") (auto simp: single_def)
  have reveal: "selection_ok (fa_view x) \<and> uw_presence x = uw_presence w \<and>
      (uv_reveal_active (fa_view x) \<longrightarrow> observed_state (uw_runtime x) = Unlocked \<and>
        uv_reveal_deadline_ms (fa_view x) = reveal_deadline now) \<and>
      uv_vault_visible (fa_view x) = uv_vault_visible (fa_view w)"
    if "x = reveal_selected sg now w" for x
    using that reveal_selected_effect [OF sel, of sg now] by auto
  consider (idle) "rd' = rd" "w' = w"
    | (hold) "rd_dirty rd'" "bt_was_hold b" "\<not> pv_active cur" "w' = reveal_selected sg now w"
    | (click) "rd_dirty rd'" "w' \<in> {single, select_previous sg w}"
    using run by (auto simp: pass_gestures_def single_def split: if_splits)
  then show ?thesis
  proof cases
    case idle
    then show ?thesis using inv by (simp add: deadline_kept_def)
  next
    case hold
    then show ?thesis using reveal [OF hold(4)] by (auto simp: dirty_inv deadline_kept_def)
  next
    case click
    then show ?thesis using select [OF click(2)] inv by (auto simp: dirty_inv deadline_kept_def pass_inv_def)
  qed
qed

text \<open>A refresh keeps what is shown, or replaces it; one that reports no change has changed nothing that
  is shown.\<close>

definition list_kept :: "('e, 'w) ui_world \<Rightarrow> bool \<Rightarrow> ('e, 'w) ui_world \<Rightarrow> bool" where
  "list_kept w changed w' \<longleftrightarrow> uw_runtime w' = uw_runtime w \<and> observed_state (uw_runtime w) = Unlocked \<and>
     (if changed then \<exists>n. fa_view w' = reset_label_scroll n
          ((fa_view w)\<lparr>uv_runtime_state := Unlocked, uv_storage_error := False\<rparr>)
      else fa_view w' = (fa_view w)\<lparr>uv_runtime_state := Unlocked\<rparr>)"

definition list_replaced :: "('e, 'w) ui_world \<Rightarrow> bool \<Rightarrow> ('e, 'w) ui_world \<Rightarrow> bool" where
  "list_replaced w changed w' \<longleftrightarrow> selection_ok (fa_view w') \<and> \<not> uv_reveal_active (fa_view w') \<and>
     (changed \<or> \<not> uv_vault_visible (fa_view w) \<and> uv_credentials (fa_view w) = [] \<and>
        \<not> uv_reveal_active (fa_view w) \<and> uv_screen (fa_view w') = uv_screen (fa_view w))"

lemma clear_replaced:
  assumes "clear_private_view env w1 = (c, w2)" "c \<longrightarrow> changed"
    and "\<exists>s. fa_view w1 = (fa_view w)\<lparr>uv_runtime_state := s\<rparr>"
    and "\<exists>e s. fa_view w3 = (fa_view w2)\<lparr>uv_storage_error := e, uv_runtime_state := s\<rparr>"
  shows "list_replaced w changed w3"
proof -
  obtain n where "fa_view w2 = reset_label_scroll n (emptied (fa_view w1))"
    using clear_view [of env w1] assms(1) by auto
  then show ?thesis
    using assms clear_changed [of env w1] by (auto simp: list_replaced_def selection_ok_def)
qed

lemma state_update_refl:
  "\<exists>s. (v :: ui_view) = v\<lparr>uv_runtime_state := s\<rparr>"
  "\<exists>e' s. v\<lparr>uv_storage_error := e\<rparr> = v\<lparr>uv_storage_error := e', uv_runtime_state := s\<rparr>"
  by (rule exI [of _ "uv_runtime_state v"], simp) (rule exI [of _ e], rule exI [of _ "uv_runtime_state v"], simp)

lemma preferred_in_range: "views \<noteq> [] \<Longrightarrow> preferred_index a views < length views"
  using length_takeWhile_le [of _ views]
  by (auto simp: preferred_index_def Let_def le_less split: option.split)

lemma refresh_credentials_effect:
  assumes run: "refresh_credentials sg force w = (changed, w')"
  shows "uw_presence w' = uw_presence w \<and> (list_kept w changed w' \<or> list_replaced w changed w')"
proof (cases "metadata (uw_runtime w)")
  case (Inl st)
  obtain c w2 where clear: "clear_private_view (ug_env sg) w = (c, w2)" by (metis prod.collapse)
  have "w' = on_view (\<lambda>v. v\<lparr>uv_storage_error := True, uv_runtime_state := VaultError\<rparr>) w2" "c \<longrightarrow> changed"
    using run by (auto simp: refresh_credentials_def Inl clear Let_def)
  moreover have "uw_presence w2 = uw_presence w" using clear_world(3) [of "ug_env sg" w] clear by simp
  ultimately show ?thesis 
    using clear_replaced [OF clear, of changed w w'] state_update_refl(1) [of "fa_view w"] by auto
next
  case (Inr m)
  define w1 where "w1 = on_view (\<lambda>v. v\<lparr>uv_runtime_state := md_state m\<rparr>) w"
  have w1: "fa_view w1 = (fa_view w)\<lparr>uv_runtime_state := md_state m\<rparr>" "uw_runtime w1 = uw_runtime w"
    "uw_presence w1 = uw_presence w"
    by (simp_all add: w1_def)
  have obs: "observed_state (uw_runtime w) = md_state m" by (simp add: observed_state_def Inr)
  have run: "refresh_known sg force m w1 = (changed, w')" using run by (simp add: refresh_credentials_def Inr w1_def)
  consider (locked) "md_state m \<noteq> Unlocked"
    | (same) "md_state m = Unlocked" "\<not> force \<and> uv_vault_visible (fa_view w1) \<and> uv_visible_generation (fa_view w1) = md_generation m"
    | (new) "md_state m = Unlocked" "\<not> (\<not> force \<and> uv_vault_visible (fa_view w1) \<and> uv_visible_generation (fa_view w1) = md_generation m)"
    by blast
  then show ?thesis
  proof cases
    case locked
    obtain c w2 where clear: "clear_private_view (ug_env sg) w1 = (c, w2)" by (metis prod.collapse)
    have "w' = on_view (\<lambda>v. v\<lparr>uv_storage_error := False\<rparr>) w2" "c \<longrightarrow> changed"
      using run locked by (auto simp: refresh_known_def clear Let_def)
    moreover have "uw_presence w2 = uw_presence w" using clear_world(3) [of "ug_env sg" w1] clear w1 by simp
    ultimately show ?thesis
      using clear_replaced [OF clear, of changed w w'] w1(1) state_update_refl(2) [of False "fa_view w2"] by auto
  next
    case same
    show ?thesis
    proof (cases "uv_storage_error (fa_view w1)")
      case False
      then have "changed = False \<and> w' = w1"
        using run same by (auto simp: refresh_known_def Let_def)
      then show ?thesis using w1 obs same by (simp add: list_kept_def)
    next
      case True
      then have "changed" "\<exists>n. fa_view w' = reset_label_scroll n ((fa_view w1)\<lparr>uv_storage_error := False\<rparr>)"
        "uw_presence w' = uw_presence w1" "uw_runtime w' = uw_runtime w1"
        using run same by (auto simp: refresh_known_def Let_def case_prod_beta on_screen_hidden_changed_def)
      then show ?thesis using w1 obs same by (simp add: list_kept_def)
    qed
  next
    case new
    obtain st items r where list: "list_credentials (ug_gcm sg) (uw_runtime w) = (st, items, r)" by (metis prod_cases3)
    have reload: "refresh_known sg force m w1 = reload_credentials sg m w1" using new by (auto simp: refresh_known_def)
    define w2 where "w2 = w1\<lparr>uw_runtime := r\<rparr>"
    obtain c w3 where clear: "clear_private_view (ug_env sg) w2 = (c, w3)" by (metis prod.collapse)
    have "uw_presence w3 = uw_presence w2" using clear clear_world(3) [of "ug_env sg" w2] by (metis snd_conv)
    then have w2: "fa_view w2 = fa_view w1" "uw_presence w3 = uw_presence w" by (simp_all add: w2_def w1)
    show ?thesis
    proof (cases "st = Ok")
      case False
      then have "w' = on_view (\<lambda>v. v\<lparr>uv_storage_error := True\<rparr>) w3" "c \<longrightarrow> changed"
        using run list clear by (auto simp: reload w1(2) reload_credentials_def w2_def [symmetric] Let_def)
      then show ?thesis
        using clear_replaced [OF clear, of changed w w'] w1(1) w2 state_update_refl(2) [of True "fa_view w3"] by auto
    next
      case True
      define next_view where "next_view v = v\<lparr>uv_credentials := map view_of items,
          uv_selected_index := (if map view_of items = [] then 0
            else preferred_index (preferred_credential m (fa_view w1)) (map view_of items)),
          uv_visible_generation := md_generation m, uv_vault_visible := True, uv_storage_error := False\<rparr>" for v :: ui_view
      have res: "changed \<and> w' = reset_scroll_now (ug_env sg) (on_view next_view w3)"
        using run True list clear by (auto simp: reload w1(2) reload_credentials_def w2_def [symmetric] Let_def
            next_view_def [abs_def])
      obtain n k where "fa_view w' = reset_label_scroll k (next_view (reset_label_scroll n (emptied (fa_view w2))))"
        using res clear_view [of "ug_env sg" w2] clear scroll_now_view [of "ug_env sg" "on_view next_view w3"] by auto
      then have "list_replaced w changed w'"
        using res preferred_in_range [of "map view_of items"]
        by (auto simp: list_replaced_def selection_ok_def label_shown_def next_view_def)
      then show ?thesis using res w2 by simp
    qed
  qed
qed

lemma pass_inv_state: "pass_inv rd r (v\<lparr>uv_runtime_state := s\<rparr>) = pass_inv rd r v"
  by (simp add: pass_inv_def view_ok_defs)

lemma pass_refresh_effect:
  assumes run: "pass_refresh sg now obs cur lo (rd, w) = (rd', lo', w')" and inv: "pass_inv rd (uw_runtime w) (fa_view w)"
  shows "pass_inv rd' (uw_runtime w') (fa_view w') \<and> uw_presence w' = uw_presence w \<and>
    deadline_kept (fa_view w) (fa_view w') \<and> (obs \<noteq> Unlocked \<longrightarrow> w' = w)"
proof (cases "obs = Unlocked \<and> \<not> pv_active cur \<and> now - lo_last_refresh_ms lo \<ge> kCredentialRefreshIntervalMs")
  case False
  then show ?thesis using run inv by (auto simp: pass_refresh_def deadline_kept_def)
next
  case True
  obtain changed w1 where list: "refresh_credentials sg False w = (changed, w1)" by (metis prod.collapse)
  have res: "rd' = rd\<lparr>rd_dirty := changed \<or> rd_dirty rd\<rparr>" "w' = w1"
    using run True by (auto simp: pass_refresh_def list Let_def)
  from refresh_credentials_effect [OF list] have presence: "uw_presence w' = uw_presence w"
    and "list_kept w changed w' \<or> list_replaced w changed w'"
    by (simp_all add: res)
  from this(2) have "pass_inv rd' (uw_runtime w') (fa_view w') \<and> deadline_kept (fa_view w) (fa_view w')"
  proof
    assume kept: "list_kept w changed w'"
    show ?thesis
    proof (cases changed)
      case True
      then show ?thesis using kept inv
        by (auto simp: list_kept_def res(1) dirty_inv deadline_kept_def pass_inv_def selection_ok_def label_shown_def)
    next
      case False
      then show ?thesis using kept inv by (simp add: list_kept_def res(1) pass_inv_state deadline_kept_def)
    qed
  next
    assume replaced: "list_replaced w changed w'"
    show ?thesis
    proof (cases "changed \<or> rd_dirty rd")
      case True
      then show ?thesis using replaced by (auto simp: list_replaced_def res(1) dirty_inv deadline_kept_def)
    next
      case False
      then show ?thesis using replaced inv
        by (auto simp: list_replaced_def res(1) pass_inv_def deadline_kept_def label_ok_def otp_ok_def valid_ok_def
            label_shown_def)
    qed
  qed
  then show ?thesis using presence True by simp
qed

text \<open>Drawing.\<close>

lemma request_screen_bands:
  "sc_fifth (request_screen p) \<noteq> BandOtp c" "sc_fourth (request_screen p) \<noteq> BandLabel l i"
  "sc_tertiary (request_screen p) \<noteq> BandValid n"
  by (auto simp: request_screen_def Let_def split: if_splits)

lemma render_label_fields:
  "uv_screen (render_account_label v) = (if uv_storage_error v \<or> \<not> label_shown v then uv_screen v
     else (uv_screen v)\<lparr>sc_fourth := BandLabel (display_label (selected_credential v)) (uv_label_scroll_offset_px v)\<rparr>)"
  by (simp add: render_account_label_def)

definition same_fields :: "ui_view \<Rightarrow> ui_view \<Rightarrow> bool" where
  "same_fields v v' \<longleftrightarrow> (\<exists>x. v' = v\<lparr>uv_screen := x\<rparr>)"

lemma same_fieldsI [intro]: "same_fields v (v\<lparr>uv_screen := x\<rparr>)"
  by (auto simp: same_fields_def)

lemma same_fieldsD:
  assumes "same_fields v v'"
  shows "uv_credentials v' = uv_credentials v" "uv_selected_index v' = uv_selected_index v"
    "uv_vault_visible v' = uv_vault_visible v" "uv_storage_error v' = uv_storage_error v"
    "uv_reveal_active v' = uv_reveal_active v" "uv_revealed_code v' = uv_revealed_code v"
    "uv_reveal_deadline_ms v' = uv_reveal_deadline_ms v"
    "uv_validity_seconds_remaining v' = uv_validity_seconds_remaining v"
    "uv_revealed_period_index v' = uv_revealed_period_index v"
    "selection_ok v' = selection_ok v" "label_shown v' = label_shown v"
    "selected_credential v' = selected_credential v"
  using assms by (auto simp: same_fields_def selection_ok_def label_shown_def selected_credential_def)

lemma render_label_same: "same_fields v (render_account_label v)"
proof (cases "uv_storage_error v \<or> \<not> label_shown v")
  case True
  then have "render_account_label v = v\<lparr>uv_screen := uv_screen v\<rparr>" by (simp add: render_account_label_def)
  then show ?thesis by (metis same_fieldsI)
qed (auto simp: render_account_label_def)

text \<open>What each drawing leaves on the display.\<close>

definition status_screen :: "readiness \<Rightarrow> ui_view \<Rightarrow> screen" where
  "status_screen rd v =
     (let revealed = (uv_reveal_active v \<and> rd = Ready);
          shown = (\<not> uv_storage_error v \<and> uv_vault_visible v \<and> uv_credentials v \<noteq> [])
      in \<lparr>sc_primary = BandState (uv_runtime_state v), sc_secondary = BandReadiness rd,
          sc_tertiary = (if \<not> shown then BandText (if uv_storage_error v then ''Vault unavailable''
              else if \<not> uv_vault_visible v then ''Open Web app'' else ''No accounts'')
            else if revealed then BandValid (uv_validity_seconds_remaining v)
            else if generate_error (uv_last_generate_result v) then BandText ''OTP unavailable''
            else BandPosition (uv_selected_index v + 1) (length (uv_credentials v))),
          sc_fourth = (if \<not> uv_storage_error v \<and> label_shown v
            then BandLabel (display_label (selected_credential v)) (uv_label_scroll_offset_px v) else BandBlank),
          sc_fifth = (if \<not> shown then BandBlank else if revealed then BandOtp (uv_revealed_code v) else BandHelp)\<rparr>)"

lemma render_status_eq: "render_status rd v = v\<lparr>uv_screen := status_screen rd v\<rparr>"
proof (cases "uv_storage_error v \<or> \<not> uv_vault_visible v \<or> uv_credentials v = []")
  case True
  then show ?thesis unfolding render_status_def status_screen_def Let_def label_shown_def
    by (elim disjE) simp_all
next
  case False
  then have shown: "\<not> uv_storage_error v" "uv_vault_visible v" "uv_credentials v \<noteq> []" by auto
  show ?thesis
  proof (cases "uv_selected_index v < length (uv_credentials v)")
    case True
    with shown show ?thesis
      unfolding render_status_def status_screen_def Let_def label_shown_def
      by (simp add: render_account_label_def render_reveal_validity_def label_shown_def selected_credential_def)
  next
    case False
    with shown show ?thesis
      unfolding render_status_def status_screen_def Let_def label_shown_def
      by (simp add: render_account_label_def render_reveal_validity_def label_shown_def)
  qed
qed

lemma status_screen_bands:
  "sc_fifth (status_screen rd v) = BandOtp c \<Longrightarrow> uv_reveal_active v \<and> rd = Ready \<and> c = uv_revealed_code v"
  "sc_tertiary (status_screen rd v) = BandValid n \<Longrightarrow>
     uv_reveal_active v \<and> rd = Ready \<and> n = uv_validity_seconds_remaining v"
  "sc_fourth (status_screen rd v) = BandLabel l i \<Longrightarrow>
     label_shown v \<and> \<not> uv_storage_error v \<and> l = display_label (selected_credential v)"
  by (auto simp: status_screen_def Let_def split: if_splits)

lemma screen_ok_iff:
  "screen_ok (v\<lparr>uv_screen := x\<rparr>) \<longleftrightarrow> selection_ok v \<and>
     (\<forall>c. sc_fifth x = BandOtp c \<longrightarrow> uv_reveal_active v \<and> c = uv_revealed_code v) \<and>
     (\<forall>n. sc_tertiary x = BandValid n \<longrightarrow> uv_reveal_active v \<and> n = uv_validity_seconds_remaining v) \<and>
     (\<forall>l i. sc_fourth x = BandLabel l i \<longrightarrow> label_shown v \<and> \<not> uv_storage_error v \<and>
        l = display_label (selected_credential v))"
  by (simp add: screen_ok_def view_ok_defs)

lemma render_screen_ok:
  assumes "selection_ok (fa_view w)"
  shows "screen_ok (fa_view (render env p w)) \<and> same_fields (fa_view w) (fa_view (render env p w))"
proof (cases "gate_active (cp_gate p)")
  case True
  then have "fa_view (render env p w) = (fa_view w)\<lparr>uv_screen := request_screen (canonical_view p)\<rparr>"
    by (simp add: render_def case_prod_beta Let_def canonical_view_def)
  then show ?thesis using assms by (auto simp: screen_ok_iff request_screen_bands)
next
  case False
  define rd where "rd = ts_readiness (fst (time_status env (fa_time w)))"
  have "fa_view (render env p w) = render_status rd (fa_view w)"
    using False by (simp add: render_def case_prod_beta Let_def canonical_view_def rd_def)
  with assms show ?thesis by (auto simp: render_status_eq screen_ok_iff dest: status_screen_bands)
qed

lemma render_world [simp]:
  "uw_runtime (render env p w) = uw_runtime w" "uw_presence (render env p w) = uw_presence w"
  by (simp_all add: render_def case_prod_beta Let_def)

lemma offset_update_refl: "\<exists>d. (v :: ui_view) = v\<lparr>uv_label_scroll_offset_px := d\<rparr>"
  by (rule exI [of _ "uv_label_scroll_offset_px v"]) simp

lemma update_offset_effect: "\<exists>d. snd (update_offset h x v) = v\<lparr>uv_label_scroll_offset_px := d\<rparr>"
  using offset_update_refl [of v] by (auto simp: update_offset_def)

lemma update_label_scroll_effect: "\<exists>d. snd (update_label_scroll sg now v) = v\<lparr>uv_label_scroll_offset_px := d\<rparr>"
  using offset_update_refl [of v] update_offset_effect
  unfolding update_label_scroll_def Let_def by (simp split: if_split)

lemma pass_inv_scroll: "pass_inv rd r (v\<lparr>uv_label_scroll_offset_px := d\<rparr>) = pass_inv rd r v"
  by (simp add: pass_inv_def view_ok_defs)

lemma pass_draw_effect:
  assumes inv: "pass_inv rd (uw_runtime w) (fa_view w)" and w': "w' = pass_draw sg now obs cur rd w"
  shows "screen_ok (fa_view w') \<and> uw_runtime w' = uw_runtime w \<and> uw_presence w' = uw_presence w \<and>
    deadline_kept (fa_view w) (fa_view w') \<and> uv_vault_visible (fa_view w') = uv_vault_visible (fa_view w)"
proof -
  obtain c v where scroll: "(if \<not> pv_active cur \<and> obs = Unlocked then update_label_scroll sg now (fa_view w)
      else (False, fa_view w)) = (c, v)"
    by (metis prod.collapse)
  obtain d where v: "v = (fa_view w)\<lparr>uv_label_scroll_offset_px := d\<rparr>"
  proof -
    have "\<exists>d. v = (fa_view w)\<lparr>uv_label_scroll_offset_px := d\<rparr>"
      using scroll update_label_scroll_effect [of sg now "fa_view w"] offset_update_refl [of "fa_view w"]
      by (auto split: if_split_asm)
    with that show ?thesis by blast
  qed
  define w1 where "w1 = w\<lparr>fa_view := v\<rparr>"
  have w1: "fa_view w1 = v" "uw_runtime w1 = uw_runtime w" "uw_presence w1 = uw_presence w" by (simp_all add: w1_def)
  have inv1: "pass_inv rd (uw_runtime w) v" and kept: "deadline_kept (fa_view w) v"
    and visible: "uv_vault_visible v = uv_vault_visible (fa_view w)"
    using inv by (simp_all add: v pass_inv_scroll deadline_kept_def)
  have res: "w' = (if rd_dirty rd then render (ug_env sg) (uw_presence w1) w1
      else if rd_rollover rd then on_view render_reveal_region w1
      else if rd_validity rd then on_view render_reveal_validity w1
      else if c then on_view render_account_label w1 else w1)"
    using w' scroll by (simp add: pass_draw_def Let_def w1_def)
  have "screen_ok (fa_view w') \<and> same_fields v (fa_view w') \<and> uw_runtime w' = uw_runtime w \<and> uw_presence w' = uw_presence w"
  proof (cases "rd_dirty rd")
    case True
    then show ?thesis using res render_screen_ok [of w1 "ug_env sg" "uw_presence w1"] inv1 w1
      by (simp add: pass_inv_def)
  next
    case clean: False
    show ?thesis
    proof (cases "rd_rollover rd")
      case True
      then show ?thesis using res clean inv1 w1
        by (auto simp: render_reveal_region_def render_reveal_validity_def Let_def screen_ok_iff pass_inv_def label_ok_def)
    next
      case False
      have ok: "selection_ok v" "label_ok v" "otp_ok v" "rd_validity rd \<or> valid_ok v" "rd_validity rd \<longrightarrow> uv_reveal_active v"
        using inv1 clean False by (auto simp: pass_inv_def)
      show ?thesis
      proof (cases "rd_validity rd")
        case True
        then show ?thesis using res clean False ok w1
          by (auto simp: render_reveal_validity_def screen_ok_iff label_ok_def otp_ok_def)
      next
        case quiet: False
        then have drawn: "screen_ok v" using ok by (simp add: screen_ok_def)
        have "v = v\<lparr>uv_screen := uv_screen v\<rparr>" by simp
        then have same: "same_fields v v" by (metis same_fieldsI)
        have "screen_ok (render_account_label v)"
        proof (cases "uv_storage_error v \<or> \<not> label_shown v")
          case True
          then show ?thesis using drawn by (simp add: render_account_label_def)
        next
          case False
          then show ?thesis using ok quiet
            by (auto simp: render_account_label_def screen_ok_iff otp_ok_def valid_ok_def)
        qed
        then show ?thesis using res clean False quiet w1 drawn same render_label_same [of v] by auto
      qed
    qed
  qed
  then show ?thesis using kept visible same_fieldsD [of v "fa_view w'"] by (simp add: deadline_kept_def)
qed

section \<open>A pass\<close>

text \<open>What holds of the controller between two passes, whatever the other tasks do meanwhile.\<close>

lemma ui_pass_effect:
  assumes run: "ui_pass sg b (lo, w) = (lo', w')" and ok: "screen_ok (fa_view w)"
    and now: "now = fst (ui_monotonic_ms (ug_env sg) w)"
  shows "screen_ok (fa_view w') \<and>
    (uv_reveal_active (fa_view w') \<longrightarrow> observed_state (uw_runtime w') = Unlocked \<and>
      (bt_was_hold b \<and> uv_reveal_deadline_ms (fa_view w') = reveal_deadline now \<or>
       uv_reveal_active (fa_view w) \<and> uv_reveal_deadline_ms (fa_view w') = uv_reveal_deadline_ms (fa_view w) \<and>
         now < uv_reveal_deadline_ms (fa_view w'))) \<and>
    (observed_state (uw_runtime w) \<noteq> Unlocked \<longrightarrow> \<not> uv_vault_visible (fa_view w') \<and> uv_credentials (fa_view w') = [])"
proof -
  obtain w0 where mono: "ui_monotonic_ms (ug_env sg) w = (now, w0)" using now by (metis prod.collapse)
  have "fa_view w0 = fa_view w" "uw_runtime w0 = uw_runtime w"
    using monotonic_face [of "ug_env sg" w] monotonic_world(1) [of "ug_env sg" w] mono by (metis snd_conv)+
  note w0 = this
  obtain pp lo1 w1 where p: "pass_presence b now lo w0 = (pp, lo1, w1)" by (metis prod_cases3)
  define w2 where "w2 = (if pp_changed pp then on_view (reset_label_scroll now) w1 else w1)"
  define obs where "obs = observed_state (uw_runtime w2)"
  obtain dirty w3 lo3 where watch: "pass_watch sg now (pp_dirty pp) lo1 w2 = ((dirty, w3), lo3)" by (metis prod.collapse)
  obtain rd4 w4 where reveal: "pass_reveal sg dirty w3 = (rd4, w4)" by (metis prod.collapse)
  obtain rd5 w5 where gestures: "pass_gestures sg b now (pp_current pp) (rd4, w4) = (rd5, w5)" by (metis prod.collapse)
  obtain rd6 lo6 w6 where refresh: "pass_refresh sg now obs (pp_current pp) lo3 (rd5, w5) = (rd6, lo6, w6)"
    by (metis prod_cases3)
  have w': "w' = pass_draw sg now obs (pp_current pp) rd6 w6"
    using run by (simp add: ui_pass_def Let_def mono p watch reveal gestures refresh w2_def [symmetric] obs_def [symmetric])
  have 0: "screen_ok (fa_view w2) \<and> obs = observed_state (uw_runtime w) \<and>
      uv_reveal_active (fa_view w2) = uv_reveal_active (fa_view w) \<and>
      uv_reveal_deadline_ms (fa_view w2) = uv_reveal_deadline_ms (fa_view w)"
    using pass_presence_effect [OF p] ok w0
    by (auto simp: w2_def obs_def screen_ok_def view_ok_defs)
  then have "drawn_or_dirty (pp_dirty pp) (fa_view w2)" by (simp add: drawn_or_dirty_def screen_ok_def)
  note 1 = pass_watch_effect [OF watch this]
  then have 2: "pass_inv rd4 (uw_runtime w4) (fa_view w4) \<and> deadline_kept (fa_view w3) (fa_view w4) \<and>
      uv_vault_visible (fa_view w4) = uv_vault_visible (fa_view w3)"
    using pass_reveal_effect [OF reveal] obs_def by simp
  note 3 = pass_gestures_effect [OF gestures conjunct1 [OF 2]]
  note 4 = pass_refresh_effect [OF refresh conjunct1 [OF 3]]
  note 5 = pass_draw_effect [OF conjunct1 [OF 4] w']
  have selection: "selection_ok (fa_view w')" using 5 by (simp add: screen_ok_def)
  have "uv_reveal_active (fa_view w') \<longrightarrow> observed_state (uw_runtime w') = Unlocked"
    using 4 5 by (simp add: pass_inv_def deadline_kept_def)
  moreover have "obs \<noteq> Unlocked \<longrightarrow> \<not> uv_vault_visible (fa_view w')"
    using 1 2 3 4 5 obs_def by simp
  moreover have early: "deadline_kept (fa_view w) (fa_view w4)"
    using 0 1 2 by (simp add: deadline_kept_def)
  moreover have late: "deadline_kept (fa_view w5) (fa_view w')" using 4 5 kept_trans by blast
  moreover have live: "uv_reveal_active (fa_view w4) \<longrightarrow> now < uv_reveal_deadline_ms (fa_view w4)"
  proof -
    have "uv_reveal_active (fa_view w3) \<longrightarrow> now < uv_reveal_deadline_ms (fa_view w3)" "deadline_kept (fa_view w3) (fa_view w4)"
      using 1 2 by blast+
    then show ?thesis unfolding deadline_kept_def by metis
  qed
  moreover have "uv_reveal_active (fa_view w') \<longrightarrow>
      bt_was_hold b \<and> uv_reveal_deadline_ms (fa_view w') = reveal_deadline now \<or>
      uv_reveal_active (fa_view w) \<and> uv_reveal_deadline_ms (fa_view w') = uv_reveal_deadline_ms (fa_view w) \<and>
        now < uv_reveal_deadline_ms (fa_view w')"
    using early late live conjunct1 [OF conjunct2 [OF conjunct2 [OF 3]]] by (auto simp: deadline_kept_def)
  ultimately show ?thesis using 0 5 selection by (simp add: selection_ok_def)
qed

end
