(* ===== verification/Ui_Props.thy ===== *)
theory Ui_Props
  imports Ui_Correct Vault_Runtime_Samples Delivery
begin

text \<open>
  The claims about the device's own screen, for every run of the controller: passes of its task, calls of
  \<open>security_boundary_clear\<close>, and anything the other tasks do to what they share with it.
\<close>

section \<open>Runs\<close>

inductive ui_step ::
  "('e, 'w) ui_setup \<Rightarrow> ui_loop \<times> ('e, 'w) ui_world \<Rightarrow> ui_loop \<times> ('e, 'w) ui_world \<Rightarrow> bool" for sg where
  pass: "ui_step sg st (ui_pass sg b st)"
| boundary: "ui_step sg (lo, w) (lo, security_boundary_clear (ug_env sg) (uw_runtime w) (uw_presence w) w)"
| outside: "ui_step sg (lo, w) (lo, w\<lparr>uw_runtime := r, uw_medium := m, uw_presence := p, fa_time := ts\<rparr>)"

inductive ui_run :: "('e, 'w) ui_setup \<Rightarrow> ui_loop \<times> ('e, 'w) ui_world \<Rightarrow> bool" for sg where
  start: "fa_view w = new_ui_view \<Longrightarrow> ui_run sg (ui_start sg w)"
| step: "ui_run sg st \<Longrightarrow> ui_step sg st st' \<Longrightarrow> ui_run sg st'"

lemma boundary_screen:
  "screen_ok (fa_view (security_boundary_clear env r p w)) \<and>
   \<not> uv_vault_visible (fa_view (security_boundary_clear env r p w)) \<and>
   uv_credentials (fa_view (security_boundary_clear env r p w)) = [] \<and>
   \<not> uv_reveal_active (fa_view (security_boundary_clear env r p w))"
proof -
  define w1 where "w1 = (case metadata r of
      Inr m \<Rightarrow> on_view (\<lambda>v. v\<lparr>uv_runtime_state := md_state m, uv_storage_error := (md_state m = VaultError)\<rparr>) w
    | Inl _ \<Rightarrow> on_view (\<lambda>v. v\<lparr>uv_runtime_state := VaultError, uv_storage_error := True\<rparr>) w)"
  define w2 where "w2 = on_view (\<lambda>v. v\<lparr>uv_last_generate_result := GenOk\<rparr>) (snd (clear_private_view env w1))"
  have res: "security_boundary_clear env r p w = render env p w2"
    by (simp add: security_boundary_clear_def w1_def w2_def Let_def case_prod_beta)
  obtain n where n: "fa_view (snd (clear_private_view env w1)) = reset_label_scroll n (emptied (fa_view w1))"
    using clear_view by blast
  have "selection_ok (fa_view w2) \<and> \<not> uv_vault_visible (fa_view w2) \<and> uv_credentials (fa_view w2) = [] \<and>
      \<not> uv_reveal_active (fa_view w2)"
    by (simp add: w2_def n selection_ok_def)
  with render_screen_ok [of w2 env p] same_fieldsD [of "fa_view w2" "fa_view (render env p w2)"]
  show ?thesis by (simp add: res)
qed

lemma start_screen:
  assumes "fa_view w = new_ui_view"
  shows "screen_ok (fa_view (snd (ui_start sg w)))"
proof -
  define w0 where "w0 = w\<lparr>fa_time := snd (time_status (ug_env sg) (fa_time w))\<rparr>"
  obtain now w1 where mono: "ui_monotonic_ms (ug_env sg) w0 = (now, w1)" by (metis prod.collapse)
  obtain changed w2 where list: "refresh_credentials sg True w1 = (changed, w2)" by (metis prod.collapse)
  have res: "snd (ui_start sg w) = render (ug_env sg) (uw_presence (on_view (reset_label_scroll now) w2))
      (on_view (reset_label_scroll now) w2)"
    using mono list by (simp add: ui_start_def Let_def case_prod_beta w0_def [symmetric])
  have "fa_view w1 = new_ui_view"
    using monotonic_face [of "ug_env sg" w0] mono assms by (metis snd_conv w0_def face.ext_inject face.surjective face.update_convs(2))
  then have "selection_ok (fa_view w2)"
    using refresh_credentials_effect [OF list]
    by (auto simp: list_kept_def list_replaced_def selection_ok_def new_ui_view_def split: if_splits)
  then show ?thesis
    using render_screen_ok [of "on_view (reset_label_scroll now) w2" "ug_env sg"] by (simp add: res)
qed

lemma run_screen: "ui_run sg st \<Longrightarrow> screen_ok (fa_view (snd st))"
proof (induction rule: ui_run.induct)
  case (start w)
  then show ?case by (rule start_screen)
next
  case (step st st')
  from step(2) step.IH show ?case
  proof (cases rule: ui_step.cases)
    case (pass b)
    obtain lo w lo' w' where "st = (lo, w)" "ui_pass sg b (lo, w) = (lo', w')" by (metis prod.collapse)
    with ui_pass_effect [OF this(2) _ refl] step.IH pass show ?thesis by simp
  next
    case (boundary lo w)
    then show ?thesis using boundary_screen [of "ug_env sg" "uw_runtime w" "uw_presence w" w] by simp
  next
    case (outside lo w r m p ts)
    then show ?thesis using step.IH by simp
  qed
qed

section \<open>The scrolling of a label\<close>

text \<open>Where a label that is \<open>m\<close> pixels too wide stands \<open>t\<close> milliseconds after it appeared: still for two
  seconds, then a pixel every 40 ms, then still for two seconds, and over again.\<close>

definition label_position :: "nat \<Rightarrow> nat \<Rightarrow> nat" where
  "label_position m t = (let phase = t mod (4000 + 40 * m)
     in if phase < 2000 then 0 else if phase \<ge> 2000 + 40 * m then m else (phase - 2000) div 40)"

lemma label_position_range: "label_position m t \<le> m"
proof -
  have "(p - 2000) div 40 \<le> m" if "\<not> p \<ge> 2000 + 40 * m" for p :: nat using that by linarith
  then show ?thesis by (auto simp: label_position_def Let_def)
qed

lemma unat_small_mult: "unat (a :: u64) * unat b < 2 ^ 64 \<Longrightarrow> unat (a * b) = unat a * unat b"
  by (simp add: unat_word_ariths)

lemma unat_small_add: "unat (a :: u64) + unat b < 2 ^ 64 \<Longrightarrow> unat (a + b) = unat a + unat b"
  by (simp add: unat_word_ariths)

lemma scroll_multiply: "unat a * unat b < 2 ^ 64 \<Longrightarrow> unat (scroll_saturating_multiply a b) = unat a * unat b"
proof (cases "a = 0 \<or> b = 0")
  case False
  assume small: "unat a * unat b < 2 ^ 64"
  have "unat b > 0" using False by (simp add: word_neq_0_conv word_less_nat_alt)
  then have "unat a \<le> (2 ^ 64 - 1) div unat b" using small by (simp add: less_eq_div_iff_mult_less_eq)
  then have "\<not> a > max_u64 div b" by (simp add: word_less_nat_alt unat_div not_less)
  then show ?thesis using False small by (simp add: scroll_saturating_multiply_def unat_small_mult)
qed (auto simp: scroll_saturating_multiply_def)

lemma scroll_add: "unat a + unat b < 2 ^ 64 \<Longrightarrow> unat (scroll_saturating_add a b) = unat a + unat b"
proof -
  assume small: "unat a + unat b < 2 ^ 64"
  have "unat (max_u64 - b) = 2 ^ 64 - 1 - unat b" by (simp add: unat_sub)
  then have "\<not> a > max_u64 - b" using small by (simp add: word_less_nat_alt)
  then show ?thesis using small by (simp add: scroll_saturating_add_def unat_small_add)
qed

lemma cycle_offset_position:
  assumes "0 < m" "m < 2 ^ 31" "epoch \<le> now"
  shows "cycle_offset_px False epoch now kLabelScrollDelayMs kLabelScrollStepMs kLabelScrollStepPx m kLabelScrollEndDelayMs =
    int (label_position (nat m) (unat now - unat epoch))"
proof -
  define M where "M = (word_of_int m :: u64)"
  have M: "unat M = nat m"
    using assms(1,2) by (simp add: M_def unsigned_of_int take_bit_int_eq_self)
  define D where "D = scroll_saturating_multiply M 40"
  have D: "unat D = 40 * nat m" using scroll_multiply [of M 40] assms(2) by (simp add: D_def M)
  define C where "C = scroll_saturating_add (scroll_saturating_add 2000 D) 2000"
  have C: "unat C = 4000 + 40 * nat m"
    using scroll_add [of 2000 D] scroll_add [of "scroll_saturating_add 2000 D" 2000] assms(2) by (simp add: C_def D)
  have small: "C \<noteq> 0" "C \<noteq> max_u64" using C assms(2) by (auto simp: word_unat_eq_iff)
  define P where "P = (now - epoch) mod C"
  have e: "unat (now - epoch) = unat now - unat epoch" using assms(3) by (simp add: unat_sub)
  have P: "unat P = (unat now - unat epoch) mod (4000 + 40 * nat m)" by (simp add: P_def unat_mod e C)
  have steps: "(M + 1 - 1) div 1 = M" by simp
  have off: "cycle_offset_px False epoch now kLabelScrollDelayMs kLabelScrollStepMs kLabelScrollStepPx m kLabelScrollEndDelayMs =
      (if P < 2000 then 0 else if P - 2000 \<ge> D then m
       else uint (min M (scroll_saturating_multiply ((P - 2000) div 40) 1)))"
  proof -
    have "\<not> (False \<or> now < epoch \<or> kLabelScrollStepMs = 0 \<or> kLabelScrollStepPx \<le> 0 \<or> m \<le> 0)"
      using assms by (simp add: kLabelScrollStepMs_def kLabelScrollStepPx_def not_less)
    then show ?thesis
      unfolding cycle_offset_px_def Let_def
      by (simp only: if_False kLabelScrollDelayMs_def kLabelScrollStepMs_def kLabelScrollStepPx_def
          kLabelScrollEndDelayMs_def of_int_1 steps M_def [symmetric] D_def [symmetric] C_def [symmetric] small
          simp_thms P_def [symmetric])
  qed
  define ph where "ph = unat P"
  have position: "label_position (nat m) (unat now - unat epoch) =
      (if ph < 2000 then 0 else if ph \<ge> 2000 + 40 * nat m then nat m else (ph - 2000) div 40)"
    unfolding label_position_def Let_def P [symmetric] ph_def by (rule refl)
  have less: "P < 2000 \<longleftrightarrow> ph < 2000" by (simp add: word_less_nat_alt ph_def)
  show ?thesis
  proof (cases "ph < 2000")
    case True
    then show ?thesis unfolding off position less by simp
  next
    case False
    then have p: "unat (P - 2000) = ph - 2000" using less by (simp add: unat_sub not_less ph_def)
    have end_iff: "P - 2000 \<ge> D \<longleftrightarrow> ph \<ge> 2000 + 40 * nat m"
      using False by (simp add: word_le_nat_alt p D) linarith
    show ?thesis
    proof (cases "ph \<ge> 2000 + 40 * nat m")
      case True
      then show ?thesis unfolding off position less end_iff using False assms(1) by simp
    next
      case mid: False
      define K where "K = (P - 2000) div 40"
      have K: "unat K = (ph - 2000) div 40" by (simp add: K_def unat_div p)
      have s: "unat (scroll_saturating_multiply K 1) = unat K"
        using scroll_multiply [of K 1] unat_u64_less [of K] by simp
      have "unat K \<le> nat m" unfolding K using mid by linarith
      then have "scroll_saturating_multiply K 1 \<le> M" using s M by (simp add: word_le_nat_alt)
      then have "min M (scroll_saturating_multiply K 1) = scroll_saturating_multiply K 1" by (rule min_absorb2)
      then have "uint (min M (scroll_saturating_multiply K 1)) = int (unat K)" using s by (metis uint_nat)
      then show ?thesis unfolding off position less end_iff K_def [symmetric] using False mid K by simp
    qed
  qed
qed

section \<open>What a revealed code is\<close>

lemma period_fields:
  "unat (va_period_index (from_unix_seconds u)) = unat u div 30"
  "unat (va_seconds_remaining (from_unix_seconds u)) = 30 - unat u mod 30"
proof -
  show "unat (va_period_index (from_unix_seconds u)) = unat u div 30"
    by (simp add: from_unix_seconds_def kPeriodSeconds_def unat_div)
  have m: "unat (u mod 30) = unat u mod 30" by (simp add: unat_mod)
  then have le: "u mod 30 \<le> 30" by (simp add: word_le_nat_alt)
  have "unat (30 - u mod 30) = 30 - unat u mod 30" using unat_sub [OF le] m by simp
  then show "unat (va_seconds_remaining (from_unix_seconds u)) = 30 - unat u mod 30"
    by (simp add: from_unix_seconds_def kPeriodSeconds_def unsigned_ucast_eq unsigned_take_bit_eq take_bit_nat_eq_self)
qed

text \<open>The code of a credential that the attempt \<open>i\<close> (of \<open>n\<close>) commits, with \<open>ts\<close> the clock before the first one. An
  attempt reads the timer four times: twice before it uses the secret, then for the time of the code,
  and again when the code is there. The attempts before it saw the period change between the last two.\<close>

definition code_of ::
  "('e, 'w) ui_setup \<Rightarrow> runtime \<Rightarrow> 'e time_service \<Rightarrow> nat \<Rightarrow> bytes \<Rightarrow> ('e, 'w) ui_world \<Rightarrow> bool" where
  "code_of sg r ts n a w \<longleftrightarrow> (\<exists>vault cred i u now. open_resident_vault (ug_gcm sg) r = Inr vault \<and>
     cred \<in> set (vp_credentials vault) \<and> cr_credential_id cred = a \<and> supported_credential cred \<and> i < n \<and>
     (\<forall>j<i. \<exists>u' now'. clock_reading (ug_env sg) ts (4 * j + 2) = Some u' \<and>
        clock_reading (ug_env sg) ts (4 * j + 3) = Some now' \<and> unat u' div 30 \<noteq> unat now' div 30) \<and>
     clock_reading (ug_env sg) ts (4 * i + 2) = Some u \<and> clock_reading (ug_env sg) ts (4 * i + 3) = Some now \<and>
     tv_env (fa_time w) = timer_at (ug_env sg) (tv_env ts) (4 * i + 4) \<and> unat u div 30 = unat now div 30 \<and>
     totp_of (ug_hmac sg) (cr_secret cred) u (uv_revealed_code (fa_view w)) \<and>
     unat (uv_revealed_period_index (fa_view w)) = unat now div 30 \<and>
     unat (uv_validity_seconds_remaining (fa_view w)) = 30 - unat now mod 30)"

text \<open>An attempt that is given up only moves the readings of the later ones.\<close>

lemma code_of_later:
  assumes "code_of sg r (ts\<lparr>tv_env := timer_at (ug_env sg) (tv_env ts) 4\<rparr>) n a w"
    and "clock_reading (ug_env sg) ts 2 = Some u0" "clock_reading (ug_env sg) ts 3 = Some now0"
    and "unat u0 div 30 \<noteq> unat now0 div 30"
  shows "code_of sg r ts (Suc n) a w"
proof -
  have shift: "clock_reading (ug_env sg) (ts\<lparr>tv_env := timer_at (ug_env sg) (tv_env ts) 4\<rparr>) (4 * j + k) =
      clock_reading (ug_env sg) ts (4 * Suc j + k)" for j k
    by (simp add: reading_shift add.assoc [symmetric])
  from assms(1) obtain vault cred i u now where code: "open_resident_vault (ug_gcm sg) r = Inr vault"
      "cred \<in> set (vp_credentials vault)" "cr_credential_id cred = a" "supported_credential cred" "i < n"
      "clock_reading (ug_env sg) ts (4 * Suc i + 2) = Some u" "clock_reading (ug_env sg) ts (4 * Suc i + 3) = Some now"
      "tv_env (fa_time w) = timer_at (ug_env sg) (tv_env ts) (4 * Suc i + 4)" "unat u div 30 = unat now div 30"
      "totp_of (ug_hmac sg) (cr_secret cred) u (uv_revealed_code (fa_view w))"
      "unat (uv_revealed_period_index (fa_view w)) = unat now div 30"
      "unat (uv_validity_seconds_remaining (fa_view w)) = 30 - unat now mod 30"
    and before: "\<forall>j<i. \<exists>u' now'. clock_reading (ug_env sg) ts (4 * Suc j + 2) = Some u' \<and>
        clock_reading (ug_env sg) ts (4 * Suc j + 3) = Some now' \<and> unat u' div 30 \<noteq> unat now' div 30"
    unfolding code_of_def shift by (auto simp: timer_at_add)
  have "\<exists>u' now'. clock_reading (ug_env sg) ts (4 * j + 2) = Some u' \<and>
      clock_reading (ug_env sg) ts (4 * j + 3) = Some now' \<and> unat u' div 30 \<noteq> unat now' div 30" if "j < Suc i" for j
    using that before assms(2-4) by (cases j) (auto simp del: add_2_eq_Suc')
  moreover have "Suc i < Suc n" using code(5) by simp
  ultimately show ?thesis using code unfolding code_of_def by blast
qed

lemma open_resident_last_used: "open_resident_vault g (r\<lparr>rt_last_used := a\<rparr>) = open_resident_vault g r"
  by (simp add: open_resident_vault_def split: option.split prod.split)

lemma code_of_last_used: "code_of sg (r\<lparr>rt_last_used := b\<rparr>) ts n a w = code_of sg r ts n a w"
  by (simp add: code_of_def open_resident_last_used)

lemma attempts_code:
  assumes "refresh_attempts sg n code w = (True, w')" "\<And>k m d. ug_hmac sg k m = Some d \<Longrightarrow> length d = 20"
  shows "code_of sg (uw_runtime w) (fa_time w) n (vw_credential_id (selected_credential (fa_view w))) w'"
  using assms(1)
proof (induction n arbitrary: code w)
  case 0
  then show ?case by simp
next
  case (Suc n)
  define a where "a = vw_credential_id (selected_credential (fa_view w))"
  let ?env = "ug_env sg" and ?ts = "fa_time w"
  obtain gn r m where gen: "generate_for_credential ?env (ug_persistence sg) (ug_gcm sg) (ug_hmac sg) a code
      ?ts (uw_runtime w, uw_medium w) = (gn, r, m)"
    by (metis prod_cases3)
  have ok: "gn_result gn = GenOk" using Suc.prems by (auto simp: gen a_def [symmetric] Let_def split: if_splits)
  have "rt_state (uw_runtime w) = Unlocked \<and> r = (uw_runtime w)\<lparr>rt_last_used := Some a\<rparr> \<and>
      clock_reading ?env ?ts 2 = Some (gn_unix_seconds gn) \<and> gn_time gn = ?ts\<lparr>tv_env := timer_at ?env (tv_env ?ts) 3\<rparr> \<and>
      (\<exists>v c. open_resident_vault (ug_gcm sg) (uw_runtime w) = Inr v \<and> c \<in> set (vp_credentials v) \<and>
         cr_credential_id c = a \<and> supported_credential c \<and>
         totp_of (ug_hmac sg) (cr_secret c) (gn_unix_seconds gn) (gn_code gn))"
    by (rule generated_code [OF gen _ ok]) (rule assms(2))
  then obtain vault cred where made: "r = (uw_runtime w)\<lparr>rt_last_used := Some a\<rparr>"
      "clock_reading ?env ?ts 2 = Some (gn_unix_seconds gn)" "gn_time gn = ?ts\<lparr>tv_env := timer_at ?env (tv_env ?ts) 3\<rparr>"
      "open_resident_vault (ug_gcm sg) (uw_runtime w) = Inr vault" "cred \<in> set (vp_credentials vault)"
      "cr_credential_id cred = a" "supported_credential cred"
      "totp_of (ug_hmac sg) (cr_secret cred) (gn_unix_seconds gn) (gn_code gn)"
    by blast
  have again: "service_unix_seconds ?env (gn_time gn) = (clock_reading ?env ?ts 3, ?ts\<lparr>tv_env := timer_at ?env (tv_env ?ts) 4\<rparr>)"
    by (simp add: read_clock made(3) clock_reading_def eval_nat_numeral)
  define w1 where "w1 = (on_view (\<lambda>v. v\<lparr>uv_last_generate_result := gn_result gn\<rparr>)
      (w\<lparr>fa_time := gn_time gn, uw_runtime := r, uw_medium := m\<rparr>))\<lparr>fa_time := ?ts\<lparr>tv_env := timer_at ?env (tv_env ?ts) 4\<rparr>\<rparr>"
  have w1: "vw_credential_id (selected_credential (fa_view w1)) = a" "uw_runtime w1 = r"
    "fa_time w1 = ?ts\<lparr>tv_env := timer_at ?env (tv_env ?ts) 4\<rparr>"
    by (simp_all add: w1_def selected_credential_def a_def)
  obtain now where now: "clock_reading ?env ?ts 3 = Some now"
    and run: "(True, w') = (if \<not> same_period (from_unix_seconds (gn_unix_seconds gn)) (from_unix_seconds now)
      then refresh_attempts sg n 0 w1
      else (True, on_view (\<lambda>v. v\<lparr>uv_revealed_code := gn_code gn,
        uv_revealed_period_index := va_period_index (from_unix_seconds now),
        uv_validity_seconds_remaining := va_seconds_remaining (from_unix_seconds now)\<rparr>) w1))"
    using Suc.prems ok
    by (cases "clock_reading ?env ?ts 3") (simp_all add: gen a_def [symmetric] Let_def again w1_def split: if_split_asm)
  have period: "same_period (from_unix_seconds (gn_unix_seconds gn)) (from_unix_seconds now) \<longleftrightarrow>
      unat (gn_unix_seconds gn) div 30 = unat now div 30"
    by (metis same_period_def period_fields(1) word_unat_eq_iff)
  show ?case
  proof (cases "same_period (from_unix_seconds (gn_unix_seconds gn)) (from_unix_seconds now)")
    case False
    then have "refresh_attempts sg n 0 w1 = (True, w')" using run by simp
    from Suc.IH [OF this] have "code_of sg (uw_runtime w) (?ts\<lparr>tv_env := timer_at ?env (tv_env ?ts) 4\<rparr>) n a w'"
      using w1 made(1) by (simp add: code_of_last_used)
    from code_of_later [OF this made(2) now] show ?thesis using False period a_def by simp
  next
    case True
    then have "fa_view w' = (fa_view w1)\<lparr>uv_revealed_code := gn_code gn,
        uv_revealed_period_index := va_period_index (from_unix_seconds now),
        uv_validity_seconds_remaining := va_seconds_remaining (from_unix_seconds now)\<rparr>" "fa_time w' = fa_time w1"
      using run by simp_all
    then show ?thesis
      using made now period True period_fields [of now] w1(3) unfolding code_of_def a_def [symmetric]
      by (intro exI [of _ vault] exI [of _ cred] exI [of _ "0 :: nat"] exI [of _ "gn_unix_seconds gn"] exI [of _ now])
        (simp del: add_2_eq_Suc')
  qed
qed

section \<open>A device to try it on\<close>

text \<open>The Vault of \<open>demo_store\<close>, unlocked; the platform's state is the timer, in microseconds.\<close>

definition ticking :: "int esp_env" where
  "ticking = \<lparr>ee_call = \<lambda>c t. (NetOk, t), ee_create_station = \<lambda>t. (True, t), ee_ip_address = \<lambda>t. (None, t),
     ee_gettimeofday = \<lambda>t. (None, t), ee_timer = \<lambda>t. (t, t), ee_ticks = \<lambda>ms. of_nat ms\<rparr>"

definition demo_hmac :: hmac_provider where "demo_hmac key msg = Some rfc4226_digest"

definition demo_ui :: "(int, persisted_snapshot) ui_setup" where
  "demo_ui = \<lparr>ug_env = ticking, ug_persistence = memory_store, ug_gcm = toy_gcm, ug_hmac = demo_hmac,
     ug_text_width = \<lambda>_. 12, ug_display_width = 240\<rparr>"

definition demo_time :: "int \<Rightarrow> int time_service" where
  "demo_time t = (new_time_service t)\<lparr>tv_clock := \<lparr>tc_synchronized = True, tc_base_unix_seconds = 1000,
     tc_base_monotonic_us = 0, tc_source = SourceUsb\<rparr>\<rparr>"

definition demo_world :: "(int, persisted_snapshot) ui_world" where
  "demo_world = \<lparr>fa_view = new_ui_view, fa_time = demo_time 5000000, uw_runtime = demo_unlocked,
     uw_medium = demo_store, uw_presence = initial_presence\<rparr>"

definition no_button :: buttons where
  "no_button = \<lparr>bt_pressed = False, bt_was_pressed = False, bt_decide_click_count = False, bt_hold_thresh = 500,
     bt_was_hold = False, bt_was_double_clicked = False, bt_was_single_clicked = False\<rparr>"

definition hold_button :: buttons where "hold_button = no_button\<lparr>bt_was_hold := True\<rparr>"

definition demo_view :: ui_view where
  "demo_view = new_ui_view\<lparr>uv_credentials := [\<lparr>vw_credential_id = zeros 16, vw_issuer = ascii ''a'', vw_account = [],
       vw_display_name = []\<rparr>], uv_visible_generation := 4, uv_runtime_state := Unlocked, uv_vault_visible := True,
     uv_label_scroll_epoch_ms := 5000, uv_screen := \<lparr>sc_primary = BandState Unlocked, sc_secondary = BandReadiness Ready,
       sc_tertiary = BandPosition 1 1, sc_fourth = BandLabel (ascii ''a'') 0, sc_fifth = BandHelp\<rparr>\<rparr>"

definition demo_loop :: ui_loop where
  "demo_loop = \<lparr>lo_previous_readiness = Ready, lo_previous_presence = canonical_view initial_presence,
     lo_last_refresh_ms = 5000\<rparr>"

lemma demo_clock_reads:
  "time_status ticking (demo_time t) = (clock_snapshot t (tv_clock (demo_time t)), demo_time t)"
  "service_unix_seconds ticking (demo_time t) = (current_unix_seconds t (tv_clock (demo_time t)), demo_time t)"
  "on_env (ee_timer ticking) (demo_time t) = (t, demo_time t)"
  by (simp_all add: read_clock on_env_def ticking_def demo_time_def new_time_service_def)

lemma demo_clock_at:
  "0 \<le> t \<Longrightarrow> t \<le> 8000000 \<Longrightarrow> ts_readiness (clock_snapshot t (tv_clock (demo_time t))) = Ready"
  "current_unix_seconds 5000000 (tv_clock (demo_time 5000000)) = Some 1005"
  "current_unix_seconds 6000000 (tv_clock (demo_time 6000000)) = Some 1006"
  by (simp_all add: clock_snapshot_def current_unix_seconds_def demo_time_def elapsed_us_def kStaleAfterSeconds_def Let_def)

lemma demo_list:
  "list_credentials toy_gcm demo_unlocked = (Ok, [metadata_of demo_credential], demo_unlocked)"
  by (simp add: list_credentials_def demo_unlocked_flags demo_opens demo_plaintext_def)

lemma demo_metadata:
  "metadata demo_unlocked = Inr m \<Longrightarrow> md_state m = Unlocked \<and> md_generation m = 4 \<and> md_last_used m = None"
  "\<exists>m. metadata demo_unlocked = Inr m"
  by (auto simp: metadata_def demo_unlocked_flags) (simp_all add: demo_unlocked_def demo_locked_def new_runtime_def)

lemma demo_ui_fields [simp]:
  "ug_env demo_ui = ticking" "ug_persistence demo_ui = memory_store" "ug_gcm demo_ui = toy_gcm"
  "ug_hmac demo_ui = demo_hmac" "ug_text_width demo_ui s = 12" "ug_display_width demo_ui = 240"
  by (simp_all add: demo_ui_def)

lemma demo_world_fields [simp]:
  "fa_view demo_world = new_ui_view" "fa_time demo_world = demo_time 5000000" "uw_runtime demo_world = demo_unlocked"
  "uw_medium demo_world = demo_store" "uw_presence demo_world = initial_presence"
  "demo_world\<lparr>fa_time := demo_time 5000000\<rparr> = demo_world"
  by (simp_all add: demo_world_def)

lemma idle_presence [simp]: "\<not> gate_active (cp_gate initial_presence)"
  by (simp add: initial_presence_def gate_active_def)

lemma ticking_render: "fa_time w = demo_time t \<Longrightarrow> 0 \<le> t \<Longrightarrow> t \<le> 8000000 \<Longrightarrow> render ticking p w =
    on_view (\<lambda>v. v\<lparr>uv_screen := if gate_active (cp_gate p) then request_screen (canonical_view p) else status_screen Ready v\<rparr>) w"
  by (simp add: render_def demo_clock_reads demo_clock_at Let_def canonical_view_def render_status_eq on_view_def)

lemma ticking_ms: "fa_time w = demo_time t \<Longrightarrow>
    ui_monotonic_ms ticking w = (if t \<le> 0 then 0 else word_of_int (t div 1000), w)"
  by (simp add: ui_monotonic_ms_def demo_clock_reads)

lemma ticking_scroll: "fa_time w = demo_time t \<Longrightarrow>
    reset_scroll_now ticking w = on_view (reset_label_scroll (if t \<le> 0 then 0 else word_of_int (t div 1000))) w"
  by (simp add: reset_scroll_now_def ticking_ms)

lemma ticking_hide: "fa_time w = demo_time t \<Longrightarrow> hide_reveal ticking w =
    on_view (\<lambda>v. reset_label_scroll (if t \<le> 0 then 0 else word_of_int (t div 1000)) (concealed v)) w"
  by (simp add: hide_reveal_def ticking_scroll on_view_def concealed_def)

lemma ticking_clear: "fa_time w = demo_time t \<Longrightarrow> clear_private_view ticking w =
    (uv_vault_visible (fa_view w) \<or> uv_credentials (fa_view w) \<noteq> [] \<or> uv_reveal_active (fa_view w),
     on_view (\<lambda>v. reset_label_scroll (if t \<le> 0 then 0 else word_of_int (t div 1000)) (emptied v)) w)"
  by (simp add: clear_private_view_def ticking_hide ticking_scroll Let_def on_view_def emptied_def reset_label_scroll_def)

lemma demo_ui_start: "ui_start demo_ui demo_world = (demo_loop, demo_world\<lparr>fa_view := demo_view\<rparr>)"
proof -
  obtain m where m: "metadata demo_unlocked = Inr m" using demo_metadata(2) by blast
  note md = demo_metadata(1) [OF m]
  have "refresh_credentials demo_ui True demo_world =
      (True, demo_world\<lparr>fa_view := demo_view\<lparr>uv_screen := starting_screen\<rparr>\<rparr>)"
    using md by (simp add: refresh_credentials_def refresh_known_def reload_credentials_def m
        ticking_clear [of _ 5000000] ticking_scroll [of _ 5000000] demo_list on_view_def Let_def preferred_credential_def
        preferred_index_def view_of_def metadata_of_def demo_credential_def new_ui_view_def reset_label_scroll_def
        emptied_def concealed_def demo_view_def)
  then show ?thesis
    by (simp add: ui_start_def Let_def demo_clock_reads demo_clock_at ticking_ms [of _ 5000000]
        ticking_render [of _ 5000000] on_view_def demo_loop_def demo_view_def new_ui_view_def status_screen_def
        label_shown_def selected_credential_def display_label_def reset_label_scroll_def generate_error_def ascii_def)
qed

definition demo_used :: runtime where "demo_used = demo_unlocked\<lparr>rt_last_used := Some (zeros 16)\<rparr>"

definition demo_stored :: persisted_snapshot where "demo_stored = demo_store\<lparr>ps_last_used := Some (zeros 16)\<rparr>"

lemma demo_generate:
  "generate_for_credential ticking memory_store toy_gcm demo_hmac (zeros 16) 0 (demo_time 5000000) (demo_unlocked, demo_store) =
     (\<lparr>gn_result = GenOk, gn_code = 872921, gn_unix_seconds = 1005, gn_time = demo_time 5000000\<rparr>, demo_used, demo_stored)"
proof -
  have "hotp_value rfc4226_digest = 872921" "length rfc4226_digest = 20"
    by (simp_all add: hotp_value_def rfc4226_digest_def be_number_def Let_def)
  then have raw: "generate_raw_with_provider [1, 2, 3] 1005 (Some demo_hmac) 0 = (CoreOk, 872921)"
    using generate_key_hotp [of demo_hmac 1005 "[1, 2, 3]" 0]
    by (auto simp: generate_raw_with_provider_def demo_hmac_def)
  show ?thesis
    by (simp add: generate_for_credential_def demo_clock_reads demo_clock_at Let_def with_credential_def demo_unlocked_flags
        demo_opens demo_plaintext_def demo_credential_def find_credential_def generate_in_vault_def supported_credential_def
        kSha1_def kDigits_def kPeriodSeconds_def raw demo_used_def memory_store_def demo_stored_def)
qed

text \<open>The button is held.\<close>

definition demo_revealed :: ui_view where
  "demo_revealed = demo_view\<lparr>uv_reveal_active := True, uv_revealed_code := 872921, uv_reveal_deadline_ms := 15000,
     uv_revealed_period_index := 33, uv_validity_seconds_remaining := 15,
     uv_screen := (uv_screen demo_view)\<lparr>sc_tertiary := BandValid 15, sc_fifth := BandOtp 872921\<rparr>\<rparr>"

lemma demo_validity: "from_unix_seconds 1005 = \<lparr>va_period_index = 33, va_seconds_remaining = 15\<rparr>"
  "from_unix_seconds 1006 = \<lparr>va_period_index = 33, va_seconds_remaining = 14\<rparr>"
  by (simp_all add: from_unix_seconds_def kPeriodSeconds_def)

lemma observed_demo: "observed_state demo_unlocked = Unlocked" "observed_state demo_used = Unlocked"
  by (simp_all add: observed_Unlocked demo_used_def demo_unlocked_flags)

lemma demo_hold: "ui_pass demo_ui hold_button (demo_loop, demo_world\<lparr>fa_view := demo_view\<rparr>) =
    (demo_loop, demo_world\<lparr>fa_view := demo_revealed, uw_runtime := demo_used, uw_medium := demo_stored\<rparr>)"
proof -
  let ?w = "demo_world\<lparr>fa_view := demo_view\<rparr>"
  have same: "demo_world\<lparr>fa_view := demo_view, uw_presence := initial_presence\<rparr> = ?w" by (simp add: demo_world_def)
  have quarantine: "demo_view\<lparr>uv_quarantine := quarantine_cancel\<rparr> = demo_view" "uv_quarantine demo_view = quarantine_cancel"
    by (simp_all add: demo_view_def new_ui_view_def)
  have "canonical_expire 5000 initial_presence = (False, initial_presence)"
    by (simp add: canonical_expire_def gate_expire_result initial_presence_def)
  then have presence: "pass_presence hold_button 5000 demo_loop ?w =
      (\<lparr>pp_dirty = False, pp_changed = False, pp_current = canonical_view initial_presence\<rparr>, demo_loop, ?w)"
    by (simp add: pass_presence_def Let_def demo_loop_def same_presence_def canonical_view_def on_view_def
        quarantine_observe_def quarantine same) (simp add: quarantine_cancel_def quarantine)
  have watch: "pass_watch demo_ui 5000 False demo_loop ?w = ((False, ?w), demo_loop)"
    by (simp add: pass_watch_def demo_clock_reads demo_clock_at Let_def demo_loop_def watch_vault_def watch_reveal_def
        observed_demo) (simp add: demo_view_def new_ui_view_def demo_world_def)
  have reveal: "pass_reveal demo_ui False ?w = (\<lparr>rd_dirty = False, rd_rollover = False, rd_validity = False\<rparr>, ?w)"
    by (simp add: pass_reveal_def demo_view_def new_ui_view_def Let_def)
  define v1 where "v1 = demo_view\<lparr>uv_reveal_active := True, uv_revealed_code := 872921, uv_reveal_deadline_ms := 15000,
     uv_revealed_period_index := 33, uv_validity_seconds_remaining := 15\<rparr>"
  define w1 where "w1 = ?w\<lparr>fa_view := v1, uw_runtime := demo_used, uw_medium := demo_stored\<rparr>"
  have "reveal_selected demo_ui 5000 ?w = w1"
  proof -
    have hide: "hide_reveal ticking ?w = ?w"
      by (simp add: ticking_hide [of _ 5000000] on_view_def reset_label_scroll_def concealed_def demo_view_def
          new_ui_view_def demo_world_def)
    have none: "on_view (\<lambda>v. v\<lparr>uv_last_generate_result := GenOk\<rparr>) ?w = ?w"
      by (simp add: on_view_def demo_view_def new_ui_view_def demo_world_def)
    have shown: "label_shown demo_view" "vw_credential_id (selected_credential demo_view) = zeros 16"
      by (simp_all add: label_shown_def selected_credential_def demo_view_def new_ui_view_def)
    show ?thesis
      by (simp add: reveal_selected_def hide none refresh_revealed_totp_def shown numeral_2_eq_2 demo_generate Let_def
          demo_clock_reads demo_clock_at same_period_def demo_validity)
        (simp add: on_view_def w1_def v1_def demo_world_def reset_label_scroll_def reveal_deadline_def
          kOtpRevealDurationMs_def demo_view_def new_ui_view_def label_shown_def)
  qed
  then have gestures: "pass_gestures demo_ui hold_button 5000 (canonical_view initial_presence)
      (\<lparr>rd_dirty = False, rd_rollover = False, rd_validity = False\<rparr>, ?w) =
      (\<lparr>rd_dirty = True, rd_rollover = False, rd_validity = False\<rparr>, w1)"
    by (simp add: pass_gestures_def canonical_view_def hold_button_def quarantine quarantine_cancel_def)
  have w1: "fa_view w1 = v1" "uw_presence w1 = initial_presence" "fa_time w1 = demo_time 5000000"
    by (simp_all add: w1_def)
  have refresh: "pass_refresh demo_ui 5000 Unlocked (canonical_view initial_presence) demo_loop
      (\<lparr>rd_dirty = True, rd_rollover = False, rd_validity = False\<rparr>, w1) =
      (\<lparr>rd_dirty = True, rd_rollover = False, rd_validity = False\<rparr>, demo_loop, w1)"
    by (simp add: pass_refresh_def demo_loop_def kCredentialRefreshIntervalMs_def)
  have "update_label_scroll demo_ui 5000 v1 = (False, v1)"
    by (simp add: update_label_scroll_def v1_def demo_view_def new_ui_view_def label_shown_def update_offset_def
        content_viewport_width_def kContentLeftPx_def Let_def)
  then have draw: "pass_draw demo_ui 5000 Unlocked (canonical_view initial_presence)
      \<lparr>rd_dirty = True, rd_rollover = False, rd_validity = False\<rparr> w1 =
      w1\<lparr>fa_view := demo_revealed\<rparr>"
    by (simp add: pass_draw_def w1 Let_def canonical_view_def ticking_render [of _ 5000000] on_view_def)
      (simp add: demo_revealed_def v1_def w1_def demo_view_def new_ui_view_def status_screen_def label_shown_def
        selected_credential_def display_label_def ascii_def)
  show ?thesis
    by (simp add: ui_pass_def Let_def ticking_ms [of _ 5000000] presence watch reveal gestures refresh draw observed_demo)
      (simp add: w1_def demo_world_def)
qed

lemma demo_refresh: "fst (refresh_revealed_totp demo_ui (demo_world\<lparr>fa_view := demo_view\<rparr>))"
proof -
  have "label_shown demo_view" "vw_credential_id (selected_credential demo_view) = zeros 16"
    by (simp_all add: label_shown_def selected_credential_def demo_view_def new_ui_view_def)
  then show ?thesis
    by (simp add: refresh_revealed_totp_def numeral_2_eq_2 demo_generate Let_def demo_clock_reads demo_clock_at
        same_period_def demo_validity)
qed

lemma demo_runs:
  "ui_run demo_ui (demo_loop, demo_world\<lparr>fa_view := demo_view\<rparr>)"
  "ui_run demo_ui (demo_loop, demo_world\<lparr>fa_view := demo_revealed, uw_runtime := demo_used, uw_medium := demo_stored\<rparr>)"
proof -
  show shown: "ui_run demo_ui (demo_loop, demo_world\<lparr>fa_view := demo_view\<rparr>)"
    using ui_run.start [of demo_world demo_ui] by (simp add: demo_ui_start)
  show "ui_run demo_ui (demo_loop, demo_world\<lparr>fa_view := demo_revealed, uw_runtime := demo_used, uw_medium := demo_stored\<rparr>)"
    using ui_run.step [OF shown ui_step.pass [of demo_ui _ hold_button]] by (simp add: demo_hold)
qed

section \<open>The claims\<close>

text \<open>C18. Between two passes the display never shows anything private that the controller does not hold: the
  digits are those of the code that is revealed, with its countdown, and the label is that of the selected
  account, in a list whose entries came with the visible Vault. Nothing of a code is kept while none is
  revealed.\<close>

theorem display_shows_what_is_held:
  assumes "ui_run sg (lo, w)" "v = fa_view w"
  shows "(\<forall>c. sc_fifth (uv_screen v) = BandOtp c \<longrightarrow> uv_reveal_active v \<and> c = uv_revealed_code v) \<and>
    (\<forall>n. sc_tertiary (uv_screen v) = BandValid n \<longrightarrow> uv_reveal_active v \<and> n = uv_validity_seconds_remaining v) \<and>
    (\<forall>l i. sc_fourth (uv_screen v) = BandLabel l i \<longrightarrow> uv_vault_visible v \<and> \<not> uv_storage_error v \<and>
       uv_selected_index v < length (uv_credentials v) \<and> l = display_label (uv_credentials v ! uv_selected_index v)) \<and>
    (uv_reveal_active v \<longrightarrow> uv_vault_visible v \<and> uv_selected_index v < length (uv_credentials v)) \<and>
    (\<not> uv_reveal_active v \<longrightarrow> uv_revealed_code v = 0) \<and> (\<not> uv_vault_visible v \<longrightarrow> uv_credentials v = [])"
  using run_screen [OF assms(1)] assms(2)
  by (auto simp: screen_ok_def otp_ok_def valid_ok_def label_ok_def selection_ok_def label_shown_def selected_credential_def)

theorem display_shows_what_is_held_witness:
  "\<exists>lo w. ui_run demo_ui (lo, w) \<and> sc_fifth (uv_screen (fa_view w)) = BandOtp 872921 \<and>
     uv_reveal_active (fa_view w) \<and> uv_revealed_code (fa_view w) = 872921 \<and>
     uv_selected_index (fa_view w) < length (uv_credentials (fa_view w))"
proof -
  note claim = display_shows_what_is_held [OF demo_runs(2) refl]
  have "sc_fifth (uv_screen demo_revealed) = BandOtp 872921" by (simp add: demo_revealed_def)
  with claim demo_runs(2) show ?thesis
    by (intro exI [of _ demo_loop] exI [of _ "demo_world\<lparr>fa_view := demo_revealed, uw_runtime := demo_used, uw_medium := demo_stored\<rparr>"])
      auto
qed

text \<open>C16. After a pass a code is on the display only while the Vault is unlocked, and only for the ten seconds
  (saturating) that began in the pass in which the button was held: no later pass, a new period of the code
  included, moves the deadline, and a pass at or after it hides the code.\<close>

theorem reveal_is_bounded:
  assumes "ui_run sg (lo, w)" "ui_pass sg b (lo, w) = (lo', w')" "now = fst (ui_monotonic_ms (ug_env sg) w)"
    and "sc_fifth (uv_screen (fa_view w')) = BandOtp c"
  shows "rt_initialized (uw_runtime w') \<and> rt_state (uw_runtime w') = Unlocked \<and> uv_reveal_active (fa_view w') \<and>
    (bt_was_hold b \<and> unat (uv_reveal_deadline_ms (fa_view w')) = min (unat now + 10000) (2 ^ 64 - 1) \<or>
     uv_reveal_active (fa_view w) \<and> uv_reveal_deadline_ms (fa_view w') = uv_reveal_deadline_ms (fa_view w) \<and>
       now < uv_reveal_deadline_ms (fa_view w))"
proof -
  have "unat (reveal_deadline now) = min (unat now + 10000) (2 ^ 64 - 1)"
    unfolding reveal_deadline_def saturating_deadline_def [symmetric] unat_saturating_deadline
    by (simp add: kOtpRevealDurationMs_def min.commute)
  moreover have "screen_ok (fa_view w)" using run_screen [OF assms(1)] by simp
  note effect = ui_pass_effect [OF assms(2) this assms(3)]
  moreover have "uv_reveal_active (fa_view w')" using effect assms(4) by (simp add: screen_ok_def otp_ok_def)
  ultimately show ?thesis by (auto simp: observed_Unlocked)
qed

theorem reveal_is_bounded_witness:
  "\<exists>lo w. ui_pass demo_ui hold_button (demo_loop, demo_world\<lparr>fa_view := demo_view\<rparr>) = (lo, w) \<and>
     rt_state (uw_runtime w) = Unlocked \<and> unat (uv_reveal_deadline_ms (fa_view w)) = 15000"
proof -
  have "fst (ui_monotonic_ms (ug_env demo_ui) (demo_world\<lparr>fa_view := demo_view\<rparr>)) = 5000"
    by (simp add: ticking_ms [of _ 5000000])
  moreover have "sc_fifth (uv_screen demo_revealed) = BandOtp 872921" "\<not> uv_reveal_active demo_view"
    by (simp_all add: demo_revealed_def demo_view_def new_ui_view_def)
  ultimately show ?thesis
    using reveal_is_bounded [OF demo_runs(1) demo_hold refl, of 872921] demo_hold by auto
qed

text \<open>C39. A pass that finds the Vault not unlocked, and \<open>security_boundary_clear\<close> at once, leave no account,
  no label and no code: neither in the fields nor on the display.\<close>

theorem locked_display_is_clear:
  assumes "ui_run sg (lo, w)"
    and "(\<exists>b. \<not> (rt_initialized (uw_runtime w) \<and> rt_state (uw_runtime w) = Unlocked) \<and> w' = snd (ui_pass sg b (lo, w))) \<or>
      w' = security_boundary_clear (ug_env sg) (uw_runtime w) (uw_presence w) w"
  shows "uv_credentials (fa_view w') = [] \<and> \<not> uv_vault_visible (fa_view w') \<and> \<not> uv_reveal_active (fa_view w') \<and>
    uv_revealed_code (fa_view w') = 0 \<and> sc_fifth (uv_screen (fa_view w')) \<noteq> BandOtp c \<and>
    sc_fourth (uv_screen (fa_view w')) \<noteq> BandLabel l i"
proof -
  have "screen_ok (fa_view w') \<and> \<not> uv_vault_visible (fa_view w')"
    using assms(2)
  proof
    assume "w' = security_boundary_clear (ug_env sg) (uw_runtime w) (uw_presence w) w"
    then show ?thesis using boundary_screen [of "ug_env sg" "uw_runtime w" "uw_presence w" w] by simp
  next
    assume "\<exists>b. \<not> (rt_initialized (uw_runtime w) \<and> rt_state (uw_runtime w) = Unlocked) \<and> w' = snd (ui_pass sg b (lo, w))"
    then obtain b lo' where b: "observed_state (uw_runtime w) \<noteq> Unlocked" "ui_pass sg b (lo, w) = (lo', w')"
      by (metis observed_Unlocked prod.collapse)
    have "screen_ok (fa_view w)" using run_screen [OF assms(1)] by simp
    with ui_pass_effect [OF b(2) this refl] b(1) show ?thesis by simp
  qed
  then show ?thesis
    by (auto simp: screen_ok_def otp_ok_def label_ok_def selection_ok_def label_shown_def)
qed

theorem locked_display_is_clear_witness:
  "uv_credentials demo_revealed \<noteq> [] \<and>
   (\<exists>w. w = security_boundary_clear ticking demo_used initial_presence
      (demo_world\<lparr>fa_view := demo_revealed, uw_runtime := demo_used, uw_medium := demo_stored\<rparr>) \<and>
      uv_credentials (fa_view w) = [] \<and> sc_fifth (uv_screen (fa_view w)) \<noteq> BandOtp 872921)"
  using locked_display_is_clear [OF demo_runs(2) disjI2, OF refl, of 872921]
  by (auto simp: demo_revealed_def demo_view_def)

text \<open>C17. A code that \<open>refresh_revealed_totp\<close> commits is the RFC 6238 code of the selected account, from the
  Vault that is resident, at the time \<open>u\<close> of the third reading of the timer in the first attempt (\<open>i = 0\<close>)
  or in the second; the reading right after it, the last one of the call, gave \<open>now\<close> in the same period,
  and the period index and the countdown that go with the code are those of \<open>now\<close>. There is a second attempt
  only if the first one saw the period change between those two readings. So a code that its own generation
  outlived is never committed.\<close>

theorem revealed_code_is_current:
  assumes "refresh_revealed_totp sg w = (True, w')" "\<And>k m d. ug_hmac sg k m = Some d \<Longrightarrow> length d = 20"
  shows "\<exists>vault cred i u now. open_resident_vault (ug_gcm sg) (uw_runtime w) = Inr vault \<and>
    cred \<in> set (vp_credentials vault) \<and>
    cr_credential_id cred = vw_credential_id (uv_credentials (fa_view w) ! uv_selected_index (fa_view w)) \<and>
    supported_credential cred \<and> i < 2 \<and>
    (\<forall>j<i. \<exists>u' now'. clock_reading (ug_env sg) (fa_time w) (4 * j + 2) = Some u' \<and>
       clock_reading (ug_env sg) (fa_time w) (4 * j + 3) = Some now' \<and> unat u' div 30 \<noteq> unat now' div 30) \<and>
    clock_reading (ug_env sg) (fa_time w) (4 * i + 2) = Some u \<and>
    clock_reading (ug_env sg) (fa_time w) (4 * i + 3) = Some now \<and>
    tv_env (fa_time w') = timer_at (ug_env sg) (tv_env (fa_time w)) (4 * i + 4) \<and> unat u div 30 = unat now div 30 \<and>
    totp_of (ug_hmac sg) (cr_secret cred) u (uv_revealed_code (fa_view w')) \<and>
    unat (uv_revealed_period_index (fa_view w')) = unat now div 30 \<and>
    unat (uv_validity_seconds_remaining (fa_view w')) = 30 - unat now mod 30"
proof -
  have "refresh_attempts sg 2 0 w = (True, w')"
    using assms(1) by (simp add: refresh_revealed_totp_def split: if_splits)
  then have "code_of sg (uw_runtime w) (fa_time w) 2 (vw_credential_id (selected_credential (fa_view w))) w'"
    by (rule attempts_code) (rule assms(2))
  then show ?thesis by (simp add: code_of_def selected_credential_def)
qed

theorem revealed_code_is_current_witness:
  "\<exists>w' u. refresh_revealed_totp demo_ui (demo_world\<lparr>fa_view := demo_view\<rparr>) = (True, w') \<and>
     totp_of demo_hmac [1, 2, 3] u (uv_revealed_code (fa_view w'))"
proof -
  obtain w' where run: "refresh_revealed_totp demo_ui (demo_world\<lparr>fa_view := demo_view\<rparr>) = (True, w')"
    using demo_refresh by (metis (full_types) prod.collapse)
  have "length d = 20" if "demo_hmac k m = Some d" for k m d
    using that by (auto simp: demo_hmac_def rfc4226_digest_def)
  with revealed_code_is_current [OF run] run show ?thesis
    by (auto simp: demo_opens demo_plaintext_def demo_credential_def)
qed

text \<open>The position of a label that does not fit is what the simple description says, for every width below
  2^31 pixels and every pair of times: the saturating arithmetic of the code never saturates and never
  wraps, and the label is never moved beyond its end.\<close>

theorem label_scroll_position:
  assumes "0 < m" "m < 2 ^ 31" "epoch \<le> now"
  shows "cycle_offset_px False epoch now kLabelScrollDelayMs kLabelScrollStepMs kLabelScrollStepPx m kLabelScrollEndDelayMs =
      int (label_position (nat m) (unat now - unat epoch)) \<and>
    label_position (nat m) (unat now - unat epoch) \<le> nat m"
  using cycle_offset_position [OF assms] label_position_range by simp

theorem label_scroll_position_witness:
  "cycle_offset_px False 5000 9300 kLabelScrollDelayMs kLabelScrollStepMs kLabelScrollStepPx 60 kLabelScrollEndDelayMs = 57 \<and>
   label_position 60 4300 = 57"
  using label_scroll_position [of 60 5000 9300] by (simp add: label_position_def Let_def)

end
