(* ===== verification/Device_Props.thy ===== *)
theory Device_Props
  imports Protocol_Props Ui_Props
begin

text \<open>
  The protocol and the screen together: the callback \<open>security_boundary_clear\<close> that
  \<open>canonical_protocol_v2.cpp\<close> is given in \<open>app_main.cpp\<close> is the controller's.
\<close>

definition ui_callback ::
  "'e esp_env \<Rightarrow> runtime \<Rightarrow> canonical_presence \<Rightarrow> 'e time_service \<times> ui_view \<Rightarrow> 'e time_service \<times> ui_view" where
  "ui_callback env r p shown = (case shown of (ts, v) \<Rightarrow>
     let f = security_boundary_clear env r p \<lparr>fa_view = v, fa_time = ts\<rparr> in (fa_time f, fa_view f))"

lemma callback_screen:
  assumes "ui_callback env r p shown = (ts, v)"
  shows "screen_ok v \<and> \<not> uv_vault_visible v \<and> uv_credentials v = [] \<and> \<not> uv_reveal_active v"
  using assms boundary_screen [of env r p "\<lparr>fa_view = snd shown, fa_time = fst shown\<rparr>"]
  by (auto simp: ui_callback_def Let_def case_prod_beta)

text \<open>C15. When a lock through the protocol has succeeded, nothing private is left anywhere that the user or the
  host could reach: no resident key, no delivered key, no session, and in the fields of the screen and on
  it no account, no label and no code.\<close>

theorem lock_clears_the_display:
  assumes "lock_security_boundary cu s = (Ok, s')" "cu_clear_ui cu = ui_callback (cu_platform cu)"
    and "cu_presence cu = canonical_ops" "rt_initialized (dv_runtime (cq_device s))"
  shows "given_up s' \<and> \<not> rt_vmk_present (dv_runtime (cq_device s')) \<and> all_zero (rt_vmk (dv_runtime (cq_device s'))) \<and>
    uv_credentials (cq_ui s') = [] \<and> uv_revealed_code (cq_ui s') = 0 \<and> \<not> uv_reveal_active (cq_ui s') \<and>
    sc_fifth (uv_screen (cq_ui s')) \<noteq> BandOtp c \<and> sc_fourth (uv_screen (cq_ui s')) \<noteq> BandLabel l i"
proof -
  note res = lock_boundary_result [OF assms(1)]
  have "given_up s'"
    using given_up_cong [OF disconnect_given_up [OF assms(3)], of s s'] res by simp
  moreover have "\<exists>r p shown. ui_callback (cu_platform cu) r p shown = (cq_time s', cq_ui s')"
    using res assms(2) by metis
  then obtain r p shown where "ui_callback (cu_platform cu) r p shown = (cq_time s', cq_ui s')" by blast
  note shown = callback_screen [OF this]
  ultimately show ?thesis
    using res lock_outcome(2) [OF assms(4)]
    by (auto simp: screen_ok_def otp_ok_def label_ok_def selection_ok_def label_shown_def)
qed

definition screen_setup ::
  "(unit, canonical_presence, persisted_snapshot, ram, bool, ui_view, json_tree) canonical_setup" where
  "screen_setup = (let cu = demo_setup canonical_ops [] in
     \<lparr>cu_metadata = cu_metadata cu, cu_json = cu_json cu, cu_primitives = cu_primitives cu, cu_presence = canonical_ops,
      cu_device = cu_device cu, cu_platform = demo_esp, cu_random = cu_random cu, cu_clear_ui = ui_callback demo_esp\<rparr>)"

theorem lock_clears_the_display_witness:
  "\<exists>s'. lock_security_boundary screen_setup
      (new_protocol (demo_parts demo_unlocked) (new_time_service True) initial_presence demo_revealed) = (Ok, s') \<and>
    uv_revealed_code demo_revealed = 872921 \<and> uv_revealed_code (cq_ui s') = 0 \<and>
    \<not> rt_vmk_present (dv_runtime (cq_device s'))"
proof -
  let ?s = "new_protocol (demo_parts demo_unlocked) (new_time_service True) initial_presence demo_revealed ::
    (unit, canonical_presence, persisted_snapshot, ram, bool, ui_view) canonical_protocol"
  obtain st s' where run: "lock_security_boundary screen_setup ?s = (st, s')" by (metis prod.collapse)
  have device: "dv_runtime (cq_device ?s) = demo_unlocked" by (simp add: new_protocol_def demo_parts_def)
  then have "st = Ok" "rt_initialized (dv_runtime (cq_device ?s))"
    using lock_boundary_result [OF run] lock_outcome(1) [of demo_unlocked] demo_unlocked_flags by simp_all
  with lock_clears_the_display [of screen_setup ?s s'] run show ?thesis
    by (auto simp: screen_setup_def Let_def demo_revealed_def)
qed

section \<open>A request and a revealed code\<close>

text \<open>The redraws of a countdown and of a new period are not guarded by the presence, and a request does not end
  a revelation. The pass that draws the request first, and then the ones that poll the button.\<close>

lemma observe_view: "canonical_view (canonical_observe pressed p) = canonical_view p"
  by (simp add: canonical_observe_def canonical_view_def observe_input_state_def gate_active_def Let_def)

lemma observe_gate:
  "gate_request (cp_gate (canonical_observe pressed p)) = gate_request (cp_gate p)"
  "pg_state (cp_gate (canonical_observe pressed p)) = pg_state (cp_gate p)"
  "pg_expires_at_ms (cp_gate (canonical_observe pressed p)) = pg_expires_at_ms (cp_gate p)"
  by (simp_all add: canonical_observe_def observe_input_state_def gate_request_def gate_active_def Let_def)

lemma pass_presence_open:
  assumes "gate_active (cp_gate (uw_presence w))" "now < pg_expires_at_ms (cp_gate (uw_presence w))"
    and "\<not> bt_was_pressed b" "\<not> gq_active (uv_quarantine (fa_view w))"
  shows "pass_presence b now lo w = (let p = uw_presence w; changed = (canonical_view p \<noteq> lo_previous_presence lo) in
    (\<lparr>pp_dirty = changed, pp_changed = changed, pp_current = canonical_view p\<rparr>,
     lo\<lparr>lo_previous_presence := canonical_view p\<rparr>, w\<lparr>uw_presence := canonical_observe (bt_pressed b) p\<rparr>))"
proof -
  have expire: "canonical_expire now (uw_presence w) = (False, uw_presence w)"
    using assms(2) by (simp add: canonical_expire_def gate_expire_result not_le)
  have active: "pv_active (canonical_view (uw_presence w))" using assms(1) by (simp add: canonical_view_def)
  have same: "same_presence l r \<longleftrightarrow> l = r" for l r :: presence_view
    by (cases l; cases r) (simp add: same_presence_def)
  have "lo\<lparr>lo_previous_presence := lo_previous_presence lo\<rparr> = lo" by simp
  moreover have "(fa_view w)\<lparr>uv_quarantine := uv_quarantine (fa_view w)\<rparr> = fa_view w" by simp
  ultimately show ?thesis
    using assms(3,4) by (auto simp: pass_presence_def expire active same Let_def quarantine_observe_def on_view_def)
qed

lemma pass_request_open:
  assumes "pv_active cur"
  shows "pass_gestures sg b ms cur (rd, w) = (rd, w)"
    "pass_refresh sg ms obs cur lo (rd, w) = (rd, lo, w)"
    "pass_draw sg ms obs cur rd w = (if rd_dirty rd then render (ug_env sg) (uw_presence w) w
      else if rd_rollover rd then on_view render_reveal_region w
      else if rd_validity rd then on_view render_reveal_validity w else w)"
  using assms by (simp_all add: pass_gestures_def pass_refresh_def pass_draw_def)

text \<open>The clock, after so many readings of the timer.\<close>

definition read_times :: "'e esp_env \<Rightarrow> 'e time_service \<Rightarrow> nat \<Rightarrow> 'e time_service" where
  "read_times env ts n = ts\<lparr>tv_env := timer_at env (tv_env ts) n\<rparr>"

lemma read_times_reads:
  "snd (time_status env (read_times env ts n)) = read_times env ts (Suc n)"
  "service_unix_seconds env (read_times env ts n) = (clock_reading env ts n, read_times env ts (Suc n))"
  "snd (ui_monotonic_ms env w) = w\<lparr>fa_time := read_times env (fa_time w) 1\<rparr>"
  by (simp_all add: read_times_def read_clock clock_reading_def ui_monotonic_ms_def on_env_def timer_at_def split: prod.split)

text \<open>A pass with nothing to watch: the request, the Vault, the clock and the revelation are as they were.\<close>

lemma pass_watch_quiet:
  assumes "ts_readiness (fst (time_status (ug_env sg) (fa_time w))) = Ready" "lo_previous_readiness lo = Ready"
    and "observed_state (uw_runtime w) = Unlocked" "uv_runtime_state (fa_view w) = Unlocked"
    and "now < uv_reveal_deadline_ms (fa_view w)"
  shows "pass_watch sg now dirty lo w =
    ((dirty, w\<lparr>fa_time := snd (time_status (ug_env sg) (fa_time w))\<rparr>), lo)"
  using assms by (auto simp: pass_watch_def watch_vault_def watch_reveal_def Let_def case_prod_beta dest: leD)

lemma pass_counts_down:
  assumes "uv_reveal_active (fa_view w)" "service_unix_seconds (ug_env sg) (fa_time w) = (Some u, ts)"
    and "va_period_index (from_unix_seconds u) = uv_revealed_period_index (fa_view w)"
    and "va_seconds_remaining (from_unix_seconds u) \<noteq> uv_validity_seconds_remaining (fa_view w)"
  shows "pass_reveal sg dirty w = (\<lparr>rd_dirty = dirty, rd_rollover = False, rd_validity = True\<rparr>,
    on_view (\<lambda>v. v\<lparr>uv_validity_seconds_remaining := va_seconds_remaining (from_unix_seconds u)\<rparr>) (w\<lparr>fa_time := ts\<rparr>))"
  using assms by (simp add: pass_reveal_def Let_def)

text \<open>C40. The countdown replaces what the button would confirm. Let a code be revealed while the request of a
  factory reset is open, unconfirmed and on the display, with its line ERASE DEVICE DATA. In a pass before
  either has expired that finds the Vault unlocked and the time ready, as the pass before it did, in the
  period of the code but in another second than the one on the display, and the button not newly pressed,
  that line, which alone says what is to be confirmed, becomes the countdown of the code; the line
  \<open>Press A to confirm\<close> stays, and the request is what polling the button makes of it: still
  open and still to be confirmed by the same button.\<close>

theorem reset_prompt_is_overwritten:
  assumes run: "ui_pass sg b (lo, w) = (lo', w')"
    and request: "gate_request (cp_gate (uw_presence w)) = Some (PresFactoryReset, a)"
      "pg_state (cp_gate (uw_presence w)) = PresenceAwaiting"
      "lo_previous_presence lo = canonical_view (uw_presence w)"
      "uv_screen (fa_view w) = request_screen (canonical_view (uw_presence w))"
    and early: "fst (ui_monotonic_ms (ug_env sg) w) < pg_expires_at_ms (cp_gate (uw_presence w))"
      "fst (ui_monotonic_ms (ug_env sg) w) < uv_reveal_deadline_ms (fa_view w)"
    and vault: "rt_initialized (uw_runtime w)" "rt_state (uw_runtime w) = Unlocked" "uv_runtime_state (fa_view w) = Unlocked"
    and ready: "lo_previous_readiness lo = Ready"
      "ts_readiness (fst (time_status (ug_env sg) (read_times (ug_env sg) (fa_time w) 1))) = Ready"
    and revealed: "uv_reveal_active (fa_view w)" "clock_reading (ug_env sg) (fa_time w) 2 = Some u"
      "unat (uv_revealed_period_index (fa_view w)) = unat u div 30"
      "unat (uv_validity_seconds_remaining (fa_view w)) \<noteq> 30 - unat u mod 30"
    and button: "\<not> bt_was_pressed b" "\<not> gq_active (uv_quarantine (fa_view w))"
  shows "sc_tertiary (uv_screen (fa_view w)) = BandText ''ERASE DEVICE DATA'' \<and>
    (\<exists>n. unat n = 30 - unat u mod 30 \<and>
      uv_screen (fa_view w') = (uv_screen (fa_view w))\<lparr>sc_tertiary := BandValid n\<rparr>) \<and>
    sc_fourth (uv_screen (fa_view w')) = BandText ''Press A to confirm'' \<and>
    uw_presence w' = canonical_observe (bt_pressed b) (uw_presence w) \<and>
    gate_request (cp_gate (uw_presence w')) = Some (PresFactoryReset, a) \<and>
    pg_state (cp_gate (uw_presence w')) = PresenceAwaiting"
proof -
  let ?env = "ug_env sg" and ?p = "uw_presence w" and ?va = "from_unix_seconds u"
  define now where "now = fst (ui_monotonic_ms ?env w)"
  define w1 where "w1 = w\<lparr>fa_time := read_times ?env (fa_time w) 1, uw_presence := canonical_observe (bt_pressed b) ?p\<rparr>"
  define w2 where "w2 = w1\<lparr>fa_time := read_times ?env (fa_time w) 2\<rparr>"
  have mono: "ui_monotonic_ms ?env w = (now, w\<lparr>fa_time := read_times ?env (fa_time w) 1\<rparr>)"
    by (metis now_def prod.collapse read_times_reads(3))
  have active: "gate_active (cp_gate ?p)" "pv_active (canonical_view ?p)"
    using request(2) by (simp_all add: gate_active_def canonical_view_def)
  have keep: "lo\<lparr>lo_previous_presence := canonical_view ?p\<rparr> = lo" using request(3) by (metis ui_loop.surjective ui_loop.update_convs(2) ui_loop.ext_inject)
  have presence: "pass_presence b now lo (w\<lparr>fa_time := read_times ?env (fa_time w) 1\<rparr>) =
      (\<lparr>pp_dirty = False, pp_changed = False, pp_current = canonical_view ?p\<rparr>, lo, w1)"
    using pass_presence_open [of "w\<lparr>fa_time := read_times ?env (fa_time w) 1\<rparr>" now b lo] active(1) early(1) button request(3) keep
    by (simp add: now_def w1_def Let_def)
  have observed: "observed_state (uw_runtime w) = Unlocked" using vault by (simp add: observed_Unlocked)
  have watch: "pass_watch sg now False lo w1 = ((False, w2), lo)"
    using pass_watch_quiet [of sg w1 lo now False] ready observed vault(3) early(2)
    by (simp add: w1_def w2_def now_def read_times_reads numeral_2_eq_2)
  have "va_period_index ?va = uv_revealed_period_index (fa_view w)" "va_seconds_remaining ?va \<noteq> uv_validity_seconds_remaining (fa_view w)"
    using revealed(3,4) period_fields [of u] by (auto simp: word_unat_eq_iff)
  then have reveal: "pass_reveal sg False w2 = (\<lparr>rd_dirty = False, rd_rollover = False, rd_validity = True\<rparr>,
      on_view (\<lambda>v. v\<lparr>uv_validity_seconds_remaining := va_seconds_remaining ?va\<rparr>) (w2\<lparr>fa_time := read_times ?env (fa_time w) 3\<rparr>))"
    using pass_counts_down [of w2 sg u "read_times ?env (fa_time w) 3" False] revealed(1,2)
    by (simp add: w2_def w1_def read_times_reads numeral_3_eq_3)
  have "w' = on_view render_reveal_validity (on_view (\<lambda>v. v\<lparr>uv_validity_seconds_remaining := va_seconds_remaining ?va\<rparr>)
      (w2\<lparr>fa_time := read_times ?env (fa_time w) 3\<rparr>))"
    using run by (simp add: ui_pass_def mono presence watch reveal pass_request_open active(2) Let_def del: One_nat_def)
  then have "uv_screen (fa_view w') = (uv_screen (fa_view w))\<lparr>sc_tertiary := BandValid (va_seconds_remaining ?va)\<rparr>"
    "uw_presence w' = canonical_observe (bt_pressed b) ?p"
    by (simp_all add: on_view_def render_reveal_validity_def w2_def w1_def)
  moreover have "canonical_view ?p = \<lparr>pv_active = True, pv_confirmed = False, pv_operation = PresFactoryReset\<rparr>"
    using request(1,2) by (simp add: canonical_view_def gate_request_def split: if_splits)
  then have "sc_tertiary (uv_screen (fa_view w)) = BandText ''ERASE DEVICE DATA''"
    "sc_fourth (uv_screen (fa_view w)) = BandText ''Press A to confirm''"
    by (simp_all add: request(4) request_screen_def)
  ultimately show ?thesis using period_fields(2) [of u] request(1,2) by (auto simp: observe_gate)
qed

text \<open>The request as the protocol opens it, on a device that is registered for the Vault whose code is revealed.\<close>

definition reset_requested :: canonical_presence where
  "reset_requested = snd (canonical_begin_presence PresFactoryReset (replicate 16 3) 5000 initial_presence)"

definition demo_registered :: "(unit, canonical_presence, persisted_snapshot, ram, bool, bool) canonical_protocol" where
  "demo_registered = new_protocol \<lparr>dv_runtime = demo_used, dv_medium = demo_stored,
     dv_store = demo_reg\<lparr>rs_snapshot := demo_snapshot\<lparr>sn_registration_present := True, sn_vault_id := replicate 16 1,
       sn_registration_id := replicate 16 1, sn_epoch := 1, sn_brk_public_key := demo_brk 1\<rparr>\<rparr>,
     dv_reg_medium = (8, demo_flash_reg 1 1), dv_sink = new_sink\<rparr> (new_time_service False) initial_presence True"

definition reset_begun :: "(unit, canonical_presence, persisted_snapshot, ram, bool, bool) canonical_protocol \<Rightarrow> bool" where
  "reset_begun s \<longleftrightarrow> protocol_handle_line (demo_setup canonical_ops [demo_request ''factory_reset.begin'' []])
     \<lparr>li_entropy = sample_entropy, li_timer_us = 0\<rparr> [0] 5000 demo_registered =
     Some (ResetBeginSuccess 1 (replicate 16 3), s)"

lemma demo_reset_begun: "\<exists>s. reset_begun s \<and> sh_presence (cq_session s) = reset_requested"
proof -
  let ?cu = "demo_setup canonical_ops [demo_request ''factory_reset.begin'' []]"
  let ?inp = "\<lparr>li_entropy = sample_entropy, li_timer_us = 0\<rparr>"
  let ?d = "protocol_disconnect ?cu demo_registered"
  have req: "well_formed_request (cu_json ?cu) [0] = Some (1, ascii ''factory_reset.begin'', JObject [])"
    by (simp add: well_formed_request_def demo_setup_def demo_json_def demo_request_def read_nonnegative_int_def
        kMaxCanonicalV2MessageBytes_def kProtocolVersion_def)
  have op: "\<not> is_session_operation (ascii ''factory_reset.begin'')"
    "ascii ''factory_reset.begin'' \<noteq> ascii ''hello''"
    by (simp_all add: is_session_operation_def ascii_def)
  have "\<not> something_due 5000 demo_registered"
    by (simp add: something_due_def demo_registered_def new_protocol_def session_due_def sink_due_def reset_expired_def
        recovery_due_def automatic_lock_due_def demo_used_def demo_unlocked_def demo_locked_def new_runtime_def new_sink_def
        new_session_handler_def initial_coordinator_def reset_idle_def)
  then have quiet: "housekeeping ?cu 5000 demo_registered = demo_registered"
    by (simp add: housekeeping_eq expire_attempts_same) (simp add: something_due_def)
  have facts: "\<exists>m rest. recovery_facts (cq_device demo_registered) = (NotRequired, m, rest) \<and> md_state m = Unlocked"
    by (simp add: recovery_facts_def demo_registered_def new_protocol_def metadata_def demo_used_def demo_unlocked_def
        demo_locked_def reg_snapshot_of_def demo_reg_def classify_recovery_reset_def Let_def new_runtime_def)
  have draw: "draw_nonzero (cu_random ?cu) kAttemptIdBytes e = Some (replicate 16 3, e)" for e
    by (subst draw_nonzero.simps) (simp add: demo_setup_def kAttemptIdBytes_def all_zero_iff zeros_def)
  have presence: "canonical_begin_presence PresFactoryReset a now (sh_presence (cq_session ?d)) =
      canonical_begin_presence PresFactoryReset a now initial_presence" for a now
    by (simp add: protocol_disconnect_def cancel_recovery_reset_def cancel_healthy_factory_reset_def drop_session_def
        cancel_presence_eq with_presence_def disconnect_idle demo_setup_def canonical_ops_def canonical_cancel_presence_def
        canonical_begin_presence_def gate_begin_def demo_registered_def new_protocol_def new_session_handler_def Let_def)
  obtain m rest where m: "recovery_facts (cq_device demo_registered) = (NotRequired, m, rest)" "md_state m = Unlocked"
    using facts by blast
  have ops: "po_begin (cu_presence ?cu) = canonical_begin_presence" by (simp add: demo_setup_def canonical_ops_def)
  have "\<exists>s. reset_begin_request ?cu 1 5000 demo_registered = Some (ResetBeginSuccess 1 (replicate 16 3), s) \<and>
      sh_presence (cq_session s) = reset_requested"
    by (simp add: reset_begin_request_def m draw_attempt_id_def draw ops on_presence_eq presence with_presence_def
        reset_requested_def case_prod_beta) (simp add: canonical_begin_presence_def gate_begin_def)
  moreover have "protocol_handle_line ?cu ?inp [0] 5000 demo_registered = reset_begin_request ?cu 1 5000 demo_registered"
    using handle_line_eq [of ?cu ?inp "[0]" 5000 demo_registered] req op
    by (simp add: quiet protocol_request_def kFactoryResetBeginOperation_def)
  ultimately show ?thesis by (simp add: reset_begun_def)
qed

text \<open>The display of a second before, with the code revealed, gets the request in a pass of its own.\<close>

definition demo_asked :: "screen \<Rightarrow> canonical_presence \<Rightarrow> int \<Rightarrow> (int, persisted_snapshot) ui_world" where
  "demo_asked x p t = demo_world\<lparr>fa_view := demo_revealed\<lparr>uv_screen := x\<rparr>,
     fa_time := demo_time t, uw_runtime := demo_used, uw_medium := demo_stored, uw_presence := p\<rparr>"

lemma demo_asked_fields [simp]:
  "fa_view (demo_asked x p t) = demo_revealed\<lparr>uv_screen := x\<rparr>"
  "fa_time (demo_asked x p t) = demo_time t" "uw_runtime (demo_asked x p t) = demo_used"
  "uw_presence (demo_asked x p t) = p" "(demo_asked x p t)\<lparr>uw_presence := q\<rparr> = demo_asked x q t"
  "(demo_asked x p t)\<lparr>fa_time := demo_time t'\<rparr> = demo_asked x p t'"
  by (simp_all add: demo_asked_def)

lemma demo_revealed_fields:
  "uv_runtime_state demo_revealed = Unlocked" "uv_reveal_deadline_ms demo_revealed = 15000" "uv_reveal_active demo_revealed"
  "uv_revealed_period_index demo_revealed = 33" "uv_validity_seconds_remaining demo_revealed = 15"
  "\<not> gq_active (uv_quarantine demo_revealed)"
  by (simp_all add: demo_revealed_def demo_view_def new_ui_view_def quarantine_cancel_def)

lemma reset_requested_fields:
  "canonical_view reset_requested = \<lparr>pv_active = True, pv_confirmed = False, pv_operation = PresFactoryReset\<rparr>"
  "gate_request (cp_gate reset_requested) = Some (PresFactoryReset, replicate 16 3)"
  "pg_state (cp_gate reset_requested) = PresenceAwaiting" "pg_expires_at_ms (cp_gate reset_requested) = 35000"
  by (simp_all add: reset_requested_def canonical_begin_presence_def gate_begin_def canonical_view_def gate_active_def
      gate_request_def deadline_from_def kAttemptTtlMs_def)

lemma demo_request_drawn:
  "ui_pass demo_ui no_button (demo_loop, demo_asked x reset_requested 5000000) =
     (demo_loop\<lparr>lo_previous_presence := canonical_view reset_requested\<rparr>,
      demo_asked (request_screen (canonical_view reset_requested)) (canonical_observe False reset_requested) 5000000)"
proof -
  let ?q = "canonical_observe False reset_requested" and ?l = "demo_loop\<lparr>lo_previous_presence := canonical_view reset_requested\<rparr>"
  have active: "gate_active (cp_gate reset_requested)" "gate_active (cp_gate ?q)" "pv_active (canonical_view reset_requested)"
    using reset_requested_fields observe_gate(2) [of False reset_requested] by (simp_all add: gate_active_def)
  have changed: "canonical_view reset_requested \<noteq> lo_previous_presence demo_loop"
    using active(3) by (auto simp: demo_loop_def canonical_view_def)
  have button: "\<not> bt_was_pressed no_button" "\<not> bt_pressed no_button" by (simp_all add: no_button_def)
  have presence: "pass_presence no_button 5000 demo_loop (demo_asked x reset_requested 5000000) =
      (\<lparr>pp_dirty = True, pp_changed = True, pp_current = canonical_view reset_requested\<rparr>, ?l, demo_asked x ?q 5000000)"
    using pass_presence_open [of "demo_asked x reset_requested 5000000" 5000 no_button demo_loop] active(1) button changed
    by (simp add: reset_requested_fields demo_revealed_fields)
  have scroll: "on_view (reset_label_scroll 5000) (demo_asked y p 5000000) = demo_asked y p 5000000" for y p
    by (simp add: on_view_def reset_label_scroll_def demo_asked_def demo_revealed_def demo_view_def new_ui_view_def)
  have watch: "pass_watch demo_ui 5000 True ?l (demo_asked x ?q 5000000) = ((True, demo_asked x ?q 5000000), ?l)"
    using pass_watch_quiet [of demo_ui "demo_asked x ?q 5000000" ?l 5000 True]
    by (simp add: demo_clock_reads demo_clock_at demo_loop_def observed_demo demo_revealed_fields)
  have reveal: "pass_reveal demo_ui True (demo_asked x ?q 5000000) =
      (\<lparr>rd_dirty = True, rd_rollover = False, rd_validity = False\<rparr>, demo_asked x ?q 5000000)"
    by (simp add: pass_reveal_def demo_revealed_fields Let_def demo_clock_reads demo_clock_at demo_validity)
  have "render ticking ?q (demo_asked x ?q 5000000) = demo_asked (request_screen (canonical_view reset_requested)) ?q 5000000"
    by (simp add: ticking_render [of _ 5000000] active observe_view on_view_def) (simp add: demo_asked_def)
  then show ?thesis
    by (simp add: ui_pass_def Let_def ticking_ms [of _ 5000000] presence scroll watch reveal pass_request_open active(3))
qed

text \<open>A second later, and then a press.\<close>

lemma demo_request_shown:
  fixes lo w
  defines "lo \<equiv> demo_loop\<lparr>lo_previous_presence := canonical_view reset_requested\<rparr>"
    and "w \<equiv> demo_asked (request_screen (canonical_view reset_requested)) (canonical_observe False reset_requested) 6000000"
  shows "ui_run demo_ui (lo, w)" "fst (ui_monotonic_ms ticking w) = 6000" "clock_reading ticking (fa_time w) 2 = Some 1006"
    "ts_readiness (fst (time_status ticking (read_times ticking (fa_time w) 1))) = Ready"
proof -
  have "ui_run demo_ui (demo_loop, demo_asked (uv_screen demo_revealed) reset_requested 5000000)"
    using ui_run.step [OF demo_runs(2) ui_step.outside [of demo_ui _ _ "demo_time 5000000" reset_requested demo_stored demo_used]]
    by (simp add: demo_asked_def demo_world_def)
  from ui_run.step [OF this ui_step.pass [of _ _ no_button]]
  have "ui_run demo_ui (lo, demo_asked (request_screen (canonical_view reset_requested)) (canonical_observe False reset_requested) 5000000)"
    by (simp add: demo_request_drawn lo_def)
  from ui_run.step [OF this ui_step.outside [of demo_ui _ _ "demo_time 6000000" "canonical_observe False reset_requested" demo_stored demo_used]]
  show "ui_run demo_ui (lo, w)" by (simp add: w_def demo_asked_def demo_world_def)
  show "fst (ui_monotonic_ms ticking w) = 6000" by (simp add: w_def ticking_ms [of _ 6000000])
  have "timer_at ticking e n = e" for e n by (induction n) (simp_all add: timer_at_def ticking_def)
  then show "clock_reading ticking (fa_time w) 2 = Some 1006"
    "ts_readiness (fst (time_status ticking (read_times ticking (fa_time w) 1))) = Ready"
    using demo_clock_reads [of 6000000] demo_clock_at(1) [of 6000000] demo_clock_at(3)
    by (simp_all add: w_def clock_reading_def read_times_def read_clock)
qed

lemma demo_press:
  "fst (canonical_button_pressed 7000 (canonical_observe True (canonical_observe False (canonical_observe False reset_requested))))"
  by (simp add: canonical_defs reset_requested_def gate_defs gate_expire_result initial_presence_def deadline_from_def
      kAttemptTtlMs_def Let_def)

theorem reset_prompt_is_overwritten_witness:
  "\<exists>s lo w n. reset_begun s \<and> ui_run demo_ui (lo, w) \<and> uw_presence w = canonical_observe False (sh_presence (cq_session s)) \<and>
     sc_tertiary (uv_screen (fa_view w)) = BandText ''ERASE DEVICE DATA'' \<and> unat n = 14 \<and>
     sc_tertiary (uv_screen (fa_view (snd (ui_pass demo_ui no_button (lo, w))))) = BandValid n \<and>
     fst (canonical_button_pressed 7000 (canonical_observe True (uw_presence (snd (ui_pass demo_ui no_button (lo, w))))))"
proof -
  let ?q = "canonical_observe False reset_requested"
  let ?lo = "demo_loop\<lparr>lo_previous_presence := canonical_view reset_requested\<rparr>"
  let ?w = "demo_asked (request_screen (canonical_view reset_requested)) ?q 6000000"
  obtain s where s: "reset_begun s" "sh_presence (cq_session s) = reset_requested" using demo_reset_begun by blast
  obtain lo' w' where run: "ui_pass demo_ui no_button (?lo, ?w) = (lo', w')" by (metis prod.collapse)
  have vault: "rt_initialized demo_used" "rt_state demo_used = Unlocked" using observed_demo(2) by (simp_all add: observed_Unlocked)
  have "\<not> bt_was_pressed no_button" "\<not> bt_pressed no_button" "lo_previous_readiness ?lo = Ready"
    by (simp_all add: no_button_def demo_loop_def)
  with reset_prompt_is_overwritten [OF run, of "replicate 16 3" 1006] demo_request_shown vault
  have "sc_tertiary (uv_screen (fa_view ?w)) = BandText ''ERASE DEVICE DATA'' \<and>
      (\<exists>n. unat n = 14 \<and> uv_screen (fa_view w') = (uv_screen (fa_view ?w))\<lparr>sc_tertiary := BandValid n\<rparr>) \<and>
      uw_presence w' = canonical_observe False ?q"
    by (simp add: observe_gate observe_view reset_requested_fields demo_revealed_fields)
  with run s demo_request_shown(1) demo_press show ?thesis
    by (intro exI [of _ s] exI [of _ ?lo] exI [of _ ?w]) auto
qed


end
