(* ===== verification/Transport.thy ===== *)
theory Transport
  imports Canonical_Lines
begin

text \<open>
  The USB transport (\<open>src/firmware/main/usb_protocol_transport.cpp\<close>) and the main loop that feeds lines to
  the protocol (\<open>app_main\<close> in \<open>src/firmware/main/app_main.cpp\<close>), in the build without diagnostics and
  without screen snapshots. The USB driver is a parameter. The buffer \<open>input\<close> is represented by its first
  \<open>buffered_input\<close> bytes, those that the loop looks at.
\<close>

section \<open>The transport\<close>

record 'd usb_driver =
  ud_is_driver_installed :: "'d \<Rightarrow> bool \<times> 'd"
  ud_driver_install :: "'d \<Rightarrow> bool \<times> 'd"
  ud_is_connected :: "'d \<Rightarrow> bool \<times> 'd"
  ud_read_bytes :: "nat \<Rightarrow> 'd \<Rightarrow> bytes option \<times> 'd"
  ud_write_bytes :: "bytes \<Rightarrow> 'd \<Rightarrow> int \<times> 'd"
  ud_wait_tx_done :: "'d \<Rightarrow> bool \<times> 'd"

text \<open>\<open>ud_read_bytes\<close> answers \<open>None\<close> for a negative count; whether a call returns \<open>ESP_OK\<close> is a boolean.\<close>

datatype session_phase = PreHandshake | StrictPostHandshake | Faulted

record 'd transport =
  tp_installed :: bool
  tp_phase :: session_phase
  tp_driver :: 'd

definition kUsbProtocolWriteChunkBytes :: nat where "kUsbProtocolWriteChunkBytes = 512"

definition new_transport :: "'d \<Rightarrow> 'd transport" where
  "new_transport d = \<lparr>tp_installed = False, tp_phase = PreHandshake, tp_driver = d\<rparr>"

definition on_driver :: "('d \<Rightarrow> 'a \<times> 'd) \<Rightarrow> 'd transport \<Rightarrow> 'a \<times> 'd transport" where
  "on_driver f t = (case f (tp_driver t) of (a, d) \<Rightarrow> (a, t\<lparr>tp_driver := d\<rparr>))"

definition transport_install :: "'d usb_driver \<Rightarrow> 'd transport \<Rightarrow> bool \<times> 'd transport" where
  "transport_install u t =
     (if tp_installed t then (True, t)
      else case on_driver (ud_is_driver_installed u) t of (installed, t) \<Rightarrow>
        if installed then (False, t)
        else case on_driver (ud_driver_install u) t of (ok, t) \<Rightarrow>
          (ok, if ok then t\<lparr>tp_installed := True\<rparr> else t))"

definition transport_read :: "'d usb_driver \<Rightarrow> nat \<Rightarrow> 'd transport \<Rightarrow> bytes option \<times> 'd transport" where
  "transport_read u capacity t =
     (if \<not> tp_installed t \<or> capacity = 0 then (None, t) else on_driver (ud_read_bytes u (min capacity 0xFFFFFFFF)) t)"

text \<open>The loop over the chunks, with what is left of the frame.\<close>

function write_chunks :: "'d usb_driver \<Rightarrow> bytes \<Rightarrow> 'd transport \<Rightarrow> bool \<times> 'd transport" where
  "write_chunks u frame t =
     (if frame = [] then (True, t)
      else
        let chunk = take kUsbProtocolWriteChunkBytes frame
        in case on_driver (ud_write_bytes u chunk) t of (written, t) \<Rightarrow>
             if written \<le> 0 \<or> written \<noteq> int (length chunk) then (False, t)
             else write_chunks u (drop kUsbProtocolWriteChunkBytes frame) t)"
  by pat_completeness auto
termination
  by (relation "measure (\<lambda>(u, frame, t). length frame)") (auto simp: kUsbProtocolWriteChunkBytes_def)

declare write_chunks.simps [simp del]

definition write_frame :: "'d usb_driver \<Rightarrow> bytes \<Rightarrow> 'd transport \<Rightarrow> bool \<times> 'd transport" where
  "write_frame u response t =
     (if \<not> tp_installed t then (False, t)
      else case write_chunks u (response @ [10]) t of (ok, t) \<Rightarrow>
        if \<not> ok then (False, t) else on_driver (ud_wait_tx_done u) t)"

definition transport_connected :: "'d usb_driver \<Rightarrow> 'd transport \<Rightarrow> bool \<times> 'd transport" where
  "transport_connected u t = (if tp_installed t then on_driver (ud_is_connected u) t else (False, t))"

definition establish_handshake :: "'d transport \<Rightarrow> 'd transport" where
  "establish_handshake t = t\<lparr>tp_phase := StrictPostHandshake\<rparr>"

definition fail_session :: "'d transport \<Rightarrow> 'd transport" where
  "fail_session t = t\<lparr>tp_phase := Faulted\<rparr>"

definition reset_pre_handshake :: "'d transport \<Rightarrow> 'd transport" where
  "reset_pre_handshake t = t\<lparr>tp_phase := PreHandshake\<rparr>"

section \<open>Frames\<close>

record frame_info =
  fi_valid :: bool
  fi_hello :: bool
  fi_id :: int

text \<open>The transport parses with \<open>cJSON_ParseWithLengthOpts\<close>, which refuses anything after the value; the
  handler with \<open>cJSON_ParseWithLength\<close>, which does not. The former is the parameter \<open>strict\<close>.\<close>

definition classify_protocol_frame :: "'j json_api \<Rightarrow> (bytes \<Rightarrow> 'j option) \<Rightarrow> bytes \<Rightarrow> frame_info" where
  "classify_protocol_frame api strict line =
     (case strict line of
        None \<Rightarrow> \<lparr>fi_valid = False, fi_hello = False, fi_id = 0\<rparr>
      | Some root \<Rightarrow>
          if \<not> js_is_object api root then \<lparr>fi_valid = False, fi_hello = False, fi_id = 0\<rparr>
          else
            let version = read_nonnegative_int api (js_item api root ''v'');
                i = read_nonnegative_int api (js_item api root ''id'');
                operation = Option.bind (js_item api root ''op'') (js_string api);
                valid = (version = Some (uint kProtocolVersion) \<and> i \<noteq> None \<and> operation \<noteq> None \<and>
                  (case js_item api root ''params'' of None \<Rightarrow> False | Some params \<Rightarrow> js_is_object api params))
            in \<lparr>fi_valid = valid, fi_hello = (valid \<and> operation = Some (ascii ''hello'')),
                fi_id = (if version = Some (uint kProtocolVersion) then case i of None \<Rightarrow> 0 | Some n \<Rightarrow> n else 0)\<rparr>)"

definition successful_protocol_response_for_id :: "'j json_api \<Rightarrow> (bytes \<Rightarrow> 'j option) \<Rightarrow> bytes \<Rightarrow> int \<Rightarrow> bool" where
  "successful_protocol_response_for_id api strict response i =
     (case strict response of
        None \<Rightarrow> False
      | Some root \<Rightarrow> js_is_object api root \<and>
          read_nonnegative_int api (js_item api root ''v'') = Some (uint kProtocolVersion) \<and>
          read_nonnegative_int api (js_item api root ''id'') = Some i \<and>
          (case js_item api root ''ok'' of None \<Rightarrow> False | Some v \<Rightarrow> js_is_true api v))"

definition consume_input_prefix :: "nat \<Rightarrow> bytes \<Rightarrow> bytes" where
  "consume_input_prefix consumed input = (if consumed > length input then input else drop consumed input)"

text \<open>The position of the first newline, or the length.\<close>

definition line_end :: "bytes \<Rightarrow> nat" where
  "line_end input = length (takeWhile (\<lambda>b. b \<noteq> 10) input)"

fun strip_carriage_returns :: "bytes \<Rightarrow> nat \<Rightarrow> nat" where
  "strip_carriage_returns input 0 = 0"
| "strip_carriage_returns input (Suc n) = (if input ! n = 13 then strip_carriage_returns input n else Suc n)"

section \<open>The loop\<close>

record ('k, 'p, 'w, 'n, 'e, 'u, 'd) main_state =
  ms_protocol :: "('k, 'p, 'w, 'n, 'e, 'u) canonical_protocol"
  ms_transport :: "'d transport"
  ms_input :: bytes
  ms_discard_oversized_input :: bool

record ('k, 'p, 'w, 'n, 'e, 'u, 'j, 'd) main_setup =
  mu_protocol :: "('k, 'p, 'w, 'n, 'e, 'u, 'j) canonical_setup"
  mu_usb :: "'d usb_driver"
  mu_strict :: "bytes \<Rightarrow> 'j option"

text \<open>What a pass finds: the two readings of the timer and the entropy of an attempt.\<close>

record 'k main_inputs =
  mi_housekeeping_ms :: u64
  mi_line_ms :: u64
  mi_line :: "'k line_inputs"

definition kInputBytes :: nat where "kInputBytes = kMaxCanonicalV2MessageBytes + 2"

text \<open>\<open>runtime.initialize\<close> and what else precedes the loop is \<open>power_up_device\<close>.\<close>

definition enter_loop ::
  "('k, 'p, 'w, 'n, 'e, 'u) canonical_protocol \<Rightarrow> 'd transport \<Rightarrow> ('k, 'p, 'w, 'n, 'e, 'u, 'd) main_state" where
  "enter_loop s t = \<lparr>ms_protocol = s, ms_transport = t, ms_input = [], ms_discard_oversized_input = False\<rparr>"

definition teardown_transport_session ::
  "('k, 'p, 'w, 'n, 'e, 'u, 'j, 'd) main_setup \<Rightarrow> ('k, 'p, 'w, 'n, 'e, 'u, 'd) main_state \<Rightarrow>
   ('k, 'p, 'w, 'n, 'e, 'u, 'd) main_state" where
  "teardown_transport_session mu m = m\<lparr>ms_protocol := protocol_disconnect (mu_protocol mu) (ms_protocol m)\<rparr>"

definition fail_transport_session ::
  "('k, 'p, 'w, 'n, 'e, 'u, 'j, 'd) main_setup \<Rightarrow> ('k, 'p, 'w, 'n, 'e, 'u, 'd) main_state \<Rightarrow>
   ('k, 'p, 'w, 'n, 'e, 'u, 'd) main_state" where
  "fail_transport_session mu m = (let m = teardown_transport_session mu m
     in m\<lparr>ms_transport := fail_session (ms_transport m)\<rparr>)"

definition on_transport ::
  "('d transport \<Rightarrow> 'a \<times> 'd transport) \<Rightarrow> ('k, 'p, 'w, 'n, 'e, 'u, 'd) main_state \<Rightarrow>
   'a \<times> ('k, 'p, 'w, 'n, 'e, 'u, 'd) main_state" where
  "on_transport f m = (case f (ms_transport m) of (a, t) \<Rightarrow> (a, m\<lparr>ms_transport := t\<rparr>))"

definition write_response ::
  "('k, 'p, 'w, 'n, 'e, 'u, 'j, 'd) main_setup \<Rightarrow> response \<Rightarrow> ('k, 'p, 'w, 'n, 'e, 'u, 'd) main_state \<Rightarrow>
   bool \<times> ('k, 'p, 'w, 'n, 'e, 'u, 'd) main_state" where
  "write_response mu r =
     on_transport (write_frame (mu_usb mu) (js_print (cu_json (mu_protocol mu)) (response_tree r)))"

text \<open>The answer to a frame that is too long, which ends a strict session.\<close>

definition refuse_oversized ::
  "('k, 'p, 'w, 'n, 'e, 'u, 'j, 'd) main_setup \<Rightarrow> bool \<Rightarrow> ('k, 'p, 'w, 'n, 'e, 'u, 'd) main_state \<Rightarrow>
   ('k, 'p, 'w, 'n, 'e, 'u, 'd) main_state" where
  "refuse_oversized mu strict m =
     (case write_response mu message_too_large m of (ok, m) \<Rightarrow>
        if \<not> ok then fail_transport_session mu m
        else if strict then m\<lparr>ms_transport := fail_session (ms_transport m)\<rparr> else m)"

definition pass_discard ::
  "('k, 'p, 'w, 'n, 'e, 'u, 'j, 'd) main_setup \<Rightarrow> ('k, 'p, 'w, 'n, 'e, 'u, 'd) main_state \<Rightarrow>
   ('k, 'p, 'w, 'n, 'e, 'u, 'd) main_state" where
  "pass_discard mu m =
     (case on_transport (transport_read (mu_usb mu) kInputBytes) m of
        (None, m) \<Rightarrow> fail_transport_session mu m
      | (Some received, m) \<Rightarrow>
          if line_end received = length received then m
          else m\<lparr>ms_input := consume_input_prefix (line_end received + 1) received, ms_discard_oversized_input := False\<rparr>)"

definition pass_fill ::
  "('k, 'p, 'w, 'n, 'e, 'u, 'j, 'd) main_setup \<Rightarrow> ('k, 'p, 'w, 'n, 'e, 'u, 'd) main_state \<Rightarrow>
   ('k, 'p, 'w, 'n, 'e, 'u, 'd) main_state" where
  "pass_fill mu m =
     (if length (ms_input m) \<ge> kInputBytes then
        let strict = (tp_phase (ms_transport m) = StrictPostHandshake);
            m = refuse_oversized mu strict (teardown_transport_session mu m)
        in m\<lparr>ms_input := [], ms_discard_oversized_input := True\<rparr>
      else case on_transport (transport_read (mu_usb mu) (kInputBytes - length (ms_input m))) m of
        (None, m) \<Rightarrow> (fail_transport_session mu m)\<lparr>ms_input := []\<rparr>
      | (Some received, m) \<Rightarrow> m\<lparr>ms_input := ms_input m @ received\<rparr>)"

definition pass_line ::
  "('k, 'p, 'w, 'n, 'e, 'u, 'j, 'd) main_setup \<Rightarrow> 'k main_inputs \<Rightarrow> ('k, 'p, 'w, 'n, 'e, 'u, 'd) main_state \<Rightarrow>
   ('k, 'p, 'w, 'n, 'e, 'u, 'd) main_state option" where
  "pass_line mu inp m =
     (let line_bytes = line_end (ms_input m);
          len = strip_carriage_returns (ms_input m) line_bytes;
          consumed = line_bytes + 1;
          request = take len (ms_input m);
          strict_before = (tp_phase (ms_transport m) = StrictPostHandshake);
          api = cu_json (mu_protocol mu);
          frame_info = classify_protocol_frame api (mu_strict mu) request;
          consume = (\<lambda>m. m\<lparr>ms_input := consume_input_prefix consumed (ms_input m)\<rparr>)
      in if len > kMaxCanonicalV2MessageBytes then
           Some (refuse_oversized mu strict_before (consume (teardown_transport_session mu m)))
         else if tp_phase (ms_transport m) = PreHandshake \<and> \<not> (fi_valid frame_info \<and> fi_hello frame_info) then
           Some (consume m)
         else case protocol_handle_line (mu_protocol mu) (mi_line inp) request (mi_line_ms inp) (ms_protocol m) of
           None \<Rightarrow> None
         | Some (response, s) \<Rightarrow>
             let establishes_handshake = (fi_valid frame_info \<and> fi_hello frame_info \<and>
                   successful_protocol_response_for_id api (mu_strict mu) (js_print api (response_tree response))
                     (fi_id frame_info));
                 m = consume (m\<lparr>ms_protocol := s\<rparr>)
             in Some (case write_response mu response m of (ok, m) \<Rightarrow>
                  if \<not> ok then fail_transport_session mu m
                  else if establishes_handshake then m\<lparr>ms_transport := establish_handshake (ms_transport m)\<rparr>
                  else if strict_before \<and> \<not> fi_valid frame_info
                  then m\<lparr>ms_transport := fail_session (ms_transport m)\<rparr>
                  else m))"

definition main_pass ::
  "('k, 'p, 'w, 'n, 'e, 'u, 'j, 'd) main_setup \<Rightarrow> 'k main_inputs \<Rightarrow> ('k, 'p, 'w, 'n, 'e, 'u, 'd) main_state \<Rightarrow>
   ('k, 'p, 'w, 'n, 'e, 'u, 'd) main_state option" where
  "main_pass mu inp m =
     (let m = m\<lparr>ms_protocol := housekeeping (mu_protocol mu) (mi_housekeeping_ms inp) (ms_protocol m)\<rparr>
      in case on_transport (transport_connected (mu_usb mu)) m of (connected, m) \<Rightarrow>
           if \<not> connected then
             let m = teardown_transport_session mu m
             in Some (m\<lparr>ms_transport := reset_pre_handshake (ms_transport m), ms_input := [],
                  ms_discard_oversized_input := False\<rparr>)
           else if tp_phase (ms_transport m) = Faulted then
             Some (m\<lparr>ms_input := [], ms_discard_oversized_input := False\<rparr>)
           else if ms_discard_oversized_input m then Some (pass_discard mu m)
           else if line_end (ms_input m) = length (ms_input m) then Some (pass_fill mu m)
           else pass_line mu inp m)"

end
