(* ===== verification/Transport_Props.thy ===== *)
theory Transport_Props
  imports Transport Protocol_Props
begin

text \<open>
  What the main loop guarantees: how the stream of bytes is cut into frames, what may reach the protocol in
  which phase, and that its passes are runs of the protocol, so that what holds of every run of the
  protocol holds of the device.
\<close>

section \<open>Frames\<close>

datatype frame = Oversized | Line bytes

text \<open>The frame of a line: carriage returns at its end do not count.\<close>

definition stripped :: "bytes \<Rightarrow> bytes" where
  "stripped line = rev (dropWhile (\<lambda>b. b = 13) (rev line))"

definition frame_of :: "bytes \<Rightarrow> frame" where
  "frame_of line = (if length (stripped line) > kMaxCanonicalV2MessageBytes then Oversized else Line (stripped line))"

text \<open>The frames of a stream, byte by byte: a line that does not fit the buffer is reported as soon as this
  is known, and skipped.\<close>

fun frames_from :: "bool \<Rightarrow> bytes \<Rightarrow> bytes \<Rightarrow> frame list \<times> bool \<times> bytes" where
  "frames_from discard buf [] = ([], discard, buf)"
| "frames_from discard buf (b # bs) =
     (if discard then frames_from (b \<noteq> 10) buf bs
      else if b = 10 then (case frames_from False [] bs of (fs, st) \<Rightarrow> (frame_of buf # fs, st))
      else if length buf + 1 \<ge> kInputBytes then (case frames_from True [] bs of (fs, st) \<Rightarrow> (Oversized # fs, st))
      else frames_from False (buf @ [b]) bs)"

lemma frames_append:
  "frames_from d buf (xs @ ys) = (case frames_from d buf xs of (fs, d', buf') \<Rightarrow>
     case frames_from d' buf' ys of (gs, st) \<Rightarrow> (fs @ gs, st))"
  by (induction d buf xs rule: frames_from.induct) (auto split: prod.splits)

lemma frames_no_newline:
  "10 \<notin> set xs \<Longrightarrow> length buf + length xs < kInputBytes \<Longrightarrow> frames_from False buf xs = ([], False, buf @ xs)"
  by (induction xs arbitrary: buf) auto

lemma frames_discarded: "10 \<notin> set xs \<Longrightarrow> frames_from True buf xs = ([], True, buf)"
  by (induction xs arbitrary: buf) auto

lemma frames_discard_end: "10 \<notin> set xs \<Longrightarrow> frames_from True buf (xs @ 10 # ys) = frames_from False buf ys"
  by (simp add: frames_append frames_discarded split: prod.split)

lemma frames_line:
  "10 \<notin> set xs \<Longrightarrow> length xs < kInputBytes \<Longrightarrow> frames_from False [] (xs @ 10 # ys) =
     (case frames_from False [] ys of (fs, st) \<Rightarrow> (frame_of xs # fs, st))"
  by (simp add: frames_append frames_no_newline split: prod.split)

lemma frames_full:
  assumes "10 \<notin> set xs" "length xs = kInputBytes"
  shows "frames_from False [] xs = ([Oversized], True, [])"
proof -
  have "xs \<noteq> []" using assms(2) by (auto simp: kInputBytes_def)
  then obtain ys b where xs: "xs = ys @ [b]" by (metis rev_exhaust)
  then show ?thesis using assms by (simp add: frames_append frames_no_newline)
qed

section \<open>The buffer\<close>

lemma line_end_le: "line_end input \<le> length input"
  by (simp add: line_end_def length_takeWhile_le)

lemma line_end_none: "line_end input = length input \<longleftrightarrow> 10 \<notin> set input"
proof
  assume "line_end input = length input"
  then have "takeWhile (\<lambda>b. b \<noteq> 10) input = input"
    by (metis line_end_def takeWhile_eq_take take_all_iff order_refl)
  then show "10 \<notin> set input" using set_takeWhileD by fastforce
next
  assume "10 \<notin> set input"
  then have "takeWhile (\<lambda>b. b \<noteq> 10) input = input" by (auto simp: takeWhile_eq_all_conv)
  then show "line_end input = length input" unfolding line_end_def by (rule arg_cong)
qed

lemma line_end_some:
  assumes "line_end input \<noteq> length input"
  shows "\<exists>xs ys. input = xs @ 10 # ys \<and> 10 \<notin> set xs \<and> line_end input = length xs"
proof -
  have "10 \<in> set input" using assms line_end_none by blast
  then obtain xs ys where "input = xs @ 10 # ys" "10 \<notin> set xs" using split_list_first by metis
  moreover from this have "line_end input = length xs" by (auto simp: line_end_def takeWhile_append)
  ultimately show ?thesis by blast
qed

lemma strip_take: "n \<le> length input \<Longrightarrow> take (strip_carriage_returns input n) input = stripped (take n input)"
proof (induction n)
  case 0
  then show ?case by (simp add: stripped_def)
next
  case (Suc n)
  then have "take (Suc n) input = take n input @ [input ! n]" by (simp add: take_Suc_conv_app_nth)
  then show ?case using Suc by (simp add: stripped_def)
qed

lemma strip_le: "strip_carriage_returns input n \<le> n"
  by (induction n) auto

text \<open>What a newline in the buffer yields.\<close>

lemma buffered_line:
  assumes "input = xs @ 10 # ys" "10 \<notin> set xs"
  shows "line_end input = length xs" "consume_input_prefix (line_end input + 1) input = ys"
    "take (strip_carriage_returns input (line_end input)) input = stripped xs"
    "strip_carriage_returns input (line_end input) = length (stripped xs)"
proof -
  show l: "line_end input = length xs"
    using assms by (auto simp: line_end_def takeWhile_append)
  show "consume_input_prefix (line_end input + 1) input = ys"
    unfolding consume_input_prefix_def l using assms(1) by simp
  show t: "take (strip_carriage_returns input (line_end input)) input = stripped xs"
    using strip_take [of "length xs" input] assms(1) l by simp
  have "strip_carriage_returns input (line_end input) \<le> length input"
    using strip_le [of input "line_end input"] line_end_le [of input] by linarith
  then show "strip_carriage_returns input (line_end input) = length (stripped xs)"
    using arg_cong [OF t, of length] by simp
qed

section \<open>What a pass does to the protocol\<close>

lemma teardown_fields [simp]:
  "ms_protocol (teardown_transport_session mu m) = protocol_disconnect (mu_protocol mu) (ms_protocol m)"
  "ms_transport (teardown_transport_session mu m) = ms_transport m"
  "ms_input (teardown_transport_session mu m) = ms_input m"
  "ms_discard_oversized_input (teardown_transport_session mu m) = ms_discard_oversized_input m"
  by (simp_all add: teardown_transport_session_def)

lemma fail_fields [simp]:
  "ms_protocol (fail_transport_session mu m) = protocol_disconnect (mu_protocol mu) (ms_protocol m)"
  "tp_phase (ms_transport (fail_transport_session mu m)) = Faulted"
  "ms_input (fail_transport_session mu m) = ms_input m"
  "ms_discard_oversized_input (fail_transport_session mu m) = ms_discard_oversized_input m"
  by (simp_all add: fail_transport_session_def fail_session_def Let_def)

lemma driver_phase: "tp_phase (snd (on_driver f t)) = tp_phase t" "tp_installed (snd (on_driver f t)) = tp_installed t"
  by (simp_all add: on_driver_def split: prod.split)

lemma chunks_phase:
  "tp_phase (snd (write_chunks u frame t)) = tp_phase t \<and> tp_installed (snd (write_chunks u frame t)) = tp_installed t"
proof (induction u frame t rule: write_chunks.induct)
  case (1 u frame t)
  define chunk where "chunk = take kUsbProtocolWriteChunkBytes frame"
  obtain written t' where w: "on_driver (ud_write_bytes u chunk) t = (written, t')" by (metis prod.collapse)
  have t': "tp_phase t' = tp_phase t" "tp_installed t' = tp_installed t"
    using driver_phase [of "ud_write_bytes u chunk" t] w by simp_all
  have step: "write_chunks u frame t = (if frame = [] then (True, t)
      else if written \<le> 0 \<or> written \<noteq> int (length chunk) then (False, t')
      else write_chunks u (drop kUsbProtocolWriteChunkBytes frame) t')"
    using w by (simp add: write_chunks.simps [of u frame t] chunk_def Let_def)
  have "tp_phase (snd (write_chunks u (drop kUsbProtocolWriteChunkBytes frame) t')) = tp_phase t' \<and>
      tp_installed (snd (write_chunks u (drop kUsbProtocolWriteChunkBytes frame) t')) = tp_installed t'"
    if "frame \<noteq> []" "\<not> (written \<le> 0 \<or> written \<noteq> int (length chunk))"
    by (rule 1 [OF that(1) chunk_def w [symmetric] that(2)])
  then show ?case unfolding step using t' by auto
qed

lemma write_phase:
  "tp_phase (snd (write_frame u r t)) = tp_phase t \<and> tp_installed (snd (write_frame u r t)) = tp_installed t"
  using chunks_phase [of u "r @ [10]" t] by (auto simp: write_frame_def driver_phase split: prod.split)

lemma read_phase: "tp_phase (snd (transport_read u n t)) = tp_phase t"
  by (simp add: transport_read_def driver_phase)

lemma connected_phase: "tp_phase (snd (transport_connected u t)) = tp_phase t"
  by (simp add: transport_connected_def driver_phase)

lemma on_transport_fields [simp]:
  "ms_protocol (snd (on_transport f m)) = ms_protocol m" "ms_input (snd (on_transport f m)) = ms_input m"
  "ms_discard_oversized_input (snd (on_transport f m)) = ms_discard_oversized_input m"
  "ms_transport (snd (on_transport f m)) = snd (f (ms_transport m))"
  "fst (on_transport f m) = fst (f (ms_transport m))"
  by (simp_all add: on_transport_def split: prod.split)

lemma on_transport_cases:
  assumes "on_transport f m = (a, m')"
  shows "ms_protocol m' = ms_protocol m \<and> ms_input m' = ms_input m \<and>
    ms_discard_oversized_input m' = ms_discard_oversized_input m \<and> f (ms_transport m) = (a, ms_transport m')"
  using assms by (auto simp: on_transport_def split: prod.splits)

lemma write_response_cases:
  assumes "write_response mu r m = (ok, m')"
  shows "ms_protocol m' = ms_protocol m \<and> ms_input m' = ms_input m \<and>
    ms_discard_oversized_input m' = ms_discard_oversized_input m \<and> tp_phase (ms_transport m') = tp_phase (ms_transport m)"
  using on_transport_cases [OF assms [unfolded write_response_def]] write_phase by (metis snd_conv)

text \<open>Giving up, any number of times.\<close>

definition gives_up where
  "gives_up cu s s' \<longleftrightarrow> (\<exists>n. s' = (protocol_disconnect cu ^^ n) s)"

lemma gives_upI [intro]: "gives_up cu s s" "gives_up cu s (protocol_disconnect cu s)"
  "gives_up cu s (protocol_disconnect cu (protocol_disconnect cu s))"
  unfolding gives_up_def
  by (rule exI [of _ 0], simp) (rule exI [of _ 1], simp, rule exI [of _ 2], simp add: numeral_2_eq_2)

lemma gives_up_after: "gives_up cu (protocol_disconnect cu s) s' \<Longrightarrow> gives_up cu s s'"
  unfolding gives_up_def by (metis funpow_Suc_right o_apply)

lemma refuse_effect:
  "gives_up (mu_protocol mu) (ms_protocol m) (ms_protocol (refuse_oversized mu strict m)) \<and>
   ms_input (refuse_oversized mu strict m) = ms_input m \<and>
   ms_discard_oversized_input (refuse_oversized mu strict m) = ms_discard_oversized_input m \<and>
   tp_phase (ms_transport (refuse_oversized mu strict m)) \<in> {tp_phase (ms_transport m), Faulted}"
proof -
  obtain ok m' where w: "write_response mu message_too_large m = (ok, m')" by (metis prod.collapse)
  show ?thesis using write_response_cases [OF w]
    by (auto simp: refuse_oversized_def w fail_session_def)
qed

text \<open>The line that a pass hands to the protocol.\<close>

definition line_ready ::
  "('k, 'p, 'w, 'n, 'e, 'u, 'j, 'd) main_setup \<Rightarrow> ('k, 'p, 'w, 'n, 'e, 'u, 'd) main_state \<Rightarrow> bytes \<Rightarrow> bool" where
  "line_ready mu m request \<longleftrightarrow> \<not> ms_discard_oversized_input m \<and>
     (\<exists>xs ys. ms_input m = xs @ 10 # ys \<and> 10 \<notin> set xs \<and> request = stripped xs) \<and>
     length request \<le> kMaxCanonicalV2MessageBytes \<and> tp_phase (ms_transport m) \<noteq> Faulted \<and>
     (tp_phase (ms_transport m) = PreHandshake \<longrightarrow>
        fi_hello (classify_protocol_frame (cu_json (mu_protocol mu)) (mu_strict mu) request))"

text \<open>A line that opens the strict session: a \<open>hello\<close> whose answer is a success.\<close>

definition opens_session ::
  "('k, 'p, 'w, 'n, 'e, 'u, 'j, 'd) main_setup \<Rightarrow> bytes \<Rightarrow> response \<Rightarrow> bool" where
  "opens_session mu request r \<longleftrightarrow> (let api = cu_json (mu_protocol mu);
       info = classify_protocol_frame api (mu_strict mu) request
     in fi_hello info \<and>
       successful_protocol_response_for_id api (mu_strict mu) (js_print api (response_tree r)) (fi_id info))"

text \<open>What a pass that reads or takes a line can do, with \<open>h\<close> the protocol after its housekeeping: nothing
  but give up when no line is ready, otherwise handle that line and perhaps give up afterwards.\<close>

definition pass_outcome ::
  "('k, 'p, 'w, 'n, 'e, 'u, 'j, 'd) main_setup \<Rightarrow> 'k main_inputs \<Rightarrow> ('k, 'p, 'w, 'n, 'e, 'u, 'd) main_state \<Rightarrow>
   ('k, 'p, 'w, 'n, 'e, 'u) canonical_protocol \<Rightarrow> ('k, 'p, 'w, 'n, 'e, 'u, 'd) main_state \<Rightarrow> bool" where
  "pass_outcome mu inp m h m' \<longleftrightarrow>
     (\<forall>request. \<not> line_ready mu m request) \<and> gives_up (mu_protocol mu) h (ms_protocol m') \<and>
       tp_phase (ms_transport m') \<in> {tp_phase (ms_transport m), Faulted} \<or>
     (\<exists>request r s. line_ready mu m request \<and>
       protocol_handle_line (mu_protocol mu) (mi_line inp) request (mi_line_ms inp) h = Some (r, s) \<and>
       gives_up (mu_protocol mu) s (ms_protocol m') \<and>
       (tp_phase (ms_transport m') \<in> {tp_phase (ms_transport m), Faulted} \<or>
        tp_phase (ms_transport m') = StrictPostHandshake \<and> opens_session mu request r))"

lemma outcome_quiet:
  "(\<And>request. \<not> line_ready mu m request) \<Longrightarrow> gives_up (mu_protocol mu) h (ms_protocol m') \<Longrightarrow>
   tp_phase (ms_transport m') \<in> {tp_phase (ms_transport m), Faulted} \<Longrightarrow> pass_outcome mu inp m h m'"
  by (simp add: pass_outcome_def)

lemma hello_valid: "fi_hello (classify_protocol_frame api strict line) \<Longrightarrow> fi_valid (classify_protocol_frame api strict line)"
  by (auto simp: classify_protocol_frame_def Let_def split: option.splits if_splits)

lemma ready_unique: "line_ready mu m request \<Longrightarrow> ms_input m = xs @ 10 # ys \<Longrightarrow> 10 \<notin> set xs \<Longrightarrow> request = stripped xs"
proof -
  have "zs = takeWhile (\<lambda>b. b \<noteq> 10) (ms_input m)" if "ms_input m = zs @ 10 # ws" "10 \<notin> set zs" for zs ws
    using that by (auto simp: takeWhile_append)
  then show "line_ready mu m request \<Longrightarrow> ms_input m = xs @ 10 # ys \<Longrightarrow> 10 \<notin> set xs \<Longrightarrow> request = stripped xs"
    unfolding line_ready_def by metis
qed

text \<open>The answer to a handled line, and what becomes of the session.\<close>

definition conclude_line ::
  "('k, 'p, 'w, 'n, 'e, 'u, 'j, 'd) main_setup \<Rightarrow> bytes \<Rightarrow> bool \<Rightarrow> response \<Rightarrow>
   ('k, 'p, 'w, 'n, 'e, 'u, 'd) main_state \<Rightarrow> ('k, 'p, 'w, 'n, 'e, 'u, 'd) main_state" where
  "conclude_line mu request strict r m = (case write_response mu r m of (ok, m) \<Rightarrow>
     if \<not> ok then fail_transport_session mu m
     else if opens_session mu request r then m\<lparr>ms_transport := establish_handshake (ms_transport m)\<rparr>
     else if strict \<and> \<not> fi_valid (classify_protocol_frame (cu_json (mu_protocol mu)) (mu_strict mu) request)
     then m\<lparr>ms_transport := fail_session (ms_transport m)\<rparr>
     else m)"

lemma conclude_line_effect:
  "gives_up (mu_protocol mu) (ms_protocol m) (ms_protocol (conclude_line mu request strict r m)) \<and>
   ms_input (conclude_line mu request strict r m) = ms_input m \<and>
   ms_discard_oversized_input (conclude_line mu request strict r m) = ms_discard_oversized_input m \<and>
   (tp_phase (ms_transport (conclude_line mu request strict r m)) \<in> {tp_phase (ms_transport m), Faulted} \<or>
    tp_phase (ms_transport (conclude_line mu request strict r m)) = StrictPostHandshake \<and> opens_session mu request r)"
proof -
  obtain ok m' where w: "write_response mu r m = (ok, m')" by (metis prod.collapse)
  show ?thesis using write_response_cases [OF w]
    by (auto simp: conclude_line_def w establish_handshake_def fail_session_def)
qed

text \<open>A pass over the line \<open>xs\<close>, with its parts named.\<close>

lemma pass_line_cases:
  fixes mu :: "('k, 'p, 'w, 'n, 'e, 'u, 'j, 'd) main_setup" and m :: "('k, 'p, 'w, 'n, 'e, 'u, 'd) main_state"
  assumes split: "ms_input m = xs @ 10 # ys" "10 \<notin> set xs"
  defines "strict \<equiv> tp_phase (ms_transport m) = StrictPostHandshake"
    and "info \<equiv> classify_protocol_frame (cu_json (mu_protocol mu)) (mu_strict mu) (stripped xs)"
  shows "pass_line mu inp m =
    (if length (stripped xs) > kMaxCanonicalV2MessageBytes
     then Some (refuse_oversized mu strict ((teardown_transport_session mu m)\<lparr>ms_input := ys\<rparr>))
     else if tp_phase (ms_transport m) = PreHandshake \<and> \<not> fi_hello info then Some (m\<lparr>ms_input := ys\<rparr>)
     else case protocol_handle_line (mu_protocol mu) (mi_line inp) (stripped xs) (mi_line_ms inp) (ms_protocol m) of
         None \<Rightarrow> None
       | Some (r, s) \<Rightarrow> Some (conclude_line mu (stripped xs) strict r (m\<lparr>ms_protocol := s, ms_input := ys\<rparr>)))"
proof -
  note buf = buffered_line [OF split]
  have fields: "ms_input (teardown_transport_session mu m) = ms_input m" "ms_input (m\<lparr>ms_protocol := s\<rparr>) = ms_input m" for s
    by simp_all
  have hello: "fi_valid info \<and> fi_hello info \<longleftrightarrow> fi_hello info" unfolding info_def using hello_valid by blast
  have opens: "fi_valid info \<and> fi_hello info \<and> successful_protocol_response_for_id (cu_json (mu_protocol mu))
      (mu_strict mu) (js_print (cu_json (mu_protocol mu)) (response_tree r)) (fi_id info) \<longleftrightarrow>
      opens_session mu (stripped xs) r" for r
    using hello unfolding opens_session_def Let_def info_def by blast
  show ?thesis
    unfolding pass_line_def Let_def fields buf(2,3)
    unfolding buf(4) info_def [symmetric] strict_def [symmetric] opens hello conclude_line_def
    by simp
qed

lemma pass_line_effect:
  assumes run: "pass_line mu inp m = Some m'" and quiet: "\<not> ms_discard_oversized_input m"
    and newline: "line_end (ms_input m) \<noteq> length (ms_input m)" and phase: "tp_phase (ms_transport m) \<noteq> Faulted"
  shows "pass_outcome mu inp m (ms_protocol m) m' \<and>
    ms_input m' = consume_input_prefix (line_end (ms_input m) + 1) (ms_input m) \<and> \<not> ms_discard_oversized_input m'"
proof -
  obtain xs ys where split: "ms_input m = xs @ 10 # ys" "10 \<notin> set xs" using line_end_some [OF newline] by blast
  define strict where "strict = (tp_phase (ms_transport m) = StrictPostHandshake)"
  define info where "info = classify_protocol_frame (cu_json (mu_protocol mu)) (mu_strict mu) (stripped xs)"
  note run' = run [unfolded pass_line_cases [OF split], folded strict_def info_def]
  note rest = buffered_line(2) [OF split]
  have ready: "line_ready mu m r \<Longrightarrow> r = stripped xs" for r by (rule ready_unique [OF _ split])
  show ?thesis
  proof (cases "line_ready mu m (stripped xs)")
    case False
    then have none: "\<not> line_ready mu m r" for r using ready by blast
    have skip: "length (stripped xs) > kMaxCanonicalV2MessageBytes \<or> tp_phase (ms_transport m) = PreHandshake \<and> \<not> fi_hello info"
      using False split quiet phase by (auto simp: line_ready_def info_def)
    then have m': "m' = m\<lparr>ms_input := ys\<rparr> \<or> m' = refuse_oversized mu strict ((teardown_transport_session mu m)\<lparr>ms_input := ys\<rparr>)"
      using run' by (auto split: if_splits)
    note effect = refuse_effect [of mu "(teardown_transport_session mu m)\<lparr>ms_input := ys\<rparr>" strict]
    have "pass_outcome mu inp m (ms_protocol m) m'"
      by (rule outcome_quiet [OF none]) (use effect m' in \<open>auto intro: gives_up_after\<close>)
    then show ?thesis using effect quiet m' unfolding rest by auto
  next
    case True
    then obtain r s where handled:
        "protocol_handle_line (mu_protocol mu) (mi_line inp) (stripped xs) (mi_line_ms inp) (ms_protocol m) = Some (r, s)"
      and m': "m' = conclude_line mu (stripped xs) strict r (m\<lparr>ms_protocol := s, ms_input := ys\<rparr>)"
      using run' by (auto simp: line_ready_def info_def split: if_splits option.splits)
    note effect = conclude_line_effect [of mu "m\<lparr>ms_protocol := s, ms_input := ys\<rparr>" "stripped xs" strict r, folded m']
    then have "pass_outcome mu inp m (ms_protocol m) m'"
      using True handled unfolding pass_outcome_def by auto
    then show ?thesis using effect quiet unfolding rest by simp
  qed
qed

text \<open>The bytes that a pass reads once it has seen the connection, and the frame that it takes.\<close>

definition pass_reads ::
  "('k, 'p, 'w, 'n, 'e, 'u, 'j, 'd) main_setup \<Rightarrow> ('k, 'p, 'w, 'n, 'e, 'u, 'd) main_state \<Rightarrow> bytes option" where
  "pass_reads mu m =
     (let n = length (ms_input m); read = (\<lambda>k. fst (transport_read (mu_usb mu) k (ms_transport m)))
      in if ms_discard_oversized_input m then read kInputBytes
         else if line_end (ms_input m) = n \<and> n < kInputBytes then read (kInputBytes - n)
         else Some [])"

definition pass_takes :: "('k, 'p, 'w, 'n, 'e, 'u, 'd) main_state \<Rightarrow> frame list" where
  "pass_takes m =
     (let n = length (ms_input m); e = line_end (ms_input m)
      in if ms_discard_oversized_input m then []
         else if e = n then (if n \<ge> kInputBytes then [Oversized] else [])
         else [frame_of (take e (ms_input m))])"

definition buffer_ok :: "('k, 'p, 'w, 'n, 'e, 'u, 'd) main_state \<Rightarrow> bool" where
  "buffer_ok m \<longleftrightarrow> length (ms_input m) \<le> kInputBytes \<and> (ms_discard_oversized_input m \<longrightarrow> ms_input m = [])"

definition buffered :: "('k, 'p, 'w, 'n, 'e, 'u, 'd) main_state \<Rightarrow> frame list \<times> bool \<times> bytes" where
  "buffered m = frames_from (ms_discard_oversized_input m) [] (ms_input m)"

text \<open>A pass that read \<open>bs\<close> took \<open>fs\<close>: with \<open>bs\<close> appended, what was in the buffer is \<open>fs\<close> followed by what
  is in it now.\<close>

definition reframed where
  "reframed m bs fs m' \<longleftrightarrow> buffer_ok m' \<and>
     frames_from (ms_discard_oversized_input m) [] (ms_input m @ bs) = (case buffered m' of (gs, st) \<Rightarrow> (fs @ gs, st))"

text \<open>What the driver promises: never more bytes than asked for.\<close>

definition reads_at_most :: "'d usb_driver \<Rightarrow> bool" where
  "reads_at_most u \<longleftrightarrow> (\<forall>n d bs. fst (ud_read_bytes u n d) = Some bs \<longrightarrow> length bs \<le> n)"

lemma read_bounded: "reads_at_most u \<Longrightarrow> fst (transport_read u n t) = Some bs \<Longrightarrow> length bs \<le> n"
  by (auto simp: reads_at_most_def transport_read_def on_driver_def split: if_splits prod.splits)
    (metis fst_conv min.boundedE)

lemma pass_discard_effect:
  assumes "ms_discard_oversized_input m"
  shows "pass_outcome mu inp m (ms_protocol m) (pass_discard mu m)"
    "fst (transport_read (mu_usb mu) kInputBytes (ms_transport m)) = Some bs \<Longrightarrow> reads_at_most (mu_usb mu) \<Longrightarrow>
       buffer_ok m \<Longrightarrow> reframed m bs [] (pass_discard mu m)"
proof -
  obtain r m1 where r: "on_transport (transport_read (mu_usb mu) kInputBytes) m = (r, m1)" by (metis prod.collapse)
  have m1: "tp_phase (ms_transport m1) = tp_phase (ms_transport m)"
    using on_transport_cases [OF r] read_phase by (metis snd_conv)
  show "pass_outcome mu inp m (ms_protocol m) (pass_discard mu m)"
    by (rule outcome_quiet)
      (use assms m1 on_transport_cases [OF r] in
        \<open>auto simp: pass_discard_def r line_ready_def split: option.split\<close>)
  assume read: "fst (transport_read (mu_usb mu) kInputBytes (ms_transport m)) = Some bs"
    and law: "reads_at_most (mu_usb mu)" and ok: "buffer_ok m"
  have [simp]: "r = Some bs" using on_transport_cases [OF r] read by simp
  have fields: "ms_input m1 = []" "ms_discard_oversized_input m1" "ms_input m = []"
    using on_transport_cases [OF r] ok assms by (auto simp: buffer_ok_def)
  have short: "length bs \<le> kInputBytes" by (rule read_bounded [OF law read])
  show "reframed m bs [] (pass_discard mu m)"
  proof (cases "line_end bs = length bs")
    case True
    then have "10 \<notin> set bs" by (simp add: line_end_none)
    then show ?thesis
      using True assms fields by (simp add: pass_discard_def r reframed_def buffered_def buffer_ok_def frames_discarded)
  next
    case False
    from line_end_some [OF this] obtain xs ys where split: "bs = xs @ 10 # ys" "10 \<notin> set xs" by blast
    then have rest: "consume_input_prefix (line_end bs + 1) bs = ys" by (rule buffered_line(2))
    have "length ys \<le> kInputBytes" using short split(1) by simp
    have "pass_discard mu m = m1\<lparr>ms_input := ys, ms_discard_oversized_input := False\<rparr>"
      using False rest by (simp add: pass_discard_def r)
    then show ?thesis
      using \<open>length ys \<le> kInputBytes\<close> assms fields frames_discard_end [OF split(2)]
      by (simp add: reframed_def buffered_def buffer_ok_def split(1) split: prod.split)
  qed
qed

lemma pass_full_effect:
  assumes quiet: "\<not> ms_discard_oversized_input m" and none: "line_end (ms_input m) = length (ms_input m)"
    and full: "length (ms_input m) \<ge> kInputBytes"
  shows "pass_outcome mu inp m (ms_protocol m) (pass_fill mu m)"
    "buffer_ok m \<Longrightarrow> reframed m [] [Oversized] (pass_fill mu m)"
proof -
  define strict where "strict = (tp_phase (ms_transport m) = StrictPostHandshake)"
  have no_line: "10 \<notin> set (ms_input m)" using none by (simp add: line_end_none)
  then have unready: "\<not> line_ready mu m request" for request by (auto simp: line_ready_def)
  define m2 where "m2 = refuse_oversized mu strict (teardown_transport_session mu m)"
  have m': "pass_fill mu m = m2\<lparr>ms_input := [], ms_discard_oversized_input := True\<rparr>"
    using full by (simp add: pass_fill_def Let_def strict_def m2_def)
  note effect = refuse_effect [of mu "teardown_transport_session mu m" strict, folded m2_def]
  show "pass_outcome mu inp m (ms_protocol m) (pass_fill mu m)"
    by (rule outcome_quiet [OF unready]) (use effect in \<open>auto simp: m' intro: gives_up_after\<close>)
  show "reframed m [] [Oversized] (pass_fill mu m)" if "buffer_ok m"
  proof -
    have "length (ms_input m) = kInputBytes" using that full by (simp add: buffer_ok_def)
    then show ?thesis
      using frames_full [OF no_line] quiet by (simp add: m' reframed_def buffered_def buffer_ok_def)
  qed
qed

lemma pass_fill_effect:
  assumes quiet: "\<not> ms_discard_oversized_input m" and none: "line_end (ms_input m) = length (ms_input m)"
    and room: "length (ms_input m) < kInputBytes"
  shows "pass_outcome mu inp m (ms_protocol m) (pass_fill mu m)"
    "pass_reads mu m = Some bs \<Longrightarrow> reads_at_most (mu_usb mu) \<Longrightarrow> reframed m bs [] (pass_fill mu m)"
proof -
  have "10 \<notin> set (ms_input m)" using none by (simp add: line_end_none)
  then have unready: "\<not> line_ready mu m request" for request by (auto simp: line_ready_def)
  obtain r m1 where r: "on_transport (transport_read (mu_usb mu) (kInputBytes - length (ms_input m))) m = (r, m1)"
    by (metis prod.collapse)
  have phase: "tp_phase (ms_transport m1) = tp_phase (ms_transport m)"
    using on_transport_cases [OF r] read_phase by (metis snd_conv)
  have m': "pass_fill mu m = (case r of None \<Rightarrow> (fail_transport_session mu m1)\<lparr>ms_input := []\<rparr>
      | Some received \<Rightarrow> m1\<lparr>ms_input := ms_input m1 @ received\<rparr>)"
    using room by (simp add: pass_fill_def r)
  note m1 = on_transport_cases [OF r]
  show "pass_outcome mu inp m (ms_protocol m) (pass_fill mu m)"
    by (rule outcome_quiet [OF unready]) (use m1 phase in \<open>auto simp: m' split: option.split\<close>)
  assume read: "pass_reads mu m = Some bs" and law: "reads_at_most (mu_usb mu)"
  have bs: "fst (transport_read (mu_usb mu) (kInputBytes - length (ms_input m)) (ms_transport m)) = Some bs"
    using read quiet none room by (simp add: pass_reads_def)
  then have "r = Some bs" using m1 by simp
  moreover have "length bs \<le> kInputBytes - length (ms_input m)" by (rule read_bounded [OF law bs])
  ultimately show "reframed m bs [] (pass_fill mu m)"
    using m1 quiet room by (auto simp: m' reframed_def buffered_def buffer_ok_def split: prod.split)
qed

text \<open>Together: a pass over a line, a full buffer, or what the driver has received.\<close>

lemma pass_line_reframes:
  assumes quiet: "\<not> ms_discard_oversized_input m" and newline: "line_end (ms_input m) \<noteq> length (ms_input m)"
    and ok: "buffer_ok m" and m': "ms_input m' = consume_input_prefix (line_end (ms_input m) + 1) (ms_input m)"
    "\<not> ms_discard_oversized_input m'"
  shows "reframed m [] (pass_takes m) m'"
proof -
  obtain xs ys where split: "ms_input m = xs @ 10 # ys" "10 \<notin> set xs" using line_end_some [OF newline] by blast
  note buf = buffered_line [OF split]
  have takes: "pass_takes m = [frame_of xs]"
    using quiet newline buf(1) split(1) by (simp add: pass_takes_def Let_def)
  have "length xs + length ys < kInputBytes" using ok split(1) by (simp add: buffer_ok_def)
  then show ?thesis
    using takes m'(2) m'(1) [unfolded buf(2)] frames_line [OF split(2)] quiet
    by (simp add: reframed_def buffered_def buffer_ok_def split(1) split: prod.split)
qed

text \<open>The state in which a pass has seen the connection.\<close>

definition seen ::
  "('k, 'p, 'w, 'n, 'e, 'u, 'j, 'd) main_setup \<Rightarrow> 'k main_inputs \<Rightarrow> ('k, 'p, 'w, 'n, 'e, 'u, 'd) main_state \<Rightarrow>
   bool \<times> ('k, 'p, 'w, 'n, 'e, 'u, 'd) main_state" where
  "seen mu inp m = on_transport (transport_connected (mu_usb mu))
     (m\<lparr>ms_protocol := housekeeping (mu_protocol mu) (mi_housekeeping_ms inp) (ms_protocol m)\<rparr>)"

lemma seen_fields:
  "ms_protocol (snd (seen mu inp m)) = housekeeping (mu_protocol mu) (mi_housekeeping_ms inp) (ms_protocol m)"
  "ms_input (snd (seen mu inp m)) = ms_input m"
  "ms_discard_oversized_input (snd (seen mu inp m)) = ms_discard_oversized_input m"
  "tp_phase (ms_transport (snd (seen mu inp m))) = tp_phase (ms_transport m)"
  by (simp_all add: seen_def connected_phase)

lemma seen_same [simp]:
  "line_ready mu (snd (seen mu inp m)) request = line_ready mu m request"
  "pass_takes (snd (seen mu inp m)) = pass_takes m"
  "buffer_ok (snd (seen mu inp m)) = buffer_ok m"
  "reframed (snd (seen mu inp m)) bs fs m' = reframed m bs fs m'"
  "pass_outcome mu inp (snd (seen mu inp m)) h m' = pass_outcome mu inp m h m'"
  by (simp_all add: line_ready_def pass_takes_def Let_def buffer_ok_def reframed_def pass_outcome_def seen_fields)

lemma main_pass_cases:
  "main_pass mu inp m = (case seen mu inp m of (connected, m) \<Rightarrow>
     if \<not> connected then Some ((teardown_transport_session mu m)\<lparr>
         ms_transport := reset_pre_handshake (ms_transport m), ms_input := [], ms_discard_oversized_input := False\<rparr>)
     else if tp_phase (ms_transport m) = Faulted then Some (m\<lparr>ms_input := [], ms_discard_oversized_input := False\<rparr>)
     else if ms_discard_oversized_input m then Some (pass_discard mu m)
     else if line_end (ms_input m) = length (ms_input m) then Some (pass_fill mu m)
     else pass_line mu inp m)"
  unfolding main_pass_def seen_def Let_def by (simp split: prod.split)

text \<open>A pass in a session that is connected and not faulted.\<close>

lemma live_pass_effect:
  assumes run: "main_pass mu inp m = Some m'" and seen: "fst (seen mu inp m)" and phase: "tp_phase (ms_transport m) \<noteq> Faulted"
  shows "pass_outcome mu inp m (housekeeping (mu_protocol mu) (mi_housekeeping_ms inp) (ms_protocol m)) m'"
    "pass_reads mu (snd (seen mu inp m)) = Some bs \<Longrightarrow> reads_at_most (mu_usb mu) \<Longrightarrow> buffer_ok m \<Longrightarrow>
       reframed m bs (pass_takes m) m'"
proof -
  define m1 where "m1 = snd (seen mu inp m)"
  have s: "seen mu inp m = (True, m1)" using seen by (simp add: m1_def prod_eq_iff)
  note fields = seen_fields [of mu inp m, folded m1_def] and same = seen_same [of mu inp m, folded m1_def]
  have phase1: "tp_phase (ms_transport m1) \<noteq> Faulted" using phase fields(4) by simp
  have run1: "Some m' = (if ms_discard_oversized_input m1 then Some (pass_discard mu m1)
      else if line_end (ms_input m1) = length (ms_input m1) then Some (pass_fill mu m1) else pass_line mu inp m1)"
    using run phase1 by (simp add: main_pass_cases s)
  have "pass_outcome mu inp m1 (ms_protocol m1) m' \<and>
      (pass_reads mu m1 = Some bs \<longrightarrow> reads_at_most (mu_usb mu) \<longrightarrow> buffer_ok m1 \<longrightarrow> reframed m1 bs (pass_takes m1) m')"
  proof (cases "ms_discard_oversized_input m1")
    case True
    then show ?thesis
      using run1 pass_discard_effect [OF True, of mu] by (simp add: pass_reads_def pass_takes_def)
  next
    case quiet: False
    show ?thesis
    proof (cases "line_end (ms_input m1) = length (ms_input m1)")
      case none: True
      show ?thesis
      proof (cases "length (ms_input m1) < kInputBytes")
        case True
        then show ?thesis
          using run1 quiet none pass_fill_effect [OF quiet none True, of mu] by (simp add: pass_takes_def)
      next
        case False
        then have "kInputBytes \<le> length (ms_input m1)" by simp
        then show ?thesis
          using run1 quiet none pass_full_effect [OF quiet none, of mu] by (simp add: pass_takes_def pass_reads_def)
      qed
    next
      case False
      then have "pass_line mu inp m1 = Some m'" using run1 quiet by simp
      from pass_line_effect [OF this quiet False phase1] show ?thesis
        using pass_line_reframes [OF quiet False] quiet False by (auto simp: pass_reads_def)
    qed
  qed
  then show "pass_outcome mu inp m (housekeeping (mu_protocol mu) (mi_housekeeping_ms inp) (ms_protocol m)) m'"
    "pass_reads mu (snd (seen mu inp m)) = Some bs \<Longrightarrow> reads_at_most (mu_usb mu) \<Longrightarrow> buffer_ok m \<Longrightarrow>
       reframed m bs (pass_takes m) m'"
    unfolding same fields(1) m1_def [symmetric] by blast+
qed

section \<open>Runs of the loop\<close>

text \<open>Between the passes the host does what it likes to the driver, and the other tasks take their steps.\<close>

datatype 'k main_event = MePass "'k main_inputs" | MeUsb | MeTask "'k protocol_event"

fun other_task :: "'k protocol_event \<Rightarrow> bool" where
  "other_task (PeButton _) = True"
| "other_task (PeVault _) = True"
| "other_task PeElsewhere = True"
| "other_task _ = False"

inductive main_step ::
  "('k, logged_presence, 'w, 'n, 'e, 'u, 'j, 'd) main_setup \<Rightarrow>
   ('k, logged_presence, 'w, 'n, 'e, 'u, 'd) main_state \<Rightarrow> 'k main_event \<Rightarrow>
   ('k, logged_presence, 'w, 'n, 'e, 'u, 'd) main_state \<Rightarrow> bool" for mu where
  pass: "main_pass mu inp m = Some m' \<Longrightarrow> main_step mu m (MePass inp) m'"
| usb: "main_step mu m MeUsb (m\<lparr>ms_transport := (ms_transport m)\<lparr>tp_driver := d\<rparr>\<rparr>)"
| task: "other_task e \<Longrightarrow> protocol_step (mu_protocol mu) (ms_protocol m) e s \<Longrightarrow>
    main_step mu m (MeTask e) (m\<lparr>ms_protocol := s\<rparr>)"

inductive main_run for mu m0 where
  start: "main_run mu m0 [] m0"
| step: "main_run mu m0 es m \<Longrightarrow> main_step mu m e m' \<Longrightarrow> main_run mu m0 (es @ [e]) m'"

text \<open>Every run of the loop is a run of the protocol.\<close>

lemma run_gives_up:
  assumes "protocol_run cu s0 es s" "gives_up cu s s'"
  shows "\<exists>n. protocol_run cu s0 (es @ replicate n PeDisconnect) s'"
proof -
  obtain n where s': "s' = (protocol_disconnect cu ^^ n) s" using assms(2) by (auto simp: gives_up_def)
  have "protocol_run cu s0 (es @ replicate n PeDisconnect) ((protocol_disconnect cu ^^ n) s)"
  proof (induction n)
    case 0
    then show ?case using assms(1) by simp
  next
    case (Suc n)
    from protocol_run.step [OF Suc protocol_step.disconnect] show ?case by (simp add: replicate_append_same [symmetric])
  qed
  then show ?thesis using s' by blast
qed

fun requests :: "'k protocol_event list \<Rightarrow> bytes list" where
  "requests [] = []"
| "requests (PeLine inp request now # es) = request # requests es"
| "requests (_ # es) = requests es"

lemma requests_append [simp]: "requests (es @ fs) = requests es @ requests fs"
  by (induction es rule: requests.induct) simp_all

lemma requests_disconnects [simp]: "requests (replicate n PeDisconnect) = []"
  by (induction n) simp_all

lemma requests_task: "other_task e \<Longrightarrow> requests [e] = []"
  by (cases e) simp_all

lemma outcome_run:
  assumes run: "protocol_run (mu_protocol mu) s0 es (ms_protocol m)"
    and outcome: "pass_outcome mu inp m (housekeeping (mu_protocol mu) t (ms_protocol m)) m'"
  shows "\<exists>fs. protocol_run (mu_protocol mu) s0 (es @ fs) (ms_protocol m') \<and>
    ((\<forall>request. \<not> line_ready mu m request) \<and> requests fs = [] \<or> (\<exists>request. line_ready mu m request \<and> requests fs = [request]))"
proof -
  let ?cu = "mu_protocol mu" and ?h = "housekeeping (mu_protocol mu) t (ms_protocol m)"
  have h: "protocol_run ?cu s0 (es @ [PeHousekeeping t]) ?h"
    by (rule protocol_run.step [OF run protocol_step.housekeeping])
  have "(\<forall>request. \<not> line_ready mu m request) \<and> gives_up ?cu ?h (ms_protocol m') \<or>
      (\<exists>request r s. line_ready mu m request \<and>
        protocol_handle_line ?cu (mi_line inp) request (mi_line_ms inp) ?h = Some (r, s) \<and> gives_up ?cu s (ms_protocol m'))"
    using outcome unfolding pass_outcome_def by blast
  then show ?thesis
  proof (elim disjE conjE exE)
    assume none: "\<forall>request. \<not> line_ready mu m request" and "gives_up ?cu ?h (ms_protocol m')"
    then obtain n where "protocol_run ?cu s0 ((es @ [PeHousekeeping t]) @ replicate n PeDisconnect) (ms_protocol m')"
      using run_gives_up [OF h] by blast
    then have "protocol_run ?cu s0 (es @ (PeHousekeeping t # replicate n PeDisconnect)) (ms_protocol m')" by simp
    moreover have "requests (PeHousekeeping t # replicate n PeDisconnect) = []" by simp
    ultimately show ?thesis using none by blast
  next
    fix request r s
    assume ready: "line_ready mu m request"
      and "protocol_handle_line ?cu (mi_line inp) request (mi_line_ms inp) ?h = Some (r, s)" "gives_up ?cu s (ms_protocol m')"
    then obtain n where "protocol_run ?cu s0 (((es @ [PeHousekeeping t]) @ [PeLine (mi_line inp) request (mi_line_ms inp)]) @
        replicate n PeDisconnect) (ms_protocol m')"
      using run_gives_up [OF protocol_run.step [OF h protocol_step.line]] by blast
    then have "protocol_run ?cu s0 (es @ (PeHousekeeping t # PeLine (mi_line inp) request (mi_line_ms inp) #
        replicate n PeDisconnect)) (ms_protocol m')" by simp
    moreover have "requests (PeHousekeeping t # PeLine (mi_line inp) request (mi_line_ms inp) #
        replicate n PeDisconnect) = [request]" by simp
    ultimately show ?thesis using ready by blast
  qed
qed

text \<open>The other passes: nothing but housekeeping, and giving up on a disconnection.\<close>

lemma dead_pass_effect:
  assumes "main_pass mu inp m = Some m'" "\<not> fst (seen mu inp m) \<or> tp_phase (ms_transport m) = Faulted"
  shows "ms_protocol m' = (if fst (seen mu inp m) then id else protocol_disconnect (mu_protocol mu))
      (housekeeping (mu_protocol mu) (mi_housekeeping_ms inp) (ms_protocol m)) \<and>
    tp_phase (ms_transport m') = (if fst (seen mu inp m) then Faulted else PreHandshake) \<and>
    ms_input m' = [] \<and> \<not> ms_discard_oversized_input m'"
proof -
  obtain c m1 where s: "seen mu inp m = (c, m1)" by fastforce
  show ?thesis using assms seen_fields [of mu inp m] unfolding main_pass_cases s
    by (cases c) (auto simp: reset_pre_handshake_def)
qed

lemma main_step_run:
  assumes "main_step mu m e m'" and run: "protocol_run (mu_protocol mu) s0 es (ms_protocol m)"
  shows "\<exists>fs. protocol_run (mu_protocol mu) s0 (es @ fs) (ms_protocol m')"
  using assms(1)
proof (cases rule: main_step.cases)
  case (pass inp)
  show ?thesis
  proof (cases "\<not> fst (seen mu inp m) \<or> tp_phase (ms_transport m) = Faulted")
    case True
    have h: "protocol_run (mu_protocol mu) s0 (es @ [PeHousekeeping (mi_housekeeping_ms inp)])
        (housekeeping (mu_protocol mu) (mi_housekeeping_ms inp) (ms_protocol m))"
      by (rule protocol_run.step [OF run protocol_step.housekeeping])
    show ?thesis
      using dead_pass_effect [OF pass(2) True] h protocol_run.step [OF h protocol_step.disconnect] by (auto split: if_splits)
  next
    case False
    then show ?thesis using outcome_run [OF run live_pass_effect(1) [OF pass(2)]] by blast
  qed
next
  case usb
  then show ?thesis using run by (intro exI [of _ "[]"]) simp
next
  case (task pe s)
  then show ?thesis using protocol_run.step [OF run task(4)] by auto
qed

lemma main_run_protocol:
  "main_run mu m0 es m \<Longrightarrow> \<exists>fs. protocol_run (mu_protocol mu) (ms_protocol m0) fs (ms_protocol m)"
proof (induction rule: main_run.induct)
  case start
  then show ?case using protocol_run.start by blast
next
  case (step es m e m')
  then show ?case using main_step_run by blast
qed

lemma failed_read:
  assumes run: "main_pass mu inp m = Some m'" and seen: "fst (seen mu inp m)" and phase: "tp_phase (ms_transport m) \<noteq> Faulted"
    and none: "pass_reads mu (snd (seen mu inp m)) = None"
  shows "(buffer_ok m \<longrightarrow> buffer_ok m') \<and> tp_phase (ms_transport m') = Faulted"
proof -
  obtain m1 where s: "seen mu inp m = (True, m1)" using seen by (metis prod.collapse)
  have m1: "ms_input m1 = ms_input m" "ms_discard_oversized_input m1 = ms_discard_oversized_input m"
    "tp_phase (ms_transport m1) \<noteq> Faulted" "pass_reads mu m1 = None" "buffer_ok m1 = buffer_ok m"
    using seen_fields [of mu inp m] phase none seen_same(3) [of mu inp m] by (simp_all add: s)
  show ?thesis
  proof (cases "ms_discard_oversized_input m1")
    case True
    then have "fst (transport_read (mu_usb mu) kInputBytes (ms_transport m1)) = None"
      using m1(4) by (simp add: pass_reads_def)
    then obtain m2 where r: "on_transport (transport_read (mu_usb mu) kInputBytes) m1 = (None, m2)"
      by (metis on_transport_fields(5) prod.collapse)
    have "m' = fail_transport_session mu m2" using run True m1(3) by (simp add: main_pass_cases s pass_discard_def r)
    then show ?thesis using on_transport_cases [OF r] m1(1,2) by (simp add: buffer_ok_def)
  next
    case quiet: False
    have room: "line_end (ms_input m1) = length (ms_input m1)" "length (ms_input m1) < kInputBytes"
      using m1(4) quiet unfolding pass_reads_def Let_def by (metis option.distinct(1))+
    then have "fst (transport_read (mu_usb mu) (kInputBytes - length (ms_input m1)) (ms_transport m1)) = None"
      using m1(4) quiet by (simp add: pass_reads_def)
    then obtain m2 where r: "on_transport (transport_read (mu_usb mu) (kInputBytes - length (ms_input m1))) m1 = (None, m2)"
      by (metis on_transport_fields(5) prod.collapse)
    have "m' = (fail_transport_session mu m2)\<lparr>ms_input := []\<rparr>"
      using run quiet room m1(3) by (simp add: main_pass_cases s pass_fill_def r)
    then show ?thesis using on_transport_cases [OF r] quiet by (simp add: buffer_ok_def)
  qed
qed

lemma pass_buffer_ok:
  assumes run: "main_pass mu inp m = Some m'" and law: "reads_at_most (mu_usb mu)" and ok: "buffer_ok m"
  shows "buffer_ok m'"
proof (cases "\<not> fst (seen mu inp m) \<or> tp_phase (ms_transport m) = Faulted")
  case True
  then show ?thesis using dead_pass_effect [OF run] by (simp add: buffer_ok_def)
next
  case False
  then show ?thesis
    using ok failed_read [OF run] live_pass_effect(2) [OF run _ _ _ law ok]
    by (cases "pass_reads mu (snd (seen mu inp m))") (auto simp: reframed_def)
qed

lemma main_run_buffer_ok:
  "main_run mu m0 es m \<Longrightarrow> reads_at_most (mu_usb mu) \<Longrightarrow> buffer_ok m0 \<Longrightarrow> buffer_ok m"
proof (induction rule: main_run.induct)
  case (step es m e m')
  from step.hyps(2) show ?case
    using step.IH [OF step.prems] pass_buffer_ok [OF _ step.prems(1)]
    by (cases rule: main_step.cases) (auto simp: buffer_ok_def)
qed

lemma enter_loop_ok: "buffer_ok (enter_loop s t)"
  by (simp add: enter_loop_def buffer_ok_def)

section \<open>The strict session\<close>

text \<open>Steps during which no pass found the device disconnected, outside the strict phase, or the driver
  failing, with all the bytes received.\<close>

inductive strict_session for mu m0 where
  start: "strict_session mu m0 [] m0"
| pass: "strict_session mu m0 rs m \<Longrightarrow> tp_phase (ms_transport m) = StrictPostHandshake \<Longrightarrow> fst (seen mu inp m) \<Longrightarrow>
    pass_reads mu (snd (seen mu inp m)) = Some bs \<Longrightarrow> main_pass mu inp m = Some m' \<Longrightarrow> strict_session mu m0 (rs @ bs) m'"
| between: "strict_session mu m0 rs m \<Longrightarrow> main_step mu m e m' \<Longrightarrow> (\<And>inp. e \<noteq> MePass inp) \<Longrightarrow> strict_session mu m0 rs m'"

fun lines_of :: "frame list \<Rightarrow> bytes list" where
  "lines_of [] = []"
| "lines_of (Line request # fs) = request # lines_of fs"
| "lines_of (Oversized # fs) = lines_of fs"

lemma lines_append [simp]: "lines_of (fs @ gs) = lines_of fs @ lines_of gs"
  by (induction fs rule: lines_of.induct) simp_all

lemma takes_ready: "line_ready mu m request \<Longrightarrow> lines_of (pass_takes m) = [request]"
proof -
  assume ready: "line_ready mu m request"
  then obtain xs ys where split: "ms_input m = xs @ 10 # ys" "10 \<notin> set xs" and r: "request = stripped xs"
    by (auto simp: line_ready_def)
  have "frame_of xs = Line request" using ready r by (simp add: frame_of_def line_ready_def)
  moreover have "pass_takes m = [frame_of xs]"
    using ready buffered_line(1) [OF split] split(1) by (simp add: pass_takes_def Let_def line_ready_def)
  ultimately show ?thesis by simp
qed

lemma takes_unready:
  assumes none: "\<And>request. \<not> line_ready mu m request" and strict: "tp_phase (ms_transport m) = StrictPostHandshake"
  shows "lines_of (pass_takes m) = []"
proof (cases "ms_discard_oversized_input m \<or> line_end (ms_input m) = length (ms_input m)")
  case True
  then show ?thesis by (auto simp: pass_takes_def Let_def)
next
  case False
  then obtain xs ys where split: "ms_input m = xs @ 10 # ys" "10 \<notin> set xs" using line_end_some by blast
  have "\<not> line_ready mu m (stripped xs)" by (rule none)
  then have "frame_of xs = Oversized" using False split strict by (auto simp: line_ready_def frame_of_def)
  moreover have "pass_takes m = [frame_of xs]"
    using False buffered_line(1) [OF split] split(1) by (simp add: pass_takes_def Let_def)
  ultimately show ?thesis by simp
qed

text \<open>After \<open>rs\<close> has been received since \<open>m0\<close>, the protocol has handled the lines of the frames \<open>fs\<close>, and what
  is in the buffer yields the rest.\<close>

definition served where
  "served mu m0 rs m \<longleftrightarrow> (\<exists>es fs. protocol_run (mu_protocol mu) (ms_protocol m0) es (ms_protocol m) \<and>
     requests es = lines_of fs \<and>
     frames_from (ms_discard_oversized_input m0) [] (ms_input m0 @ rs) = (case buffered m of (gs, st) \<Rightarrow> (fs @ gs, st)))"

lemma served_start: "served mu m0 [] m0"
proof -
  have "protocol_run (mu_protocol mu) (ms_protocol m0) [] (ms_protocol m0) \<and> requests [] = lines_of [] \<and>
      frames_from (ms_discard_oversized_input m0) [] (ms_input m0 @ []) = (case buffered m0 of (gs, st) \<Rightarrow> ([] @ gs, st))"
    using protocol_run.start by (simp add: buffered_def)
  then show ?thesis unfolding served_def by blast
qed

lemma served_pass:
  assumes served: "served mu m0 rs m" and re: "reframed m bs (pass_takes m) m'"
    and outcome: "pass_outcome mu inp m (housekeeping (mu_protocol mu) t (ms_protocol m)) m'"
    and strict: "tp_phase (ms_transport m) = StrictPostHandshake"
  shows "served mu m0 (rs @ bs) m'"
proof -
  let ?frames = "frames_from (ms_discard_oversized_input m0) []"
  obtain es fs where es: "protocol_run (mu_protocol mu) (ms_protocol m0) es (ms_protocol m)" "requests es = lines_of fs"
    and fs: "?frames (ms_input m0 @ rs) = (case buffered m of (gs, st) \<Rightarrow> (fs @ gs, st))"
    using served by (auto simp: served_def)
  obtain es' where es': "protocol_run (mu_protocol mu) (ms_protocol m0) (es @ es') (ms_protocol m')"
    "requests es' = lines_of (pass_takes m)"
    using outcome_run [OF es(1) outcome] takes_ready takes_unready [OF _ strict] by metis
  obtain gs d buf where b: "buffered m = (gs, d, buf)" by (metis prod_cases3)
  have "?frames (ms_input m0 @ (rs @ bs)) = (case frames_from d buf bs of (gs', st) \<Rightarrow> (fs @ gs @ gs', st))"
    using frames_append [of "ms_discard_oversized_input m0" "[]" "ms_input m0 @ rs" bs] fs
    by (simp add: b split: prod.split)
  also have "\<dots> = (case frames_from (ms_discard_oversized_input m) [] (ms_input m @ bs) of (gs', st) \<Rightarrow> (fs @ gs', st))"
    using b by (simp add: frames_append buffered_def split: prod.split)
  also have "\<dots> = (case buffered m' of (gs', st) \<Rightarrow> ((fs @ pass_takes m) @ gs', st))"
    using re by (simp add: reframed_def split: prod.split)
  finally have "?frames (ms_input m0 @ (rs @ bs)) = (case buffered m' of (gs', st) \<Rightarrow> ((fs @ pass_takes m) @ gs', st))" .
  moreover have "requests (es @ es') = lines_of (fs @ pass_takes m)" using es(2) es'(2) by simp
  ultimately show ?thesis using es'(1) unfolding served_def by blast
qed

lemma served_between:
  assumes served: "served mu m0 rs m" and step: "main_step mu m e m'" "\<And>inp. e \<noteq> MePass inp"
  shows "served mu m0 rs m' \<and> buffer_ok m' = buffer_ok m"
  using step(1)
proof (cases rule: main_step.cases)
  case (pass inp)
  then show ?thesis using step(2) by simp
next
  case usb
  then show ?thesis using served by (simp add: served_def buffered_def buffer_ok_def)
next
  case (task e' s)
  have same: "buffered m' = buffered m" "buffer_ok m' = buffer_ok m" using task(2) by (simp_all add: buffered_def buffer_ok_def)
  obtain es fs where "protocol_run (mu_protocol mu) (ms_protocol m0) es (ms_protocol m)" "requests es = lines_of fs"
    and fs: "frames_from (ms_discard_oversized_input m0) [] (ms_input m0 @ rs) = (case buffered m of (gs, st) \<Rightarrow> (fs @ gs, st))"
    using served by (auto simp: served_def)
  then have "protocol_run (mu_protocol mu) (ms_protocol m0) (es @ [e']) (ms_protocol m')" "requests (es @ [e']) = lines_of fs"
    using protocol_run.step [OF _ task(4)] requests_task [OF task(3)] task(2) by simp_all
  then show ?thesis using fs unfolding served_def same by blast
qed

lemma strict_session_served:
  assumes law: "reads_at_most (mu_usb mu)" and ok: "buffer_ok m0"
  shows "strict_session mu m0 rs m \<Longrightarrow> buffer_ok m \<and> served mu m0 rs m"
proof (induction rule: strict_session.induct)
  case start
  then show ?case using ok served_start by blast
next
  case (pass rs m inp bs m')
  have healthy: "tp_phase (ms_transport m) \<noteq> Faulted" using pass.hyps(2) by simp
  note effect = live_pass_effect [OF pass.hyps(5,3) healthy]
  have re: "reframed m bs (pass_takes m) m'" using effect(2) [OF pass.hyps(4) law] pass.IH by blast
  then show ?case
    using served_pass [OF _ re effect(1) pass.hyps(2)] pass.IH unfolding reframed_def by blast
next
  case (between rs m e m')
  then show ?case using served_between [of mu m0 rs m e m'] by blast
qed

text \<open>The pass that opens a session: it takes a \<open>hello\<close> which the protocol answers with success.\<close>

definition opening_pass where
  "opening_pass mu m inp m' \<longleftrightarrow> main_pass mu inp m = Some m' \<and> (\<exists>request r s. line_ready mu m request \<and>
     opens_session mu request r \<and> protocol_handle_line (mu_protocol mu) (mi_line inp) request (mi_line_ms inp)
       (housekeeping (mu_protocol mu) (mi_housekeeping_ms inp) (ms_protocol m)) = Some (r, s))"

lemma step_into_strict:
  assumes "main_step mu m e m'" "tp_phase (ms_transport m') = StrictPostHandshake"
  shows "tp_phase (ms_transport m) = StrictPostHandshake \<and> (\<forall>m0 rs. strict_session mu m0 rs m \<longrightarrow>
      (\<exists>rs'. strict_session mu m0 rs' m')) \<or> (\<exists>inp. e = MePass inp \<and> opening_pass mu m inp m')"
  using assms(1)
proof (cases rule: main_step.cases)
  case (pass inp)
  have live: "fst (seen mu inp m)" "tp_phase (ms_transport m) \<noteq> Faulted"
    using dead_pass_effect [OF pass(2)] assms(2) by (metis session_phase.distinct)+
  have "pass_reads mu (snd (seen mu inp m)) \<noteq> None" using failed_read [OF pass(2) live] assms(2) by auto
  then obtain bs where "pass_reads mu (snd (seen mu inp m)) = Some bs" by blast
  then have "strict_session mu m0 (rs @ bs) m'"
    if "tp_phase (ms_transport m) = StrictPostHandshake" "strict_session mu m0 rs m" for m0 rs
    using strict_session.pass [OF that(2,1) live(1) _ pass(2)] by blast
  then show ?thesis
    using live_pass_effect(1) [OF pass(2) live] assms(2) pass unfolding pass_outcome_def opening_pass_def by fastforce
next
  case usb
  then show ?thesis using strict_session.between [OF _ assms(1)] assms(2) by fastforce
next
  case (task pe s)
  then show ?thesis using strict_session.between [OF _ assms(1)] assms(2) by fastforce
qed

text \<open>C14. Before the host has said \<open>hello\<close> there is no session. However the loop has run since it was
  entered, if the transport is in its strict phase then a pass took a whole line that is a valid \<open>hello\<close>,
  the protocol handled that line and answered it with success, and every pass since then found the device
  connected, the phase strict and the driver working.\<close>

theorem session_starts_with_hello:
  assumes "main_run mu (enter_loop s t) es m" "tp_phase t = PreHandshake" "tp_phase (ms_transport m) = StrictPostHandshake"
  shows "\<exists>es1 inp es2 m1 m2 request r s1 rs. es = es1 @ MePass inp # es2 \<and> main_run mu (enter_loop s t) es1 m1 \<and>
    line_ready mu m1 request \<and> opens_session mu request r \<and>
    protocol_handle_line (mu_protocol mu) (mi_line inp) request (mi_line_ms inp)
      (housekeeping (mu_protocol mu) (mi_housekeeping_ms inp) (ms_protocol m1)) = Some (r, s1) \<and>
    main_pass mu inp m1 = Some m2 \<and> strict_session mu m2 rs m"
proof -
  have "\<exists>es1 inp es2 m1 m2 rs. es = es1 @ MePass inp # es2 \<and> main_run mu (enter_loop s t) es1 m1 \<and>
    opening_pass mu m1 inp m2 \<and> strict_session mu m2 rs m"
    using assms(1,3)
  proof (induction rule: main_run.induct)
    case start
    then show ?case using assms(2) by (simp add: enter_loop_def)
  next
    case (step es m e m')
    from step_into_strict [OF step.hyps(2) step.prems] show ?case
    proof (elim disjE conjE exE)
      assume now: "tp_phase (ms_transport m) = StrictPostHandshake"
        and extends: "\<forall>m0 rs. strict_session mu m0 rs m \<longrightarrow> (\<exists>rs'. strict_session mu m0 rs' m')"
      from step.IH [OF now] obtain es1 inp es2 m1 m2 rs where "es = es1 @ MePass inp # es2"
        "main_run mu (enter_loop s t) es1 m1" "opening_pass mu m1 inp m2" "strict_session mu m2 rs m" by blast
      moreover from this(1) have "es @ [e] = es1 @ MePass inp # (es2 @ [e])" by simp
      ultimately show ?thesis using extends by blast
    next
      fix inp
      assume "e = MePass inp" "opening_pass mu m inp m'"
      then show ?thesis using step.hyps(1) strict_session.start by blast
    qed
  qed
  then show ?thesis unfolding opening_pass_def by blast
qed

text \<open>C13. The stream is served in its frames. Whatever the pieces in which the driver delivers the bytes, in
  a session the protocol handles exactly the lines of the stream, in order, each once and without the carriage
  returns at its end, skipping what does not fit; what is in the buffer yields the frames that are still
  to come. \<open>frames_from\<close> cuts a stream byte by byte.\<close>

theorem stream_is_served_in_frames:
  assumes "reads_at_most (mu_usb mu)" "main_run mu (enter_loop s t) es0 m0" "strict_session mu m0 rs m"
  shows "\<exists>es fs. protocol_run (mu_protocol mu) (ms_protocol m0) es (ms_protocol m) \<and> requests es = lines_of fs \<and>
    frames_from (ms_discard_oversized_input m0) [] (ms_input m0 @ rs) =
      (case frames_from (ms_discard_oversized_input m) [] (ms_input m) of (pending, st) \<Rightarrow> (fs @ pending, st))"
  using strict_session_served [OF assms(1) main_run_buffer_ok [OF assms(2,1) enter_loop_ok] assms(3)]
  unfolding served_def buffered_def by blast

lemma gives_up_still: "gives_up cu s s' \<Longrightarrow> vault_still (cq_device s) (cq_device s')"
proof -
  have "vault_still (cq_device s) (cq_device ((protocol_disconnect cu ^^ n) s))" for n
    by (induction n) (auto intro: still_trans)
  then show "gives_up cu s s' \<Longrightarrow> vault_still (cq_device s) (cq_device s')" by (auto simp: gives_up_def)
qed

text \<open>What a line that passes the handshake as \<open>hello\<close> is to the protocol, whose parser accepts all that the
  transport's does.\<close>

lemma hello_is_no_reset:
  assumes law: "\<And>root. mu_strict mu line = Some root \<Longrightarrow> js_parse (cu_json (mu_protocol mu)) line = Some root"
    and hello: "fi_hello (classify_protocol_frame (cu_json (mu_protocol mu)) (mu_strict mu) line)"
  shows "\<not> reset_line (mu_protocol mu) s (PeLine inp line now)"
proof -
  let ?api = "cu_json (mu_protocol mu)"
  obtain root where "mu_strict mu line = Some root" "Option.bind (js_item ?api root ''op'') (js_string ?api) = Some (ascii ''hello'')"
    using hello by (auto simp: classify_protocol_frame_def Let_def split: option.splits if_splits)
  then have "operation = ascii ''hello''" if "well_formed_request ?api line = Some (i, operation, params)" for i operation params
    using that law by (auto simp: well_formed_request_def split: if_splits option.splits)
  then show ?thesis by (auto simp: reset_line_def reset_request_def ascii_def)
qed

lemma main_step_vault:
  assumes p: "cu_presence (mu_protocol mu) = logged_ops" and inv: "button_inv (mu_protocol mu) (ms_protocol m)"
    and run: "main_step mu m e m'"
  shows "vault_kept (cq_device (ms_protocol m)) (cq_device (ms_protocol m')) \<or>
    (\<exists>inp request. e = MePass inp \<and> line_ready mu m request \<and>
      reset_line (mu_protocol mu) (housekeeping (mu_protocol mu) (mi_housekeeping_ms inp) (ms_protocol m))
        (PeLine (mi_line inp) request (mi_line_ms inp)))"
  using run
proof (cases rule: main_step.cases)
  case (pass inp)
  let ?cu = "mu_protocol mu"
  define h where "h = housekeeping ?cu (mi_housekeeping_ms inp) (ms_protocol m)"
  have h: "button_inv ?cu h" "vault_still (cq_device (ms_protocol m)) (cq_device h)"
    using button.housekeeping_inv [OF p inv] unfolding h_def by blast+
  show ?thesis
  proof (cases "\<not> fst (seen mu inp m) \<or> tp_phase (ms_transport m) = Faulted")
    case True
    have "gives_up ?cu h (ms_protocol m')" using dead_pass_effect [OF pass(2) True] by (auto simp: h_def)
    then show ?thesis using still_kept [OF still_trans [OF h(2) gives_up_still]] by blast
  next
    case False
    then have "pass_outcome mu inp m h m'" using live_pass_effect(1) [OF pass(2)] unfolding h_def by blast
    then consider (quiet) "gives_up ?cu h (ms_protocol m')"
      | (line) request r s where "line_ready mu m request"
          "protocol_handle_line ?cu (mi_line inp) request (mi_line_ms inp) h = Some (r, s)" "gives_up ?cu s (ms_protocol m')"
      unfolding pass_outcome_def by blast
    then show ?thesis
    proof cases
      case quiet
      then show ?thesis using still_kept [OF still_trans [OF h(2) gives_up_still]] by blast
    next
      case line
      then have "vault_kept (cq_device h) (cq_device s) \<or> reset_line ?cu h (PeLine (mi_line inp) request (mi_line_ms inp))"
        using step_facts [OF protocol_step.line [OF line(2)] p h(1)] by blast
      then show ?thesis
        using line pass(1) kept_still [OF still_kept_trans [OF h(2)] gives_up_still [OF line(3)]] unfolding h_def by blast
    qed
  qed
next
  case usb
  then show ?thesis by (simp add: still_kept)
next
  case (task pe s)
  then have "\<not> reset_line (mu_protocol mu) (ms_protocol m) pe" by (cases pe) (auto simp: reset_line_def)
  then show ?thesis using step_facts [OF task(4) p inv] task(2) by simp
qed

text \<open>C2. A Vault is lost only inside a session. In any run of the powered device a step can take the Vault away,
  or replace it by anything but its successor, only if it is a pass of the loop that finds the transport in
  its strict phase and a whole line in the buffer, and that line is a FACTORY RESET which the user has
  confirmed; no byte that arrives before a \<open>hello\<close> or after a fault can. The hypothesis on the two parsers is
  that the handler's, which ignores what follows a value, reads what the transport's accepts in the
  same way.\<close>

theorem vault_lost_only_in_a_session:
  assumes "cu_presence (mu_protocol mu) = logged_ops"
    and "\<And>line root. mu_strict mu line = Some root \<Longrightarrow> js_parse (cu_json (mu_protocol mu)) line = Some root"
    and "power_up_device (cu_device (mu_protocol mu)) rng w n = Some d"
    and "main_run mu (enter_loop (new_protocol d ts (initial_presence, []) u) t) es m" "main_step mu m e m'"
  shows "vault_kept (cq_device (ms_protocol m)) (cq_device (ms_protocol m')) \<or>
    tp_phase (ms_transport m) = StrictPostHandshake \<and>
    (\<exists>inp request. e = MePass inp \<and> line_ready mu m request \<and>
      reset_line (mu_protocol mu) (housekeeping (mu_protocol mu) (mi_housekeeping_ms inp) (ms_protocol m))
        (PeLine (mi_line inp) request (mi_line_ms inp)))"
proof -
  obtain fs where "protocol_run (mu_protocol mu) (new_protocol d ts (initial_presence, []) u) fs (ms_protocol m)"
    using main_run_protocol [OF assms(4)] by (auto simp: enter_loop_def)
  then have inv: "button_inv (mu_protocol mu) (ms_protocol m)" by (rule run_from_power_up [OF assms(1,3)])
  have "tp_phase (ms_transport m) = StrictPostHandshake"
    if ready: "line_ready mu m request" and reset: "reset_line (mu_protocol mu) h (PeLine inp request now)"
    for request h inp now
  proof (cases "tp_phase (ms_transport m)")
    case PreHandshake
    then show ?thesis using ready reset hello_is_no_reset [OF assms(2)] by (auto simp: line_ready_def)
  qed (use ready in \<open>simp_all add: line_ready_def\<close>)
  then show ?thesis using main_step_vault [OF assms(1) inv assms(5)] by blast
qed

section \<open>A sample loop\<close>

text \<open>The driver has a list of the pieces that the host will send. The JSON of \<open>demo_json\<close> again, where all
  that the device prints is the text of the second tree.\<close>

definition demo_usb :: "bytes list usb_driver" where
  "demo_usb = \<lparr>ud_is_driver_installed = \<lambda>d. (False, d), ud_driver_install = \<lambda>d. (True, d), ud_is_connected = \<lambda>d. (True, d),
     ud_read_bytes = \<lambda>n d. (case d of [] \<Rightarrow> (Some [], []) | c # cs \<Rightarrow> (Some (take n c), cs)),
     ud_write_bytes = \<lambda>chunk d. (int (length chunk), d), ud_wait_tx_done = \<lambda>d. (True, d)\<rparr>"

definition demo_texts :: "json_tree list" where
  "demo_texts = [demo_request ''hello'' [], JObject [(''v'', JNumber 2), (''id'', JNumber 1), (''ok'', JBool True)]]"

definition demo_loop ::
  "(unit, logged_presence, persisted_snapshot, ram, bool, bool, json_tree, bytes list) main_setup" where
  "demo_loop = \<lparr>mu_protocol = (demo_setup logged_ops demo_texts)\<lparr>cu_json := (demo_json demo_texts)\<lparr>js_print := \<lambda>_. [1]\<rparr>\<rparr>,
     mu_usb = demo_usb, mu_strict = js_parse (demo_json demo_texts)\<rparr>"

definition demo_transport :: "session_phase \<Rightarrow> bytes list \<Rightarrow> bytes list transport" where
  "demo_transport phase pieces = \<lparr>tp_installed = True, tp_phase = phase, tp_driver = pieces\<rparr>"

definition demo_inputs :: "unit main_inputs" where
  "demo_inputs = \<lparr>mi_housekeeping_ms = 5, mi_line_ms = 7, mi_line = \<lparr>li_entropy = sample_entropy, li_timer_us = 0\<rparr>\<rparr>"

lemmas demo_loop_defs = demo_loop_def demo_usb_def demo_transport_def demo_inputs_def demo_setup_def demo_json_def

lemma demo_loop_laws:
  "reads_at_most (mu_usb demo_loop)"
  "mu_strict demo_loop line = Some root \<Longrightarrow> js_parse (cu_json (mu_protocol demo_loop)) line = Some root"
  "cu_presence (mu_protocol demo_loop) = logged_ops"
  by (auto simp: demo_loop_def demo_usb_def demo_setup_def demo_json_def reads_at_most_def split: list.splits)

text \<open>A pass that reads a short piece into an empty buffer, and what it sees.\<close>

lemma demo_seen:
  "seen demo_loop demo_inputs \<lparr>ms_protocol = s, ms_transport = demo_transport phase d, ms_input = i, ms_discard_oversized_input = f\<rparr> =
    (True, \<lparr>ms_protocol = housekeeping (mu_protocol demo_loop) 5 s, ms_transport = demo_transport phase d,
      ms_input = i, ms_discard_oversized_input = f\<rparr>)"
  by (simp add: seen_def on_transport_def transport_connected_def on_driver_def demo_loop_def demo_usb_def demo_transport_def
      demo_inputs_def)

lemma demo_phase [simp]: "tp_phase (demo_transport phase d) = phase"
  by (simp add: demo_transport_def)

lemma demo_moves [simp]:
  "establish_handshake (demo_transport phase d) = demo_transport StrictPostHandshake d"
  "fail_session (demo_transport phase d) = demo_transport Faulted d"
  by (simp_all add: establish_handshake_def fail_session_def demo_transport_def)

lemma input_room [simp]: "0 < kInputBytes" "kInputBytes \<noteq> 0"
  by (simp_all add: kInputBytes_def)

lemma demo_read:
  assumes "length piece \<le> 100"
  shows "transport_read (mu_usb demo_loop) (kInputBytes - 0) (demo_transport phase [piece]) = (Some piece, demo_transport phase [])"
  using assms by (simp add: transport_read_def on_driver_def demo_loop_def demo_usb_def demo_transport_def kInputBytes_def
      kMaxCanonicalV2MessageBytes_def)

lemma demo_pass_read:
  assumes "length piece \<le> 100" "phase \<noteq> Faulted"
  shows "main_pass demo_loop demo_inputs (enter_loop s (demo_transport phase [piece])) =
      Some \<lparr>ms_protocol = housekeeping (mu_protocol demo_loop) 5 s, ms_transport = demo_transport phase [],
        ms_input = piece, ms_discard_oversized_input = False\<rparr>"
    "pass_reads demo_loop (snd (seen demo_loop demo_inputs (enter_loop s (demo_transport phase [piece])))) = Some piece"
  using assms(2) demo_read [OF assms(1)]
  by (simp_all add: main_pass_cases enter_loop_def demo_seen pass_fill_def pass_reads_def on_transport_def line_end_def)

text \<open>A pass over a line of one byte: the protocol handles it, and the answer is written.\<close>

lemma demo_write:
  "write_response demo_loop r \<lparr>ms_protocol = s, ms_transport = demo_transport phase d, ms_input = i, ms_discard_oversized_input = f\<rparr> =
    (True, \<lparr>ms_protocol = s, ms_transport = demo_transport phase d, ms_input = i, ms_discard_oversized_input = f\<rparr>)"
  by (simp add: write_response_def on_transport_def write_frame_def on_driver_def write_chunks.simps demo_loop_def demo_usb_def
      demo_transport_def kUsbProtocolWriteChunkBytes_def)

lemma demo_pass_line:
  assumes phase: "phase \<noteq> Faulted" and b: "b \<noteq> 10" "b \<noteq> 13"
    and info: "classify_protocol_frame (cu_json (mu_protocol demo_loop)) (mu_strict demo_loop) [b] = info"
    and hello: "phase = PreHandshake \<Longrightarrow> fi_valid info \<and> fi_hello info"
    and handled: "protocol_handle_line (mu_protocol demo_loop) (mi_line demo_inputs) [b] 7 (housekeeping (mu_protocol demo_loop) 5 s) =
      Some (r, s')"
  shows "main_pass demo_loop demo_inputs
      \<lparr>ms_protocol = s, ms_transport = demo_transport phase d, ms_input = [b, 13, 10], ms_discard_oversized_input = False\<rparr> =
    Some \<lparr>ms_protocol = s', ms_transport = demo_transport (if opens_session demo_loop [b] r then StrictPostHandshake
        else if phase = StrictPostHandshake \<and> \<not> fi_valid info then Faulted else phase) d,
      ms_input = [], ms_discard_oversized_input = False\<rparr>"
proof -
  have buf: "line_end [b, 13, 10] = Suc (Suc 0)" "strip_carriage_returns [b, 13, 10] (Suc (Suc 0)) = Suc 0"
    using b by (simp_all add: line_end_def)
  have opens: "opens_session demo_loop [b] r \<longleftrightarrow> fi_valid info \<and> fi_hello info \<and> successful_protocol_response_for_id
      (cu_json (mu_protocol demo_loop)) (mu_strict demo_loop) (js_print (cu_json (mu_protocol demo_loop)) (response_tree r))
      (fi_id info)"
    using hello_valid [of "cu_json (mu_protocol demo_loop)" "mu_strict demo_loop" "[b]"]
    by (auto simp: opens_session_def Let_def info)
  have times: "mi_line_ms demo_inputs = 7" by (simp add: demo_inputs_def)
  have kept: "\<not> (phase = PreHandshake \<and> \<not> (fi_valid info \<and> fi_hello info))" using hello by blast
  show ?thesis
    using phase kept b
    by (auto simp: main_pass_cases demo_seen pass_line_def buf info handled times demo_write opens Let_def
        consume_input_prefix_def kMaxCanonicalV2MessageBytes_def)
qed

text \<open>The state that the sample starts in, and the handling of its two lines: a \<open>hello\<close> and a text that is
  no JSON.\<close>

definition demo_boot :: "session_phase \<Rightarrow> bytes \<Rightarrow>
    (unit, logged_presence, persisted_snapshot, ram, bool, bool, bytes list) main_state" where
  "demo_boot phase piece = enter_loop demo_start (demo_transport phase [piece])"

lemma demo_hello:
  "classify_protocol_frame (cu_json (mu_protocol demo_loop)) (mu_strict demo_loop) [0] =
    \<lparr>fi_valid = True, fi_hello = True, fi_id = 1\<rparr>"
  "well_formed_request (cu_json (mu_protocol demo_loop)) [0] = Some (1, ascii ''hello'', JObject [])"
  "opens_session demo_loop [0] r"
proof -
  show c: "classify_protocol_frame (cu_json (mu_protocol demo_loop)) (mu_strict demo_loop) [0] =
    \<lparr>fi_valid = True, fi_hello = True, fi_id = 1\<rparr>"
    by (simp add: classify_protocol_frame_def demo_loop_def demo_json_def demo_texts_def demo_request_def
        read_nonnegative_int_def kProtocolVersion_def)
  show "well_formed_request (cu_json (mu_protocol demo_loop)) [0] = Some (1, ascii ''hello'', JObject [])"
    by (simp add: well_formed_request_def demo_loop_def demo_json_def demo_texts_def demo_request_def
        read_nonnegative_int_def kProtocolVersion_def kMaxCanonicalV2MessageBytes_def)
  show "opens_session demo_loop [0] r"
    unfolding opens_session_def Let_def c
    by (simp add: successful_protocol_response_for_id_def demo_loop_def demo_json_def demo_texts_def demo_request_def
        read_nonnegative_int_def kProtocolVersion_def)
qed

lemma demo_nonsense:
  "classify_protocol_frame (cu_json (mu_protocol demo_loop)) (mu_strict demo_loop) [9] =
    \<lparr>fi_valid = False, fi_hello = False, fi_id = 0\<rparr>"
  "well_formed_request (cu_json (mu_protocol demo_loop)) [9] = None" "\<not> opens_session demo_loop [9] r"
  by (simp_all add: classify_protocol_frame_def opens_session_def well_formed_request_def demo_loop_def demo_json_def
      demo_texts_def)

lemma demo_handles:
  "\<exists>r s'. protocol_handle_line (mu_protocol demo_loop) inp [0] now s = Some (r, s')"
  "\<exists>r s'. protocol_handle_line (mu_protocol demo_loop) inp [9] now s = Some (r, s')"
proof -
  have "\<not> is_session_operation (ascii ''hello'')" by (simp add: is_session_operation_def ascii_def)
  then show "\<exists>r s'. protocol_handle_line (mu_protocol demo_loop) inp [0] now s = Some (r, s')"
    using handle_line_eq [of "mu_protocol demo_loop" inp "[0]" now s] by (simp add: demo_hello(2) protocol_request_def)
  show "\<exists>r s'. protocol_handle_line (mu_protocol demo_loop) inp [9] now s = Some (r, s')"
    using handle_line_eq [of "mu_protocol demo_loop" inp "[9]" now s] by (auto simp: demo_nonsense(2))
qed

theorem session_starts_with_hello_witness:
  "\<exists>m es1 inp es2 m1 m2 request r s1 rs. main_run demo_loop (demo_boot PreHandshake [0, 13, 10]) (es1 @ MePass inp # es2) m \<and>
    tp_phase (ms_transport m) = StrictPostHandshake \<and> line_ready demo_loop m1 request \<and> opens_session demo_loop request r \<and>
    protocol_handle_line (mu_protocol demo_loop) (mi_line inp) request (mi_line_ms inp)
      (housekeeping (mu_protocol demo_loop) (mi_housekeeping_ms inp) (ms_protocol m1)) = Some (r, s1) \<and>
    main_pass demo_loop inp m1 = Some m2 \<and> strict_session demo_loop m2 rs m"
proof -
  let ?t = "demo_transport PreHandshake [[0, 13, 10]]" and ?h = "housekeeping (mu_protocol demo_loop) 5 demo_start"
  obtain r s' where handled: "protocol_handle_line (mu_protocol demo_loop) (mi_line demo_inputs) [0] 7
      (housekeeping (mu_protocol demo_loop) 5 ?h) = Some (r, s')" using demo_handles(1) by blast
  define m1 where "m1 = \<lparr>ms_protocol = ?h, ms_transport = demo_transport PreHandshake [],
    ms_input = [0, 13, 10], ms_discard_oversized_input = False\<rparr>"
  define m where "m = \<lparr>ms_protocol = s', ms_transport = demo_transport StrictPostHandshake [],
    ms_input = [], ms_discard_oversized_input = False\<rparr>"
  have 1: "main_pass demo_loop demo_inputs (enter_loop demo_start ?t) = Some m1"
    using demo_pass_read(1) [of "[0, 13, 10]" PreHandshake demo_start] by (simp add: m1_def)
  have 2: "main_pass demo_loop demo_inputs m1 = Some m"
    using demo_pass_line [OF _ _ _ demo_hello(1) _ handled, of PreHandshake "[]"] by (simp add: m1_def m_def demo_hello(3))
  have run: "main_run demo_loop (enter_loop demo_start ?t) (([] @ [MePass demo_inputs]) @ [MePass demo_inputs]) m"
    by (rule main_run.step [OF main_run.step [OF main_run.start main_step.pass [OF 1]] main_step.pass [OF 2]])
  have phase: "tp_phase (ms_transport m) = StrictPostHandshake" by (simp add: m_def)
  from session_starts_with_hello [OF run demo_phase phase] run phase show ?thesis
    unfolding demo_boot_def by metis
qed

theorem stream_is_served_in_frames_witness:
  "\<exists>m es fs. strict_session demo_loop (demo_boot StrictPostHandshake [9, 13, 10]) [9, 13, 10] m \<and> ms_input m = [] \<and>
    protocol_run (mu_protocol demo_loop) demo_start es (ms_protocol m) \<and> requests es = [[9]]"
proof -
  let ?m0 = "enter_loop demo_start (demo_transport StrictPostHandshake [[9, 13, 10]])"
  let ?h = "housekeeping (mu_protocol demo_loop) 5 demo_start"
  obtain r s' where handled: "protocol_handle_line (mu_protocol demo_loop) (mi_line demo_inputs) [9] 7
      (housekeeping (mu_protocol demo_loop) 5 ?h) = Some (r, s')" using demo_handles(2) by blast
  define m1 where "m1 = \<lparr>ms_protocol = ?h, ms_transport = demo_transport StrictPostHandshake [],
    ms_input = [9, 13, 10], ms_discard_oversized_input = False\<rparr>"
  define m where "m = \<lparr>ms_protocol = s', ms_transport = demo_transport Faulted [],
    ms_input = [], ms_discard_oversized_input = False\<rparr>"
  have 1: "main_pass demo_loop demo_inputs ?m0 = Some m1"
    "pass_reads demo_loop (snd (seen demo_loop demo_inputs ?m0)) = Some [9, 13, 10]"
    using demo_pass_read [of "[9, 13, 10]" StrictPostHandshake demo_start] by (simp_all add: m1_def)
  have 2: "main_pass demo_loop demo_inputs m1 = Some m"
    using demo_pass_line [OF _ _ _ demo_nonsense(1) _ handled, of StrictPostHandshake "[]"]
    by (simp add: m1_def m_def demo_nonsense(3))
  have "strict_session demo_loop ?m0 ([] @ [9, 13, 10]) m1"
    by (rule strict_session.pass [OF strict_session.start _ _ 1(2,1)]) (simp_all add: enter_loop_def demo_seen)
  then have "strict_session demo_loop ?m0 (([] @ [9, 13, 10]) @ []) m"
    by (rule strict_session.pass [OF _ _ _ _ 2]) (simp_all add: m1_def demo_seen pass_reads_def line_end_def)
  then have strict: "strict_session demo_loop ?m0 [9, 13, 10] m" by simp
  from stream_is_served_in_frames [OF demo_loop_laws(1) main_run.start strict] obtain es fs where
    run: "protocol_run (mu_protocol demo_loop) demo_start es (ms_protocol m)" "requests es = lines_of fs"
    and fs: "frames_from False [] [9, 13, 10] = (fs, False, [])"
    by (auto simp: enter_loop_def m_def)
  from fs have "fs = [Line [9]]"
    by (simp add: frame_of_def stripped_def kInputBytes_def kMaxCanonicalV2MessageBytes_def)
  then have "requests es = [[9]]" using run(2) by simp
  moreover have "ms_input m = []" by (simp add: m_def)
  ultimately show ?thesis using strict run(1) unfolding demo_boot_def by blast
qed

theorem vault_lost_only_in_a_session_witness:
  "\<exists>m. main_pass demo_loop demo_inputs (demo_boot PreHandshake [0, 13, 10]) = Some m \<and>
    rt_has_vault (dv_runtime (cq_device (ms_protocol m)))"
proof -
  let ?t = "demo_transport PreHandshake [[0, 13, 10]]"
  obtain m where m: "main_pass demo_loop demo_inputs (enter_loop demo_start ?t) = Some m"
    using demo_pass_read(1) [of "[0, 13, 10]" PreHandshake demo_start] by auto
  have power: "power_up_device (cu_device (mu_protocol demo_loop)) demo_rng demo_store (9, \<lambda>_ _. None) =
      Some (demo_parts demo_locked)"
    using demo_power_up by (simp add: demo_loop_def)
  have "vault_kept (cq_device demo_start) (cq_device (ms_protocol m))"
    using vault_lost_only_in_a_session [OF demo_loop_laws(3) demo_loop_laws(2) power main_run.start
        main_step.pass [OF m [unfolded demo_start_def]]]
    by (simp add: enter_loop_def demo_start_def)
  moreover have "rt_has_vault (dv_runtime (cq_device demo_start))"
    by (simp add: demo_start_def new_protocol_def demo_parts_def demo_locked_def)
  ultimately show ?thesis using m unfolding demo_boot_def by (auto simp: vault_kept_def)
qed

end
