(* ===== verification/Spec2Isabelle.thy ===== *)
theory Spec2Isabelle
  imports Vault_Format_Correct Totp_Core Trusted_Time Base64url Delivery Vault_Runtime_Props Nvs_Atomicity
    Vmk_Sink_Correct Session_Handler_Correct Time_Service_Correct Protocol_Props Device_Props Transport_Props
begin

text \<open>
  M5Authenticator keeps TOTP secrets in an encrypted Vault on an M5StickS3. A browser that holds the key of
  the Vault (the VMK) delivers it over USB, sealed for one session and after the user has pressed the
  button; the device then shows codes on its own screen. This development models the firmware under
  \<open>src/firmware\<close> that does so, and proves what makes it safe and correct.

  \<^bold>\<open>The parts and the theories that model them.\<close> Names without a directory are of
  \<open>src/firmware/components\<close>.

  \<^item> \<open>Prelude\<close>, \<open>Codec\<close>, \<open>Bit_Stream\<close>, \<open>Expiry\<close>: shared bytes, words, readers, saturating deadlines, and
    the locale \<open>expiring\<close>, the contract of everything that has a time to live.
  \<^item> \<open>Utf8\<close>, \<open>Vault_Format\<close>, \<open>Vault_Format_Correct\<close>: \<open>m5auth_vault/vault_format.cpp\<close>.
    \<open>Vault_Crypto\<close>: \<open>vault_crypto.cpp\<close> around an AES-GCM that is a parameter with the laws \<open>gcm_laws\<close>.
  \<^item> \<open>Vault_Runtime\<close>, \<open>Vault_Runtime_Correct\<close>, \<open>Vault_Runtime_Props\<close>, \<open>Vault_Runtime_Samples\<close>: the state
    machine of \<open>m5auth_vault_runtime\<close>. The abstract class \<open>Persistence\<close> is the record \<open>persistence\<close>.
  \<^item> \<open>Envelope_Codec\<close>, \<open>Nvs_Persistence\<close>, \<open>Nvs_Atomicity\<close>: \<open>nvs_persistence.cpp\<close>, the two slots over a
    flash whose every call may fail or be the last one before a loss of power.
  \<^item> \<open>Registration\<close>, \<open>Registration_Correct\<close>: \<open>m5auth_registration\<close>.
  \<^item> \<open>Session_Types\<close>, \<open>Transcript\<close>, \<open>Base64url\<close>, \<open>Device_Session\<close>, \<open>User_Presence\<close>, \<open>Presence_Binding\<close>,
    \<open>Attempt_Coordinator\<close>, \<open>Delivery\<close>: \<open>m5auth_session\<close> and \<open>CanonicalPresence\<close>. The locale
    \<open>presence_binding\<close> is the contract of the abstract class \<open>PresenceBinding\<close>.
  \<^item> \<open>Session_Binding\<close>, \<open>Vmk_Sink\<close>, \<open>Vmk_Sink_Correct\<close>, \<open>Protocol_Json\<close>, \<open>Session_Handler\<close>,
    \<open>Session_Handler_Correct\<close>: \<open>session_binding_v2.cpp\<close>, \<open>canonical_v2_state.cpp\<close> and
    \<open>session_protocol_v2.cpp\<close> of \<open>m5auth_provisioning\<close>.
  \<^item> \<open>Trusted_Time\<close>, \<open>Time_Service\<close>, \<open>Time_Service_Correct\<close>: \<open>trusted_time.cpp\<close> and
    \<open>canonical_time_service.cpp\<close> of \<open>m5auth_time\<close>.
  \<^item> \<open>Totp_Core\<close>, \<open>Vault_Generator\<close>: \<open>totp_core.cpp\<close> and \<open>vault_generator.cpp\<close> of \<open>m5auth_totp\<close>.
  \<^item> \<open>Canonical_Protocol\<close>, \<open>Canonical_Protocol_Correct\<close>, \<open>Canonical_Lines\<close>, \<open>Protocol_Runs\<close>,
    \<open>Protocol_Props\<close>: \<open>canonical_protocol_v2.cpp\<close>, which owns the parts above and answers the lines that
    the host sends, and the runs of the whole device.
  \<^item> \<open>Ui_State\<close>, \<open>Ui_Controller\<close>, \<open>Ui_Loop\<close>, \<open>Ui_Correct\<close>, \<open>Ui_Props\<close>: the controller of the screen in
    \<open>m5auth_device_sticks3/canonical_device.cpp\<close>; \<open>Device_Props\<close> joins it to the protocol.
  \<^item> \<open>Transport\<close>, \<open>Transport_Props\<close>: \<open>usb_protocol_transport.cpp\<close> and the loop of \<open>app_main.cpp\<close>, both of
    \<open>src/firmware/main\<close>: the phases of the transport, the framing of its stream, and one pass as \<open>main_pass\<close>.

  \<^bold>\<open>How they interact.\<close> The loop cuts what the USB driver delivers into lines and hands each to
  \<open>protocol_handle_line\<close>; until a \<open>hello\<close> has been answered it drops every other line.
  \<open>protocol_handle_line\<close> first does the housekeeping (expiry of the session, the delivered key, the resets; the automatic lock), then parses the request and dispatches it:
  \<open>session.*\<close> to the session handler, which drives the attempt coordinator and hands an authenticated key to
  the sink; \<open>vault.*\<close> to the sink and the runtime; \<open>time.*\<close> to the time service; \<open>factory_reset.*\<close> to the
  authorizations and, after the button, to the runtime and the registration store. Whenever the resident
  key is destroyed the callback \<open>security_boundary_clear\<close> wipes the screen. The task of the screen runs by
  itself (\<open>ui_pass\<close>): it reads the button, hands presses to the presence provider, and shows accounts and
  codes; the code comes from \<open>generate_for_credential\<close>, which uses the secret inside a callback of the
  runtime only.

  \<^bold>\<open>State, operations and errors.\<close> A class is a record of its fields, a method a function that returns its
  result and the changed record, an abstract class a record of functions. Errors are the source's status
  values. Machine integers keep their width (\<open>u8\<close> to \<open>u64\<close>); \<open>int64_t\<close> times and pixels are integers, with
  the hypotheses on their range where it matters. Media, flash, random sources, the ESP-IDF and mbedTLS are
  parameters over an unspecified state, so every failure and every order of failures is covered.

  \<^bold>\<open>What is shown.\<close> Codecs and parsers: exact characterisations, decoding succeeds on the encodings and on
  nothing else (\<open>Vault_Format_Correct\<close>, \<open>Envelope_Codec\<close>, \<open>Base64url\<close>, \<open>Protocol_Json\<close>, \<open>Totp_Core\<close>), and UTF-8
  validation agrees with its definition. Cryptography: opening inverts sealing and the seal covers
  the header of the envelope, transcripts are injective.
  Runtime: the key is resident exactly when the Vault is unlocked, a Vault is replaced only by its next generation, the automatic
  lock counts from the last unlock. Persistence: after any sequence of failures and power losses the store
  holds the old Vault or the new one. Sessions: a key is delivered only to the session that the user confirmed by the
  button gesture, to what it was bound to, and once. The whole device: in every run of lines, housekeeping,
  button events and accesses of the other tasks, the Vault is lost only by a reset that the user confirmed;
  at most one attempt is open; the security boundary leaves nothing behind; nothing outlives its deadline;
  every line is answered. The main loop: its runs are runs of the protocol, so all this holds of it; a Vault
  is lost only in a session, a session begins with a \<open>hello\<close>, and the protocol gets exactly the lines of the
  stream, however it arrives (\<open>frames_from\<close> is the specification, \<open>strict_session\<close> the passes of a session).
  The screen: it shows only what is held, a code for at most ten seconds and only while the Vault is unlocked, and the code is the one of the current period.

  \<^bold>\<open>Loops and fuel.\<close> Structural recursion wherever the loop is over data. Drawing random identifiers until one
  is not zero may go on for ever: \<open>partial_function\<close>, and the theorems that it returns assume that some draw
  is not zero. Waiting for an address is bounded by its timeout: the model recurs on the remaining
  milliseconds, and \<open>time_calls_return\<close> needs only that 100 ms are a tick at least. The two attempts to
  generate a code are the argument of \<open>refresh_attempts\<close>. The endless loop of \<open>app_main\<close> is \<open>main_run\<close>, one pass
  at a time.

  \<^bold>\<open>Concurrency.\<close> The source guards the runtime, the presence and the view by mutexes. The protocol runs
  interleave lines with the accesses of the other tasks; a pass of the screen's task is one step, and between passes
  everything that it shares may change in any way (\<open>ui_step\<close>).

  \<^bold>\<open>What modelling showed.\<close> \<open>reset_prompt_is_overwritten\<close> (theory \<open>Device_Props\<close>): while a code is revealed, the
  redraw of its countdown overwrites the line that says that a factory reset is what the button would
  confirm. \<open>malformed_line_gives_up\<close> (theory \<open>Protocol_Props\<close>): the empty line, unlike every other malformed one, ends
  no attempt. A failed verification after a re-key leaves the runtime in error without allowing the local
  recovery reset that the same failure of an update allows. A transient read error in
  \<open>Store::replace\<close> leaves a ready store that shows no registration.

  \<^bold>\<open>Not modelled.\<close> Wiping of temporary memory (a wiped field is zeros here, a wiped local has no counterpart);
  drawing beyond what each band of the display shows; colors; the creation of the
  FreeRTOS tasks and the timing diagnostics in \<open>app_main.cpp\<close>, which are off in a production build; test-only screen
  snapshots; parsing and printing of JSON
  text (cJSON), elliptic curves, HKDF, HMAC and AES (mbedTLS and PSA), the flash driver and the network
  stack, which are parameters. The version-1 sources (\<open>m5auth_provisioning/protocol.cpp\<close>,
  \<open>m5auth_time/time_service.cpp\<close>, \<open>m5auth_totp/generator.cpp\<close>, \<open>m5auth_storage\<close>,
  \<open>m5auth_device_sticks3/device.cpp\<close> and \<open>ui_model.cpp\<close>) are not part of the canonical firmware. The web
  application is a separate program.
\<close>

end
